(* ===== verification/Prelude.thy ===== *)
theory Prelude
  imports Main "HOL-Library.Char_ord" "HOL-Library.List_Lexorder" "HOL-Library.Product_Lexorder"
begin

text \<open>
  Shared vocabulary of the development: the exceptions the program raises, results of fallible
  code, the values a table cell can hold, and generic lemmas on lists and results.

  An exception carries its Python class and the constant head of its message; the parts of the
  message that the code interpolates (table names, sorted lists of columns) are left out.
\<close>

named_theorems res_simps \<open>evaluation of results and guards\<close>
named_theorems sql_simps \<open>evaluation of three-valued conditions\<close>

section \<open>Exceptions and results\<close>

datatype exn =
    ValueError string
  | RuntimeError string
  | ConfigError string
  | GoldQualityError string
  | PipelineLockUnavailable string
  | SystemExit string
  | KeyError string
  | AssertionError string
  | DeltaError string
  | OtherError string

type_synonym 'a res = "exn + 'a"

definition and_then :: "'a res \<Rightarrow> ('a \<Rightarrow> 'b res) \<Rightarrow> 'b res" where
  "and_then x f = (case x of Inl e \<Rightarrow> Inl e | Inr a \<Rightarrow> f a)"

definition raise_if :: "bool \<Rightarrow> exn \<Rightarrow> unit res" where
  "raise_if b e = (if b then Inl e else Inr ())"

lemma and_then_simps [simp, res_simps]:
  "and_then (Inl e) f = Inl e"
  "and_then (Inr a) f = f a"
  by (simp_all add: and_then_def)

lemma and_then_Inr_iff: "and_then x f = Inr b \<longleftrightarrow> (\<exists>a. x = Inr a \<and> f a = Inr b)"
  by (cases x) auto

lemma and_then_InrE [elim!]:
  assumes "and_then x f = Inr b"
  obtains a where "x = Inr a" and "f a = Inr b"
  using assms by (auto simp: and_then_Inr_iff)

lemma raise_if_simps [simp, res_simps]:
  "raise_if True e = Inl e"
  "raise_if False e = Inr ()"
  by (simp_all add: raise_if_def)

lemma raise_if_Inr [simp]: "raise_if b e = Inr u \<longleftrightarrow> \<not> b"
  by (simp add: raise_if_def)

lemma raise_if_Inl [simp]: "raise_if b e = Inl e' \<longleftrightarrow> b \<and> e = e'"
  by (auto simp: raise_if_def)

text \<open>A Python loop or comprehension that stops at the first exception.\<close>

fun traverse :: "('a \<Rightarrow> 'b res) \<Rightarrow> 'a list \<Rightarrow> 'b list res" where
  "traverse f [] = Inr []"
| "traverse f (x # xs) =
     and_then (f x) (\<lambda>y. and_then (traverse f xs) (\<lambda>ys. Inr (y # ys)))"

lemma traverse_Inr_iff:
  "traverse f xs = Inr ys \<longleftrightarrow> list_all2 (\<lambda>x y. f x = Inr y) xs ys"
proof (induction xs arbitrary: ys)
  case Nil
  then show ?case by auto
next
  case (Cons x xs)
  then show ?case by (cases ys) (auto simp: and_then_Inr_iff)
qed

lemma traverse_total: "(\<And>x. x \<in> set xs \<Longrightarrow> f x = Inr (g x)) \<Longrightarrow> traverse f xs = Inr (map g xs)"
  by (induction xs) auto

lemma traverse_length: "traverse f xs = Inr ys \<Longrightarrow> length ys = length xs"
  by (auto simp: traverse_Inr_iff dest: list_all2_lengthD)

section \<open>Cell values\<close>

text \<open>
  A cell of a table. Decimals are their unscaled integer at the fixed scale of the column,
  timestamps microseconds and dates days on the wall clock of the session time zone. The order of
  cells of one type is the one Spark sorts by: NULL first.
\<close>

datatype val = Null | BoolV bool | IntV int | DecV int | TsV int | DateV int | StrV string

fun val_rank :: "val \<Rightarrow> nat \<times> int \<times> string" where
  "val_rank Null = (0, 0, [])"
| "val_rank (BoolV b) = (1, if b then 1 else 0, [])"
| "val_rank (IntV i) = (2, i, [])"
| "val_rank (DecV i) = (3, i, [])"
| "val_rank (TsV i) = (4, i, [])"
| "val_rank (DateV i) = (5, i, [])"
| "val_rank (StrV s) = (6, 0, s)"

lemma val_rank_inj: "val_rank v = val_rank w \<Longrightarrow> v = w"
  by (cases v; cases w) (auto split: if_splits)

instantiation val :: linorder
begin

definition less_eq_val :: "val \<Rightarrow> val \<Rightarrow> bool" where
  "less_eq_val v w \<longleftrightarrow> val_rank v \<le> val_rank w"

definition less_val :: "val \<Rightarrow> val \<Rightarrow> bool" where
  "less_val v w \<longleftrightarrow> val_rank v < val_rank w"

instance
proof
  fix x y z :: val
  show "(x < y) = (x \<le> y \<and> \<not> y \<le> x)" by (auto simp: less_eq_val_def less_val_def)
  show "x \<le> x" by (simp add: less_eq_val_def)
  show "x \<le> y \<Longrightarrow> y \<le> z \<Longrightarrow> x \<le> z" by (auto simp: less_eq_val_def)
  show "x \<le> y \<Longrightarrow> y \<le> x \<Longrightarrow> x = y" by (auto simp: less_eq_val_def intro: val_rank_inj)
  show "x \<le> y \<or> y \<le> x" by (auto simp: less_eq_val_def)
qed

end

lemma val_order_simps [simp]:
  "TsV a \<le> TsV b \<longleftrightarrow> a \<le> b"
  "TsV a < TsV b \<longleftrightarrow> a < b"
  "IntV a \<le> IntV b \<longleftrightarrow> a \<le> b"
  "IntV a < IntV b \<longleftrightarrow> a < b"
  "DecV a \<le> DecV b \<longleftrightarrow> a \<le> b"
  "DecV a < DecV b \<longleftrightarrow> a < b"
  "DateV a \<le> DateV b \<longleftrightarrow> a \<le> b"
  "DateV a < DateV b \<longleftrightarrow> a < b"
  "StrV s \<le> StrV t \<longleftrightarrow> s \<le> t"
  "StrV s < StrV t \<longleftrightarrow> s < t"
  "Null \<le> v"
  "v \<le> Null \<longleftrightarrow> v = Null"
  "\<not> v < Null"
  "Null < v \<longleftrightarrow> v \<noteq> Null"
  by (auto simp: less_eq_val_def less_val_def) (cases v; simp)+

section \<open>Lists\<close>

fun last_opt :: "'a list \<Rightarrow> 'a option" where
  "last_opt [] = None"
| "last_opt [x] = Some x"
| "last_opt (x # y # ys) = last_opt (y # ys)"

lemma last_opt_snoc [simp]: "last_opt (xs @ [x]) = Some x"
proof (induction xs)
  case (Cons a xs)
  then show ?case by (cases xs) auto
qed simp

lemma last_opt_None [simp]: "last_opt xs = None \<longleftrightarrow> xs = []"
  by (cases xs rule: rev_cases) auto

lemma last_opt_Some: "last_opt xs = Some x \<longleftrightarrow> xs \<noteq> [] \<and> last xs = x"
  by (cases xs rule: rev_cases) auto

text \<open>The first element for each key: what \<open>dropDuplicates\<close> keeps of a list of rows.\<close>

fun keep_first :: "('a \<Rightarrow> 'k) \<Rightarrow> 'a list \<Rightarrow> 'a list" where
  "keep_first f [] = []"
| "keep_first f (x # xs) = x # filter (\<lambda>y. f y \<noteq> f x) (keep_first f xs)"

lemma set_keep_first_subset: "set (keep_first f xs) \<subseteq> set xs"
  by (induction xs) auto

lemma keep_first_keys: "f ` set (keep_first f xs) = f ` set xs"
proof (induction xs)
  case (Cons x xs)
  have "f ` set (keep_first f (x # xs)) = insert (f x) (f ` set (keep_first f xs))"
    by (auto simp: image_iff)
  with Cons show ?case by simp
qed simp

lemma distinct_keep_first: "distinct (map f (keep_first f xs))"
proof (induction xs)
  case (Cons x xs)
  have "distinct (map f (filter (\<lambda>y. f y \<noteq> f x) (keep_first f xs)))"
    using Cons by (induction "keep_first f xs") (simp_all add: distinct_map_filter)
  then show ?case by auto
qed simp

lemma keep_first_id: "distinct (map f xs) \<Longrightarrow> keep_first f xs = xs"
proof (induction xs)
  case (Cons x xs)
  then have "filter (\<lambda>y. f y \<noteq> f x) xs = xs" by (intro filter_True) (metis distinct.simps(2) image_eqI list.set_map list.simps(9))
  with Cons show ?case by simp
qed simp

lemma set_keep_first:
  "(\<And>x y. x \<in> set xs \<Longrightarrow> y \<in> set xs \<Longrightarrow> f x = f y \<Longrightarrow> x = y) \<Longrightarrow> set (keep_first f xs) = set xs"
proof (induction xs)
  case (Cons x xs)
  then have "set (keep_first f xs) = set xs" by auto
  with Cons.prems show ?case by auto
qed simp

text \<open>\<open>str.startswith\<close> and \<open>str.endswith\<close>.\<close>

definition starts_with :: "string \<Rightarrow> string \<Rightarrow> bool" where
  "starts_with p s \<longleftrightarrow> take (length p) s = p"

definition ends_with :: "string \<Rightarrow> string \<Rightarrow> bool" where
  "ends_with p s \<longleftrightarrow> starts_with (rev p) (rev s)"

text \<open>A list with distinct keys, sorted by them, is determined by its set.\<close>

lemma sort_key_unique:
  fixes f :: "'a \<Rightarrow> 'k :: linorder"
  assumes "set xs = set ys" "distinct xs" "distinct ys" "inj_on f (set xs)"
  shows "sort_key f xs = sort_key f ys"
proof (rule map_sorted_distinct_set_unique [of f])
  show "inj_on f (set (sort_key f xs) \<union> set (sort_key f ys))"
    using assms by simp
  show "sorted (map f (sort_key f xs))" "sorted (map f (sort_key f ys))" by simp_all
  show "distinct (map f (sort_key f xs))" "distinct (map f (sort_key f ys))"
    using assms by (simp_all add: distinct_map)
  show "set (sort_key f xs) = set (sort_key f ys)" using assms by simp
qed

lemma find_distinct_key:
  assumes "distinct (map f xs)" "x \<in> set xs"
  shows "find (\<lambda>y. f y = f x) xs = Some x"
  using assms by (induction xs) auto

lemma sum_list_map_filter_split:
  "sum_list (map f xs) =
     sum_list (map f (filter P xs)) + sum_list (map f (filter (\<lambda>x. \<not> P x) xs))"
  for f :: "'a \<Rightarrow> 'b :: comm_monoid_add"
  by (induction xs) (auto simp: ac_simps)

end
