(* ===== verification/Sql.thy ===== *)
theory Sql
  imports Prelude "HOL-Library.Multiset"
begin

text \<open>
  The query language the transformations are written in. A row is a function from column names
  to cells, a table a list of rows whose order is the order Spark happens to deliver (theorems
  quantify over it). Conditions are three-valued (\<open>None\<close> is SQL's NULL); a filter keeps the rows
  whose condition is \<open>Some True\<close>. Scalar functions of Spark whose result SQL does not fix
  (\<open>sha2\<close>, \<open>xxhash64\<close>, \<open>lower\<close>, casts, \<open>get_json_object\<close>, ...) are the fields of the record
  \<open>sparkfn\<close>, a parameter of every definition that uses them.
\<close>

type_synonym row = "string \<Rightarrow> val"
type_synonym bool3 = "bool option"

record df =
  df_cols :: "string list"
  df_rows :: "row list"

record sparkfn =
  fn_str :: "val \<Rightarrow> string"
  fn_sha2 :: "string \<Rightarrow> string"
  fn_xxhash64 :: "val \<Rightarrow> int"
  fn_trim :: "string \<Rightarrow> string"
  fn_lower :: "string \<Rightarrow> string"
  fn_upper :: "string \<Rightarrow> string"
  fn_cast :: "string \<Rightarrow> val \<Rightarrow> val"
  fn_get_json :: "val \<Rightarrow> string \<Rightarrow> val"
  fn_to_json :: "val list \<Rightarrow> string"
  fn_from_utc :: "int \<Rightarrow> string \<Rightarrow> int"
  fn_date_part :: "string \<Rightarrow> int \<Rightarrow> val"

text \<open>A row given by its non-null cells.\<close>

definition row_of :: "(string \<times> val) list \<Rightarrow> row" where
  "row_of kvs c = (case map_of kvs c of None \<Rightarrow> Null | Some v \<Rightarrow> v)"

text \<open>
  One concrete choice of the scalar functions, used to evaluate examples: the hash is the identity
  on text, a cell is shown as its tag and its text, and casts leave the cell as it is.
\<close>

fun digit_text :: "nat \<Rightarrow> string" where
  "digit_text n = (if n < 10 then [char_of (48 + n)]
     else digit_text (n div 10) @ [char_of (48 + n mod 10)])"

definition int_text :: "int \<Rightarrow> string" where
  "int_text i = (if i < 0 then ''-'' @ digit_text (nat (- i)) else digit_text (nat i))"

fun cell_text :: "val \<Rightarrow> string" where
  "cell_text Null = []"
| "cell_text (BoolV b) = (if b then ''true'' else ''false'')"
| "cell_text (IntV i) = int_text i"
| "cell_text (DecV i) = int_text i"
| "cell_text (TsV i) = int_text i"
| "cell_text (DateV i) = int_text i"
| "cell_text (StrV s) = s"

definition example_fn :: sparkfn where
  "example_fn = \<lparr>fn_str = cell_text, fn_sha2 = id, fn_xxhash64 = (\<lambda>v. int (size (cell_text v))),
     fn_trim = id, fn_lower = id, fn_upper = id, fn_cast = (\<lambda>ty v. v), fn_get_json = (\<lambda>v p. v),
     fn_to_json = (\<lambda>vs. concat (map cell_text vs)), fn_from_utc = (\<lambda>t tz. t),
     fn_date_part = (\<lambda>part d. IntV d)\<rparr>"

section \<open>Three-valued conditions\<close>

definition holds :: "bool3 \<Rightarrow> bool" where
  "holds b \<longleftrightarrow> b = Some True"

fun not3 :: "bool3 \<Rightarrow> bool3" where
  "not3 None = None"
| "not3 (Some b) = Some (\<not> b)"

fun and3 :: "bool3 \<Rightarrow> bool3 \<Rightarrow> bool3" where
  "and3 (Some False) b = Some False"
| "and3 (Some True) b = b"
| "and3 None (Some False) = Some False"
| "and3 None b = None"

fun or3 :: "bool3 \<Rightarrow> bool3 \<Rightarrow> bool3" where
  "or3 (Some True) b = Some True"
| "or3 (Some False) b = b"
| "or3 None (Some True) = Some True"
| "or3 None b = None"

definition eq3 :: "val \<Rightarrow> val \<Rightarrow> bool3" where
  "eq3 v w = (if v = Null \<or> w = Null then None else Some (v = w))"

definition gt3 :: "val \<Rightarrow> val \<Rightarrow> bool3" where
  "gt3 v w = (if v = Null \<or> w = Null then None else Some (v > w))"

definition ge3 :: "val \<Rightarrow> val \<Rightarrow> bool3" where
  "ge3 v w = (if v = Null \<or> w = Null then None else Some (v \<ge> w))"

definition lt3 :: "val \<Rightarrow> val \<Rightarrow> bool3" where
  "lt3 v w = (if v = Null \<or> w = Null then None else Some (v < w))"

definition is_null3 :: "val \<Rightarrow> bool3" where
  "is_null3 v = Some (v = Null)"

definition eq_null_safe :: "val \<Rightarrow> val \<Rightarrow> bool3" where
  "eq_null_safe v w = Some (v = w)"

definition isin3 :: "val \<Rightarrow> val list \<Rightarrow> bool3" where
  "isin3 v ws = foldr (\<lambda>w b. or3 (eq3 v w) b) ws (Some False)"

definition coalesce3 :: "bool3 \<Rightarrow> bool \<Rightarrow> bool3" where
  "coalesce3 b d = (case b of None \<Rightarrow> Some d | Some x \<Rightarrow> Some x)"

definition bool3_of :: "val \<Rightarrow> bool3" where
  "bool3_of v = (case v of BoolV b \<Rightarrow> Some b | _ \<Rightarrow> None)"

definition val_of_bool3 :: "bool3 \<Rightarrow> val" where
  "val_of_bool3 b = (case b of None \<Rightarrow> Null | Some x \<Rightarrow> BoolV x)"

lemma holds_simps [simp, sql_simps]:
  "holds (Some b) = b"
  "\<not> holds None"
  by (auto simp: holds_def)

lemma holds_and3 [simp, sql_simps]: "holds (and3 a b) \<longleftrightarrow> holds a \<and> holds b"
  by (cases "(a, b)" rule: and3.cases) (auto simp: holds_def)

lemma holds_or3 [simp, sql_simps]: "holds (or3 a b) \<longleftrightarrow> holds a \<or> holds b"
  by (cases "(a, b)" rule: or3.cases) (auto simp: holds_def)

lemma holds_not3_Some [sql_simps]: "holds (not3 b) \<longleftrightarrow> b = Some False"
  by (cases b) (auto simp: holds_def)

lemma holds_eq3 [simp, sql_simps]: "holds (eq3 v w) \<longleftrightarrow> v = w \<and> v \<noteq> Null"
  by (auto simp: eq3_def)

lemma holds_gt3 [simp, sql_simps]: "holds (gt3 v w) \<longleftrightarrow> v \<noteq> Null \<and> w \<noteq> Null \<and> w < v"
  by (auto simp: gt3_def)

lemma holds_lt3 [simp, sql_simps]: "holds (lt3 v w) \<longleftrightarrow> v \<noteq> Null \<and> w \<noteq> Null \<and> v < w"
  by (auto simp: lt3_def)

lemma holds_ge3 [simp, sql_simps]: "holds (ge3 v w) \<longleftrightarrow> v \<noteq> Null \<and> w \<noteq> Null \<and> w \<le> v"
  by (auto simp: ge3_def)

lemma holds_isin3 [simp, sql_simps]: "holds (isin3 v ws) \<longleftrightarrow> v \<in> set ws \<and> v \<noteq> Null"
  unfolding isin3_def by (induction ws) auto

lemma holds_coalesce3 [simp, sql_simps]:
  "holds (coalesce3 b d) \<longleftrightarrow> (case b of None \<Rightarrow> d | Some x \<Rightarrow> x)"
  by (auto simp: coalesce3_def split: option.splits)

lemma not3_eq3_non_null [sql_simps]:
  "v \<noteq> Null \<Longrightarrow> w \<noteq> Null \<Longrightarrow> not3 (eq3 v w) = Some (v \<noteq> w)"
  by (simp add: eq3_def)

section \<open>Null-aware scalar functions\<close>

text \<open>\<open>CASE WHEN c THEN v ELSE w END\<close>.\<close>

definition case_when :: "bool3 \<Rightarrow> val \<Rightarrow> val \<Rightarrow> val" where
  "case_when c v w = (if holds c then v else w)"

text \<open>Exact arithmetic on decimals of equal scale; NULL is absorbing.\<close>

fun add_v :: "val \<Rightarrow> val \<Rightarrow> val" where
  "add_v (DecV a) (DecV b) = DecV (a + b)"
| "add_v (IntV a) (IntV b) = IntV (a + b)"
| "add_v _ _ = Null"

fun sub_v :: "val \<Rightarrow> val \<Rightarrow> val" where
  "sub_v (DecV a) (DecV b) = DecV (a - b)"
| "sub_v (IntV a) (IntV b) = IntV (a - b)"
| "sub_v _ _ = Null"

text \<open>\<open>sum\<close> skips NULLs and is NULL when there is nothing to add.\<close>

definition sum_v :: "val list \<Rightarrow> val" where
  "sum_v vs = (case filter (\<lambda>v. v \<noteq> Null) vs of [] \<Rightarrow> Null | w # ws \<Rightarrow> fold (\<lambda>x a. add_v a x) ws w)"

text \<open>Functions of one text argument return NULL on NULL.\<close>

definition text_fn :: "(string \<Rightarrow> string) \<Rightarrow> val \<Rightarrow> val" where
  "text_fn f v = (case v of StrV s \<Rightarrow> StrV (f s) | _ \<Rightarrow> Null)"

fun coalesce :: "val list \<Rightarrow> val" where
  "coalesce [] = Null"
| "coalesce (v # vs) = (if v = Null then coalesce vs else v)"

text \<open>Spark's \<open>greatest\<close> and \<open>least\<close> skip NULLs.\<close>

fun greatest :: "val list \<Rightarrow> val" where
  "greatest [] = Null"
| "greatest (v # vs) = max v (greatest vs)"

fun least :: "val list \<Rightarrow> val" where
  "least [] = Null"
| "least (v # vs) =
     (let m = least vs in if v = Null then m else if m = Null then v else min v m)"

text \<open>\<open>last(column, ignorenulls = True)\<close> over a frame.\<close>

definition last_non_null :: "val list \<Rightarrow> val" where
  "last_non_null vs = (case last_opt (filter (\<lambda>v. v \<noteq> Null) vs) of None \<Rightarrow> Null | Some v \<Rightarrow> v)"

lemma last_non_null_Nil [simp]: "last_non_null [] = Null"
  by (simp add: last_non_null_def)

lemma last_non_null_snoc [simp]:
  "last_non_null (vs @ [v]) = (if v = Null then last_non_null vs else v)"
  by (simp add: last_non_null_def)

fun join_str :: "string \<Rightarrow> string list \<Rightarrow> string" where
  "join_str sep [] = []"
| "join_str sep [s] = s"
| "join_str sep (s # t # ts) = s @ sep @ join_str sep (t # ts)"

text \<open>\<open>concat_ws\<close> skips NULL arguments and never returns NULL.\<close>

definition concat_ws :: "sparkfn \<Rightarrow> string \<Rightarrow> val list \<Rightarrow> string" where
  "concat_ws fn sep vs = join_str sep (map (fn_str fn) (filter (\<lambda>v. v \<noteq> Null) vs))"

section \<open>Relational operators\<close>

definition null_row :: row where
  "null_row = (\<lambda>c. Null)"

text \<open>A projection with aliases.\<close>

definition project :: "(string \<times> ('a \<Rightarrow> val)) list \<Rightarrow> 'a \<Rightarrow> row" where
  "project es r = (\<lambda>c. case map_of es c of None \<Rightarrow> Null | Some e \<Rightarrow> e r)"

definition column :: "string \<Rightarrow> string \<times> (row \<Rightarrow> val)" where
  "column c = (c, \<lambda>r. r c)"

definition with_column :: "string \<Rightarrow> (row \<Rightarrow> val) \<Rightarrow> row \<Rightarrow> row" where
  "with_column c e r = r(c := e r)"

text \<open>A left outer join: an unmatched left row is paired with the row of NULLs.\<close>

definition left_join :: "('a \<Rightarrow> row \<Rightarrow> bool3) \<Rightarrow> 'a list \<Rightarrow> row list \<Rightarrow> ('a \<times> row) list" where
  "left_join on ls rs =
     concat (map (\<lambda>l. case filter (\<lambda>r. holds (on l r)) rs of
       [] \<Rightarrow> [(l, null_row)] | ms \<Rightarrow> map (Pair l) ms) ls)"

definition inner_join :: "('a \<Rightarrow> 'b \<Rightarrow> bool3) \<Rightarrow> 'a list \<Rightarrow> 'b list \<Rightarrow> ('a \<times> 'b) list" where
  "inner_join on ls rs = concat (map (\<lambda>l. map (Pair l) (filter (\<lambda>r. holds (on l r)) rs)) ls)"

definition where3 :: "(row \<Rightarrow> bool3) \<Rightarrow> row list \<Rightarrow> row list" where
  "where3 c rs = filter (\<lambda>r. holds (c r)) rs"

definition select :: "string list \<Rightarrow> row \<Rightarrow> row" where
  "select cs r = (\<lambda>c. if c \<in> set cs then r c else Null)"

definition key_of :: "string list \<Rightarrow> row \<Rightarrow> val list" where
  "key_of cs r = map r cs"

definition has_null :: "val list \<Rightarrow> bool" where
  "has_null vs \<longleftrightarrow> Null \<in> set vs"

definition drop_duplicates :: "string list \<Rightarrow> row list \<Rightarrow> row list" where
  "drop_duplicates cs rs = keep_first (key_of cs) rs"

text \<open>The groups of a \<open>groupBy\<close> or \<open>partitionBy\<close>, in order of first occurrence.\<close>

definition groups :: "('a \<Rightarrow> 'k) \<Rightarrow> 'a list \<Rightarrow> 'a list list" where
  "groups f xs = map (\<lambda>k. filter (\<lambda>x. f x = k) xs) (remdups (map f xs))"

text \<open>\<open>left_semi\<close> and \<open>left_anti\<close> joins on equal columns: a NULL key matches nothing.\<close>

definition left_semi :: "string list \<Rightarrow> row list \<Rightarrow> row list \<Rightarrow> row list" where
  "left_semi cs rs ks =
     filter (\<lambda>r. \<not> has_null (key_of cs r) \<and> key_of cs r \<in> key_of cs ` set ks) rs"

definition left_anti :: "string list \<Rightarrow> row list \<Rightarrow> row list \<Rightarrow> row list" where
  "left_anti cs rs ks =
     filter (\<lambda>r. has_null (key_of cs r) \<or> key_of cs r \<notin> key_of cs ` set ks) rs"

text \<open>Ascending sort keys: NULLs last for each column.\<close>

definition nulls_last :: "val \<Rightarrow> bool \<times> val" where
  "nulls_last v = (v = Null, v)"

definition asc_nulls_last :: "string list \<Rightarrow> row \<Rightarrow> (bool \<times> val) list" where
  "asc_nulls_last cs r = map (\<lambda>c. nulls_last (r c)) cs"

text \<open>
  The row that \<open>row_number() = 1\<close> keeps in a partition ordered descending with NULLs last
  (NULL is the least value of the cell order, so this is the first greatest row).
\<close>

fun top_desc :: "('a \<Rightarrow> 'k :: linorder) \<Rightarrow> 'a list \<Rightarrow> 'a option" where
  "top_desc f [] = None"
| "top_desc f (x # xs) =
     (case top_desc f xs of None \<Rightarrow> Some x | Some y \<Rightarrow> Some (if f x \<ge> f y then x else y))"

lemma nulls_last_inj: "nulls_last v = nulls_last w \<Longrightarrow> v = w"
  by (simp add: nulls_last_def)

lemma set_where3 [simp]: "set (where3 c rs) = {r \<in> set rs. holds (c r)}"
  by (simp add: where3_def)

lemma where3_where3: "where3 c (where3 d rs) = where3 (\<lambda>r. and3 (d r) (c r)) rs"
  by (induction rs) (auto simp: where3_def)

lemma top_desc_None [simp]: "top_desc f xs = None \<longleftrightarrow> xs = []"
  by (cases xs) (auto split: option.splits)

lemma top_desc_in: "top_desc f xs = Some x \<Longrightarrow> x \<in> set xs"
  by (induction xs arbitrary: x) (auto split: option.splits if_splits)

lemma top_desc_max: "top_desc f xs = Some x \<Longrightarrow> y \<in> set xs \<Longrightarrow> f y \<le> f x"
  by (induction xs arbitrary: x y) (fastforce split: option.splits if_splits)+

lemma groups_concat_set: "\<Union> (set ` set (groups f xs)) = set xs"
  by (auto simp: groups_def)

lemma groups_non_empty: "g \<in> set (groups f xs) \<Longrightarrow> g \<noteq> []"
  by (auto simp: groups_def filter_empty_conv)

lemma groups_same_key: "g \<in> set (groups f xs) \<Longrightarrow> x \<in> set g \<Longrightarrow> y \<in> set g \<Longrightarrow> f x = f y"
  by (auto simp: groups_def)

lemma groups_same_cell:
  "g \<in> set (groups (\<lambda>r. r c) xs) \<Longrightarrow> r \<in> set g \<Longrightarrow> r c = hd g c"
proof -
  assume g: "g \<in> set (groups (\<lambda>r. r c) xs)" and r: "r \<in> set g"
  from g obtain k where k: "g = filter (\<lambda>r. r c = k) xs" by (auto simp: groups_def)
  from r have "hd g \<in> set g" by (cases g) auto
  with r k show "r c = hd g c" by auto
qed

lemma groups_full: "g \<in> set (groups f xs) \<Longrightarrow> x \<in> set g \<Longrightarrow> g = filter (\<lambda>y. f y = f x) xs"
  by (auto simp: groups_def)

lemma distinct_groups_keys:
  "distinct (map (\<lambda>g. f (hd g)) (groups f xs))"
proof -
  have "map (\<lambda>g. f (hd g)) (groups f xs) = remdups (map f xs)"
  proof -
    have "f (hd (filter (\<lambda>x. f x = k) xs)) = k" if "k \<in> f ` set xs" for k
    proof -
      from that have "filter (\<lambda>x. f x = k) xs \<noteq> []" by (auto simp: filter_empty_conv)
      then have "hd (filter (\<lambda>x. f x = k) xs) \<in> set (filter (\<lambda>x. f x = k) xs)" by (rule hd_in_set)
      then show ?thesis by simp
    qed
    then show ?thesis unfolding groups_def map_map by (intro map_idI) simp
  qed
  then show ?thesis by simp
qed

text \<open>Lemmas on the scalar functions.\<close>

lemma coalesce_non_null: "v \<in> set vs \<Longrightarrow> v \<noteq> Null \<Longrightarrow> coalesce vs \<noteq> Null"
  by (induction vs) auto

lemma greatest_ge: "v \<in> set vs \<Longrightarrow> v \<le> greatest vs"
  by (induction vs) (auto simp: max_def intro: order_trans)

lemma least_two_non_null: "w \<noteq> Null \<Longrightarrow> least [v, w] = (if v = Null then w else min v w)"
  by (simp add: Let_def)

lemma mset_groups: "mset (concat (groups f xs)) = mset xs"
proof -
  have "mset (concat (map (\<lambda>k. filter (\<lambda>x. f x = k) xs) ks)) = mset (filter (\<lambda>x. f x \<in> set ks) xs)"
    if "distinct ks" for ks
    using that
  proof (induction ks)
    case (Cons k ks)
    have "filter (\<lambda>x. f x = k \<or> f x \<in> set ks) xs = filter (\<lambda>x. f x = k \<or> f x \<in> set (k # ks)) xs"
      by (rule filter_cong) auto
    moreover have "mset (filter (\<lambda>x. f x = k \<or> f x \<in> set ks) ys) =
        mset (filter (\<lambda>x. f x = k) ys) + mset (filter (\<lambda>x. f x \<in> set ks) ys)" for ys
      using Cons.prems by (induction ys) auto
    ultimately show ?case using Cons by simp
  qed simp
  then have "mset (concat (groups f xs)) = mset (filter (\<lambda>x. f x \<in> set (remdups (map f xs))) xs)"
    unfolding groups_def by blast
  also have "filter (\<lambda>x. f x \<in> set (remdups (map f xs))) xs = xs" by (rule filter_True) simp
  finally show ?thesis .
qed

text \<open>Joins on a key that is unique on the right keep the rows of the left table.\<close>

definition at_most_one :: "('a \<Rightarrow> row \<Rightarrow> bool3) \<Rightarrow> 'a list \<Rightarrow> row list \<Rightarrow> bool" where
  "at_most_one on ls rs \<longleftrightarrow> (\<forall>l \<in> set ls. length (filter (\<lambda>r. holds (on l r)) rs) \<le> 1)"

lemma left_join_fst:
  assumes "at_most_one on ls rs"
  shows "map fst (left_join on ls rs) = ls"
  using assms
proof (induction ls)
  case (Cons l ls)
  then have "length (filter (\<lambda>r. holds (on l r)) rs) \<le> 1" by (simp add: at_most_one_def)
  then have "map fst (case filter (\<lambda>r. holds (on l r)) rs of [] \<Rightarrow> [(l, null_row)] | ms \<Rightarrow> map (Pair l) ms) = [l]"
    by (auto split: list.splits simp: le_Suc_eq)
  with Cons show ?case by (simp add: left_join_def at_most_one_def)
qed (simp add: left_join_def)

lemma length_filter_le1:
  assumes "sorted_wrt (\<lambda>x y. \<not> (P x \<and> P y)) xs"
  shows "length (filter P xs) \<le> 1"
  using assms
proof (induction xs)
  case (Cons x xs)
  then show ?case by (cases "P x") (auto simp: filter_empty_conv)
qed simp

lemma at_most_one_key:
  assumes "distinct (map (\<lambda>r. r c) (filter (\<lambda>r. r c \<noteq> Null) rs))"
    and "\<And>l r. holds (on l r) \<Longrightarrow> r c = g l \<and> r c \<noteq> Null"
  shows "at_most_one on ls rs"
  unfolding at_most_one_def
proof
  fix l
  have "sorted_wrt (\<lambda>x y. \<not> (holds (on l x) \<and> holds (on l y))) rs"
    using assms(1)
  proof (induction rs)
    case (Cons r rs)
    have "\<not> (holds (on l r) \<and> holds (on l s))" if "s \<in> set rs" for s
    proof
      assume "holds (on l r) \<and> holds (on l s)"
      then have "r c = g l" "s c = g l" "g l \<noteq> Null" using assms(2) by metis+
      with Cons.prems that show False by (auto simp: image_iff split: if_splits)
    qed
    with Cons show ?case by (auto split: if_splits)
  qed simp
  then show "length (filter (\<lambda>r. holds (on l r)) rs) \<le> 1" by (rule length_filter_le1)
qed

end
