(* ===== verification/Json.thy ===== *)
theory Json
  imports Prelude "HOL-Library.Countable"
begin

text \<open>
  JSON and YAML values. A Python dict is the list of its items in key order; the text functions
  \<open>json.dumps(..., sort_keys=True)\<close> and \<open>json.loads\<close> are parameters of the definitions that use
  them, and \<open>json_codec\<close> names what the code relies on: loading a dumped value gives it back.
\<close>

datatype json = JNull | JBool bool | JInt int | JNum string | JStr string | JList "json list"
  | JObj "(string \<times> json) list"

definition json_codec :: "(json \<Rightarrow> string) \<Rightarrow> (string \<Rightarrow> json option) \<Rightarrow> bool" where
  "json_codec dumps loads \<longleftrightarrow> (\<forall>j. loads (dumps j) = Some j)"

text \<open>Codecs exist: values can be numbered, and a number written in unary.\<close>

instance json :: countable
  by countable_datatype

definition example_dumps :: "json \<Rightarrow> string" where
  "example_dumps j = replicate (to_nat j) (CHR ''1'')"

definition example_loads :: "string \<Rightarrow> json option" where
  "example_loads s = Some (from_nat (length s))"

lemma example_codec: "json_codec example_dumps example_loads"
  by (simp add: json_codec_def example_dumps_def example_loads_def)

text \<open>\<open>payload.get(key)\<close> and \<open>isinstance\<close> tests.\<close>

definition jget :: "json \<Rightarrow> string \<Rightarrow> json option" where
  "jget j k = (case j of JObj kvs \<Rightarrow> map_of kvs k | _ \<Rightarrow> None)"

fun jstr :: "json option \<Rightarrow> string option" where
  "jstr (Some (JStr s)) = Some s"
| "jstr _ = None"

fun jint :: "json option \<Rightarrow> int option" where
  "jint (Some (JInt i)) = Some i"
| "jint _ = None"

definition jobj :: "(string \<times> json) list \<Rightarrow> json" where
  "jobj kvs = JObj (sort_key fst kvs)"

lemma jget_jobj [simp]: "distinct (map fst kvs) \<Longrightarrow> jget (jobj kvs) k = map_of kvs k"
proof -
  assume d: "distinct (map fst kvs)"
  have "map_of (sort_key fst kvs) = map_of kvs"
  proof (rule map_of_eqI)
    show "set (map fst (sort_key fst kvs)) = set (map fst kvs)" by simp
    show "\<forall>k \<in> set (map fst (sort_key fst kvs)). map_of (sort_key fst kvs) k = map_of kvs k"
    proof
      fix k assume "k \<in> set (map fst (sort_key fst kvs))"
      then obtain v where v: "(k, v) \<in> set kvs" by auto
      have "distinct (map fst (sort_key fst kvs))" using d by (simp add: distinct_map)
      with v d show "map_of (sort_key fst kvs) k = map_of kvs k" by simp
    qed
  qed
  then show ?thesis by (simp add: jget_def jobj_def)
qed

text \<open>A dict entry set in place, or added at the end.\<close>

fun assoc_set :: "'k \<Rightarrow> 'v \<Rightarrow> ('k \<times> 'v) list \<Rightarrow> ('k \<times> 'v) list" where
  "assoc_set k v [] = [(k, v)]"
| "assoc_set k v ((k', v') # kvs) = (if k = k' then (k, v) # kvs else (k', v') # assoc_set k v kvs)"

lemma map_of_assoc_set [simp]: "map_of (assoc_set k v kvs) = (map_of kvs)(k \<mapsto> v)"
  by (induction kvs) auto

lemma keys_assoc_set [simp]: "fst ` set (assoc_set k v kvs) = insert k (fst ` set kvs)"
proof (induction kvs)
  case (Cons p kvs)
  then show ?case by (cases p) (simp add: insert_commute)
qed simp

lemma distinct_assoc_set: "distinct (map fst kvs) \<Longrightarrow> distinct (map fst (assoc_set k v kvs))"
proof (induction kvs)
  case (Cons p kvs)
  then show ?case by (cases p) simp
qed simp

end
