(* ===== verification/Config.thy ===== *)
theory Config
  imports Json Sql
begin

text \<open>
  Configuration (\<open>config/models.py\<close>, \<open>config/loader.py\<close>): the validated sections, where each
  logical table is stored, the merge of the base and environment files and the expansion of
  environment variables. Parsing YAML text and filling the models from a mapping is pydantic's and
  the YAML reader's work and stays outside; their checks on the values are the \<open>validate_*\<close>
  functions. Durations given in seconds are whole numbers here.
\<close>

section \<open>Identifiers\<close>

definition char_in :: "char \<Rightarrow> char \<Rightarrow> char \<Rightarrow> bool" where
  "char_in lo hi c \<longleftrightarrow> lo \<le> c \<and> c \<le> hi"

definition is_letter_or_underscore :: "char \<Rightarrow> bool" where
  "is_letter_or_underscore c \<longleftrightarrow> char_in CHR ''A'' CHR ''Z'' c \<or> char_in CHR ''a'' CHR ''z'' c \<or> c = CHR ''_''"

definition is_digit :: "char \<Rightarrow> bool" where
  "is_digit c \<longleftrightarrow> char_in CHR ''0'' CHR ''9'' c"

definition safe_identifier :: "string \<Rightarrow> bool" where
  "safe_identifier s = (case s of [] \<Rightarrow> False | c # cs \<Rightarrow>
     is_letter_or_underscore c \<and> (\<forall>d \<in> set cs. is_letter_or_underscore d \<or> is_digit d))"

text \<open>The pattern \<open>^v[1-9][0-9]*$\<close> of checkpoint versions.\<close>

definition checkpoint_version_ok :: "string \<Rightarrow> bool" where
  "checkpoint_version_ok s = (case s of c # d # ds \<Rightarrow>
     c = CHR ''v'' \<and> char_in CHR ''1'' CHR ''9'' d \<and> (\<forall>e \<in> set ds. is_digit e) | _ \<Rightarrow> False)"

definition byte_size_ok :: "string \<Rightarrow> bool" where
  "byte_size_ok s = (case rev s of u # ds \<Rightarrow>
     u \<in> set ''kKmMgG'' \<and> (case rev ds of [] \<Rightarrow> False | d # es \<Rightarrow>
       char_in CHR ''1'' CHR ''9'' d \<and> (\<forall>e \<in> set es. is_digit e)) | [] \<Rightarrow> False)"

definition topic_ok :: "string \<Rightarrow> bool" where
  "topic_ok s \<longleftrightarrow> s \<noteq> [] \<and> (\<forall>c \<in> set s. is_letter_or_underscore c \<or> is_digit c \<or> c \<in> set ''.-'')"

definition in_range :: "int \<Rightarrow> int \<Rightarrow> int \<Rightarrow> bool" where
  "in_range lo hi i \<longleftrightarrow> lo \<le> i \<and> i \<le> hi"

fun rstrip_slash :: "string \<Rightarrow> string" where
  "rstrip_slash s = rev (dropWhile (\<lambda>c. c = CHR ''/'') (rev s))"

definition path_join :: "string list \<Rightarrow> string" where
  "path_join parts = join_str ''/'' parts"

section \<open>Sections\<close>

record application_config =
  ac_name :: string
  ac_source_system :: string
  ac_timezone :: string

definition validate_application :: "(string \<Rightarrow> bool) \<Rightarrow> application_config \<Rightarrow> unit res" where
  "validate_application known_timezone c =
     and_then (raise_if (ac_name c = [] \<or> ac_source_system c = [] \<or> ac_timezone c = [])
       (ValueError ''min_length'')) (\<lambda>_.
     raise_if (\<not> known_timezone (ac_timezone c)) (ValueError ''Unknown IANA timezone''))"

record postgres_config =
  pg_host :: string
  pg_port :: int
  pg_database :: string
  pg_user :: string
  pg_source_schema :: string
  pg_jdbc_driver :: string
  pg_sslmode :: "string option"
  pg_fetch_size :: int
  pg_query_timeout_seconds :: int
  pg_connect_timeout_seconds :: int
  pg_socket_timeout_seconds :: int
  pg_max_jdbc_partitions :: int
  pg_target_events_per_partition :: int
  pg_max_events_per_batch :: int
  pg_retry_attempts :: int
  pg_retry_initial_backoff_seconds :: int

definition validate_postgres :: "postgres_config \<Rightarrow> unit res" where
  "validate_postgres c =
     and_then (raise_if (pg_host c = [] \<or> pg_database c = [] \<or> pg_user c = [] \<or> pg_jdbc_driver c = [] \<or>
         \<not> in_range 1 65535 (pg_port c) \<or> \<not> in_range 1 1000000 (pg_fetch_size c) \<or>
         \<not> in_range 1 86400 (pg_query_timeout_seconds c) \<or> \<not> in_range 1 300 (pg_connect_timeout_seconds c) \<or>
         \<not> in_range 1 86400 (pg_socket_timeout_seconds c) \<or> \<not> in_range 1 32 (pg_max_jdbc_partitions c) \<or>
         pg_target_events_per_partition c < 1 \<or> pg_max_events_per_batch c < 1 \<or>
         \<not> in_range 1 10 (pg_retry_attempts c) \<or> \<not> in_range 0 300 (pg_retry_initial_backoff_seconds c))
       (ValueError ''field constraint'')) (\<lambda>_.
     raise_if (\<not> safe_identifier (pg_source_schema c))
       (ValueError ''source_schema must be a safe PostgreSQL identifier''))"

text \<open>\<open>urlencode\<close> quotes each value; the integers and \<open>true\<close> are unchanged by it.\<close>

definition jdbc_url :: "(string \<Rightarrow> string) \<Rightarrow> postgres_config \<Rightarrow> string" where
  "jdbc_url quote_plus c =
     (let base = ''jdbc:postgresql://'' @ pg_host c @ '':'' @ int_text (pg_port c) @ ''/'' @ pg_database c;
          params = [(''connectTimeout'', int_text (pg_connect_timeout_seconds c)),
                    (''socketTimeout'', int_text (pg_socket_timeout_seconds c)),
                    (''tcpKeepAlive'', ''true'')] @
                   (case pg_sslmode c of None \<Rightarrow> [] | Some m \<Rightarrow> if m = [] then [] else [(''sslmode'', quote_plus m)])
      in base @ ''?'' @ join_str ''&'' (map (\<lambda>(k, v). k @ ''='' @ v) params))"

record spark_config =
  sp_master :: "string option"
  sp_app_name :: string
  sp_configure_delta_package :: bool
  sp_stop_session :: bool
  sp_max_parallel_tables :: int
  sp_config :: "(string \<times> string) list"

definition validate_spark :: "spark_config \<Rightarrow> unit res" where
  "validate_spark c =
     raise_if (sp_app_name c = [] \<or> \<not> in_range 1 16 (sp_max_parallel_tables c)) (ValueError ''field constraint'')"

record kafka_config =
  kf_source_id :: "string option"
  kf_bootstrap_servers :: string
  kf_topic :: "string option"
  kf_topic_pattern :: "string option"
  kf_starting_offsets :: string
  kf_fail_on_data_loss :: bool
  kf_max_offsets_per_trigger :: int
  kf_options :: "(string \<times> string) list"
  kf_secret_options :: "(string \<times> string) list"

definition validate_kafka :: "kafka_config \<Rightarrow> unit res" where
  "validate_kafka c =
     and_then (raise_if (kf_bootstrap_servers c = [] \<or> kf_starting_offsets c = [] \<or>
         kf_max_offsets_per_trigger c < 1 \<or> kf_source_id c = Some [] \<or> kf_topic_pattern c = Some [])
       (ValueError ''field constraint'')) (\<lambda>_.
     and_then (raise_if (case kf_topic c of None \<Rightarrow> False | Some t \<Rightarrow> \<not> topic_ok t)
       (ValueError ''topic contains unsupported characters'')) (\<lambda>_.
     raise_if ((kf_topic c = None) = (kf_topic_pattern c = None))
       (ValueError ''Configure exactly one of kafka.topic or kafka.topic_pattern'')))"

definition subscribe_key :: "kafka_config \<Rightarrow> string" where
  "subscribe_key c = (if kf_topic c \<noteq> None then ''subscribe'' else ''subscribePattern'')"

definition subscription :: "kafka_config \<Rightarrow> string" where
  "subscription c = (case kf_topic c of Some t \<Rightarrow> t
     | None \<Rightarrow> (case kf_topic_pattern c of Some p \<Rightarrow> p | None \<Rightarrow> ''None''))"

definition spark_options :: "kafka_config \<Rightarrow> (string \<times> string) list" where
  "spark_options c = fold (\<lambda>(k, v) opts. assoc_set k v opts) (kf_options c @ kf_secret_options c)
     [(''kafka.bootstrap.servers'', kf_bootstrap_servers c), (subscribe_key c, subscription c),
      (''startingOffsets'', kf_starting_offsets c),
      (''failOnDataLoss'', if kf_fail_on_data_loss c then ''true'' else ''false''),
      (''maxOffsetsPerTrigger'', int_text (kf_max_offsets_per_trigger c)), (''includeHeaders'', ''true'')]"

record silver_streaming_config =
  ss_enabled :: bool
  ss_query_name :: string
  ss_checkpoint_root :: "string option"
  ss_checkpoint_version :: string
  ss_trigger_interval :: string
  ss_max_files_per_trigger :: int
  ss_max_bytes_per_trigger :: string
  ss_max_gold_readiness_order_ids :: int
  ss_gold_reconcile_interval_ms :: int

definition validate_silver_streaming :: "silver_streaming_config \<Rightarrow> unit res" where
  "validate_silver_streaming c =
     raise_if (ss_query_name c = [] \<or> ss_checkpoint_root c = Some [] \<or>
       \<not> checkpoint_version_ok (ss_checkpoint_version c) \<or> ss_trigger_interval c = [] \<or>
       \<not> in_range 1 10000 (ss_max_files_per_trigger c) \<or> \<not> byte_size_ok (ss_max_bytes_per_trigger c) \<or>
       \<not> in_range 1 1000000 (ss_max_gold_readiness_order_ids c) \<or>
       \<not> in_range 1 300000 (ss_gold_reconcile_interval_ms c)) (ValueError ''field constraint'')"

record coordination_config =
  co_local_lock_path :: string
  co_cloud_lock_name :: string
  co_cloud_lock_ttl_seconds :: int
  co_lock_wait_seconds :: int

definition validate_coordination :: "coordination_config \<Rightarrow> unit res" where
  "validate_coordination c =
     and_then (raise_if (co_local_lock_path c = [] \<or> \<not> in_range 300 86400 (co_cloud_lock_ttl_seconds c) \<or>
         \<not> in_range 0 3600 (co_lock_wait_seconds c)) (ValueError ''field constraint'')) (\<lambda>_.
     raise_if (\<not> safe_identifier (co_cloud_lock_name c)) (ValueError ''cloud_lock_name must be a safe identifier''))"

record streaming_config =
  st_enabled :: bool
  st_query_name :: string
  st_bronze_table :: string
  st_checkpoint_root :: "string option"
  st_checkpoint_version :: string
  st_trigger_interval :: string
  st_spark_packages :: "string list"
  st_kafka :: "kafka_config option"
  st_silver :: silver_streaming_config

definition validate_streaming :: "streaming_config \<Rightarrow> unit res" where
  "validate_streaming c =
     and_then (raise_if (st_query_name c = [] \<or> st_checkpoint_root c = Some [] \<or>
         \<not> checkpoint_version_ok (st_checkpoint_version c) \<or> st_trigger_interval c = [])
       (ValueError ''field constraint'')) (\<lambda>_.
     and_then (raise_if (\<not> safe_identifier (st_bronze_table c))
       (ValueError ''bronze_table must be a safe identifier'')) (\<lambda>_.
     and_then (raise_if (st_enabled c \<and> (st_kafka c = None \<or> st_checkpoint_root c = None))
       (ValueError ''Enabled streaming requires kafka and checkpoint_root'')) (\<lambda>_.
     raise_if (ss_enabled (st_silver c) \<and> st_checkpoint_root c = None)
       (ValueError ''Enabled streaming Silver requires streaming.checkpoint_root''))))"

definition checkpoint_location :: "streaming_config \<Rightarrow> string res" where
  "checkpoint_location c = (case st_checkpoint_root c of
     None \<Rightarrow> Inl (ValueError ''Streaming checkpoint_root is not configured'')
   | Some root \<Rightarrow> Inr (path_join [rstrip_slash root, st_query_name c, st_checkpoint_version c]))"

definition silver_checkpoint_location :: "streaming_config \<Rightarrow> string res" where
  "silver_checkpoint_location c =
     (let silver = st_silver c;
          root = (case ss_checkpoint_root silver of
                    None \<Rightarrow> st_checkpoint_root c
                  | Some r \<Rightarrow> if r = [] then st_checkpoint_root c else Some r)
      in case root of
           None \<Rightarrow> Inl (ValueError ''Streaming checkpoint_root is not configured'')
         | Some r \<Rightarrow> Inr (path_join [rstrip_slash r, ss_query_name silver, ss_checkpoint_version silver]))"

section \<open>Table references\<close>

record table_ref =
  tr_value :: string
  tr_is_catalog :: bool
  tr_storage_path :: "string option"

record lakehouse_config =
  lc_base_path :: "string option"
  lc_catalog :: "string option"
  lc_schemas :: "(string \<times> string) list"
  lc_external_root :: "string option"

definition LAYERS :: "string list" where
  "LAYERS = [''bronze'', ''silver'', ''gold'']"

definition validate_lakehouse :: "lakehouse_config \<Rightarrow> unit res" where
  "validate_lakehouse c =
    (let using_paths = (lc_base_path c \<noteq> None); using_catalog = (lc_catalog c \<noteq> None)
     in and_then (raise_if (lc_base_path c = Some [] \<or> lc_catalog c = Some [] \<or> lc_external_root c = Some [])
          (ValueError ''min_length'')) (\<lambda>_.
        and_then (raise_if (using_paths = using_catalog)
          (ValueError ''Configure exactly one of lakehouse.base_path or lakehouse.catalog'')) (\<lambda>_.
        and_then (if using_catalog then
            and_then (raise_if (\<not> safe_identifier (the (lc_catalog c)))
              (ValueError ''lakehouse.catalog must be a safe Unity Catalog identifier'')) (\<lambda>_.
            and_then (raise_if (set (map fst (lc_schemas c)) \<noteq> set LAYERS)
              (ValueError ''lakehouse.schemas must define exactly bronze, silver, and gold'')) (\<lambda>_.
            raise_if (\<exists>(layer, schema) \<in> set (lc_schemas c). \<not> safe_identifier schema)
              (ValueError ''Unsafe Unity Catalog schema'')))
          else raise_if (lc_schemas c \<noteq> [])
              (ValueError ''lakehouse.schemas is only valid with lakehouse.catalog'')) (\<lambda>_.
        raise_if (lc_external_root c \<noteq> None \<and> \<not> using_catalog)
          (ValueError ''lakehouse.external_root requires lakehouse.catalog'')))))"

definition schema_of :: "lakehouse_config \<Rightarrow> string \<Rightarrow> string" where
  "schema_of c layer = (case map_of (lc_schemas c) layer of Some s \<Rightarrow> s | None \<Rightarrow> [])"

definition located :: "lakehouse_config \<Rightarrow> string \<Rightarrow> string list \<Rightarrow> string list \<Rightarrow> table_ref" where
  "located c name external_parts path_parts = (case lc_catalog c of
     Some catalog \<Rightarrow>
       \<lparr>tr_value = name, tr_is_catalog = True,
        tr_storage_path = (case lc_external_root c of None \<Rightarrow> None
          | Some root \<Rightarrow> Some (path_join (rstrip_slash root # external_parts)))\<rparr>
   | None \<Rightarrow>
       \<lparr>tr_value = path_join (rstrip_slash (case lc_base_path c of Some b \<Rightarrow> b | None \<Rightarrow> []) # path_parts),
        tr_is_catalog = False, tr_storage_path = None\<rparr>)"

definition catalog_name :: "lakehouse_config \<Rightarrow> string \<Rightarrow> string \<Rightarrow> string" where
  "catalog_name c layer name =
     (case lc_catalog c of Some cat \<Rightarrow> cat | None \<Rightarrow> []) @ ''.'' @ schema_of c layer @ ''.'' @ name"

definition table_reference :: "lakehouse_config \<Rightarrow> string \<Rightarrow> string \<Rightarrow> table_ref res" where
  "table_reference c layer name =
     and_then (raise_if (layer \<notin> set LAYERS) (ValueError ''Unsupported lakehouse layer'')) (\<lambda>_.
     and_then (raise_if (\<not> safe_identifier layer) (ValueError ''Unsafe layer'')) (\<lambda>_.
     and_then (raise_if (\<not> safe_identifier name) (ValueError ''Unsafe table_name'')) (\<lambda>_.
     let parts = (if layer = ''bronze'' then [layer, ''batch'', name] else [layer, name])
     in Inr (located c (catalog_name c layer name) parts parts))))"

definition raw_cdc_bronze_reference :: "lakehouse_config \<Rightarrow> string \<Rightarrow> table_ref res" where
  "raw_cdc_bronze_reference c name =
     and_then (raise_if (\<not> safe_identifier name) (ValueError ''Unsafe table_name'')) (\<lambda>_.
     Inr (located c (catalog_name c ''bronze'' name) [''bronze'', name] [''bronze'', name]))"

definition streaming_typed_bronze_reference :: "lakehouse_config \<Rightarrow> string \<Rightarrow> table_ref res" where
  "streaming_typed_bronze_reference c name =
     and_then (raise_if (\<not> safe_identifier name) (ValueError ''Unsafe table_name'')) (\<lambda>_.
     Inr (located c (catalog_name c ''bronze'' (''cdc_typed_'' @ name))
       [''bronze'', ''streaming'', name] [''bronze'', ''streaming'', name]))"

definition coordination_reference :: "lakehouse_config \<Rightarrow> table_ref" where
  "coordination_reference c =
     located c (catalog_name c ''silver'' ''_pipeline_writer_locks'')
       [''_control'', ''pipeline_writer_locks''] [''_control'', ''pipeline_writer_locks'']"

record app_config =
  cfg_application :: application_config
  cfg_postgres :: postgres_config
  cfg_spark :: spark_config
  cfg_lakehouse :: lakehouse_config
  cfg_streaming :: streaming_config
  cfg_coordination :: coordination_config
  cfg_environment :: string

definition validate_app :: "(string \<Rightarrow> bool) \<Rightarrow> app_config \<Rightarrow> unit res" where
  "validate_app known_timezone c =
     and_then (validate_application known_timezone (cfg_application c)) (\<lambda>_.
     and_then (validate_postgres (cfg_postgres c)) (\<lambda>_.
     and_then (validate_spark (cfg_spark c)) (\<lambda>_.
     and_then (validate_lakehouse (cfg_lakehouse c)) (\<lambda>_.
     and_then (case st_kafka (cfg_streaming c) of None \<Rightarrow> Inr () | Some k \<Rightarrow> validate_kafka k) (\<lambda>_.
     and_then (validate_silver_streaming (st_silver (cfg_streaming c))) (\<lambda>_.
     and_then (validate_streaming (cfg_streaming c)) (\<lambda>_.
     and_then (validate_coordination (cfg_coordination c)) (\<lambda>_.
     raise_if (cfg_environment c = []) (ValueError ''min_length'')))))))))"

section \<open>The loader\<close>

function deep_merge :: "(string \<times> json) list \<Rightarrow> (string \<times> json) list \<Rightarrow> (string \<times> json) list" where
  "deep_merge merged [] = merged"
| "deep_merge merged ((k, v) # overlay) =
     deep_merge
       (assoc_set k (case (map_of merged k, v) of
            (Some (JObj existing), JObj new) \<Rightarrow> JObj (deep_merge existing new)
          | _ \<Rightarrow> v) merged)
       overlay"
  by pat_completeness auto
termination by (relation "measure (\<lambda>(m, o'). size_list (size_prod (\<lambda>_. 0) size) o')") auto

definition env_name_start :: "char \<Rightarrow> bool" where
  "env_name_start c \<longleftrightarrow> char_in CHR ''A'' CHR ''Z'' c"

definition env_name_char :: "char \<Rightarrow> bool" where
  "env_name_char c \<longleftrightarrow> char_in CHR ''A'' CHR ''Z'' c \<or> is_digit c \<or> c = CHR ''_''"

text \<open>
  A match of the pattern for a variable reference (a name, or a name and a default after \<open>:-\<close>, in
  braces after a dollar sign) at the start of the text: the name, the default and the rest.
\<close>

definition env_match :: "string \<Rightarrow> (string \<times> string option \<times> string) option" where
  "env_match s = (case s of
     c0 # c1 # c # cs \<Rightarrow>
       if c0 = CHR ''$'' \<and> c1 = CHR ''{'' \<and> env_name_start c then
         (let name = c # takeWhile env_name_char cs; rest = dropWhile env_name_char cs
          in case rest of
               [] \<Rightarrow> None
             | d # ds \<Rightarrow>
                 if d = CHR ''}'' then Some (name, None, ds)
                 else if d = CHR '':'' \<and> take 1 ds = ''-'' then
                   (let body = drop 1 ds
                    in case dropWhile (\<lambda>x. x \<noteq> CHR ''}'') body of
                         [] \<Rightarrow> None
                       | _ # after \<Rightarrow> Some (name, Some (takeWhile (\<lambda>x. x \<noteq> CHR ''}'') body), after))
                 else None)
       else None
   | _ \<Rightarrow> None)"

lemma length_dropWhile_less: "dropWhile P xs = y # ys \<Longrightarrow> length ys < length xs"
  using length_dropWhile_le [of P xs] by simp

lemma env_match_shorter: "env_match s = Some (n, d, rest) \<Longrightarrow> length rest < length s"
  unfolding env_match_def
  by (auto simp: Let_def split: list.splits if_splits dest!: length_dropWhile_less)

function expand_string :: "(string \<Rightarrow> string option) \<Rightarrow> string \<Rightarrow> string res" where
  "expand_string env s = (case env_match s of
     Some (name, dflt, rest) \<Rightarrow>
       and_then (case env name of
           Some v \<Rightarrow> if v \<noteq> [] then Inr v
             else (case dflt of Some d \<Rightarrow> Inr d
                   | None \<Rightarrow> Inl (ConfigError ''Missing required environment variable''))
         | None \<Rightarrow> (case dflt of Some d \<Rightarrow> Inr d
                   | None \<Rightarrow> Inl (ConfigError ''Missing required environment variable'')))
         (\<lambda>v. and_then (expand_string env rest) (\<lambda>r. Inr (v @ r)))
   | None \<Rightarrow> (case s of [] \<Rightarrow> Inr [] | c # cs \<Rightarrow> and_then (expand_string env cs) (\<lambda>r. Inr (c # r))))"
  by pat_completeness auto
termination by (relation "measure (\<lambda>(env, s). length s)") (auto dest: env_match_shorter)

fun expand_environment :: "(string \<Rightarrow> string option) \<Rightarrow> json \<Rightarrow> json res"
  and expand_items :: "(string \<Rightarrow> string option) \<Rightarrow> (string \<times> json) list \<Rightarrow> (string \<times> json) list res"
  and expand_list :: "(string \<Rightarrow> string option) \<Rightarrow> json list \<Rightarrow> json list res" where
  "expand_environment env (JStr s) = and_then (expand_string env s) (\<lambda>t. Inr (JStr t))"
| "expand_environment env (JObj kvs) = and_then (expand_items env kvs) (\<lambda>r. Inr (JObj r))"
| "expand_environment env (JList vs) = and_then (expand_list env vs) (\<lambda>r. Inr (JList r))"
| "expand_environment env j = Inr j"
| "expand_items env [] = Inr []"
| "expand_items env ((k, v) # kvs) =
     and_then (expand_string env k) (\<lambda>k'. and_then (expand_environment env v) (\<lambda>v'.
     and_then (expand_items env kvs) (\<lambda>r. Inr (if k' \<in> fst ` set r then r else (k', v') # r))))"
| "expand_list env [] = Inr []"
| "expand_list env (v # vs) =
     and_then (expand_environment env v) (\<lambda>v'. and_then (expand_list env vs) (\<lambda>r. Inr (v' # r)))"

text \<open>
  \<open>load_config\<close>: the files are a map from paths to parsed top-level values (\<open>None\<close> where there is
  no file, an empty file is an empty mapping); \<open>model_validate\<close> is the parameter \<open>build\<close>.
\<close>

definition read_yaml :: "(string \<Rightarrow> json option) \<Rightarrow> string \<Rightarrow> (string \<times> json) list res" where
  "read_yaml files path = (case files path of
     None \<Rightarrow> Inl (ConfigError ''Config file does not exist'')
   | Some JNull \<Rightarrow> Inr []
   | Some (JObj kvs) \<Rightarrow> Inr kvs
   | Some _ \<Rightarrow> Inl (ConfigError ''Top-level YAML value must be a mapping''))"

definition load_config ::
    "(string \<Rightarrow> json option) \<Rightarrow> (string \<Rightarrow> string option) \<Rightarrow> (json \<Rightarrow> 'c res) \<Rightarrow> string \<Rightarrow> string \<Rightarrow> 'c res" where
  "load_config files env build base overlay =
     and_then (read_yaml files base) (\<lambda>raw.
     and_then (if overlay \<noteq> base then and_then (read_yaml files overlay) (\<lambda>o'. Inr (deep_merge raw o'))
               else Inr raw) (\<lambda>merged.
     and_then (expand_environment env (JObj merged)) (\<lambda>expanded.
       case build expanded of
         Inl (ValueError m) \<Rightarrow> Inl (ConfigError ''Invalid configuration'')
       | r \<Rightarrow> r)))"

section \<open>Properties\<close>

lemma map_of_deep_merge:
  "distinct (map fst overlay) \<Longrightarrow> map_of (deep_merge merged overlay) k =
    (case map_of overlay k of None \<Rightarrow> map_of merged k
     | Some v \<Rightarrow> Some (case (map_of merged k, v) of
         (Some (JObj existing), JObj new) \<Rightarrow> JObj (deep_merge existing new) | _ \<Rightarrow> v))"
proof (induction overlay arbitrary: merged)
  case (Cons p overlay)
  obtain k' v' where p: "p = (k', v')" by (cases p)
  with Cons.prems have k': "map_of overlay k' = None" by (auto simp: map_of_eq_None_iff)
  from Cons.prems have "distinct (map fst overlay)" by simp
  from Cons.IH [OF this] p k' show ?case by (auto simp del: deep_merge.simps(1) split: option.splits)
qed simp

text \<open>
  Merging the environment's configuration over the base: a key of the overlay wins, a mapping
  over a mapping is merged recursively, and every other key of the base is kept.
\<close>

theorem deep_merge_lookup:
  assumes "distinct (map fst overlay)"
  shows "map_of (deep_merge base overlay) k =
    (case map_of overlay k of None \<Rightarrow> map_of base k
     | Some v \<Rightarrow> Some (case (map_of base k, v) of
         (Some (JObj existing), JObj new) \<Rightarrow> JObj (deep_merge existing new) | _ \<Rightarrow> v))"
  using assms by (rule map_of_deep_merge)

theorem deep_merge_lookup_witness:
  "map_of (deep_merge [(''a'', JObj [(''x'', JInt 1), (''y'', JInt 2)]), (''b'', JInt 3)]
      [(''a'', JObj [(''y'', JInt 5)])]) ''a'' = Some (JObj [(''x'', JInt 1), (''y'', JInt 5)])"
  by (subst deep_merge_lookup) simp_all

lemma env_match_no_dollar: "c \<noteq> CHR ''$'' \<Longrightarrow> env_match (c # cs) = None"
  by (simp add: env_match_def split: list.splits)

lemma expand_string_prefix:
  "CHR ''$'' \<notin> set pre \<Longrightarrow>
    expand_string env (pre @ s) = and_then (expand_string env s) (\<lambda>r. Inr (pre @ r))"
proof (induction pre)
  case Nil
  then show ?case by (cases "expand_string env s") simp_all
next
  case (Cons c pre)
  have "env_match (c # pre @ s) = None" using Cons.prems by (intro env_match_no_dollar) auto
  then have "expand_string env ((c # pre) @ s) = and_then (expand_string env (pre @ s)) (\<lambda>r. Inr (c # r))"
    by (subst expand_string.simps) simp
  with Cons show ?case by (cases "expand_string env s") (simp_all del: expand_string.simps)
qed

lemma env_match_default:
  assumes "env_name_start c" "\<forall>d \<in> set cs. env_name_char d" "CHR ''}'' \<notin> set dflt"
  shows "env_match (''${'' @ (c # cs) @ '':-'' @ dflt @ ''}'' @ post) = Some (c # cs, Some dflt, post)"
proof -
  have colon: "\<not> env_name_char CHR '':''" by (simp add: env_name_char_def char_in_def is_digit_def less_eq_char_def)
  have tw: "takeWhile env_name_char (cs @ CHR '':'' # xs) = cs"
    "dropWhile env_name_char (cs @ CHR '':'' # xs) = CHR '':'' # xs" for xs
    using assms(2) colon by (simp_all add: takeWhile_append dropWhile_append)
  have "takeWhile (\<lambda>x. x \<noteq> CHR ''}'') (dflt @ CHR ''}'' # post) = dflt"
    "dropWhile (\<lambda>x. x \<noteq> CHR ''}'') (dflt @ CHR ''}'' # post) = CHR ''}'' # post"
    using assms(3) by (auto simp: takeWhile_append dropWhile_append)
  with tw assms(1) show ?thesis by (simp add: env_match_def Let_def)
qed

text \<open>
  A variable reference with a default expands to the variable's value when it is set and not
  empty and to the default otherwise; the text around it is kept, the text after it is expanded.
\<close>

theorem expand_variable_with_default:
  assumes "CHR ''$'' \<notin> set pre" and "env_name_start c" and "\<forall>d \<in> set cs. env_name_char d"
    and "CHR ''}'' \<notin> set dflt"
  shows "expand_string env (pre @ ''${'' @ (c # cs) @ '':-'' @ dflt @ ''}'' @ post) =
    and_then (expand_string env post) (\<lambda>r. Inr (pre @
      (case env (c # cs) of Some v \<Rightarrow> if v \<noteq> [] then v else dflt | None \<Rightarrow> dflt) @ r))"
proof -
  have "expand_string env (''${'' @ (c # cs) @ '':-'' @ dflt @ ''}'' @ post) =
      and_then (expand_string env post) (\<lambda>r. Inr (
        (case env (c # cs) of Some v \<Rightarrow> if v \<noteq> [] then v else dflt | None \<Rightarrow> dflt) @ r))"
    unfolding expand_string.simps [of env "''${'' @ (c # cs) @ '':-'' @ dflt @ ''}'' @ post"]
    using env_match_default [OF assms(2-4), of post] by (simp del: expand_string.simps split: option.splits)
  then show ?thesis
    unfolding expand_string_prefix [OF assms(1)] by (cases "expand_string env post") simp_all
qed

theorem expand_variable_with_default_witness:
  "expand_string (\<lambda>v. if v = ''HOST'' then Some ''db1'' else None) (''tcp:'' @ ''${'' @ ''HOST'' @ '':-'' @ ''localhost'' @ ''}'' @ '''') =
   Inr ''tcp:db1''"
  using expand_variable_with_default [of "''tcp:''" "CHR ''H''" "''OST''" "''localhost''"
      "\<lambda>v. if v = ''HOST'' then Some ''db1'' else None" "[]"]
  by (simp add: env_name_start_def env_name_char_def char_in_def less_eq_char_def env_match_def)

section \<open>Storage locations\<close>

datatype location = Batch string string | RawCdc string | TypedCdc string | Coordination

fun reference_of :: "lakehouse_config \<Rightarrow> location \<Rightarrow> table_ref res" where
  "reference_of c (Batch layer name) = table_reference c layer name"
| "reference_of c (RawCdc name) = raw_cdc_bronze_reference c name"
| "reference_of c (TypedCdc name) = streaming_typed_bronze_reference c name"
| "reference_of c Coordination = Inr (coordination_reference c)"

lemma safe_no_slash: "safe_identifier s \<Longrightarrow> CHR ''/'' \<notin> set s"
  by (auto simp: safe_identifier_def is_letter_or_underscore_def is_digit_def char_in_def
      less_eq_char_def split: list.splits)

lemma safe_examples: "safe_identifier ''bronze''" "safe_identifier ''orders''"
  by code_simp+

fun location_parts :: "location \<Rightarrow> string list" where
  "location_parts (Batch layer name) = (if layer = ''bronze'' then [layer, ''batch'', name] else [layer, name])"
| "location_parts (RawCdc name) = [''bronze'', name]"
| "location_parts (TypedCdc name) = [''bronze'', ''streaming'', name]"
| "location_parts Coordination = [''_control'', ''pipeline_writer_locks'']"

lemma reference_parts:
  assumes "lc_catalog c = None" "reference_of c l = Inr r"
  shows "tr_value r = path_join (rstrip_slash (the (Some (case lc_base_path c of Some b \<Rightarrow> b | None \<Rightarrow> [])))
    # location_parts l) \<and> (\<forall>p \<in> set (location_parts l). CHR ''/'' \<notin> set p)"
  using assms
  by (cases l)
     (auto simp: table_reference_def raw_cdc_bronze_reference_def streaming_typed_bronze_reference_def
       coordination_reference_def located_def Let_def LAYERS_def dest: safe_no_slash)

lemma split_at_slash:
  assumes "p @ CHR ''/'' # rest = q @ CHR ''/'' # rest'" "CHR ''/'' \<notin> set p" "CHR ''/'' \<notin> set q"
  shows "p = q \<and> rest = rest'"
proof -
  have "takeWhile (\<lambda>c. c \<noteq> CHR ''/'') (s @ CHR ''/'' # t) = s" if "CHR ''/'' \<notin> set s" for s t
    using that by (induction s) auto
  from this [OF assms(2), of rest] this [OF assms(3), of rest'] assms(1) show ?thesis by auto
qed

lemma join_slash_inj:
  assumes "join_str ''/'' ps = join_str ''/'' qs" "ps \<noteq> []" "qs \<noteq> []"
    "\<forall>p \<in> set ps. CHR ''/'' \<notin> set p" "\<forall>q \<in> set qs. CHR ''/'' \<notin> set q"
  shows "ps = qs"
  using assms
proof (induction ps arbitrary: qs)
  case (Cons p ps)
  obtain q qs' where q: "qs = q # qs'" using Cons.prems(3) by (cases qs) auto
  have join: "join_str ''/'' (x # y # ys) = x @ CHR ''/'' # join_str ''/'' (y # ys)" for x y ys by simp
  have p: "CHR ''/'' \<notin> set p" and q': "CHR ''/'' \<notin> set q" using Cons.prems(4,5) q by simp_all
  show ?case
  proof (cases ps)
    case Nil
    show ?thesis
    proof (cases qs')
      case Nil with \<open>ps = []\<close> Cons.prems(1) q show ?thesis by simp
    next
      case (Cons b bs)
      with \<open>ps = []\<close> Cons.prems(1) q have "p = q @ CHR ''/'' # join_str ''/'' (b # bs)"
        by (simp only: join) (simp only: join_str.simps)
      then have "CHR ''/'' \<in> set p" by (simp only: set_append) simp
      with p show ?thesis ..
    qed
  next
    case ps: (Cons a as)
    show ?thesis
    proof (cases qs')
      case Nil
      with ps Cons.prems(1) q have "p @ CHR ''/'' # join_str ''/'' (a # as) = q"
        by (simp only: join) (simp only: join_str.simps)
      then have "CHR ''/'' \<in> set q" by (metis in_set_conv_decomp)
      with q' show ?thesis ..
    next
      case qs: (Cons b bs)
      from ps qs Cons.prems(1) q have eq: "p @ CHR ''/'' # join_str ''/'' ps = q @ CHR ''/'' # join_str ''/'' qs'"
        by (simp only: join)
      have "p = q" "join_str ''/'' ps = join_str ''/'' qs'"
        using split_at_slash [OF eq p q'] by simp_all
      moreover from this(2) have "ps = qs'"
        using Cons.IH [of qs'] ps qs Cons.prems(4,5) q by simp
      ultimately show ?thesis using q by simp
    qed
  qed
qed simp

lemma path_locations_lemma:
  assumes "lc_catalog c = None" and "reference_of c l = Inr r" and "reference_of c l' = Inr r'"
    and "tr_value r = tr_value r'"
  shows "l = l'"
proof -
  note r = reference_parts [OF assms(1,2)] and r' = reference_parts [OF assms(1,3)]
  have "location_parts l \<noteq> []" "location_parts l' \<noteq> []" by (cases l; simp)+ (cases l'; simp)
  then obtain p ps q qs where pq: "location_parts l = p # ps" "location_parts l' = q # qs"
    by (meson neq_Nil_conv)
  from assms(4) r r' have "join_str ''/'' (p # ps) = join_str ''/'' (q # qs)"
    by (simp add: path_join_def pq)
  then have "location_parts l = location_parts l'"
    using join_slash_inj [of "p # ps" "q # qs"] r r' pq by simp
  moreover have "case l of Batch layer name \<Rightarrow> layer \<in> set LAYERS | _ \<Rightarrow> True"
    "case l' of Batch layer name \<Rightarrow> layer \<in> set LAYERS | _ \<Rightarrow> True"
    using assms(2,3) by (auto simp: table_reference_def split: location.splits)
  ultimately show ?thesis
    by (cases l; cases l') (auto simp: LAYERS_def split: if_splits)
qed

text \<open>
  With path storage, no two tables share a location: a batch table of any layer, a raw CDC
  table, a typed CDC table and the writer-lock table have the same reference only if they are the
  same table.
\<close>

theorem path_locations_distinct:
  assumes "lc_catalog c = None" and "reference_of c l = Inr r" and "reference_of c l' = Inr r'"
    and "tr_value r = tr_value r'"
  shows "l = l'"
  by (rule path_locations_lemma [OF assms])

definition path_config :: lakehouse_config where
  "path_config = \<lparr>lc_base_path = Some ''/data'', lc_catalog = None, lc_schemas = [], lc_external_root = None\<rparr>"

theorem path_locations_distinct_witness:
  "tr_value (coordination_reference path_config) \<noteq>
   tr_value (case raw_cdc_bronze_reference path_config ''orders'' of Inr r \<Rightarrow> r | Inl e \<Rightarrow> coordination_reference path_config)"
proof -
  obtain r where r: "raw_cdc_bronze_reference path_config ''orders'' = Inr r"
    using safe_examples(2) by (simp add: raw_cdc_bronze_reference_def)
  have "tr_value (coordination_reference path_config) \<noteq> tr_value r"
    using path_locations_distinct [of path_config Coordination _ "RawCdc ''orders''" r] r
    by (auto simp: path_config_def)
  with r show ?thesis by simp
qed

text \<open>
  With Unity Catalog storage the raw CDC table is not separate: its catalog name is the one of
  the batch Bronze table of the same name, so a raw CDC table called like a source table is that
  Bronze table.
\<close>

theorem catalog_raw_cdc_collides:
  assumes "lc_catalog c = Some cat" and "safe_identifier name"
  shows "map_sum id tr_value (raw_cdc_bronze_reference c name) =
    map_sum id tr_value (table_reference c ''bronze'' name)"
  using assms safe_examples(1)
  by (simp add: raw_cdc_bronze_reference_def table_reference_def LAYERS_def located_def Let_def)

definition catalog_config :: lakehouse_config where
  "catalog_config = \<lparr>lc_base_path = None, lc_catalog = Some ''main'',
     lc_schemas = [(''bronze'', ''b''), (''silver'', ''s''), (''gold'', ''g'')], lc_external_root = None\<rparr>"

theorem catalog_raw_cdc_collides_witness:
  "map_sum id tr_value (table_reference catalog_config ''bronze'' ''orders'') = Inr ''main.b.orders'' \<and>
   map_sum id tr_value (raw_cdc_bronze_reference catalog_config ''orders'') = Inr ''main.b.orders''"
proof -
  note safe = safe_examples(2,1)
  have "map_sum id tr_value (table_reference catalog_config ''bronze'' ''orders'') = Inr ''main.b.orders''"
    using safe by (simp add: table_reference_def LAYERS_def located_def Let_def catalog_config_def
        catalog_name_def schema_of_def)
  with catalog_raw_cdc_collides [of catalog_config "''main''", OF _ safe(1)] show ?thesis
    by (simp add: catalog_config_def)
qed

end
