(* ===== verification/Dimensions.thy ===== *)
theory Dimensions
  imports Sql
begin

text \<open>
  Hashes, surrogate keys and the dimensions that keep no history
  (\<open>transformations/gold/dimensions.py\<close>). Columns that only record the wall clock of the run
  (\<open>current_timestamp() AS created_at / updated_at\<close>) are left out of the rows.
\<close>

section \<open>Surrogate keys and hashes\<close>

definition natural_text :: "sparkfn \<Rightarrow> val list \<Rightarrow> string" where
  "natural_text fn vs = join_str ''||'' (map (\<lambda>v. if v = Null then [] else fn_str fn v) vs)"

definition natural_hash :: "sparkfn \<Rightarrow> val list \<Rightarrow> val" where
  "natural_hash fn vs = StrV (fn_sha2 fn (natural_text fn vs))"

definition positive_hash_key :: "sparkfn \<Rightarrow> val \<Rightarrow> int" where
  "positive_hash_key fn v = fn_xxhash64 fn v mod 9223372036854775807"

definition hour_of :: "int \<Rightarrow> int" where
  "hour_of t = (t div 3600000000) mod 24"

definition minute_of :: "int \<Rightarrow> int" where
  "minute_of t = (t div 60000000) mod 60"

definition second_of :: "int \<Rightarrow> int" where
  "second_of t = (t div 1000000) mod 60"

definition second_of_day_key :: "val \<Rightarrow> val" where
  "second_of_day_key v = (case v of
     TsV t \<Rightarrow> IntV (hour_of t * 3600 + minute_of t * 60 + second_of t + 1) | _ \<Rightarrow> Null)"

definition address_fields :: "string list" where
  "address_fields = [''address_type'', ''recipient_name'', ''phone_number'', ''street'', ''ward'',
     ''district'', ''city'', ''state'', ''postal_code'', ''country'']"

definition location_hash :: "sparkfn \<Rightarrow> val list \<Rightarrow> val" where
  "location_hash fn vs = natural_hash fn vs"

definition json_field :: "sparkfn \<Rightarrow> val \<Rightarrow> string \<Rightarrow> val" where
  "json_field fn v name = fn_get_json fn (if v = Null then Null else StrV (fn_str fn v)) (''$.'' @ name)"

definition location_hash_from_json :: "sparkfn \<Rightarrow> val \<Rightarrow> val" where
  "location_hash_from_json fn v = location_hash fn (map (json_field fn v) address_fields)"

section \<open>Promotions of an order\<close>

definition collect_set :: "val list \<Rightarrow> val list" where
  "collect_set vs = remdups (filter (\<lambda>v. v \<noteq> Null) vs)"

definition max_v :: "val list \<Rightarrow> val" where
  "max_v vs = greatest vs"

definition min_v :: "val list \<Rightarrow> val" where
  "min_v vs = least vs"

definition set_text :: "sparkfn \<Rightarrow> val list \<Rightarrow> val" where
  "set_text fn vs = StrV (concat_ws fn '','' (sort (collect_set vs)))"

definition as_string :: "sparkfn \<Rightarrow> val \<Rightarrow> val" where
  "as_string fn v = (if v = Null then Null else StrV (fn_str fn v))"

text \<open>
  \<open>order_vouchers\<close> joined with \<open>vouchers\<close> on \<open>voucher_id\<close>: the key comes from the left
  table, the voucher's columns from the right one.
\<close>

definition order_voucher_rows :: "row list \<Rightarrow> row list \<Rightarrow> (row \<times> row) list" where
  "order_voucher_rows order_vouchers vouchers =
     left_join (\<lambda>l r. eq3 (l ''voucher_id'') (r ''voucher_id'')) order_vouchers vouchers"

definition promotion_of_group :: "sparkfn \<Rightarrow> (row \<times> row) list \<Rightarrow> row" where
  "promotion_of_group fn g =
     (let c = (\<lambda>name. map (\<lambda>(l, v). v name) g);
          codes = set_text fn (c ''voucher_code'');
          types = set_text fn (c ''discount_type'');
          scope = set_text fn (map (as_string fn) (c ''scope_json''));
          natural = natural_hash fn [codes, types, scope]
      in row_of [
        (''order_id'', fst (hd g) ''order_id''),
        (''voucher_count'', IntV (int (length (filter (\<lambda>(l, v). l ''voucher_id'' \<noteq> Null) g)))),
        (''voucher_codes'', codes),
        (''voucher_names'', set_text fn (c ''voucher_name'')),
        (''discount_types'', types),
        (''promotion_scope'', scope),
        (''promotion_start_at'', min_v (c ''starts_at'')),
        (''promotion_end_at'', max_v (c ''ends_at'')),
        (''minimum_order_amount'', max_v (c ''minimum_order_amount'')),
        (''is_active'', max_v (c ''is_active'')),
        (''natural_promotion_hash'', natural),
        (''promotion_key'', IntV (positive_hash_key fn natural))])"

definition order_promotion_keys :: "sparkfn \<Rightarrow> row list \<Rightarrow> row list \<Rightarrow> row list" where
  "order_promotion_keys fn order_vouchers vouchers =
     map (promotion_of_group fn)
       (groups (\<lambda>(l, v). l ''order_id'') (order_voucher_rows order_vouchers vouchers))"

section \<open>Date and time\<close>

definition micros_per_day :: int where
  "micros_per_day = 86400000000"

definition to_date :: "val \<Rightarrow> val" where
  "to_date v = (case v of TsV t \<Rightarrow> DateV (t div micros_per_day) | _ \<Rightarrow> Null)"

definition date_part :: "sparkfn \<Rightarrow> string \<Rightarrow> val \<Rightarrow> val" where
  "date_part fn part v = (case v of DateV d \<Rightarrow> fn_date_part fn part d | _ \<Rightarrow> Null)"

definition season_name :: "val \<Rightarrow> string" where
  "season_name m =
     (if holds (isin3 m [IntV 3, IntV 4, IntV 5]) then ''Spring''
      else if holds (isin3 m [IntV 6, IntV 7, IntV 8]) then ''Summer''
      else if holds (isin3 m [IntV 9, IntV 10, IntV 11]) then ''Autumn''
      else ''Winter'')"

definition date_member :: "sparkfn \<Rightarrow> val \<Rightarrow> row" where
  "date_member fn d = row_of [
     (''date_key'', date_part fn ''yyyyMMdd'' d),
     (''full_date'', d),
     (''day_of_week'', date_part fn ''dayofweek'' d),
     (''day_name'', date_part fn ''EEEE'' d),
     (''day_of_month'', date_part fn ''dayofmonth'' d),
     (''day_of_year'', date_part fn ''dayofyear'' d),
     (''week_of_year'', date_part fn ''weekofyear'' d),
     (''month_number'', date_part fn ''month'' d),
     (''month_name'', date_part fn ''MMMM'' d),
     (''quarter_number'', date_part fn ''quarter'' d),
     (''year_number'', date_part fn ''year'' d),
     (''is_weekend'', val_of_bool3 (isin3 (date_part fn ''dayofweek'' d) [IntV 1, IntV 7])),
     (''is_month_end'', val_of_bool3 (eq3 d (date_part fn ''last_day'' d))),
     (''season_name'', StrV (season_name (date_part fn ''month'' d))),
     (''fiscal_year'', date_part fn ''year'' d),
     (''fiscal_quarter'', date_part fn ''quarter'' d)]"

definition unknown_date :: row where
  "unknown_date = row_of [(''date_key'', IntV 0), (''day_name'', StrV ''Unknown''),
     (''month_name'', StrV ''Unknown''), (''season_name'', StrV ''Unknown'')]"

definition build_dim_date :: "sparkfn \<Rightarrow> row list \<Rightarrow> row list" where
  "build_dim_date fn orders =
     unknown_date # map (date_member fn)
       (remdups (filter (\<lambda>d. d \<noteq> Null) (map (\<lambda>r. to_date (r ''created_at'')) orders)))"

definition day_part :: "int \<Rightarrow> string" where
  "day_part h = (if 5 \<le> h \<and> h \<le> 11 then ''morning'' else if 12 \<le> h \<and> h \<le> 17 then ''afternoon''
     else if 18 \<le> h \<and> h \<le> 21 then ''evening'' else ''night'')"

definition two_digits :: "int \<Rightarrow> string" where
  "two_digits n = (if n < 10 then ''0'' @ int_text n else int_text n)"

definition time_member :: "int \<Rightarrow> row" where
  "time_member t = row_of [
     (''time_key'', second_of_day_key (TsV t)),
     (''full_time'', StrV (two_digits (hour_of t) @ '':'' @ two_digits (minute_of t) @ '':'' @
        two_digits (second_of t))),
     (''hour_24'', IntV (hour_of t)),
     (''minute_number'', IntV (minute_of t)),
     (''second_number'', IntV (second_of t)),
     (''am_pm'', StrV (if hour_of t < 12 then ''AM'' else ''PM'')),
     (''day_part'', StrV (day_part (hour_of t)))]"

definition unknown_time :: row where
  "unknown_time = row_of [(''time_key'', IntV 0), (''am_pm'', StrV ''NA''),
     (''day_part'', StrV ''Unknown'')]"

fun timestamps :: "val list \<Rightarrow> int list" where
  "timestamps [] = []"
| "timestamps (TsV t # vs) = t # timestamps vs"
| "timestamps (v # vs) = timestamps vs"

definition build_dim_time :: "row list \<Rightarrow> row list" where
  "build_dim_time orders =
     unknown_time # drop_duplicates [''time_key'']
       (map time_member (timestamps (map (\<lambda>r. r ''created_at'') orders)))"

section \<open>Locations, promotions, payments and shipments\<close>

definition address_location :: "sparkfn \<Rightarrow> row \<Rightarrow> row" where
  "address_location fn r =
     (let natural = location_hash fn (key_of address_fields r)
      in row_of ([(''location_key'', IntV (positive_hash_key fn natural)),
         (''source_address_id'', r ''address_id''), (''source_customer_id'', r ''user_id''),
         (''natural_location_hash'', natural)] @ map (\<lambda>c. (c, r c)) address_fields))"

definition snapshot_location :: "sparkfn \<Rightarrow> string \<Rightarrow> string \<Rightarrow> row \<Rightarrow> row" where
  "snapshot_location fn snapshot_column address_id_column r =
     (let natural = location_hash_from_json fn (r snapshot_column)
      in row_of ([(''location_key'', IntV (positive_hash_key fn natural)),
         (''source_address_id'', r address_id_column), (''source_customer_id'', r ''customer_id''),
         (''natural_location_hash'', natural)] @
         map (\<lambda>c. (c, json_field fn (r snapshot_column) c)) address_fields))"

definition unknown_location :: row where
  "unknown_location = row_of [(''location_key'', IntV 0),
     (''natural_location_hash'', StrV ''unknown''), (''address_type'', StrV ''unknown''),
     (''city'', StrV ''Unknown''), (''country'', StrV ''Unknown'')]"

definition build_dim_location :: "sparkfn \<Rightarrow> row list \<Rightarrow> row list \<Rightarrow> row list" where
  "build_dim_location fn addresses orders =
     unknown_location # drop_duplicates [''location_key'']
       (map (address_location fn) addresses @
        map (snapshot_location fn ''shipping_address_snapshot'' ''shipping_address_id'') orders @
        map (snapshot_location fn ''billing_address_snapshot'' ''billing_address_id'') orders)"

definition promotion_member :: "row \<Rightarrow> row" where
  "promotion_member r =
     select [''promotion_key'', ''natural_promotion_hash'', ''promotion_type'', ''voucher_count'',
       ''voucher_codes'', ''voucher_names'', ''discount_types'', ''promotion_scope'',
       ''promotion_start_at'', ''promotion_end_at'', ''minimum_order_amount'', ''is_active'']
       (r(''promotion_type'' := case_when (gt3 (r ''voucher_count'') (IntV 0))
            (StrV ''voucher'') (StrV ''none'')))"

definition unknown_promotion :: row where
  "unknown_promotion = row_of [(''promotion_key'', IntV 0),
     (''natural_promotion_hash'', StrV ''none''), (''promotion_type'', StrV ''none''),
     (''voucher_count'', IntV 0), (''voucher_codes'', StrV ''NO_VOUCHER''),
     (''promotion_scope'', StrV ''none''), (''is_active'', BoolV False)]"

definition build_dim_promotion :: "sparkfn \<Rightarrow> row list \<Rightarrow> row list \<Rightarrow> row list" where
  "build_dim_promotion fn order_vouchers vouchers =
     unknown_promotion # drop_duplicates [''promotion_key'']
       (map promotion_member (order_promotion_keys fn order_vouchers vouchers))"

definition payment_member :: "sparkfn \<Rightarrow> row \<Rightarrow> row" where
  "payment_member fn r =
     (let natural = natural_hash fn [r ''payment_method'', r ''payment_status'']
      in row_of [(''payment_key'', IntV (positive_hash_key fn natural)),
         (''natural_payment_hash'', natural), (''payment_method'', r ''payment_method''),
         (''payment_method_group'', r ''payment_method''), (''payment_status'', r ''payment_status''),
         (''paid_flag'', val_of_bool3 (eq3 (r ''payment_status'') (StrV ''paid'')))])"

definition unknown_payment :: row where
  "unknown_payment = row_of [(''payment_key'', IntV 0),
     (''natural_payment_hash'', StrV ''unknown''), (''payment_method'', StrV ''unknown''),
     (''payment_method_group'', StrV ''unknown''), (''payment_status'', StrV ''unknown''),
     (''paid_flag'', BoolV False)]"

definition build_dim_payment :: "sparkfn \<Rightarrow> row list \<Rightarrow> row list" where
  "build_dim_payment fn payments =
     unknown_payment # map (payment_member fn)
       (drop_duplicates [''payment_method'', ''payment_status''] payments)"

definition shipping_member :: "sparkfn \<Rightarrow> row \<Rightarrow> row" where
  "shipping_member fn r =
     (let natural = natural_hash fn [r ''carrier'', r ''shipment_status'']
      in row_of [(''shipping_key'', IntV (positive_hash_key fn natural)),
         (''natural_shipping_hash'', natural), (''carrier'', r ''carrier''),
         (''shipment_status'', r ''shipment_status''),
         (''shipped_flag'', val_of_bool3 (isin3 (r ''shipment_status'')
            [StrV ''picked_up'', StrV ''in_transit'', StrV ''delivered''])),
         (''delivered_flag'', val_of_bool3 (eq3 (r ''shipment_status'') (StrV ''delivered'')))])"

definition unknown_shipping :: row where
  "unknown_shipping = row_of [(''shipping_key'', IntV 0),
     (''natural_shipping_hash'', StrV ''unknown''), (''carrier'', StrV ''unknown''),
     (''shipment_status'', StrV ''unknown''), (''shipped_flag'', BoolV False),
     (''delivered_flag'', BoolV False)]"

definition build_dim_shipping :: "sparkfn \<Rightarrow> row list \<Rightarrow> row list" where
  "build_dim_shipping fn shipments =
     unknown_shipping # map (shipping_member fn)
       (drop_duplicates [''carrier'', ''shipment_status''] shipments)"

section \<open>Keys\<close>

lemma positive_hash_key_range: "0 \<le> positive_hash_key fn v \<and> positive_hash_key fn v < 2 ^ 63 - 1"
  by (simp add: positive_hash_key_def)

lemma time_fields_range:
  "0 \<le> hour_of t" "hour_of t < 24" "0 \<le> minute_of t" "minute_of t < 60"
  "0 \<le> second_of t" "second_of t < 60"
  by (simp_all add: hour_of_def minute_of_def second_of_def)

lemma second_of_day_eq:
  "hour_of t * 3600 + minute_of t * 60 + second_of t = (t div 1000000) mod 86400"
proof -
  have h: "t div 3600000000 = (t div 1000000) div 3600"
    and m: "t div 60000000 = (t div 1000000) div 60"
    by (simp_all add: zdiv_zmult2_eq [symmetric])
  have "((s div 3600) mod 24) * 3600 + ((s div 60) mod 60) * 60 + s mod 60 = s mod 86400" for s :: int
    using zmod_zmult2_eq [of 24 s 3600] zmod_zmult2_eq [of 60 s 60] by simp
  then show ?thesis by (simp add: hour_of_def minute_of_def second_of_def h m)
qed

text \<open>
  Time keys: every timestamp has a key between 1 and 86400 (0 stays free for the unknown
  member), and two timestamps share a key exactly when they agree on the second of the day.
\<close>

theorem second_of_day_key_correct:
  "second_of_day_key (TsV t) = IntV k \<longleftrightarrow>
     (k = (t div 1000000) mod 86400 + 1 \<and> 1 \<le> k \<and> k \<le> 86400)"
  by (auto simp: second_of_day_key_def second_of_day_eq)

end
