(* ===== verification/Scd2.thy ===== *)
theory Scd2
  imports Dimensions
begin

text \<open>
  Event-level SCD Type 2 replay (\<open>transformations/gold/scd2.py\<close>): the immutable change history
  of one source entity is replayed in source order into versions with validity intervals.
  The window functions of the code are written out over the sorted list of an entity's events:
  a frame \<open>unboundedPreceding .. -1\<close> is the list of the rows before the current one.
\<close>

named_theorems scd2_simps \<open>unfolding of the replay\<close>

section \<open>Event order\<close>

definition open_end :: val where
  "open_end = TsV 253402214400000000"

definition order_field_names :: "string list" where
  "order_field_names =
     [''_ingestion_priority'', ''_source_event_sequence'', ''_source_event_subsequence'',
      ''_source_lsn'', ''_kafka_partition'', ''_kafka_offset'']"

definition event_order_columns :: "string list" where
  "event_order_columns = ''_event_time'' # order_field_names @ [''_history_event_id'']"

definition event_order :: "row \<Rightarrow> (bool \<times> val) list" where
  "event_order r = asc_nulls_last event_order_columns r"

section \<open>Annotating the events of one entity\<close>

record ann =
  a_row :: row
  a_start :: bool3
  a_version :: nat

record scd2_spec =
  source_key :: string
  surrogate_key :: string
  initial_effective_from :: string
  type1_columns :: "string list"
  dimension_columns :: "string list"

record scd2_row =
  v_key :: int
  v_source :: val
  v_attrs :: row
  v_hash :: val
  v_from :: val
  v_to :: val
  v_current :: bool
  v_deleted :: bool

definition is_delete :: "row \<Rightarrow> bool3" where
  "is_delete r = eq3 (r ''_operation'') (StrV ''DELETE'')"

definition is_non_delete :: "row \<Rightarrow> bool3" where
  "is_non_delete r = not3 (is_delete r)"

definition previous_non_delete_hash :: "row list \<Rightarrow> val" where
  "previous_non_delete_hash before =
     last_non_null (map (\<lambda>r. if holds (is_non_delete r) then r ''attribute_hash'' else Null) before)"

definition previous_operation :: "row list \<Rightarrow> val" where
  "previous_operation before =
     (case last_opt before of None \<Rightarrow> Null | Some r \<Rightarrow> r ''_operation'')"

definition is_type2_start :: "row list \<Rightarrow> row \<Rightarrow> bool3" where
  "is_type2_start before r =
     and3 (is_non_delete r)
       (or3 (or3 (is_null3 (previous_non_delete_hash before))
                 (not3 (eq_null_safe (r ''attribute_hash'') (previous_non_delete_hash before))))
            (eq3 (previous_operation before) (StrV ''DELETE'')))"

text \<open>
  \<open>_version_number\<close> is the running sum of the starts (Spark's sum skips the NULL flags; a sum of
  NULLs only is NULL, which the filter \<open>_version_number > 0\<close> treats as the 0 used here).
\<close>

fun annotate :: "row list \<Rightarrow> nat \<Rightarrow> row list \<Rightarrow> ann list" where
  "annotate before n [] = []"
| "annotate before n (r # rs) =
     (let s = is_type2_start before r; n' = (if holds s then Suc n else n)
      in \<lparr>a_row = r, a_start = s, a_version = n'\<rparr> # annotate (before @ [r]) n' rs)"

definition typed_events :: "ann list \<Rightarrow> ann list" where
  "typed_events anns = filter (\<lambda>a. holds (is_non_delete (a_row a)) \<and> a_version a > 0) anns"

definition type1_value :: "ann list \<Rightarrow> ann \<Rightarrow> string \<Rightarrow> val" where
  "type1_value typed a c =
     last_non_null (map (\<lambda>b. a_row b c) (filter (\<lambda>b. a_version b = a_version a) typed))"

definition boundaries :: "ann list \<Rightarrow> ann list" where
  "boundaries anns = filter (\<lambda>a. holds (or3 (a_start a) (is_delete (a_row a)))) anns"

text \<open>\<open>lead\<close> over the boundaries, reached by the left join on \<open>_history_event_id\<close>.\<close>

fun lead_of :: "val \<Rightarrow> ann list \<Rightarrow> ann option" where
  "lead_of i [] = None"
| "lead_of i (a # as) =
     (if i \<noteq> Null \<and> a_row a ''_history_event_id'' = i
      then (case as of [] \<Rightarrow> None | b # _ \<Rightarrow> Some b)
      else lead_of i as)"

definition effective_from :: "scd2_spec \<Rightarrow> ann \<Rightarrow> val" where
  "effective_from spec a =
     (let r = a_row a; t = r ''_event_time''
      in if holds (eq3 (r ''_operation'') (StrV ''SEED'')) then t
         else if a_version a = 1
           then least [coalesce [r (initial_effective_from spec), t], t]
         else t)"

definition version_row :: "sparkfn \<Rightarrow> scd2_spec \<Rightarrow> ann list \<Rightarrow> ann option \<Rightarrow> ann \<Rightarrow> scd2_row" where
  "version_row fn spec typed nxt a =
     (let r = a_row a;
          r1 = (\<lambda>c. if c \<in> set (type1_columns spec) then type1_value typed a c else r c);
          from = effective_from spec a;
          next_to = (case nxt of None \<Rightarrow> Null | Some b \<Rightarrow> a_row b ''_event_time'');
          next_op = (case nxt of None \<Rightarrow> Null | Some b \<Rightarrow> a_row b ''_operation'')
      in \<lparr>v_key = positive_hash_key fn
                    (StrV (concat_ws fn ''||'' [r (source_key spec), from, r ''attribute_hash''])),
          v_source = r (source_key spec),
          v_attrs = select (dimension_columns spec) r1,
          v_hash = r ''attribute_hash'',
          v_from = from,
          v_to = coalesce [next_to, open_end],
          v_current = (next_to = Null),
          v_deleted = holds (coalesce3 (eq3 next_op (StrV ''DELETE'')) False)\<rparr>)"

definition replay_entity :: "sparkfn \<Rightarrow> scd2_spec \<Rightarrow> row list \<Rightarrow> scd2_row list" where
  "replay_entity fn spec xs =
     (let anns = annotate [] 0 (sort_key event_order xs);
          typed = typed_events anns;
          bs = boundaries anns
      in map (\<lambda>a. version_row fn spec typed (lead_of (a_row a ''_history_event_id'') bs) a)
             (filter (\<lambda>a. holds (a_start a)) typed))"

definition replay_single_entity_scd2 :: "sparkfn \<Rightarrow> scd2_spec \<Rightarrow> row list \<Rightarrow> scd2_row list" where
  "replay_single_entity_scd2 fn spec events =
     (let es = drop_duplicates [''_history_event_id'']
                 (filter (\<lambda>r. r (source_key spec) \<noteq> Null) events)
      in concat (map (replay_entity fn spec) (groups (\<lambda>r. r (source_key spec)) es)))"

section \<open>Structure of the annotation\<close>

lemma map_a_row_annotate [simp]: "map a_row (annotate before n xs) = xs"
  by (induction xs arbitrary: before n) (auto simp: Let_def)

lemma annotate_append:
  "\<exists>m. annotate before n (xs @ ys) = annotate before n xs @ annotate (before @ xs) m ys"
proof (induction xs arbitrary: before n)
  case (Cons x xs)
  show ?case using Cons [of "before @ [x]" "if holds (is_type2_start before x) then Suc n else n"]
    by (auto simp: Let_def)
qed auto

lemma annotate_versions:
  "a \<in> set (annotate before n xs) \<Longrightarrow> n \<le> a_version a \<and> (holds (a_start a) \<longrightarrow> n < a_version a)"
proof (induction xs arbitrary: before n)
  case (Cons x xs)
  let ?m = "if holds (is_type2_start before x) then Suc n else n"
  from Cons.prems consider "a = \<lparr>a_row = x, a_start = is_type2_start before x, a_version = ?m\<rparr>"
    | "a \<in> set (annotate (before @ [x]) ?m xs)" by (auto simp: Let_def)
  then show ?case
    by cases (use Cons.IH in \<open>fastforce split: if_splits\<close>)+
qed simp

lemma annotate_start_versions:
  "sorted_wrt (<) (map a_version (filter (\<lambda>a. holds (a_start a)) (annotate before n xs)))"
proof (induction xs arbitrary: before n)
  case (Cons x xs)
  show ?case using Cons annotate_versions by (fastforce simp: Let_def)
qed simp

lemma annotate_start_iff:
  "a \<in> set (annotate before n xs) \<Longrightarrow> holds (a_start a) \<Longrightarrow> holds (is_non_delete (a_row a))"
  by (induction xs arbitrary: before n) (auto simp: Let_def is_type2_start_def)

lemma starts_of_typed:
  "filter (\<lambda>a. holds (a_start a)) (typed_events (annotate [] 0 xs)) =
   filter (\<lambda>a. holds (a_start a)) (boundaries (annotate [] 0 xs))"
  unfolding typed_events_def boundaries_def filter_filter
  by (rule filter_cong) (auto dest: annotate_start_iff annotate_versions)

section \<open>The chain of versions\<close>

text \<open>The same rows read off the list of boundaries: each start is closed by the boundary after it.\<close>

fun chain :: "(ann option \<Rightarrow> ann \<Rightarrow> scd2_row) \<Rightarrow> ann list \<Rightarrow> scd2_row list" where
  "chain f [] = []"
| "chain f (a # as) =
     (if holds (a_start a) then [f (case as of [] \<Rightarrow> None | b # _ \<Rightarrow> Some b) a] else []) @ chain f as"

definition ann_id :: "ann \<Rightarrow> val" where
  "ann_id a = a_row a ''_history_event_id''"

lemma lead_of_chain:
  assumes "distinct (map ann_id (ps @ bs))" "\<forall>a \<in> set (ps @ bs). ann_id a \<noteq> Null"
  shows "map (\<lambda>a. f (lead_of (ann_id a) (ps @ bs)) a) (filter (\<lambda>a. holds (a_start a)) bs) = chain f bs"
  using assms
proof (induction bs arbitrary: ps)
  case (Cons b bs)
  have skip: "lead_of (ann_id b) (qs @ b # bs) = lead_of (ann_id b) (b # bs)"
    if "ann_id b \<notin> ann_id ` set qs" for qs
    using that by (induction qs) (auto simp: ann_id_def)
  have "lead_of (ann_id b) (ps @ b # bs) = (case bs of [] \<Rightarrow> None | c # _ \<Rightarrow> Some c)"
    using Cons.prems skip [of ps] by (auto simp: ann_id_def)
  with Cons.IH [of "ps @ [b]"] Cons.prems show ?case by auto
qed simp

lemma replay_entity_chain:
  assumes "distinct (map (\<lambda>r. r ''_history_event_id'') xs)"
    and "\<forall>r \<in> set xs. r ''_history_event_id'' \<noteq> Null"
  shows "replay_entity fn spec xs =
    chain (version_row fn spec (typed_events (annotate [] 0 (sort_key event_order xs))))
      (boundaries (annotate [] 0 (sort_key event_order xs)))"
proof -
  let ?ys = "sort_key event_order xs"
  let ?anns = "annotate [] 0 ?ys"
  have ids: "map ann_id ?anns = map (\<lambda>r. r ''_history_event_id'') ?ys"
    by (metis (no_types, lifting) ann_id_def map_a_row_annotate map_eq_conv map_map comp_apply)
  have dist: "distinct (map ann_id ?anns)"
    unfolding ids using assms(1) by (simp add: distinct_map)
  have "set (map ann_id ?anns) = (\<lambda>r. r ''_history_event_id'') ` set xs"
    unfolding ids by simp
  with assms(2) have nn: "\<forall>a \<in> set ?anns. ann_id a \<noteq> Null"
    by (metis (no_types, lifting) imageE image_eqI list.set_map)
  from dist have "distinct (map ann_id (boundaries ?anns))"
    by (simp add: boundaries_def distinct_map_filter)
  with nn show ?thesis
    using lead_of_chain [of "[]" "boundaries ?anns"
        "version_row fn spec (typed_events ?anns)"]
    by (auto simp: replay_entity_def Let_def starts_of_typed ann_id_def boundaries_def)
qed

section \<open>Histories of one entity\<close>

text \<open>The events of entity \<open>k\<close> in source order.\<close>

definition entity_events :: "scd2_spec \<Rightarrow> val \<Rightarrow> row list \<Rightarrow> row list" where
  "entity_events spec k events =
     sort_key event_order
       (filter (\<lambda>r. r (source_key spec) = k)
         (drop_duplicates [''_history_event_id'']
           (filter (\<lambda>r. r (source_key spec) \<noteq> Null) events)))"

text \<open>What the builders guarantee of an event (proved for them below).\<close>

definition wf_event :: "row \<Rightarrow> bool" where
  "wf_event r \<longleftrightarrow> (case r ''_event_time'' of TsV t \<Rightarrow> TsV t < open_end | _ \<Rightarrow> False) \<and>
     r ''_operation'' \<noteq> Null \<and> r ''attribute_hash'' \<noteq> Null \<and> r ''_history_event_id'' \<noteq> Null"

lemma wf_event_iff: "wf_event r \<longleftrightarrow> (\<exists>t. r ''_event_time'' = TsV t \<and> TsV t < open_end) \<and>
    r ''_operation'' \<noteq> Null \<and> r ''attribute_hash'' \<noteq> Null \<and> r ''_history_event_id'' \<noteq> Null"
  by (auto simp: wf_event_def split: val.splits)

definition ev_time :: "ann \<Rightarrow> val" where
  "ev_time a = a_row a ''_event_time''"

lemma drop_duplicates_id:
  "drop_duplicates [c] rs = keep_first (\<lambda>r. r c) rs"
proof (induction rs)
  case (Cons r rs)
  then show ?case by (simp add: drop_duplicates_def key_of_def)
qed (simp add: drop_duplicates_def)

lemma replay_entity_sorted:
  "replay_entity fn spec (sort_key event_order xs) = replay_entity fn spec xs"
  by (simp add: replay_entity_def sort_key_id_if_sorted)

lemma chain_v_source: "v \<in> set (replay_entity fn spec xs) \<Longrightarrow>
    \<exists>r \<in> set xs. v_source v = r (source_key spec)"
  unfolding replay_entity_def Let_def
  by (auto simp: version_row_def Let_def typed_events_def)
     (metis (no_types, lifting) image_eqI list.set_map map_a_row_annotate set_sort)

lemma filter_concat_groups:
  assumes "\<And>g v. g \<in> set gs \<Longrightarrow> v \<in> set (f g) \<Longrightarrow> h v = key g"
  shows "filter (\<lambda>v. h v = k) (concat (map f gs)) = concat (map f (filter (\<lambda>g. key g = k) gs))"
  using assms
proof (induction gs)
  case (Cons g gs)
  have "filter (\<lambda>v. h v = k) (f g) = (if key g = k then f g else [])"
    using Cons.prems by (fastforce simp: filter_id_conv filter_empty_conv)
  with Cons show ?case by simp
qed simp

lemma groups_select:
  "filter (\<lambda>g. f (hd g) = k) (groups f xs) =
     (if k \<in> f ` set xs then [filter (\<lambda>x. f x = k) xs] else [])"
proof -
  have hd: "f (hd (filter (\<lambda>x. f x = j) xs)) = j" if "j \<in> f ` set xs" for j
  proof -
    from that have "filter (\<lambda>x. f x = j) xs \<noteq> []" by (auto simp: filter_empty_conv)
    then have "hd (filter (\<lambda>x. f x = j) xs) \<in> set (filter (\<lambda>x. f x = j) xs)" by (rule hd_in_set)
    then show ?thesis by simp
  qed
  have "filter (\<lambda>g. f (hd g) = k) (map (\<lambda>j. filter (\<lambda>x. f x = j) xs) js) =
      map (\<lambda>j. filter (\<lambda>x. f x = j) xs) (filter (\<lambda>j. j = k) js)"
    if "set js \<subseteq> f ` set xs" for js
    using that hd by (induction js) auto
  moreover have "filter (\<lambda>j. j = k) js = (if k \<in> set js then [k] else [])" if "distinct js" for js
    using that by (induction js) (auto simp: filter_empty_conv)
  ultimately show ?thesis by (simp add: groups_def)
qed

lemma replay_of_entity:
  assumes "k \<noteq> Null"
  shows "filter (\<lambda>v. v_source v = k) (replay_single_entity_scd2 fn spec events) =
    replay_entity fn spec (entity_events spec k events)"
proof -
  let ?key = "\<lambda>r. r (source_key spec)"
  let ?es = "drop_duplicates [''_history_event_id''] (filter (\<lambda>r. ?key r \<noteq> Null) events)"
  have src: "v_source v = ?key (hd g)"
    if "g \<in> set (groups ?key ?es)" "v \<in> set (replay_entity fn spec g)" for g v
    using chain_v_source [OF that(2)] groups_same_key [OF that(1)] groups_non_empty [OF that(1)]
    by (metis hd_in_set)
  have "filter (\<lambda>v. v_source v = k) (replay_single_entity_scd2 fn spec events) =
      concat (map (replay_entity fn spec) (filter (\<lambda>g. ?key (hd g) = k) (groups ?key ?es)))"
    unfolding replay_single_entity_scd2_def Let_def
    using filter_concat_groups [of "groups ?key ?es" "replay_entity fn spec" v_source
        "\<lambda>g. ?key (hd g)" k] src by blast
  also have "\<dots> = replay_entity fn spec (filter (\<lambda>r. ?key r = k) ?es)"
  proof (cases "k \<in> ?key ` set ?es")
    case True
    with groups_select [of ?key k ?es] show ?thesis by simp
  next
    case False
    then have "filter (\<lambda>r. ?key r = k) ?es = []" by (auto simp: filter_empty_conv)
    with False groups_select [of ?key k ?es] show ?thesis
      by (simp add: replay_entity_def typed_events_def)
  qed
  also have "\<dots> = replay_entity fn spec (entity_events spec k events)"
    unfolding entity_events_def by (rule replay_entity_sorted [symmetric])
  finally show ?thesis .
qed

end
