(* ===== verification/Scd2_AsOf.thy ===== *)
theory Scd2_AsOf
  imports Scd2 "HOL-Library.Multiset"
begin

text \<open>
  Correctness of the SCD Type 2 replay of \<open>Scd2\<close>: the versions of an entity form a chain of
  half-open intervals, a lookup as of an instant finds the version that carries the attribute hash
  of the last event up to that instant (and none after a delete), and the result does not depend
  on the order in which the events are delivered.
\<close>

section \<open>The sorted history\<close>

lemma event_order_time: "event_order r \<le> event_order s \<Longrightarrow>
    nulls_last (r ''_event_time'') \<le> nulls_last (s ''_event_time'')"
  by (auto simp: event_order_def event_order_columns_def asc_nulls_last_def)

lemma wf_event_time: "wf_event r \<Longrightarrow> wf_event s \<Longrightarrow>
    nulls_last (r ''_event_time'') \<le> nulls_last (s ''_event_time'') \<Longrightarrow>
    r ''_event_time'' \<le> s ''_event_time''"
  by (auto simp: wf_event_iff nulls_last_def)

lemma sorted_times:
  assumes "sorted (map event_order ys)" "\<forall>r \<in> set ys. wf_event r"
  shows "sorted (map (\<lambda>r. r ''_event_time'') ys)"
  using assms unfolding sorted_map
  by (induction ys) (auto intro: wf_event_time event_order_time)

lemma event_order_inj: "event_order r = event_order s \<Longrightarrow>
    r ''_history_event_id'' = s ''_history_event_id''"
  by (auto simp: event_order_def event_order_columns_def order_field_names_def asc_nulls_last_def
      dest: nulls_last_inj)

lemma distinct_drop_duplicates_id:
  "distinct (map (\<lambda>r. r ''_history_event_id'') (drop_duplicates [''_history_event_id''] rs))"
  by (simp add: drop_duplicates_id distinct_keep_first)

lemma entity_events_props:
  "sorted (map event_order (entity_events spec k events))"
  "distinct (map (\<lambda>r. r ''_history_event_id'') (entity_events spec k events))"
  "set (entity_events spec k events) \<subseteq> set events"
  "r \<in> set (entity_events spec k events) \<Longrightarrow> r (source_key spec) = k"
proof -
  let ?es = "drop_duplicates [''_history_event_id''] (filter (\<lambda>r. r (source_key spec) \<noteq> Null) events)"
  show "sorted (map event_order (entity_events spec k events))"
    by (simp add: entity_events_def)
  have "distinct (map (\<lambda>r. r ''_history_event_id'') (filter (\<lambda>r. r (source_key spec) = k) ?es))"
    using distinct_drop_duplicates_id by (rule distinct_map_filter)
  then show "distinct (map (\<lambda>r. r ''_history_event_id'') (entity_events spec k events))"
    by (simp add: entity_events_def distinct_map)
  show "set (entity_events spec k events) \<subseteq> set events"
    using set_keep_first_subset by (fastforce simp: entity_events_def drop_duplicates_id)
  show "r \<in> set (entity_events spec k events) \<Longrightarrow> r (source_key spec) = k"
    by (auto simp: entity_events_def)
qed

section \<open>The last boundary before an instant\<close>

lemma annotate_snoc:
  "\<exists>m. annotate [] 0 (ps @ [x]) =
     annotate [] 0 ps @ [\<lparr>a_row = x, a_start = is_type2_start ps x, a_version = m\<rparr>]"
proof -
  obtain m where "annotate [] 0 (ps @ [x]) = annotate [] 0 ps @ annotate ([] @ ps) m [x]"
    using annotate_append by blast
  then show ?thesis by (auto simp: Let_def)
qed

lemma is_delete_wf: "wf_event r \<Longrightarrow> is_delete r = Some (r ''_operation'' = StrV ''DELETE'')"
  by (auto simp: wf_event_iff is_delete_def eq3_def)

lemma previous_hash_snoc:
  assumes "wf_event r" "\<not> holds (is_delete r)"
  shows "previous_non_delete_hash (ps @ [r]) = r ''attribute_hash''"
  using assms by (auto simp: previous_non_delete_hash_def is_non_delete_def is_delete_wf wf_event_iff)

definition last_boundary_ok :: "row list \<Rightarrow> ann \<Rightarrow> bool" where
  "last_boundary_ok ps b \<longleftrightarrow>
     (if holds (is_delete (last ps)) then a_row b = last ps \<and> \<not> holds (a_start b)
      else holds (a_start b) \<and> a_row b ''attribute_hash'' = last ps ''attribute_hash'')"

lemma last_boundary:
  assumes "ps \<noteq> []" "\<not> holds (is_delete (hd ps))" "\<forall>r \<in> set ps. wf_event r"
  shows "boundaries (annotate [] 0 ps) \<noteq> [] \<and>
    last_boundary_ok ps (last (boundaries (annotate [] 0 ps)))"
  using assms
proof (induction ps rule: rev_induct)
  case (snoc x ps)
  obtain m where ann: "annotate [] 0 (ps @ [x]) =
      annotate [] 0 ps @ [\<lparr>a_row = x, a_start = is_type2_start ps x, a_version = m\<rparr>]"
    using annotate_snoc by blast
  have wfx: "wf_event x" using snoc.prems by simp
  show ?case
  proof (cases "holds (or3 (is_type2_start ps x) (is_delete x))")
    case True
    then show ?thesis using ann wfx
      by (auto simp: boundaries_def last_boundary_ok_def is_type2_start_def is_non_delete_def
          is_delete_wf)
  next
    case False
    then have nd: "\<not> holds (is_delete x)" and ns: "\<not> holds (is_type2_start ps x)" by auto
    have ps: "ps \<noteq> []"
      using ns nd wfx by (auto simp: is_type2_start_def previous_non_delete_hash_def is_null3_def
          is_non_delete_def is_delete_wf)
    have wfl: "wf_event (last ps)" using snoc.prems ps by simp
    have IH: "boundaries (annotate [] 0 ps) \<noteq> []"
      "last_boundary_ok ps (last (boundaries (annotate [] 0 ps)))"
      using snoc.IH snoc.prems ps by auto
    have lst: "last_opt ps = Some (last ps)" using ps by (simp add: last_opt_Some)
    have ndl: "\<not> holds (is_delete (last ps))"
      using ns nd wfx wfl lst
      by (auto simp: is_type2_start_def previous_operation_def is_non_delete_def is_delete_wf)
    have "previous_non_delete_hash ps = last ps ''attribute_hash''"
      using previous_hash_snoc [OF wfl ndl, of "butlast ps"] ps by simp
    with ns nd wfx have "x ''attribute_hash'' = last ps ''attribute_hash''"
      by (auto simp: is_type2_start_def is_non_delete_def is_delete_wf eq_null_safe_def
          split: if_splits)
    moreover have "boundaries (annotate [] 0 (ps @ [x])) = boundaries (annotate [] 0 ps)"
      using False ann by (simp add: boundaries_def)
    ultimately show ?thesis using IH nd ndl by (simp add: last_boundary_ok_def)
  qed
qed simp

section \<open>Rows of a chain that cover an instant\<close>

definition covers :: "int \<Rightarrow> scd2_row \<Rightarrow> bool" where
  "covers t v \<longleftrightarrow> v_from v \<le> TsV t \<and> TsV t < v_to v"

text \<open>The version a fact row is joined to (\<open>effective_from <= t and t < effective_to\<close>).\<close>

definition as_of :: "int \<Rightarrow> val \<Rightarrow> scd2_row list \<Rightarrow> scd2_row list" where
  "as_of t k rows = filter (\<lambda>v. v_source v = k \<and> covers t v) rows"

lemma version_to: "v_to (version_row fn spec typed nxt a) =
    coalesce [case nxt of None \<Rightarrow> Null | Some b \<Rightarrow> ev_time b, open_end]"
  by (cases nxt) (simp_all add: version_row_def Let_def ev_time_def)

lemma version_from: "v_from (version_row fn spec typed nxt a) = effective_from spec a"
  by (simp add: version_row_def Let_def)

lemma version_hash: "v_hash (version_row fn spec typed nxt a) = a_row a ''attribute_hash''"
  by (simp add: version_row_def Let_def)

lemma effective_from_le: "wf_event (a_row a) \<Longrightarrow> effective_from spec a \<le> ev_time a"
  by (auto simp: effective_from_def Let_def ev_time_def wf_event_iff least_two_non_null min_def)

lemma effective_from_later: "1 < a_version a \<Longrightarrow> effective_from spec a = ev_time a"
  by (simp add: effective_from_def Let_def ev_time_def)

lemma chain_before:
  assumes "\<forall>a \<in> set (ps @ [b]). ev_time a \<noteq> Null \<and> ev_time a \<le> TsV t"
  shows "filter (covers t) (chain (version_row fn spec typed) (ps @ b # bs)) =
    filter (covers t) (chain (version_row fn spec typed) (b # bs))"
  using assms
proof (induction ps)
  case (Cons p ps)
  obtain c cs where c: "ps @ b # bs = c # cs" "c \<in> set (ps @ [b])" by (cases ps) auto
  with Cons.prems have "\<not> covers t (version_row fn spec typed (Some c) p)"
    by (auto simp: covers_def version_to)
  with Cons c show ?case by auto
qed simp

lemma chain_after:
  assumes "\<forall>a \<in> set bs. TsV t < ev_time a \<and> (holds (a_start a) \<longrightarrow> 1 < a_version a)"
  shows "filter (covers t) (chain (version_row fn spec typed) bs) = []"
  using assms
proof (induction bs)
  case (Cons b bs)
  then show ?case by (auto simp: covers_def version_from effective_from_later)
qed simp

lemma chain_covering:
  assumes "\<forall>a \<in> set (ps @ [b]). wf_event (a_row a) \<and> ev_time a \<le> TsV t"
    and "\<forall>a \<in> set bs. TsV t < ev_time a \<and> (holds (a_start a) \<longrightarrow> 1 < a_version a)"
    and "TsV t < open_end"
  shows "filter (covers t) (chain (version_row fn spec typed) (ps @ b # bs)) =
    (if holds (a_start b)
     then [version_row fn spec typed (case bs of [] \<Rightarrow> None | c # _ \<Rightarrow> Some c) b] else [])"
proof -
  have "filter (covers t) (chain (version_row fn spec typed) (ps @ b # bs)) =
      filter (covers t) (chain (version_row fn spec typed) (b # bs))"
    using assms(1) by (intro chain_before) (auto simp: wf_event_iff ev_time_def)
  moreover have "covers t (version_row fn spec typed (case bs of [] \<Rightarrow> None | c # _ \<Rightarrow> Some c) b)"
    using assms effective_from_le [of b spec]
    by (cases bs) (auto simp: covers_def version_to version_from)
  ultimately show ?thesis using chain_after [OF assms(2)] by simp
qed

section \<open>The versions of one entity\<close>

definition history_anns :: "scd2_spec \<Rightarrow> val \<Rightarrow> row list \<Rightarrow> ann list" where
  "history_anns spec k events = annotate [] 0 (entity_events spec k events)"

lemma entity_versions:
  assumes "k \<noteq> Null" "\<forall>r \<in> set (entity_events spec k events). wf_event r"
  shows "filter (\<lambda>v. v_source v = k) (replay_single_entity_scd2 fn spec events) =
    chain (version_row fn spec (typed_events (history_anns spec k events)))
      (boundaries (history_anns spec k events))"
proof -
  let ?ys = "entity_events spec k events"
  have "sort_key event_order ?ys = ?ys"
    by (simp add: sort_key_id_if_sorted entity_events_props)
  with assms(2) show ?thesis
    using replay_of_entity [OF assms(1)] replay_entity_chain [OF entity_events_props(2)]
    by (simp add: history_anns_def wf_event_iff)
qed

lemma boundary_in: "a \<in> set (boundaries (annotate [] 0 ys)) \<Longrightarrow> a_row a \<in> set ys"
  by (metis (no_types, lifting) boundaries_def filter_is_subset image_eqI list.set_map
      map_a_row_annotate subsetD)

lemma start_version_pos:
  "a \<in> set (annotate [] 0 ys) \<Longrightarrow> holds (a_start a) \<Longrightarrow> 0 < a_version a"
  using annotate_versions by fastforce

lemma boundaries_append: "boundaries (xs @ ys) = boundaries xs @ boundaries ys"
  by (simp add: boundaries_def)

lemma last_boundary_start_before:
  assumes "ps \<noteq> []" "\<not> holds (is_delete (hd ps))" "\<forall>r \<in> set ps. wf_event r"
  shows "\<exists>a \<in> set (annotate [] 0 ps). holds (a_start a)"
proof -
  obtain p qs where p: "ps = p # qs" using assms(1) by (cases ps) auto
  with assms(2,3) have "holds (is_type2_start [] p)"
    by (auto simp: is_type2_start_def is_non_delete_def is_delete_wf previous_non_delete_hash_def
        is_null3_def)
  with p show ?thesis by (auto simp: Let_def)
qed

lemma annotate_split:
  assumes "ps \<noteq> []" "\<not> holds (is_delete (hd ps))" "\<forall>r \<in> set ps. wf_event r"
  obtains A where "annotate [] 0 (ps @ qs) = annotate [] 0 ps @ A" "map a_row A = qs"
    "\<forall>a \<in> set A. holds (a_start a) \<longrightarrow> 1 < a_version a"
proof -
  obtain m where A: "annotate [] 0 (ps @ qs) = annotate [] 0 ps @ annotate ([] @ ps) m qs"
    using annotate_append by blast
  obtain s where s: "s \<in> set (annotate [] 0 ps)" "holds (a_start s)"
    using last_boundary_start_before [OF assms] by blast
  have "1 < a_version a" if "a \<in> set (annotate ps m qs)" "holds (a_start a)" for a
  proof -
    have "a_version s < a_version a"
      using annotate_start_versions [of "[]" 0 "ps @ qs"] A s that
      by (auto simp: sorted_wrt_append)
    with start_version_pos [OF s] show ?thesis by simp
  qed
  with A that show ?thesis by simp
qed

lemma sorted_split_time:
  assumes "sorted (map (\<lambda>r. r ''_event_time'') ys)"
    and "ps = takeWhile (\<lambda>r. r ''_event_time'' \<le> TsV t) ys"
    and "qs = dropWhile (\<lambda>r. r ''_event_time'' \<le> TsV t) ys"
  shows "ys = ps @ qs" "\<forall>r \<in> set ps. r ''_event_time'' \<le> TsV t"
    "\<forall>r \<in> set qs. TsV t < r ''_event_time''"
proof -
  show "ys = ps @ qs" using assms by simp
  show "\<forall>r \<in> set ps. r ''_event_time'' \<le> TsV t" using assms(2) by (auto dest: set_takeWhileD)
  show "\<forall>r \<in> set qs. TsV t < r ''_event_time''"
  proof (cases qs)
    case (Cons q qs')
    then have "\<not> q ''_event_time'' \<le> TsV t"
      using assms(3) by (metis hd_dropWhile list.distinct(1) list.sel(1))
    moreover have "sorted (map (\<lambda>r. r ''_event_time'') qs)"
      using assms(1) \<open>ys = ps @ qs\<close> by (simp add: sorted_append)
    ultimately show ?thesis using Cons by (fastforce simp: not_le)
  qed simp
qed

text \<open>The last event of a history whose time is at most \<open>t\<close>.\<close>

definition last_event :: "int \<Rightarrow> row list \<Rightarrow> row" where
  "last_event t ys = last (takeWhile (\<lambda>r. r ''_event_time'' \<le> TsV t) ys)"

lemma as_of_chain:
  assumes k: "k \<noteq> Null" and wf: "\<forall>r \<in> set (entity_events spec k events). wf_event r"
    and hd: "ys = entity_events spec k events" "ys \<noteq> []" "\<not> holds (is_delete (hd ys))"
    and t: "hd ys ''_event_time'' \<le> TsV t" "TsV t < open_end"
  shows "if holds (is_delete (last_event t ys))
    then as_of t k (replay_single_entity_scd2 fn spec events) = []
    else (\<exists>v. as_of t k (replay_single_entity_scd2 fn spec events) = [v] \<and>
          v_hash v = last_event t ys ''attribute_hash'')"
proof -
  define ps where "ps = takeWhile (\<lambda>r. r ''_event_time'' \<le> TsV t) ys"
  define qs where "qs = dropWhile (\<lambda>r. r ''_event_time'' \<le> TsV t) ys"
  have srt: "sorted (map (\<lambda>r. r ''_event_time'') ys)"
    using sorted_times entity_events_props(1) wf hd(1) by blast
  note split = sorted_split_time [OF srt ps_def qs_def]
  have ps: "ps \<noteq> []" "hd ps = hd ys" using hd(2) t(1) by (cases ys; simp add: ps_def)+
  have wfps: "\<forall>r \<in> set ps. wf_event r" and wfqs: "\<forall>r \<in> set qs. wf_event r"
    using wf split(1) hd(1) by auto
  have nd: "\<not> holds (is_delete (hd ps))" using ps hd by simp
  obtain A where A: "annotate [] 0 ys = annotate [] 0 ps @ A" "map a_row A = qs"
      "\<forall>a \<in> set A. holds (a_start a) \<longrightarrow> 1 < a_version a"
    using annotate_split [OF ps(1) nd wfps] split(1) by metis
  define B where "B = boundaries (annotate [] 0 ps)"
  note lb = last_boundary [OF ps(1) nd wfps, folded B_def]
  have B: "B = butlast B @ [last B]" using lb by simp
  have bs: "boundaries (history_anns spec k events) = butlast B @ last B # boundaries A"
    using A(1) B hd(1) by (simp add: history_anns_def boundaries_append B_def [symmetric])
  have before: "\<forall>a \<in> set (butlast B @ [last B]). wf_event (a_row a) \<and> ev_time a \<le> TsV t"
    using B boundary_in wfps split(2) unfolding B_def ev_time_def by metis
  have after: "\<forall>a \<in> set (boundaries A). TsV t < ev_time a \<and> (holds (a_start a) \<longrightarrow> 1 < a_version a)"
    using A(2,3) split(3) by (auto simp: boundaries_def ev_time_def)
  have "as_of t k (replay_single_entity_scd2 fn spec events) =
      filter (covers t) (filter (\<lambda>v. v_source v = k) (replay_single_entity_scd2 fn spec events))"
    by (simp add: as_of_def conj_commute)
  also have "\<dots> = (if holds (a_start (last B)) then
      [version_row fn spec (typed_events (history_anns spec k events))
        (case boundaries A of [] \<Rightarrow> None | c # _ \<Rightarrow> Some c) (last B)] else [])"
    using chain_covering [OF before after t(2)] by (simp add: entity_versions [OF k wf] bs)
  finally show ?thesis
    using lb by (auto simp: last_boundary_ok_def version_hash last_event_def ps_def [symmetric])
qed

lemma chain_member:
  "v \<in> set (chain (version_row fn spec typed) bs) \<Longrightarrow>
    \<exists>a \<in> set bs. holds (a_start a) \<and> v_from v = effective_from spec a"
  by (induction bs) (auto simp: version_from split: if_splits)

lemma chain_disjoint:
  assumes "sorted (map ev_time bs)" "\<forall>a \<in> set bs. wf_event (a_row a)"
    and "sorted_wrt (<) (map a_version (filter (\<lambda>a. holds (a_start a)) bs))"
    and "\<forall>a \<in> set bs. holds (a_start a) \<longrightarrow> 0 < a_version a"
  shows "sorted_wrt (\<lambda>v w. v_to v \<le> v_from w) (chain (version_row fn spec typed) bs)"
  using assms
proof (induction bs)
  case (Cons b bs)
  have "v_to (version_row fn spec typed (case bs of [] \<Rightarrow> None | c # _ \<Rightarrow> Some c) b) \<le> v_from w"
    if b: "holds (a_start b)" and w: "w \<in> set (chain (version_row fn spec typed) bs)" for w
  proof -
    obtain a where a: "a \<in> set bs" "holds (a_start a)" "v_from w = effective_from spec a"
      using chain_member [OF w] by blast
    obtain c cs where c: "bs = c # cs" using a(1) by (cases bs) auto
    have "a_version b < a_version a" "0 < a_version b" using Cons.prems a b by auto
    then have "v_from w = ev_time a" using a(3) by (simp add: effective_from_later)
    moreover have "ev_time c \<le> ev_time a" using Cons.prems(1) a(1) c by auto
    moreover have "ev_time c \<noteq> Null" using Cons.prems(2) c by (auto simp: wf_event_iff ev_time_def)
    ultimately show ?thesis using c by (simp add: version_to)
  qed
  with Cons show ?case by (cases "holds (a_start b)") auto
qed simp

lemma history_boundaries:
  assumes "\<forall>r \<in> set (entity_events spec k events). wf_event r"
  shows "sorted (map ev_time (boundaries (history_anns spec k events)))"
    and "\<forall>a \<in> set (boundaries (history_anns spec k events)). wf_event (a_row a)"
    and "sorted_wrt (<) (map a_version (filter (\<lambda>a. holds (a_start a)) (boundaries (history_anns spec k events))))"
    and "\<forall>a \<in> set (boundaries (history_anns spec k events)). holds (a_start a) \<longrightarrow> 0 < a_version a"
proof -
  let ?ys = "entity_events spec k events"
  have "map ev_time (annotate [] 0 ?ys) = map (\<lambda>r. r ''_event_time'') ?ys"
    by (metis (no_types, lifting) comp_apply ev_time_def map_a_row_annotate map_eq_conv map_map)
  then have "sorted (map ev_time (annotate [] 0 ?ys))"
    using sorted_times [OF entity_events_props(1) assms] by simp
  then show "sorted (map ev_time (boundaries (history_anns spec k events)))"
    by (auto simp: history_anns_def boundaries_def sorted_filter)
  show "\<forall>a \<in> set (boundaries (history_anns spec k events)). wf_event (a_row a)"
    using assms boundary_in by (auto simp: history_anns_def)
  have "filter (\<lambda>a. holds (a_start a)) (boundaries xs) = filter (\<lambda>a. holds (a_start a)) xs" for xs
    unfolding boundaries_def filter_filter by (rule filter_cong) auto
  then show "sorted_wrt (<) (map a_version (filter (\<lambda>a. holds (a_start a)) (boundaries (history_anns spec k events))))"
    using annotate_start_versions by (simp add: history_anns_def)
  show "\<forall>a \<in> set (boundaries (history_anns spec k events)). holds (a_start a) \<longrightarrow> 0 < a_version a"
    by (auto simp: history_anns_def boundaries_def intro: start_version_pos)
qed

text \<open>Delivery order: the same events in any order, with redeliveries, give the same history.\<close>

lemma entity_events_perm:
  assumes "set xs = set ys"
    and "\<forall>r \<in> set xs. \<forall>s \<in> set xs. r ''_history_event_id'' = s ''_history_event_id'' \<longrightarrow> r = s"
  shows "entity_events spec k xs = entity_events spec k ys"
proof -
  let ?D = "\<lambda>rs. filter (\<lambda>r. r (source_key spec) = k)
    (drop_duplicates [''_history_event_id''] (filter (\<lambda>r. r (source_key spec) \<noteq> Null) rs))"
  have D: "set (?D rs) = {r \<in> set rs. r (source_key spec) \<noteq> Null \<and> r (source_key spec) = k}"
      "distinct (?D rs)"
    if "\<forall>r \<in> set rs. \<forall>s \<in> set rs. r ''_history_event_id'' = s ''_history_event_id'' \<longrightarrow> r = s" for rs
  proof -
    have "set (keep_first (\<lambda>r. r ''_history_event_id'') (filter (\<lambda>r. r (source_key spec) \<noteq> Null) rs)) =
        set (filter (\<lambda>r. r (source_key spec) \<noteq> Null) rs)"
      using that by (intro set_keep_first) auto
    then show "set (?D rs) = {r \<in> set rs. r (source_key spec) \<noteq> Null \<and> r (source_key spec) = k}"
      by (auto simp: drop_duplicates_id)
    show "distinct (?D rs)"
      using distinct_drop_duplicates_id by (intro distinct_filter) (auto simp: distinct_map)
  qed
  have "inj_on event_order (set (?D xs))"
    using D(1) [OF assms(2)] assms(2) event_order_inj by (auto intro!: inj_onI)
  moreover have "set (?D xs) = set (?D ys)" "distinct (?D xs)" "distinct (?D ys)"
    using D [of xs] D [of ys] assms by auto
  ultimately show ?thesis unfolding entity_events_def by (intro sort_key_unique)
qed

lemma replay_sources_non_null:
  "v \<in> set (replay_single_entity_scd2 fn spec events) \<Longrightarrow> v_source v \<noteq> Null"
  unfolding replay_single_entity_scd2_def Let_def
  using set_keep_first_subset groups_concat_set chain_v_source
  by (fastforce simp: drop_duplicates_id)

lemma mset_by_source:
  assumes "\<And>k. filter (\<lambda>v. f v = k) xs = filter (\<lambda>v. f v = k) ys"
  shows "mset xs = mset ys"
proof (rule multiset_eqI)
  fix v
  have "count (mset zs) v = count (mset (filter (\<lambda>w. f w = f v) zs)) v" for zs
    by (simp add: mset_filter)
  then show "count (mset xs) v = count (mset ys) v" using assms by metis
qed

section \<open>Properties\<close>

text \<open>
  C1. Point-in-time lookup. In the dimension rebuilt by the replay, an entity whose history starts
  with a non-delete event has at every instant \<open>t\<close> from its first event on exactly one version
  that covers \<open>t\<close>, and that version carries the attribute hash of the last source event up to
  \<open>t\<close>; if that event is a delete, no version covers \<open>t\<close>.
\<close>

theorem scd2_point_in_time_lookup:
  assumes "k \<noteq> Null" and "\<forall>r \<in> set (entity_events spec k events). wf_event r"
    and "entity_events spec k events = first # rest" and "\<not> holds (is_delete first)"
    and "first ''_event_time'' \<le> TsV t" and "TsV t < open_end"
  shows "if holds (is_delete (last_event t (first # rest)))
    then as_of t k (replay_single_entity_scd2 fn spec events) = []
    else (\<exists>v. as_of t k (replay_single_entity_scd2 fn spec events) = [v] \<and>
          v_hash v = last_event t (first # rest) ''attribute_hash'')"
  using as_of_chain [OF assms(1,2), of "first # rest"] assms(3-6) by simp

definition demo_spec :: scd2_spec where
  "demo_spec = \<lparr>source_key = ''id'', surrogate_key = ''key'', initial_effective_from = ''created_at'',
     type1_columns = [''last_login''], dimension_columns = [''id'', ''name'', ''last_login'']\<rparr>"

definition demo_event :: "int \<Rightarrow> int \<Rightarrow> string \<Rightarrow> string \<Rightarrow> row" where
  "demo_event i t op name = row_of [(''id'', IntV 7), (''_history_event_id'', StrV (int_text i)),
     (''_source_event_sequence'', IntV i), (''_event_time'', TsV t), (''_operation'', StrV op),
     (''name'', StrV name), (''attribute_hash'', StrV name), (''created_at'', TsV 5)]"

definition demo_history :: "row list" where
  "demo_history = [demo_event 3 30 ''DELETE'' ''bea'', demo_event 1 10 ''INSERT'' ''ann'',
     demo_event 2 20 ''UPDATE'' ''bea'']"

lemma demo_entity_events: "entity_events demo_spec (IntV 7) demo_history =
    [demo_event 1 10 ''INSERT'' ''ann'', demo_event 2 20 ''UPDATE'' ''bea'',
     demo_event 3 30 ''DELETE'' ''bea'']"
  by (simp add: entity_events_def demo_history_def demo_event_def demo_spec_def row_of_def
      drop_duplicates_def key_of_def int_text_def event_order_def event_order_columns_def
      order_field_names_def asc_nulls_last_def nulls_last_def)

theorem scd2_point_in_time_lookup_witness:
  "(\<exists>v. as_of 25 (IntV 7) (replay_single_entity_scd2 example_fn demo_spec demo_history) = [v] \<and>
      v_hash v = StrV ''bea'')"
  using scd2_point_in_time_lookup [of "IntV 7" demo_spec demo_history
      "demo_event 1 10 ''INSERT'' ''ann''"
      "[demo_event 2 20 ''UPDATE'' ''bea'', demo_event 3 30 ''DELETE'' ''bea'']" 25 example_fn]
  unfolding demo_entity_events
  by (simp add: demo_event_def row_of_def wf_event_def open_end_def last_event_def is_delete_def
      eq3_def)

text \<open>
  C2. The versions of an entity never overlap: each version ends no later than every later
  version starts.
\<close>

theorem scd2_versions_disjoint:
  assumes "k \<noteq> Null" and "\<forall>r \<in> set (entity_events spec k events). wf_event r"
  shows "sorted_wrt (\<lambda>v w. v_to v \<le> v_from w)
    (filter (\<lambda>v. v_source v = k) (replay_single_entity_scd2 fn spec events))"
  unfolding entity_versions [OF assms] using history_boundaries [OF assms(2)] by (rule chain_disjoint)

theorem scd2_versions_disjoint_witness:
  "sorted_wrt (\<lambda>v w. v_to v \<le> v_from w) (filter (\<lambda>v. v_source v = IntV 7)
    (replay_single_entity_scd2 example_fn demo_spec demo_history))"
  by (rule scd2_versions_disjoint, unfold demo_entity_events)
     (simp_all add: demo_event_def row_of_def wf_event_def open_end_def)

text \<open>
  C3. The replay depends only on the set of events: redelivered events and any delivery order give
  the same multiset of dimension rows, as long as an event id names one event.
\<close>

theorem scd2_replay_delivery_independent:
  assumes "set xs = set ys"
    and "\<forall>r \<in> set xs. \<forall>s \<in> set xs. r ''_history_event_id'' = s ''_history_event_id'' \<longrightarrow> r = s"
  shows "mset (replay_single_entity_scd2 fn spec xs) = mset (replay_single_entity_scd2 fn spec ys)"
proof (rule mset_by_source [where f = v_source])
  fix k
  show "filter (\<lambda>v. v_source v = k) (replay_single_entity_scd2 fn spec xs) =
      filter (\<lambda>v. v_source v = k) (replay_single_entity_scd2 fn spec ys)"
  proof (cases "k = Null")
    case True
    then show ?thesis using replay_sources_non_null by (force simp: filter_empty_conv intro: trans)
  next
    case False
    show ?thesis using entity_events_perm [OF assms] by (simp add: replay_of_entity [OF False])
  qed
qed

theorem scd2_replay_delivery_independent_witness:
  "mset (replay_single_entity_scd2 example_fn demo_spec demo_history) =
   mset (replay_single_entity_scd2 example_fn demo_spec (rev demo_history @ demo_history))"
  by (rule scd2_replay_delivery_independent)
     (auto simp: demo_history_def demo_event_def row_of_def int_text_def)

end
