(* ===== verification/Scd2History.thy ===== *)
theory Scd2History
  imports Scd2_AsOf
begin

text \<open>
  The builders of the four history-keeping dimensions (\<open>transformations/gold/scd2.py\<close>): they
  turn the Silver change history of shops, categories, products with their variants, and customers
  into the events the replay of \<open>Scd2\<close> consumes. Categories and products first combine two
  timelines (\<open>_history_states\<close> gives each change its validity interval).
\<close>

section \<open>Event columns\<close>

definition normalize_history_event_time :: "sparkfn \<Rightarrow> string \<Rightarrow> df \<Rightarrow> row list" where
  "normalize_history_event_time fn timezone history =
     (if ''_ingestion_mode'' \<notin> set (df_cols history) then df_rows history
      else map (\<lambda>r. r(''_event_occurred_at'' :=
             (if holds (eq3 (r ''_ingestion_mode'') (StrV ''batch''))
              then (case r ''_event_occurred_at'' of TsV t \<Rightarrow> TsV (fn_from_utc fn t timezone) | v \<Rightarrow> Null)
              else r ''_event_occurred_at'')))
           (df_rows history))"

definition order_field_types :: "string list" where
  "order_field_types = [''int'', ''long'', ''long'', ''long'', ''int'', ''long'']"

definition cast_v :: "sparkfn \<Rightarrow> string \<Rightarrow> val \<Rightarrow> val" where
  "cast_v fn ty v = (if v = Null then Null else fn_cast fn ty v)"

definition event_time_of :: "row \<Rightarrow> val" where
  "event_time_of r = coalesce [r ''_event_occurred_at'', r ''updated_at'', r ''created_at'']"

definition history_order_columns :: "sparkfn \<Rightarrow> (string \<times> (row \<Rightarrow> val)) list" where
  "history_order_columns fn =
     [(''_event_time'', event_time_of),
      (''_operation'', \<lambda>r. text_fn (fn_upper fn) (r ''_operation'')),
      (''_history_event_id'', \<lambda>r. as_string fn (r ''_history_event_id''))] @
     map (\<lambda>(name, ty). (name, \<lambda>r. cast_v fn ty (r name))) (zip order_field_names order_field_types)"

fun with_lead :: "row list \<Rightarrow> row list" where
  "with_lead [] = []"
| "with_lead [r] = [r(''_state_to'' := Null)]"
| "with_lead (r # s # rs) = r(''_state_to'' := s ''_state_from'') # with_lead (s # rs)"

definition history_states :: "sparkfn \<Rightarrow> string \<Rightarrow> row list \<Rightarrow> row list" where
  "history_states fn key history =
     (let events = map (\<lambda>r. r(''_state_from'' := event_time_of r,
            ''_state_deleted'' :=
              val_of_bool3 (eq3 (text_fn (fn_upper fn) (r ''_operation'')) (StrV ''DELETE'')))) history
      in concat (map (\<lambda>g. with_lead (sort_key
           (asc_nulls_last (''_state_from'' # order_field_names @ [''_history_event_id''])) g))
         (groups (\<lambda>r. r key) events)))"

definition composite_order_columns :: "sparkfn \<Rightarrow> (string \<times> (row \<times> row \<Rightarrow> val)) list" where
  "composite_order_columns fn =
     map (\<lambda>(name, ty). (name, \<lambda>(l, r). greatest [cast_v fn ty (l name), cast_v fn ty (r name)]))
       (zip order_field_names order_field_types)"

definition states_overlap :: "row \<Rightarrow> row \<Rightarrow> bool3" where
  "states_overlap a b =
     and3 (lt3 (a ''_state_from'') (coalesce [b ''_state_to'', open_end]))
          (lt3 (b ''_state_from'') (coalesce [a ''_state_to'', open_end]))"

text \<open>The row the code writes for a version: the selected columns, the key and the interval.\<close>

definition dim_row :: "scd2_spec \<Rightarrow> scd2_row \<Rightarrow> row" where
  "dim_row spec v = (v_attrs v)(surrogate_key spec := IntV (v_key v), ''effective_from'' := v_from v,
     ''effective_to'' := v_to v, ''is_current'' := BoolV (v_current v),
     ''is_deleted'' := BoolV (v_deleted v))"

definition with_unknown :: "bool \<Rightarrow> (string \<times> val) list \<Rightarrow> row list \<Rightarrow> row list" where
  "with_unknown include_unknown member rows =
     (if include_unknown
      then row_of (member @ [(''effective_from'', TsV 0), (''effective_to'', open_end),
             (''is_current'', BoolV True), (''is_deleted'', BoolV False)]) # rows
      else rows)"

section \<open>Shops\<close>

definition shop_spec :: scd2_spec where
  "shop_spec = \<lparr>source_key = ''source_shop_id'', surrogate_key = ''shop_key'',
     initial_effective_from = ''shop_created_at'', type1_columns = [],
     dimension_columns = [''source_shop_id'', ''public_shop_id'', ''shop_name'', ''shop_slug'',
       ''shop_status'', ''attribute_hash'', ''shop_created_at'']\<rparr>"

definition shop_event :: "sparkfn \<Rightarrow> row \<Rightarrow> row" where
  "shop_event fn = project
     ([(''source_shop_id'', \<lambda>r. r ''shop_id''), column ''public_shop_id'', column ''shop_name'',
       column ''shop_slug'', (''shop_status'', \<lambda>r. r ''status''),
       (''attribute_hash'', \<lambda>r. natural_hash fn
          [r ''public_shop_id'', r ''shop_name'', r ''shop_slug'', r ''status'']),
       (''shop_created_at'', \<lambda>r. r ''created_at'')] @ history_order_columns fn)"

definition unknown_shop :: "(string \<times> val) list" where
  "unknown_shop = [(''shop_key'', IntV 0), (''shop_name'', StrV ''Unknown Shop''),
     (''shop_status'', StrV ''unknown'')]"

definition build_dim_shop_from_history :: "sparkfn \<Rightarrow> string \<Rightarrow> bool \<Rightarrow> df \<Rightarrow> row list" where
  "build_dim_shop_from_history fn timezone include_unknown history =
     with_unknown include_unknown unknown_shop
       (map (dim_row shop_spec) (replay_single_entity_scd2 fn shop_spec
         (map (shop_event fn) (normalize_history_event_time fn timezone history))))"

section \<open>Categories\<close>

definition category_spec :: scd2_spec where
  "category_spec = \<lparr>source_key = ''source_category_id'', surrogate_key = ''category_key'',
     initial_effective_from = ''category_created_at'', type1_columns = [],
     dimension_columns = [''source_category_id'', ''source_parent_category_id'', ''category_name'',
       ''category_slug'', ''parent_category_name'', ''is_active'', ''attribute_hash'',
       ''category_created_at'']\<rparr>"

definition category_event_time :: "row \<times> row \<Rightarrow> val" where
  "category_event_time = (\<lambda>(c, p). greatest [c ''_state_from'',
     coalesce [p ''_state_from'', c ''_state_from'']])"

definition parent_name :: "row \<Rightarrow> val" where
  "parent_name p =
     case_when (not3 (coalesce3 (bool3_of (p ''_state_deleted'')) False)) (p ''category_name'') Null"

definition category_event :: "sparkfn \<Rightarrow> row \<times> row \<Rightarrow> row" where
  "category_event fn = project
     ([(''source_category_id'', \<lambda>(c, p). c ''category_id''),
       (''source_parent_category_id'', \<lambda>(c, p). c ''parent_category_id''),
       (''category_name'', \<lambda>(c, p). c ''category_name''),
       (''category_slug'', \<lambda>(c, p). c ''slug''),
       (''parent_category_name'', \<lambda>(c, p). parent_name p),
       (''is_active'', \<lambda>(c, p). c ''is_active''),
       (''attribute_hash'', \<lambda>(c, p). natural_hash fn
          [c ''parent_category_id'', c ''category_name'', c ''slug'', parent_name p, c ''is_active'']),
       (''category_created_at'', \<lambda>(c, p). c ''created_at''),
       (''_event_time'', category_event_time),
       (''_operation'', \<lambda>(c, p).
          case_when (bool3_of (c ''_state_deleted'')) (StrV ''DELETE'') (StrV ''UPDATE'')),
       (''_history_event_id'', \<lambda>(c, p). StrV (fn_sha2 fn (concat_ws fn ''||''
          [StrV ''category'', c ''_history_event_id'',
           coalesce [p ''_history_event_id'', StrV ''root''],
           as_string fn (category_event_time (c, p))])))] @
      composite_order_columns fn)"

definition category_overlaps :: "row list \<Rightarrow> (row \<times> row) list" where
  "category_overlaps states =
     left_join (\<lambda>c p. and3 (eq3 (c ''parent_category_id'') (p ''category_id'')) (states_overlap c p))
       states states"

definition unknown_category :: "(string \<times> val) list" where
  "unknown_category = [(''category_key'', IntV 0), (''category_name'', StrV ''Unknown Category''),
     (''category_slug'', StrV ''unknown''), (''is_active'', BoolV False)]"

definition build_dim_category_from_history :: "sparkfn \<Rightarrow> string \<Rightarrow> bool \<Rightarrow> df \<Rightarrow> row list" where
  "build_dim_category_from_history fn timezone include_unknown history =
     (let states = history_states fn ''category_id'' (normalize_history_event_time fn timezone history)
      in with_unknown include_unknown unknown_category
           (map (dim_row category_spec) (replay_single_entity_scd2 fn category_spec
             (map (category_event fn) (category_overlaps states)))))"

section \<open>Products and variants\<close>

definition product_spec :: scd2_spec where
  "product_spec = \<lparr>source_key = ''source_product_variant_id'', surrogate_key = ''product_key'',
     initial_effective_from = ''variant_created_at'',
     type1_columns = [''current_unit_price'', ''compare_at_price'', ''stock_quantity'',
       ''reserved_quantity''],
     dimension_columns = [''source_product_id'', ''source_product_variant_id'', ''source_shop_id'',
       ''source_category_id'', ''public_product_id'', ''public_variant_id'', ''product_sku'',
       ''product_slug'', ''product_name'', ''brand'', ''product_status'', ''is_featured'',
       ''variant_sku'', ''variant_name'', ''variant_status'', ''variant_options_json'',
       ''is_default_variant'', ''current_unit_price'', ''compare_at_price'', ''currency'',
       ''stock_quantity'', ''reserved_quantity'', ''weight_kg'', ''product_attributes_json'',
       ''product_images_json'', ''variant_images_json'', ''product_created_at'',
       ''variant_created_at'', ''attribute_hash'']\<rparr>"

definition product_event_time :: "row \<times> row \<Rightarrow> val" where
  "product_event_time = (\<lambda>(v, p). greatest [v ''_state_from'', p ''_state_from''])"

definition product_attribute_hash :: "sparkfn \<Rightarrow> row \<times> row \<Rightarrow> val" where
  "product_attribute_hash fn = (\<lambda>(v, p). natural_hash fn
     [p ''product_id'', p ''shop_id'', p ''category_id'', p ''public_product_id'',
      v ''public_variant_id'', p ''product_sku'', p ''product_slug'', p ''product_name'', p ''brand'',
      p ''status'', p ''is_featured'', v ''variant_sku'', v ''variant_name'', v ''status'',
      v ''options_json'', v ''is_default'', v ''currency'', v ''weight_kg'', p ''attributes_json'',
      p ''images_json'', v ''images_json''])"

definition product_event :: "sparkfn \<Rightarrow> row \<times> row \<Rightarrow> row" where
  "product_event fn = project
     ([(''source_product_id'', \<lambda>(v, p). p ''product_id''),
       (''source_product_variant_id'', \<lambda>(v, p). v ''product_variant_id''),
       (''source_shop_id'', \<lambda>(v, p). p ''shop_id''),
       (''source_category_id'', \<lambda>(v, p). p ''category_id''),
       (''public_product_id'', \<lambda>(v, p). p ''public_product_id''),
       (''public_variant_id'', \<lambda>(v, p). v ''public_variant_id''),
       (''product_sku'', \<lambda>(v, p). p ''product_sku''),
       (''product_slug'', \<lambda>(v, p). p ''product_slug''),
       (''product_name'', \<lambda>(v, p). p ''product_name''),
       (''brand'', \<lambda>(v, p). p ''brand''),
       (''product_status'', \<lambda>(v, p). p ''status''),
       (''is_featured'', \<lambda>(v, p). p ''is_featured''),
       (''variant_sku'', \<lambda>(v, p). v ''variant_sku''),
       (''variant_name'', \<lambda>(v, p). v ''variant_name''),
       (''variant_status'', \<lambda>(v, p). v ''status''),
       (''variant_options_json'', \<lambda>(v, p). v ''options_json''),
       (''is_default_variant'', \<lambda>(v, p). v ''is_default''),
       (''current_unit_price'', \<lambda>(v, p). v ''unit_price''),
       (''compare_at_price'', \<lambda>(v, p). v ''compare_at_price''),
       (''currency'', \<lambda>(v, p). v ''currency''),
       (''stock_quantity'', \<lambda>(v, p). v ''stock_quantity''),
       (''reserved_quantity'', \<lambda>(v, p). v ''reserved_quantity''),
       (''weight_kg'', \<lambda>(v, p). v ''weight_kg''),
       (''product_attributes_json'', \<lambda>(v, p). p ''attributes_json''),
       (''product_images_json'', \<lambda>(v, p). p ''images_json''),
       (''variant_images_json'', \<lambda>(v, p). v ''images_json''),
       (''product_created_at'', \<lambda>(v, p). p ''created_at''),
       (''variant_created_at'', \<lambda>(v, p). v ''created_at''),
       (''attribute_hash'', product_attribute_hash fn),
       (''_event_time'', product_event_time),
       (''_operation'', \<lambda>(v, p). case_when
          (or3 (bool3_of (v ''_state_deleted'')) (bool3_of (p ''_state_deleted'')))
          (StrV ''DELETE'') (StrV ''UPDATE'')),
       (''_history_event_id'', \<lambda>(v, p). StrV (fn_sha2 fn (concat_ws fn ''||''
          [StrV ''product'', p ''_history_event_id'', v ''_history_event_id'',
           as_string fn (product_event_time (v, p))])))] @
      composite_order_columns fn)"

definition product_overlaps :: "row list \<Rightarrow> row list \<Rightarrow> (row \<times> row) list" where
  "product_overlaps variants products =
     inner_join (\<lambda>v p. and3 (eq3 (v ''product_id'') (p ''product_id'')) (states_overlap v p))
       variants products"

definition unknown_product :: "(string \<times> val) list" where
  "unknown_product = [(''product_key'', IntV 0), (''product_sku'', StrV ''unknown''),
     (''product_name'', StrV ''Unknown Product''), (''product_status'', StrV ''unknown''),
     (''is_featured'', BoolV False), (''variant_sku'', StrV ''unknown''),
     (''variant_name'', StrV ''Unknown Variant''), (''variant_status'', StrV ''unknown''),
     (''is_default_variant'', BoolV False)]"

definition build_dim_product_from_history ::
    "sparkfn \<Rightarrow> string \<Rightarrow> bool \<Rightarrow> df \<Rightarrow> df \<Rightarrow> row list" where
  "build_dim_product_from_history fn timezone include_unknown product_history variant_history =
     (let products = history_states fn ''product_id''
            (normalize_history_event_time fn timezone product_history);
          variants = history_states fn ''product_variant_id''
            (normalize_history_event_time fn timezone variant_history)
      in with_unknown include_unknown unknown_product
           (map (dim_row product_spec) (replay_single_entity_scd2 fn product_spec
             (map (product_event fn) (product_overlaps variants products)))))"

section \<open>Customers\<close>

definition customer_spec :: scd2_spec where
  "customer_spec = \<lparr>source_key = ''source_customer_id'', surrogate_key = ''customer_key'',
     initial_effective_from = ''registered_at'', type1_columns = [''last_login_at''],
     dimension_columns = [''source_customer_id'', ''public_customer_id'', ''username'', ''email'',
       ''first_name'', ''last_name'', ''full_name'', ''phone_number'', ''customer_status'',
       ''attribute_hash'', ''registered_at'', ''last_login_at'']\<rparr>"

definition customer_history_event :: "sparkfn \<Rightarrow> row \<Rightarrow> row" where
  "customer_history_event fn = project
     ([(''source_customer_id'', \<lambda>r. r ''user_id''),
       (''public_customer_id'', \<lambda>r. r ''public_user_id''), column ''username'', column ''email'',
       column ''first_name'', column ''last_name'',
       (''full_name'', \<lambda>r. StrV (fn_trim fn (concat_ws fn '' '' [r ''first_name'', r ''last_name'']))),
       column ''phone_number'', (''customer_status'', \<lambda>r. r ''status''),
       (''attribute_hash'', \<lambda>r. natural_hash fn [r ''username'', r ''email'', r ''first_name'',
          r ''last_name'', r ''phone_number'', r ''status'']),
       (''registered_at'', \<lambda>r. r ''created_at''), (''last_login_at'', \<lambda>r. r ''last_login'')] @
      history_order_columns fn)"

definition unknown_customer :: "(string \<times> val) list" where
  "unknown_customer = [(''customer_key'', IntV 0), (''username'', StrV ''unknown''),
     (''full_name'', StrV ''Unknown Customer''), (''customer_status'', StrV ''unknown'')]"

definition build_dim_customer_from_history :: "sparkfn \<Rightarrow> string \<Rightarrow> bool \<Rightarrow> df \<Rightarrow> row list" where
  "build_dim_customer_from_history fn timezone include_unknown history =
     with_unknown include_unknown unknown_customer
       (map (dim_row customer_spec) (replay_single_entity_scd2 fn customer_spec
         (map (customer_history_event fn) (normalize_history_event_time fn timezone history))))"

end
