(* ===== verification/FactSales.thy ===== *)
theory FactSales
  imports Dimensions
begin

text \<open>
  The sales fact (\<open>transformations/gold/fact_sales.py\<close>): one row per order item, with the
  surrogate keys of the dimension versions valid at the order's creation and the order's money
  allocated to its lines. Money is in cents; Spark's decimal division (rounded half up at the scale
  of its result type) and \<open>bround\<close> (half even) are written out on integers.
\<close>

section \<open>Latest row of an order and first version of an entity\<close>

definition latest_by_order :: "string \<Rightarrow> string \<Rightarrow> row list \<Rightarrow> row list" where
  "latest_by_order order_column primary_key rs =
     List.map_filter (top_desc (\<lambda>r. [r order_column, r primary_key])) (groups (\<lambda>r. r ''order_id'') rs)"

definition first_scd2_version ::
    "string \<Rightarrow> string \<Rightarrow> string list \<Rightarrow> row list \<Rightarrow> row list" where
  "first_scd2_version source_key surrogate_key extra_columns dimension =
     map (\<lambda>g. select ([source_key, surrogate_key, ''effective_from''] @ extra_columns)
            (hd (sort_key (\<lambda>r. [r ''effective_from'', r surrogate_key]) g)))
       (groups (\<lambda>r. r source_key) (filter (\<lambda>r. r source_key \<noteq> Null) dimension))"

section \<open>Decimal arithmetic\<close>

definition round_half_up :: "int \<Rightarrow> int \<Rightarrow> int" where
  "round_half_up n d = (if n \<ge> 0 then (2 * n + d) div (2 * d) else - ((2 * (- n) + d) div (2 * d)))"

definition round_half_even :: "int \<Rightarrow> int \<Rightarrow> int" where
  "round_half_even n d =
     (let q = n div d; r = n mod d
      in if 2 * r < d then q else if d < 2 * r then q + 1 else if even q then q else q + 1)"

text \<open>\<open>bround(amount * weight / weight_total, 2)\<close>, the quotient kept to \<open>scale\<close> decimals.\<close>

definition bround_share :: "nat \<Rightarrow> int \<Rightarrow> int \<Rightarrow> int \<Rightarrow> int" where
  "bround_share scale amount weight weight_total =
     round_half_even (round_half_up (amount * weight * 10 ^ (scale - 2)) weight_total) (10 ^ (scale - 2))"

definition cast_decimal :: "nat \<Rightarrow> val \<Rightarrow> val" where
  "cast_decimal p v = (case v of
     DecV a \<Rightarrow> if - (10 ^ p) < a \<and> a < 10 ^ p then DecV a else Null
   | IntV a \<Rightarrow> if - (10 ^ (p - 2)) < a \<and> a < 10 ^ (p - 2) then DecV (100 * a) else Null
   | _ \<Rightarrow> Null)"

fun mul_int_dec :: "val \<Rightarrow> val \<Rightarrow> val" where
  "mul_int_dec (IntV q) (DecV p) = DecV (q * p)"
| "mul_int_dec _ _ = Null"

section \<open>Residual allocation\<close>

definition raw_share :: "nat \<Rightarrow> val \<Rightarrow> val \<Rightarrow> val \<Rightarrow> val" where
  "raw_share scale amount weight weight_total =
     (case weight_total of
        DecV wt \<Rightarrow>
          if wt > 0 then
            (case (amount, weight) of (DecV t, DecV w) \<Rightarrow> DecV (bround_share scale t w wt) | _ \<Rightarrow> Null)
          else DecV 0
      | _ \<Rightarrow> DecV 0)"

text \<open>Position of the row with \<open>row_number() = 1\<close> in descending order of \<open>f\<close>.\<close>

definition top_index :: "('a \<Rightarrow> val) \<Rightarrow> 'a list \<Rightarrow> nat" where
  "top_index f xs =
     (case find (\<lambda>i. \<forall>x \<in> set xs. f x \<le> f (xs ! i)) [0..<length xs] of None \<Rightarrow> 0 | Some i \<Rightarrow> i)"

definition residual_allocation ::
    "nat \<Rightarrow> ('a \<Rightarrow> val) \<Rightarrow> ('a \<Rightarrow> val) \<Rightarrow> ('a \<Rightarrow> val) \<Rightarrow> ('a \<Rightarrow> val) \<Rightarrow> 'a list \<Rightarrow> val list" where
  "residual_allocation scale amount weight weight_total order_item_id lines =
     (let raw = (\<lambda>x. raw_share scale (amount x) (weight x) (weight_total x));
          raw_sum = sum_v (map raw lines);
          last_line = top_index order_item_id lines
      in map (\<lambda>i. let x = lines ! i
                   in if i = last_line then sub_v (amount x) (sub_v raw_sum (raw x)) else raw x)
             [0..<length lines])"

section \<open>The joined lines\<close>

record joined =
  j_item :: row
  j_order :: row
  j_customer :: row
  j_first_customer :: row
  j_product :: row
  j_first_product :: row
  j_shop :: row
  j_first_shop :: row
  j_category :: row
  j_first_category :: row
  j_payment :: row
  j_shipment :: row
  j_promo :: row

definition in_version :: "row \<Rightarrow> row \<Rightarrow> bool3" where
  "in_version ord v = and3 (ge3 (ord ''created_at'') (v ''effective_from''))
                           (lt3 (ord ''created_at'') (v ''effective_to''))"

definition versions :: "string \<Rightarrow> string list \<Rightarrow> row list \<Rightarrow> row list" where
  "versions source_key cols dimension =
     map (select (source_key # cols @ [''effective_from'', ''effective_to'']))
       (filter (\<lambda>r. r source_key \<noteq> Null) dimension)"

definition joined_category_id :: "joined \<Rightarrow> val" where
  "joined_category_id j =
     coalesce [j_product j ''source_category_id'', j_first_product j ''source_category_id'']"

text \<open>\<open>left join\<close> that stores the matched row in a field of the joined line.\<close>

definition join_field ::
    "((row \<Rightarrow> row) \<Rightarrow> joined \<Rightarrow> joined) \<Rightarrow> (joined \<Rightarrow> row \<Rightarrow> bool3) \<Rightarrow> row list \<Rightarrow> joined list \<Rightarrow> joined list"
  where "join_field upd on rs js = map (\<lambda>(j, r). upd (\<lambda>_. r) j) (left_join on js rs)"

definition joined_item :: "row \<Rightarrow> joined" where
  "joined_item oi = \<lparr>j_item = oi, j_order = null_row, j_customer = null_row,
     j_first_customer = null_row, j_product = null_row, j_first_product = null_row,
     j_shop = null_row, j_first_shop = null_row, j_category = null_row,
     j_first_category = null_row, j_payment = null_row, j_shipment = null_row, j_promo = null_row\<rparr>"

record fact_inputs =
  f_orders :: "row list"
  f_order_items :: "row list"
  f_payments :: "row list"
  f_shipments :: "row list"
  f_order_vouchers :: "row list"
  f_vouchers :: "row list"
  f_dim_customer :: "row list"
  f_dim_product :: "row list"
  f_dim_shop :: "row list"
  f_dim_category :: "row list"

definition joined_lines :: "sparkfn \<Rightarrow> fact_inputs \<Rightarrow> joined list" where
  "joined_lines fn d =
    (let payments = latest_by_order ''updated_at'' ''payment_id'' (f_payments d);
         shipments = latest_by_order ''updated_at'' ''shipment_id'' (f_shipments d);
         promotions = map (select [''order_id'', ''promotion_key''])
           (order_promotion_keys fn (f_order_vouchers d) (f_vouchers d));
         by_order = (\<lambda>j r. eq3 (j_item j ''order_id'') (r ''order_id''));
         j0 = map joined_item (f_order_items d);
         j1 = join_field j_order_update by_order (f_orders d) j0;
         j2 = join_field j_customer_update
           (\<lambda>j v. and3 (eq3 (j_order j ''customer_id'') (v ''source_customer_id'')) (in_version (j_order j) v))
           (versions ''source_customer_id'' [''customer_key''] (f_dim_customer d)) j1;
         j3 = join_field j_first_customer_update
           (\<lambda>j v. eq3 (j_order j ''customer_id'') (v ''source_customer_id''))
           (first_scd2_version ''source_customer_id'' ''customer_key'' [] (f_dim_customer d)) j2;
         j4 = join_field j_product_update
           (\<lambda>j v. and3 (eq3 (j_item j ''product_variant_id'') (v ''source_product_variant_id''))
              (in_version (j_order j) v))
           (versions ''source_product_variant_id'' [''source_category_id'', ''product_key''] (f_dim_product d)) j3;
         j5 = join_field j_first_product_update
           (\<lambda>j v. eq3 (j_item j ''product_variant_id'') (v ''source_product_variant_id''))
           (first_scd2_version ''source_product_variant_id'' ''product_key'' [''source_category_id'']
             (f_dim_product d)) j4;
         j6 = join_field j_shop_update
           (\<lambda>j v. and3 (eq3 (j_item j ''shop_id'') (v ''source_shop_id'')) (in_version (j_order j) v))
           (versions ''source_shop_id'' [''shop_key''] (f_dim_shop d)) j5;
         j7 = join_field j_first_shop_update
           (\<lambda>j v. eq3 (j_item j ''shop_id'') (v ''source_shop_id''))
           (first_scd2_version ''source_shop_id'' ''shop_key'' [] (f_dim_shop d)) j6;
         j8 = join_field j_category_update
           (\<lambda>j v. and3 (eq3 (joined_category_id j) (v ''source_category_id'')) (in_version (j_order j) v))
           (versions ''source_category_id'' [''category_key''] (f_dim_category d)) j7;
         j9 = join_field j_first_category_update
           (\<lambda>j v. eq3 (joined_category_id j) (v ''source_category_id''))
           (first_scd2_version ''source_category_id'' ''category_key'' [] (f_dim_category d)) j8;
         j10 = join_field j_payment_update by_order payments j9;
         j11 = join_field j_shipment_update by_order shipments j10
     in join_field j_promo_update by_order promotions j11)"

section \<open>The money of an order\<close>

record money =
  m_gross :: val
  m_order_discount_allocated :: val
  m_shipping_allocated :: val
  m_total_discount :: val
  m_net_sales :: val

definition line_gross :: "joined \<Rightarrow> val" where
  "line_gross j = cast_decimal 18 (mul_int_dec (j_item j ''quantity'') (j_item j ''unit_price''))"

definition order_money :: "joined list \<Rightarrow> money list" where
  "order_money lines =
    (let gross_total = sum_v (map line_gross lines);
         line_discount_total = sum_v (map (\<lambda>j. j_item j ''discount_amount'') lines);
         order_discount_total =
           (\<lambda>j. greatest [sub_v (j_order j ''discount_amount'') line_discount_total, DecV 0]);
         ident = (\<lambda>j. j_item j ''order_item_id'');
         order_allocated = residual_allocation 6 order_discount_total line_gross (\<lambda>_. gross_total) ident lines;
         shipping_allocated =
           residual_allocation 9 (\<lambda>j. j_order j ''shipping_amount'') line_gross (\<lambda>_. gross_total) ident lines;
         discount_allocated =
           residual_allocation 9 (\<lambda>j. j_order j ''discount_amount'') line_gross (\<lambda>_. gross_total) ident lines
     in map (\<lambda>i. let j = lines ! i;
                      total_discount =
                        (if holds (ge3 (j_order j ''discount_amount'') line_discount_total)
                         then add_v (j_item j ''discount_amount'') (order_allocated ! i)
                         else discount_allocated ! i)
                  in \<lparr>m_gross = line_gross j,
                      m_order_discount_allocated = order_allocated ! i,
                      m_shipping_allocated = shipping_allocated ! i,
                      m_total_discount = total_discount,
                      m_net_sales = sub_v (add_v (add_v (line_gross j) (j_item j ''tax_amount''))
                                             (shipping_allocated ! i)) total_discount\<rparr>)
            [0..<length lines])"

section \<open>The fact rows\<close>

definition prehistory_key :: "joined \<Rightarrow> row \<Rightarrow> string \<Rightarrow> val" where
  "prehistory_key j first key =
     case_when (lt3 (j_order j ''created_at'') (first ''effective_from'')) (first key) Null"

definition hashed_key :: "sparkfn \<Rightarrow> val \<Rightarrow> val \<Rightarrow> val" where
  "hashed_key fn a b =
     (if a = Null \<and> b = Null then IntV 0 else IntV (positive_hash_key fn (natural_hash fn [a, b])))"

definition fact_row :: "sparkfn \<Rightarrow> joined \<Rightarrow> money \<Rightarrow> row" where
  "fact_row fn j m =
    (let oi = j_item j; ord = j_order j; zero = IntV 0 in row_of [
      (''sales_key'', IntV (positive_hash_key fn
         (StrV (concat_ws fn ''||'' [oi ''order_id'', oi ''order_item_id''])))),
      (''order_date_key'', coalesce [date_part fn ''yyyyMMdd'' (to_date (ord ''created_at'')), zero]),
      (''order_time_key'', coalesce [second_of_day_key (ord ''created_at''), zero]),
      (''customer_key'', coalesce [j_customer j ''customer_key'',
         prehistory_key j (j_first_customer j) ''customer_key'', zero]),
      (''product_key'', coalesce [j_product j ''product_key'',
         prehistory_key j (j_first_product j) ''product_key'', zero]),
      (''shop_key'', coalesce [j_shop j ''shop_key'',
         prehistory_key j (j_first_shop j) ''shop_key'', zero]),
      (''category_key'', coalesce [j_category j ''category_key'',
         prehistory_key j (j_first_category j) ''category_key'', zero]),
      (''promotion_key'', coalesce [j_promo j ''promotion_key'', zero]),
      (''payment_key'', hashed_key fn (j_payment j ''payment_method'') (j_payment j ''payment_status'')),
      (''shipping_key'', hashed_key fn (j_shipment j ''carrier'') (j_shipment j ''shipment_status'')),
      (''ship_to_location_key'', IntV (positive_hash_key fn
         (location_hash_from_json fn (ord ''shipping_address_snapshot'')))),
      (''bill_to_location_key'', IntV (positive_hash_key fn
         (location_hash_from_json fn (ord ''billing_address_snapshot'')))),
      (''source_order_id'', oi ''order_id''),
      (''source_order_item_id'', oi ''order_item_id''),
      (''order_number'', ord ''order_number''),
      (''order_status'', ord ''order_status''),
      (''payment_status'', ord ''payment_status''),
      (''source_customer_id'', ord ''customer_id''),
      (''source_product_id'', oi ''product_id''),
      (''source_product_variant_id'', oi ''product_variant_id''),
      (''source_shop_id'', oi ''shop_id''),
      (''source_category_id'', joined_category_id j),
      (''currency'', oi ''currency''),
      (''quantity'', oi ''quantity''),
      (''unit_price_amount'', cast_decimal 18 (oi ''unit_price'')),
      (''gross_sales_amount'', cast_decimal 18 (m_gross m)),
      (''line_discount_amount'', cast_decimal 18 (oi ''discount_amount'')),
      (''order_discount_amount_allocated'', cast_decimal 18 (m_order_discount_allocated m)),
      (''total_discount_amount'', cast_decimal 18 (m_total_discount m)),
      (''tax_amount'', cast_decimal 18 (oi ''tax_amount'')),
      (''shipping_amount_allocated'', cast_decimal 18 (m_shipping_allocated m)),
      (''net_sales_amount'', cast_decimal 18 (m_net_sales m)),
      (''order_created_at'', ord ''created_at''),
      (''order_item_created_at'', oi ''created_at'')])"

definition build_fact_sales :: "sparkfn \<Rightarrow> fact_inputs \<Rightarrow> row list" where
  "build_fact_sales fn d =
     concat (map (\<lambda>lines. map2 (fact_row fn) lines (order_money lines))
       (groups (\<lambda>j. j_item j ''order_id'') (joined_lines fn d)))"

section \<open>The allocation spends the whole amount\<close>

fun dec_of :: "val \<Rightarrow> int" where
  "dec_of (DecV a) = a"
| "dec_of _ = 0"

definition is_dec :: "val \<Rightarrow> bool" where
  "is_dec v \<longleftrightarrow> v = DecV (dec_of v)"

lemma is_dec_simps [simp]: "is_dec (DecV a)" "\<not> is_dec Null"
  by (simp_all add: is_dec_def)

lemma fold_add_dec: "fold (\<lambda>x a. add_v a x) (map DecV xs) (DecV a) = DecV (a + sum_list xs)"
  by (induction xs arbitrary: a) auto

lemma sum_v_dec: "xs \<noteq> [] \<Longrightarrow> sum_v (map DecV xs) = DecV (sum_list xs)"
  by (cases xs) (auto simp: sum_v_def filter_map comp_def fold_add_dec)

lemma sum_v_dec_map: "xs \<noteq> [] \<Longrightarrow> sum_v (map (\<lambda>x. DecV (g x)) xs) = DecV (\<Sum>x\<leftarrow>xs. g x)"
  using sum_v_dec [of "map g xs"] by (simp add: comp_def)

lemma sum_v_dec_of:
  assumes "xs \<noteq> []" "\<forall>x \<in> set xs. is_dec (f x)"
  shows "sum_v (map f xs) = DecV (\<Sum>x\<leftarrow>xs. dec_of (f x))"
proof -
  have "map f xs = map (\<lambda>x. DecV (dec_of (f x))) xs"
    using assms(2) by (intro map_cong) (auto simp only: is_dec_def)
  then show ?thesis using sum_v_dec_map assms(1) by metis
qed

lemma top_index_less:
  assumes "xs \<noteq> []"
  shows "top_index f xs < length xs"
proof -
  obtain x where "x \<in> set xs" "f x = Max (f ` set xs)"
    using Max_in [of "f ` set xs"] assms by fastforce
  then obtain i where "i < length xs" "\<forall>x \<in> set xs. f x \<le> f (xs ! i)"
    by (metis List.finite_set Max_ge finite_imageI image_eqI in_set_conv_nth)
  then have "find (\<lambda>i. \<forall>x \<in> set xs. f x \<le> f (xs ! i)) [0..<length xs] \<noteq> None"
    by (auto simp: find_None_iff)
  then obtain j where j: "find (\<lambda>i. \<forall>x \<in> set xs. f x \<le> f (xs ! i)) [0..<length xs] = Some j"
    by auto
  then have "j < length xs" by (auto simp: find_Some_iff)
  with j show ?thesis by (simp add: top_index_def)
qed

lemma sum_list_replace:
  assumes "k < n"
  shows "(\<Sum>i\<leftarrow>[0..<n]. if i = k then c else g i) = (\<Sum>i\<leftarrow>[0..<n]. g i) - g k + (c :: int)"
  using assms by (induction n) (auto simp: less_Suc_eq intro!: arg_cong [where f = sum_list])

lemma sum_list_upt_nth: "(\<Sum>i\<leftarrow>[0..<length xs]. g (xs ! i)) = (\<Sum>x\<leftarrow>xs. g x)" for g :: "'a \<Rightarrow> int"
proof -
  have "map (\<lambda>i. g (xs ! i)) [0..<length xs] = map g xs" by (rule nth_equalityI) simp_all
  then show ?thesis by (simp only:)
qed

lemma residual_allocation_ints:
  assumes "lines \<noteq> []" "\<forall>x \<in> set lines. amount x = DecV T"
    and "\<forall>x \<in> set lines. is_dec (weight x)" "\<forall>x \<in> set lines. weight_total x = DecV W"
  shows "\<exists>ds. residual_allocation scale amount weight weight_total ident lines = map DecV ds \<and>
    length ds = length lines \<and> sum_list ds = T"
proof -
  define r where "r x = (if W > 0 then bround_share scale T (dec_of (weight x)) W else 0)" for x
  have raw: "raw_share scale (amount x) (weight x) (weight_total x) = DecV (r x)" if "x \<in> set lines" for x
  proof -
    from that assms(3) obtain w where "weight x = DecV w" by (auto simp: is_dec_def)
    with that assms show ?thesis by (simp add: raw_share_def r_def)
  qed
  then have eq: "map (\<lambda>x. raw_share scale (amount x) (weight x) (weight_total x)) lines =
      map (\<lambda>x. DecV (r x)) lines" by simp
  then have R: "sum_v (map (\<lambda>x. raw_share scale (amount x) (weight x) (weight_total x)) lines) =
      DecV (\<Sum>x\<leftarrow>lines. r x)"
    unfolding eq using sum_v_dec_map assms(1) by simp
  let ?k = "top_index ident lines"
  let ?d = "\<lambda>i. if i = ?k then T - ((\<Sum>x\<leftarrow>lines. r x) - r (lines ! ?k)) else r (lines ! i)"
  have "residual_allocation scale amount weight weight_total ident lines =
      map DecV (map ?d [0..<length lines])"
    unfolding residual_allocation_def Let_def R map_map
    using raw assms(2) top_index_less [OF assms(1)] by (intro map_cong) auto
  moreover have "sum_list (map ?d [0..<length lines]) = T"
    using top_index_less [OF assms(1)] by (simp add: sum_list_replace sum_list_upt_nth)
  moreover have "length (map ?d [0..<length lines]) = length lines" by simp
  ultimately show ?thesis by blast
qed

text \<open>
  C33. Allocating an order's amount (its discount or shipping cost) to its lines in proportion to
  their weights loses and creates nothing: the allocated amounts add up to the amount exactly,
  whatever the rounding of the shares.
\<close>

theorem residual_allocation_exact:
  assumes "lines \<noteq> []" and "\<forall>x \<in> set lines. amount x = DecV T"
    and "\<forall>x \<in> set lines. is_dec (weight x)" and "\<forall>x \<in> set lines. weight_total x = DecV W"
  shows "sum_v (residual_allocation scale amount weight weight_total ident lines) = DecV T"
proof -
  obtain ds where ds: "residual_allocation scale amount weight weight_total ident lines = map DecV ds"
      "length ds = length lines" "sum_list ds = T"
    using residual_allocation_ints [OF assms] by blast
  then show ?thesis using sum_v_dec [of ds] assms(1) by force
qed

theorem residual_allocation_exact_witness:
  "sum_v (residual_allocation 9 (\<lambda>_. DecV 100) (\<lambda>i. DecV 333) (\<lambda>_. DecV 999) IntV [1, 2, 3]) = DecV 100"
  by (rule residual_allocation_exact [where W = 999]) simp_all

section \<open>An order's lines add up to its header\<close>

definition money_line :: "row \<Rightarrow> joined \<Rightarrow> bool" where
  "money_line ord j \<longleftrightarrow> j_order j ''shipping_amount'' = ord ''shipping_amount'' \<and>
     j_order j ''discount_amount'' = ord ''discount_amount'' \<and> is_dec (line_gross j) \<and>
     is_dec (j_item j ''discount_amount'') \<and> is_dec (j_item j ''tax_amount'')"

lemma is_decE: "is_dec v \<Longrightarrow> (\<And>a. v = DecV a \<Longrightarrow> P) \<Longrightarrow> P"
  by (simp add: is_dec_def)

lemma sum_list_upt_nth_list: "(\<Sum>i\<leftarrow>[0..<length xs]. xs ! i) = sum_list xs" for xs :: "int list"
  by (simp add: map_nth)

lemma length_order_money [simp]: "length (order_money lines) = length lines"
  by (simp add: order_money_def Let_def)

lemma order_money_sums:
  assumes ne: "lines \<noteq> []" and ml: "\<forall>j \<in> set lines. money_line ord j"
    and S: "ord ''shipping_amount'' = DecV S" and D: "ord ''discount_amount'' = DecV D"
  obtains ships discs where "map m_shipping_allocated (order_money lines) = map DecV ships"
    "map m_total_discount (order_money lines) = map DecV discs"
    "map m_net_sales (order_money lines) = map (\<lambda>i. DecV (dec_of (line_gross (lines ! i)) +
       dec_of (j_item (lines ! i) ''tax_amount'') + ships ! i - discs ! i)) [0..<length lines]"
    "length ships = length lines" "length discs = length lines" "sum_list ships = S" "sum_list discs = D"
proof -
  let ?ident = "\<lambda>j. j_item j ''order_item_id''"
  let ?L = "\<Sum>j\<leftarrow>lines. dec_of (j_item j ''discount_amount'')"
  have W: "sum_v (map line_gross lines) = DecV (\<Sum>j\<leftarrow>lines. dec_of (line_gross j))"
    using sum_v_dec_of [OF ne, of line_gross] ml by (simp add: money_line_def)
  have L: "sum_v (map (\<lambda>j. j_item j ''discount_amount'') lines) = DecV ?L"
    using sum_v_dec_of [OF ne, of "\<lambda>j. j_item j ''discount_amount''"] ml by (simp add: money_line_def)
  have g: "\<forall>j \<in> set lines. is_dec (line_gross j)"
    and s: "\<forall>j \<in> set lines. j_order j ''shipping_amount'' = DecV S"
    and d: "\<forall>j \<in> set lines. j_order j ''discount_amount'' = DecV D"
    using ml S D by (simp_all add: money_line_def)
  have od: "\<forall>j \<in> set lines. greatest [sub_v (j_order j ''discount_amount'') (DecV ?L), DecV 0] =
      DecV (max (D - ?L) 0)"
    using d by (simp add: max_def)
  obtain ships where ships: "residual_allocation 9 (\<lambda>j. j_order j ''shipping_amount'') line_gross
      (\<lambda>_. DecV (\<Sum>j\<leftarrow>lines. dec_of (line_gross j))) ?ident lines = map DecV ships"
      "length ships = length lines" "sum_list ships = S"
    using residual_allocation_ints [OF ne s g, of "\<lambda>_. DecV (\<Sum>j\<leftarrow>lines. dec_of (line_gross j))"] by blast
  obtain als where als: "residual_allocation 9 (\<lambda>j. j_order j ''discount_amount'') line_gross
      (\<lambda>_. DecV (\<Sum>j\<leftarrow>lines. dec_of (line_gross j))) ?ident lines = map DecV als"
      "length als = length lines" "sum_list als = D"
    using residual_allocation_ints [OF ne d g, of "\<lambda>_. DecV (\<Sum>j\<leftarrow>lines. dec_of (line_gross j))"] by blast
  obtain ods where ods: "residual_allocation 6 (\<lambda>j. greatest [sub_v (j_order j ''discount_amount'')
        (DecV ?L), DecV 0]) line_gross
      (\<lambda>_. DecV (\<Sum>j\<leftarrow>lines. dec_of (line_gross j))) ?ident lines = map DecV ods"
      "length ods = length lines" "sum_list ods = max (D - ?L) 0"
    using residual_allocation_ints [OF ne od g, of "\<lambda>_. DecV (\<Sum>j\<leftarrow>lines. dec_of (line_gross j))"] by blast
  define discs where "discs = (if ?L \<le> D
      then map (\<lambda>i. dec_of (j_item (lines ! i) ''discount_amount'') + ods ! i) [0..<length lines] else als)"
  have dsum: "sum_list discs = D" and dlen: "length discs = length lines"
    using als ods sum_list_upt_nth_list [of ods]
      sum_list_upt_nth [of "\<lambda>j. dec_of (j_item j ''discount_amount'')" lines]
    by (auto simp: discs_def sum_list_addf)
  have item: "j_item (lines ! i) ''discount_amount'' = DecV (dec_of (j_item (lines ! i) ''discount_amount''))"
      "line_gross (lines ! i) = DecV (dec_of (line_gross (lines ! i)))"
      "j_item (lines ! i) ''tax_amount'' = DecV (dec_of (j_item (lines ! i) ''tax_amount''))"
      "j_order (lines ! i) ''discount_amount'' = DecV D" if "i < length lines" for i
    using that ml D by (auto simp: money_line_def is_dec_def)
  note om = order_money_def [of lines] Let_def W L ships(1) als(1) ods(1)
  have sh: "map m_shipping_allocated (order_money lines) = map DecV ships"
    unfolding om using ships(2) by (intro nth_equalityI) auto
  have td: "map m_total_discount (order_money lines) = map DecV discs"
  proof (rule nth_equalityI)
    show "length (map m_total_discount (order_money lines)) = length (map DecV discs)"
      using dlen by (simp add: order_money_def Let_def)
    fix i assume "i < length (map m_total_discount (order_money lines))"
    then have i: "i < length lines" by (simp add: order_money_def Let_def)
    obtain x where x: "j_item (lines ! i) ''discount_amount'' = DecV x" using item(1) [OF i] by metis
    show "map m_total_discount (order_money lines) ! i = map DecV discs ! i"
      unfolding om using i als(2) ods(2) x item(4) [OF i] by (simp add: discs_def)
  qed
  have nth: "m_shipping_allocated (order_money lines ! i) = DecV (ships ! i)"
      "m_total_discount (order_money lines ! i) = DecV (discs ! i)" if "i < length lines" for i
    using arg_cong [OF sh, of "\<lambda>xs. xs ! i"] arg_cong [OF td, of "\<lambda>xs. xs ! i"] that ships(2) dlen
    by simp_all
  have net: "m_net_sales (order_money lines ! i) =
      sub_v (add_v (add_v (line_gross (lines ! i)) (j_item (lines ! i) ''tax_amount''))
        (m_shipping_allocated (order_money lines ! i))) (m_total_discount (order_money lines ! i))"
    if "i < length lines" for i
    using that by (simp add: order_money_def Let_def)
  have "map m_net_sales (order_money lines) = map (\<lambda>i. DecV (dec_of (line_gross (lines ! i)) +
       dec_of (j_item (lines ! i) ''tax_amount'') + ships ! i - discs ! i)) [0..<length lines]"
  proof (rule nth_equalityI)
    show "length (map m_net_sales (order_money lines)) = length (map (\<lambda>i. DecV (dec_of (line_gross (lines ! i)) +
       dec_of (j_item (lines ! i) ''tax_amount'') + ships ! i - discs ! i)) [0..<length lines])"
      by simp
    fix i assume "i < length (map m_net_sales (order_money lines))"
    then have i: "i < length lines" by simp
    obtain g t where "line_gross (lines ! i) = DecV g" "j_item (lines ! i) ''tax_amount'' = DecV t"
      using item [OF i] by metis
    then show "map m_net_sales (order_money lines) ! i = map (\<lambda>i. DecV (dec_of (line_gross (lines ! i)) +
       dec_of (j_item (lines ! i) ''tax_amount'') + ships ! i - discs ! i)) [0..<length lines] ! i"
      using i net [OF i] nth [OF i] by simp
  qed
  with sh td ships dsum dlen that show ?thesis by blast
qed

text \<open>
  Reconciliation of an order: the shipping allocated to its lines adds up to the order's
  shipping amount, the total discount of its lines to the order's discount (also when the lines'
  own discounts exceed it), and the lines' net sales to gross plus tax plus shipping minus discount.
\<close>

theorem order_money_reconciles:
  assumes "lines \<noteq> []" and "\<forall>j \<in> set lines. money_line ord j"
    and "ord ''shipping_amount'' = DecV S" and "ord ''discount_amount'' = DecV D"
  shows "sum_v (map m_shipping_allocated (order_money lines)) = DecV S \<and>
    sum_v (map m_total_discount (order_money lines)) = DecV D \<and>
    sum_v (map m_net_sales (order_money lines)) =
      DecV ((\<Sum>j\<leftarrow>lines. dec_of (line_gross j)) + (\<Sum>j\<leftarrow>lines. dec_of (j_item j ''tax_amount'')) + S - D)"
proof -
  obtain ships discs where s: "map m_shipping_allocated (order_money lines) = map DecV ships"
    "map m_total_discount (order_money lines) = map DecV discs"
    "map m_net_sales (order_money lines) = map (\<lambda>i. DecV (dec_of (line_gross (lines ! i)) +
       dec_of (j_item (lines ! i) ''tax_amount'') + ships ! i - discs ! i)) [0..<length lines]"
    "length ships = length lines" "length discs = length lines" "sum_list ships = S" "sum_list discs = D"
    using order_money_sums [OF assms] by blast
  have "sum_v (map m_net_sales (order_money lines)) = DecV (\<Sum>i\<leftarrow>[0..<length lines].
      dec_of (line_gross (lines ! i)) + dec_of (j_item (lines ! i) ''tax_amount'') + ships ! i - discs ! i)"
    unfolding s(3) using assms(1) by (intro sum_v_dec_map) simp
  also have "\<dots> = DecV ((\<Sum>j\<leftarrow>lines. dec_of (line_gross j)) +
      (\<Sum>j\<leftarrow>lines. dec_of (j_item j ''tax_amount'')) + S - D)"
    using sum_list_upt_nth [of "\<lambda>j. dec_of (line_gross j)" lines]
      sum_list_upt_nth [of "\<lambda>j. dec_of (j_item j ''tax_amount'')" lines]
      sum_list_upt_nth_list [of ships] sum_list_upt_nth_list [of discs] s(4-7)
    by (simp add: sum_list_addf sum_list_subtractf)
  finally show ?thesis
    using sum_v_dec [of ships] sum_v_dec [of discs] s(1,2,4-7) assms(1) by force
qed

definition demo_line :: "int \<Rightarrow> int \<Rightarrow> int \<Rightarrow> joined" where
  "demo_line i price discount =
     (joined_item (row_of [(''order_id'', IntV 1), (''order_item_id'', IntV i), (''quantity'', IntV 1),
        (''unit_price'', DecV price), (''discount_amount'', DecV discount), (''tax_amount'', DecV 7)]))
     \<lparr>j_order := row_of [(''shipping_amount'', DecV 500), (''discount_amount'', DecV 100)]\<rparr>"

theorem order_money_reconciles_witness:
  "sum_v (map m_net_sales (order_money [demo_line 1 999 10, demo_line 2 333 0, demo_line 3 333 5])) =
   DecV (1665 + 21 + 500 - 100)"
  using order_money_reconciles [of "[demo_line 1 999 10, demo_line 2 333 0, demo_line 3 333 5]"
      "row_of [(''shipping_amount'', DecV 500), (''discount_amount'', DecV 100)]" 500 100]
  by (simp add: demo_line_def joined_item_def money_line_def row_of_def line_gross_def cast_decimal_def)

section \<open>The grain of the fact\<close>

lemma join_field_items:
  assumes "at_most_one on js rs" "\<And>f j. j_item (upd f j) = j_item j"
  shows "map j_item (join_field upd on rs js) = map j_item js"
proof -
  have "map j_item (join_field upd on rs js) = map j_item (map fst (left_join on js rs))"
    unfolding join_field_def map_map by (intro map_cong) (auto simp: assms(2))
  then show ?thesis using left_join_fst [OF assms(1)] by simp
qed

definition disjoint_versions :: "string \<Rightarrow> row list \<Rightarrow> bool" where
  "disjoint_versions source_key dim \<longleftrightarrow> sorted_wrt (\<lambda>v w. v source_key = w source_key \<longrightarrow>
     v ''effective_to'' \<le> w ''effective_from'' \<or> w ''effective_to'' \<le> v ''effective_from'') dim"

lemma versions_at_most_one:
  assumes "disjoint_versions k dim" "k \<notin> {''effective_from'', ''effective_to''}"
    and "\<And>l r. holds (on l r) \<Longrightarrow> r k = g l \<and> holds (in_version (h l) r)"
  shows "at_most_one on ls (versions k cols dim)"
  unfolding at_most_one_def
proof
  fix l
  let ?sel = "select (k # cols @ [''effective_from'', ''effective_to''])"
  have "sorted_wrt (\<lambda>x y. \<not> (holds (on l x) \<and> holds (on l y))) (map ?sel (filter (\<lambda>r. r k \<noteq> Null) dim))"
    unfolding sorted_wrt_map
  proof (rule sorted_wrt_mono_rel [rotated])
    show "sorted_wrt (\<lambda>v w :: row. v k = w k \<longrightarrow> v ''effective_to'' \<le> w ''effective_from'' \<or>
        w ''effective_to'' \<le> v ''effective_from'') (filter (\<lambda>r. r k \<noteq> Null) dim)"
      using assms(1) unfolding disjoint_versions_def by (rule sorted_wrt_filter)
    fix v w :: row assume d: "v k = w k \<longrightarrow> v ''effective_to'' \<le> w ''effective_from'' \<or>
        w ''effective_to'' \<le> v ''effective_from''"
    show "\<not> (holds (on l (?sel v)) \<and> holds (on l (?sel w)))"
    proof
      assume "holds (on l (?sel v)) \<and> holds (on l (?sel w))"
      then have "v k = w k" "holds (in_version (h l) (?sel v))" "holds (in_version (h l) (?sel w))"
        using assms(3) [of l "?sel v"] assms(3) [of l "?sel w"] by (auto simp: select_def)
      with d show False by (auto simp: in_version_def select_def)
    qed
  qed
  then show "length (filter (\<lambda>r. holds (on l r)) (versions k cols dim)) \<le> 1"
    unfolding versions_def by (rule length_filter_le1)
qed

lemma mset_concat_map_groups:
  assumes "\<And>g. g \<in> set (groups f xs) \<Longrightarrow> map h (F g) = map h' g"
  shows "mset (map h (concat (map F (groups f xs)))) = mset (map h' xs)"
proof -
  have "map h (concat (map F gs)) = map h' (concat gs)" if "\<And>g. g \<in> set gs \<Longrightarrow> map h (F g) = map h' g" for gs
    using that by (induction gs) auto
  then have "map h (concat (map F (groups f xs))) = map h' (concat (groups f xs))" using assms by blast
  then show ?thesis using mset_groups [of f xs] by (metis mset_map)
qed

lemma distinct_first_version_keys:
  "distinct (map (\<lambda>r. r k) (first_scd2_version k sk cols dim))"
proof -
  let ?gs = "groups (\<lambda>r. r k) (filter (\<lambda>r. r k \<noteq> Null) dim)"
  have "map (\<lambda>r. r k) (first_scd2_version k sk cols dim) = map (\<lambda>g. hd g k) ?gs"
    unfolding first_scd2_version_def map_map comp_def
  proof (rule map_cong [OF refl])
    fix g assume g: "g \<in> set ?gs"
    have "sort_key (\<lambda>r. [r ''effective_from'', r sk]) g \<noteq> []"
      using groups_non_empty [OF g] length_sort [of "\<lambda>r. [r ''effective_from'', r sk]" g] by force
    from hd_in_set [OF this] have "hd (sort_key (\<lambda>r. [r ''effective_from'', r sk]) g) \<in> set g"
      by (simp only: set_sort)
    then have "hd (sort_key (\<lambda>r. [r ''effective_from'', r sk]) g) k = hd g k"
      by (rule groups_same_cell [OF g])
    then show "select ([k, sk, ''effective_from''] @ cols) (hd (sort_key (\<lambda>r. [r ''effective_from'', r sk]) g)) k = hd g k"
      by (simp add: select_def)
  qed
  then show ?thesis using distinct_groups_keys [of "\<lambda>r. r k" "filter (\<lambda>r. r k \<noteq> Null) dim"] by (simp only:)
qed

lemma map_filter_top_desc:
  assumes "\<And>g. g \<in> set gs \<Longrightarrow> g \<noteq> [] \<and> (\<forall>x \<in> set g. k x = k (hd g))"
  shows "map k (List.map_filter (top_desc f) gs) = map (\<lambda>g. k (hd g)) gs"
  using assms
proof (induction gs)
  case (Cons g gs)
  from Cons.prems have "g \<noteq> []" by simp
  then obtain x where x: "top_desc f g = Some x" by (metis top_desc_None not_Some_eq)
  have "k x = k (hd g)" using Cons.prems top_desc_in [OF x] by simp
  with Cons.IH Cons.prems x show ?case by (simp add: List.map_filter_def)
qed (simp add: List.map_filter_def)

lemma distinct_latest_by_order:
  "distinct (map (\<lambda>r. r ''order_id'') (latest_by_order oc pk rs))"
proof -
  have "map (\<lambda>r. r ''order_id'') (latest_by_order oc pk rs) =
      map (\<lambda>g. hd g ''order_id'') (groups (\<lambda>r. r ''order_id'') rs)"
    unfolding latest_by_order_def
    by (rule map_filter_top_desc) (auto dest: groups_non_empty groups_same_cell)
  then show ?thesis using distinct_groups_keys [of "\<lambda>r. r ''order_id''"] by simp
qed

lemma distinct_promotion_orders:
  "distinct (map (\<lambda>r. r ''order_id'') (map (select [''order_id'', ''promotion_key'']) (order_promotion_keys fn ov v)))"
proof -
  have "map (\<lambda>r. r ''order_id'') (map (select [''order_id'', ''promotion_key'']) (order_promotion_keys fn ov v)) =
      map (\<lambda>g. (\<lambda>(l, v). l ''order_id'') (hd g)) (groups (\<lambda>(l, v). l ''order_id'') (order_voucher_rows ov v))"
    by (simp add: order_promotion_keys_def promotion_of_group_def row_of_def select_def Let_def
        case_prod_beta)
  then show ?thesis using distinct_groups_keys by metis
qed

text \<open>The inputs' keys: orders are unique and the versions of every dimension are disjoint (C2).\<close>

definition keyed_inputs :: "fact_inputs \<Rightarrow> bool" where
  "keyed_inputs d \<longleftrightarrow> distinct (map (\<lambda>r. r ''order_id'') (f_orders d)) \<and>
     disjoint_versions ''source_customer_id'' (f_dim_customer d) \<and>
     disjoint_versions ''source_product_variant_id'' (f_dim_product d) \<and>
     disjoint_versions ''source_shop_id'' (f_dim_shop d) \<and>
     disjoint_versions ''source_category_id'' (f_dim_category d)"

lemma distinct_filter_key: "distinct (map f xs) \<Longrightarrow> distinct (map f (filter P xs))"
  by (rule distinct_map_filter)

lemma joined_lines_items:
  assumes "keyed_inputs d"
  shows "map j_item (joined_lines fn d) = f_order_items d"
proof -
  note key = at_most_one_key [OF distinct_filter_key]
  note ver = versions_at_most_one
  have item0: "map j_item (map joined_item xs) = xs" for xs
    by (simp add: joined_item_def comp_def)
  have d: "distinct (map (\<lambda>r. r ''order_id'') (f_orders d))"
    "disjoint_versions ''source_customer_id'' (f_dim_customer d)"
    "disjoint_versions ''source_product_variant_id'' (f_dim_product d)"
    "disjoint_versions ''source_shop_id'' (f_dim_shop d)"
    "disjoint_versions ''source_category_id'' (f_dim_category d)"
    using assms by (simp_all add: keyed_inputs_def)
  have by_order: "at_most_one (\<lambda>j r. eq3 (j_item j ''order_id'') (r ''order_id'')) js rs"
    if "distinct (map (\<lambda>r. r ''order_id'') rs)" for js rs
    by (rule key [OF that, where g = "\<lambda>j. j_item j ''order_id''"]) auto
  have first: "at_most_one (\<lambda>j v. eq3 (g j) (v k)) js (first_scd2_version k sk cols dim)"
    for g :: "joined \<Rightarrow> val" and k js sk cols dim
    by (rule key [OF distinct_first_version_keys, where g = g]) auto
  have version: "at_most_one (\<lambda>j v. and3 (eq3 (g j) (v k)) (in_version (j_order j) v)) js (versions k cols dim)"
    if "disjoint_versions k dim" "k \<notin> {''effective_from'', ''effective_to''}"
    for g :: "joined \<Rightarrow> val" and k js cols dim
    by (rule ver [OF that, where g = g and h = j_order]) auto
  show ?thesis
    unfolding joined_lines_def Let_def
    by (simp add: join_field_items by_order first version d distinct_latest_by_order
        distinct_promotion_orders item0 del: map_map)
qed

text \<open>
  C34. Grain of the fact: with unique orders and disjoint dimension versions, the fact holds exactly
  one row per order item, under the item's key; no join drops or multiplies a line.
\<close>

theorem fact_one_row_per_item:
  assumes "keyed_inputs d"
  shows "mset (map (\<lambda>r. (r ''source_order_id'', r ''source_order_item_id'')) (build_fact_sales fn d)) =
    mset (map (\<lambda>oi. (oi ''order_id'', oi ''order_item_id'')) (f_order_items d))"
proof -
  let ?h = "\<lambda>r :: row. (r ''source_order_id'', r ''source_order_item_id'')"
  let ?h' = "\<lambda>j. (j_item j ''order_id'', j_item j ''order_item_id'')"
  have "map ?h (map2 (fact_row fn) lines (order_money lines)) = map ?h' lines" for lines
    by (rule nth_equalityI) (auto simp: fact_row_def Let_def row_of_def)
  then have "mset (map ?h (build_fact_sales fn d)) = mset (map ?h' (joined_lines fn d))"
    unfolding build_fact_sales_def by (intro mset_concat_map_groups) blast
  also have "map ?h' (joined_lines fn d) =
      map (\<lambda>oi. (oi ''order_id'', oi ''order_item_id'')) (map j_item (joined_lines fn d))"
    by simp
  finally show ?thesis unfolding joined_lines_items [OF assms] .
qed

definition demo_inputs :: fact_inputs where
  "demo_inputs = \<lparr>f_orders = [row_of [(''order_id'', IntV 1), (''customer_id'', IntV 5),
        (''created_at'', TsV 40), (''shipping_amount'', DecV 0), (''discount_amount'', DecV 3)]],
     f_order_items = map (\<lambda>i. row_of [(''order_id'', IntV 1), (''order_item_id'', IntV i),
        (''quantity'', IntV 1), (''unit_price'', DecV 100), (''discount_amount'', DecV 0),
        (''tax_amount'', DecV 0)]) [1, 2, 3, 4, 5],
     f_payments = [], f_shipments = [], f_order_vouchers = [], f_vouchers = [],
     f_dim_customer = [row_of [(''source_customer_id'', IntV 5), (''customer_key'', IntV 50),
         (''effective_from'', TsV 10), (''effective_to'', TsV 30)],
       row_of [(''source_customer_id'', IntV 5), (''customer_key'', IntV 51),
         (''effective_from'', TsV 30), (''effective_to'', TsV 90)]],
     f_dim_product = [], f_dim_shop = [], f_dim_category = []\<rparr>"

theorem fact_one_row_per_item_witness:
  "length (build_fact_sales example_fn demo_inputs) = 5"
proof -
  have "keyed_inputs demo_inputs"
    by (simp add: keyed_inputs_def demo_inputs_def disjoint_versions_def row_of_def)
  from fact_one_row_per_item [OF this, of example_fn]
  have "size (mset (map (\<lambda>r. (r ''source_order_id'', r ''source_order_item_id''))
      (build_fact_sales example_fn demo_inputs))) = 5"
    by (simp add: demo_inputs_def)
  then show ?thesis by simp
qed

end
