(* ===== verification/Contracts.thy ===== *)
theory Contracts
  imports Prelude
begin

text \<open>
  The table contracts (\<open>contracts/\<close>): which source tables exist, their keys and columns in Bronze,
  Silver, typed CDC and Gold, how tables are routed to CDC topics, and the operations of change
  events. Python dicts with fixed content are association lists in source order.
\<close>

section \<open>Bronze tables\<close>

definition BRONZE_SCHEMA_VERSION :: int where
  "BRONZE_SCHEMA_VERSION = 1"

record bronze_contract =
  bc_table_name :: string
  bc_primary_keys :: "string list"
  bc_excluded_columns :: "string list"

definition BRONZE_TABLES :: "(string \<times> bronze_contract) list" where
  "BRONZE_TABLES = map (\<lambda>(t, ks, ex). (t, \<lparr>bc_table_name = t, bc_primary_keys = ks, bc_excluded_columns = ex\<rparr>))
    [(''app_users'', [''user_id''], [''password_hash'']),
     (''user_addresses'', [''address_id''], []),
     (''shops'', [''shop_id''], []),
     (''categories'', [''category_id''], []),
     (''products'', [''product_id''], []),
     (''product_variants'', [''product_variant_id''], []),
     (''vouchers'', [''voucher_id''], []),
     (''orders'', [''order_id''], []),
     (''order_items'', [''order_item_id''], []),
     (''order_vouchers'', [''order_voucher_id''], []),
     (''payments'', [''payment_id''], []),
     (''shipments'', [''shipment_id''], [])]"

definition get_bronze_contract :: "string \<Rightarrow> bronze_contract res" where
  "get_bronze_contract t = (case map_of BRONZE_TABLES t of
     None \<Rightarrow> Inl (ValueError ''Unknown Bronze table'') | Some c \<Rightarrow> Inr c)"

section \<open>Silver tables\<close>

record silver_contract =
  sc_table_name :: string
  sc_primary_keys :: "string list"
  sc_columns :: "string list"
  sc_materialize_change_history :: bool

definition SILVER_TABLES :: "(string \<times> silver_contract) list" where
  "SILVER_TABLES = [
     (''app_users'', \<lparr>sc_table_name = ''app_users'', sc_primary_keys = [''user_id''],
        sc_columns = [''user_id'', ''public_user_id'', ''username'', ''email'', ''first_name'',
        ''last_name'', ''phone_number'', ''status'', ''created_at'', ''updated_at'',
        ''last_login''], sc_materialize_change_history = True\<rparr>),
     (''user_addresses'', \<lparr>sc_table_name = ''user_addresses'', sc_primary_keys =
        [''address_id''], sc_columns = [''address_id'', ''user_id'', ''address_type'',
        ''recipient_name'', ''phone_number'', ''street'', ''ward'', ''district'', ''city'',
        ''state'', ''postal_code'', ''country'', ''created_at'', ''updated_at''],
        sc_materialize_change_history = False\<rparr>),
     (''shops'', \<lparr>sc_table_name = ''shops'', sc_primary_keys = [''shop_id''], sc_columns
        = [''shop_id'', ''public_shop_id'', ''shop_name'', ''shop_slug'', ''status'',
        ''created_at'', ''updated_at''], sc_materialize_change_history = True\<rparr>),
     (''categories'', \<lparr>sc_table_name = ''categories'', sc_primary_keys =
        [''category_id''], sc_columns = [''category_id'', ''parent_category_id'',
        ''category_name'', ''slug'', ''is_active'', ''created_at'', ''updated_at''],
        sc_materialize_change_history = True\<rparr>),
     (''products'', \<lparr>sc_table_name = ''products'', sc_primary_keys = [''product_id''],
        sc_columns = [''product_id'', ''public_product_id'', ''shop_id'', ''category_id'',
        ''product_sku'', ''product_slug'', ''product_name'', ''brand'', ''attributes_json'',
        ''images_json'', ''status'', ''is_featured'', ''created_at'', ''updated_at''],
        sc_materialize_change_history = True\<rparr>),
     (''product_variants'', \<lparr>sc_table_name = ''product_variants'', sc_primary_keys =
        [''product_variant_id''], sc_columns = [''product_variant_id'', ''public_variant_id'',
        ''product_id'', ''variant_sku'', ''variant_name'', ''options_json'', ''unit_price'',
        ''compare_at_price'', ''currency'', ''stock_quantity'', ''reserved_quantity'',
        ''weight_kg'', ''images_json'', ''status'', ''is_default'', ''created_at'',
        ''updated_at''], sc_materialize_change_history = True\<rparr>),
     (''vouchers'', \<lparr>sc_table_name = ''vouchers'', sc_primary_keys = [''voucher_id''],
        sc_columns = [''voucher_id'', ''voucher_code'', ''voucher_name'', ''shop_id'',
        ''discount_type'', ''discount_value'', ''max_discount_amount'',
        ''minimum_order_amount'', ''scope_json'', ''starts_at'', ''ends_at'', ''is_active'',
        ''created_at'', ''updated_at''], sc_materialize_change_history = False\<rparr>),
     (''orders'', \<lparr>sc_table_name = ''orders'', sc_primary_keys = [''order_id''],
        sc_columns = [''order_id'', ''public_order_id'', ''customer_id'', ''order_number'',
        ''order_status'', ''payment_status'', ''shipping_address_id'', ''billing_address_id'',
        ''shipping_address_snapshot'', ''billing_address_snapshot'', ''subtotal_amount'',
        ''shipping_amount'', ''tax_amount'', ''discount_amount'', ''total_amount'',
        ''currency'', ''created_at'', ''updated_at''], sc_materialize_change_history =
        False\<rparr>),
     (''order_items'', \<lparr>sc_table_name = ''order_items'', sc_primary_keys =
        [''order_item_id''], sc_columns = [''order_item_id'', ''order_id'', ''shop_id'',
        ''product_id'', ''product_variant_id'', ''product_name_snapshot'',
        ''product_sku_snapshot'', ''variant_name_snapshot'', ''variant_sku_snapshot'',
        ''variant_options_snapshot'', ''quantity'', ''unit_price'', ''currency'',
        ''tax_amount'', ''discount_amount'', ''item_subtotal'', ''item_total'', ''created_at'',
        ''updated_at''], sc_materialize_change_history = False\<rparr>),
     (''order_vouchers'', \<lparr>sc_table_name = ''order_vouchers'', sc_primary_keys =
        [''order_voucher_id''], sc_columns = [''order_voucher_id'', ''order_id'',
        ''voucher_id'', ''discount_amount'', ''created_at'', ''updated_at''],
        sc_materialize_change_history = False\<rparr>),
     (''payments'', \<lparr>sc_table_name = ''payments'', sc_primary_keys = [''payment_id''],
        sc_columns = [''payment_id'', ''public_payment_id'', ''order_id'', ''payment_method'',
        ''payment_status'', ''amount'', ''currency'', ''paid_at'', ''created_at'',
        ''updated_at''], sc_materialize_change_history = False\<rparr>),
     (''shipments'', \<lparr>sc_table_name = ''shipments'', sc_primary_keys = [''shipment_id''],
        sc_columns = [''shipment_id'', ''public_shipment_id'', ''order_id'',
        ''shipment_status'', ''carrier'', ''tracking_number'', ''shipped_at'', ''delivered_at'',
        ''created_at'', ''updated_at''], sc_materialize_change_history = False\<rparr>)]"

definition get_silver_contract :: "string \<Rightarrow> silver_contract res" where
  "get_silver_contract t = (case map_of SILVER_TABLES t of
     None \<Rightarrow> Inl (ValueError ''Unknown Silver table'') | Some c \<Rightarrow> Inr c)"

section \<open>Typed CDC tables\<close>

datatype data_type = DecimalType nat nat | IntegerType | TimestampType | BooleanType | StringType

definition bronze_only_columns :: "(string \<times> string list) list" where
  "bronze_only_columns = [
     (''app_users'', []),
     (''user_addresses'', [''is_default_shipping'', ''is_default_billing'']),
     (''shops'', [''description'', ''logo_url'']),
     (''categories'', [''description'']),
     (''products'', [''short_description'', ''description'']),
     (''product_variants'', [''dimensions_json'']),
     (''vouchers'', [''description'', ''usage_limit'', ''used_count'']),
     (''orders'', [''customer_note'']),
     (''order_items'', []),
     (''order_vouchers'', []),
     (''payments'', [''transaction_reference'']),
     (''shipments'', [''shipping_address_snapshot''])]"

definition cdc_decimal_columns :: "string list" where
  "cdc_decimal_columns = [''unit_price'', ''compare_at_price'', ''discount_value'',
     ''max_discount_amount'', ''minimum_order_amount'', ''subtotal_amount'', ''shipping_amount'',
     ''tax_amount'', ''discount_amount'', ''total_amount'', ''item_subtotal'', ''item_total'',
     ''amount'']"

definition cdc_integer_columns :: "string list" where
  "cdc_integer_columns =
     [''quantity'', ''stock_quantity'', ''reserved_quantity'', ''usage_limit'', ''used_count'']"

definition cdc_timestamp_columns :: "string list" where
  "cdc_timestamp_columns = [''created_at'', ''updated_at'', ''last_login'', ''starts_at'', ''ends_at'',
     ''paid_at'', ''shipped_at'', ''delivered_at'']"

definition source_data_type :: "string \<Rightarrow> data_type" where
  "source_data_type c =
     (if c = ''weight_kg'' then DecimalType 8 3
      else if c \<in> set cdc_decimal_columns then DecimalType 12 2
      else if c \<in> set cdc_integer_columns \<or> (ends_with ''_id'' c \<and> \<not> starts_with ''public_'' c)
        then IntegerType
      else if c \<in> set cdc_timestamp_columns then TimestampType
      else if starts_with ''is_'' c then BooleanType
      else StringType)"

record typed_cdc_contract =
  tc_table_name :: string
  tc_primary_keys :: "string list"
  tc_payload_schema :: "(string \<times> data_type) list"

definition tc_columns :: "typed_cdc_contract \<Rightarrow> string list" where
  "tc_columns c = map fst (tc_payload_schema c)"

definition payload_schema :: "string \<Rightarrow> (string \<times> data_type) list res" where
  "payload_schema t = (case (map_of SILVER_TABLES t, map_of bronze_only_columns t) of
     (Some c, Some extra) \<Rightarrow>
       (let columns = sc_columns c @ extra
        in if \<not> distinct columns then Inl (RuntimeError ''Duplicate typed CDC columns for table'')
           else Inr (map (\<lambda>c. (c, source_data_type c)) columns))
   | _ \<Rightarrow> Inl (KeyError t))"

text \<open>The module body: the consistency check on import, then the dict comprehension.\<close>

definition same_keys :: "(string \<times> 'a) list \<Rightarrow> (string \<times> 'b) list \<Rightarrow> bool" where
  "same_keys xs ys \<longleftrightarrow> set (map fst xs) = set (map fst ys)"

definition TYPED_CDC_TABLES :: "(string \<times> typed_cdc_contract) list res" where
  "TYPED_CDC_TABLES =
     and_then (raise_if (\<not> same_keys BRONZE_TABLES SILVER_TABLES \<or>
                         \<not> same_keys BRONZE_TABLES bronze_only_columns)
       (RuntimeError ''CDC, Bronze and Silver table contracts must describe the same source tables''))
     (\<lambda>_. traverse (\<lambda>(t, bc). and_then (payload_schema t) (\<lambda>schema.
         Inr (t, \<lparr>tc_table_name = t, tc_primary_keys = bc_primary_keys bc, tc_payload_schema = schema\<rparr>)))
       BRONZE_TABLES)"

definition get_typed_cdc_contract :: "string \<Rightarrow> typed_cdc_contract res" where
  "get_typed_cdc_contract t = and_then TYPED_CDC_TABLES (\<lambda>tables. case map_of tables t of
     None \<Rightarrow> Inl (ValueError ''Unknown typed CDC table'') | Some c \<Rightarrow> Inr c)"

section \<open>Topics, operations and cursors\<close>

definition CDC_DOMAIN_TABLES :: "(string \<times> string list) list" where
  "CDC_DOMAIN_TABLES = [
     (''customer'', [''app_users'', ''user_addresses'']),
     (''catalog'', [''shops'', ''categories'', ''products'', ''product_variants'']),
     (''promotion'', [''vouchers'']),
     (''sales'', [''orders'', ''order_items'', ''order_vouchers'']),
     (''payment'', [''payments'']),
     (''shipping'', [''shipments''])]"

definition cdc_topic_for_table :: "string \<Rightarrow> string res" where
  "cdc_topic_for_table t = (case find (\<lambda>(d, ts). t \<in> set ts) CDC_DOMAIN_TABLES of
     Some (d, ts) \<Rightarrow> Inr (''ecommerce.domain.'' @ d)
   | None \<Rightarrow> Inl (ValueError ''Table is not mapped to a CDC domain''))"

datatype debezium_operation = SNAPSHOT | CREATE | UPDATE | DELETE

fun debezium_value :: "debezium_operation \<Rightarrow> string" where
  "debezium_value SNAPSHOT = ''r''"
| "debezium_value CREATE = ''c''"
| "debezium_value UPDATE = ''u''"
| "debezium_value DELETE = ''d''"

definition VALID_DEBEZIUM_OPERATIONS :: "string list" where
  "VALID_DEBEZIUM_OPERATIONS = map debezium_value [SNAPSHOT, CREATE, UPDATE, DELETE]"

definition CDC_SCHEMA_VERSION :: int where
  "CDC_SCHEMA_VERSION = 1"

datatype change_operation = OpInsert | OpUpdate | OpDelete

fun change_value :: "change_operation \<Rightarrow> string" where
  "change_value OpInsert = ''INSERT''"
| "change_value OpUpdate = ''UPDATE''"
| "change_value OpDelete = ''DELETE''"

record event_cursor =
  last_event_id :: int

definition make_event_cursor :: "int \<Rightarrow> event_cursor res" where
  "make_event_cursor i =
     (if i < 0 then Inl (ValueError ''last_event_id must be non-negative'') else Inr \<lparr>last_event_id = i\<rparr>)"

section \<open>Gold tables\<close>

definition GOLD_TABLES :: "string list" where
  "GOLD_TABLES = [''dim_customer'', ''dim_date'', ''dim_time'', ''dim_location'', ''dim_shop'',
     ''dim_category'', ''dim_product'', ''dim_promotion'', ''dim_payment'', ''dim_shipping'',
     ''fact_sales'']"

record scd2_contract =
  dc_source_key :: string
  dc_surrogate_key :: string
  dc_initial_effective_from :: string
  dc_type1_columns :: "string list"
  dc_attribute_hash :: string

definition required_columns :: "scd2_contract \<Rightarrow> string set" where
  "required_columns c = {dc_source_key c, dc_surrogate_key c, dc_attribute_hash c,
     dc_initial_effective_from c, ''effective_from'', ''effective_to'', ''is_current'', ''is_deleted''}"

definition SCD2_DIMENSIONS :: "(string \<times> scd2_contract) list" where
  "SCD2_DIMENSIONS = map (\<lambda>(t, k, s, i, cs). (t, \<lparr>dc_source_key = k, dc_surrogate_key = s,
       dc_initial_effective_from = i, dc_type1_columns = cs, dc_attribute_hash = ''attribute_hash''\<rparr>))
    [(''dim_customer'', ''source_customer_id'', ''customer_key'', ''registered_at'', [''last_login_at'']),
     (''dim_product'', ''source_product_variant_id'', ''product_key'', ''variant_created_at'',
       [''current_unit_price'', ''compare_at_price'', ''stock_quantity'', ''reserved_quantity'']),
     (''dim_shop'', ''source_shop_id'', ''shop_key'', ''shop_created_at'', []),
     (''dim_category'', ''source_category_id'', ''category_key'', ''category_created_at'', [])]"

section \<open>Consistency\<close>

lemma find_Some_fst: "find P xs = Some (a, b) \<Longrightarrow> P (a, b) \<and> (a, b) \<in> set xs"
  by (auto simp: find_Some_iff)

text \<open>
  Importing the typed CDC contracts succeeds: Bronze, Silver and the Bronze-only columns name
  the same twelve tables, no payload schema repeats a column, and every table's schema contains its
  primary keys as integers.
\<close>

theorem typed_cdc_tables_consistent:
  "case TYPED_CDC_TABLES of Inl e \<Rightarrow> False | Inr tables \<Rightarrow>
     map fst tables = map fst BRONZE_TABLES \<and>
     list_all (\<lambda>(t, c). tc_table_name c = t \<and> distinct (tc_columns c) \<and>
       list_all (\<lambda>k. map_of (tc_payload_schema c) k = Some IntegerType) (tc_primary_keys c)) tables"
  by code_simp

text \<open>
  CDC routing: a table has a topic exactly when it is a Bronze table (otherwise the lookup
  raises), and the topic has the prefix that the subscription pattern matches.
\<close>

theorem cdc_topic_routing:
  "case cdc_topic_for_table t of
     Inr topic \<Rightarrow> t \<in> set (map fst BRONZE_TABLES) \<and> starts_with ''ecommerce.domain.'' topic
   | Inl e \<Rightarrow> t \<notin> set (map fst BRONZE_TABLES)"
proof -
  have tables: "set (map fst BRONZE_TABLES) = \<Union> (set ` set (map snd CDC_DOMAIN_TABLES))"
    by (auto simp: BRONZE_TABLES_def CDC_DOMAIN_TABLES_def)
  show ?thesis
  proof (cases "find (\<lambda>(d, ts). t \<in> set ts) CDC_DOMAIN_TABLES")
    case None
    then have "cdc_topic_for_table t = Inl (ValueError ''Table is not mapped to a CDC domain'')"
      by (simp add: cdc_topic_for_table_def)
    moreover have "t \<notin> \<Union> (set ` set (map snd CDC_DOMAIN_TABLES))"
      using None by (auto simp: find_None_iff)
    ultimately show ?thesis unfolding tables by simp
  next
    case (Some p)
    obtain d ts where p: "p = (d, ts)" by (cases p)
    from find_Some_fst [OF Some [unfolded p]] have "t \<in> set ts" "(d, ts) \<in> set CDC_DOMAIN_TABLES"
      by simp_all
    then show ?thesis unfolding tables
      using Some p by (force simp: cdc_topic_for_table_def starts_with_def)
  qed
qed

end
