(* ===== verification/Quality.thy ===== *)
theory Quality
  imports Scd2History FactSales Contracts
begin

text \<open>
  The quality gate of the Gold layer (\<open>pipelines/quality.py\<close>): no candidate snapshot is published
  unless the fact's keys and amounts are valid, its references resolve, its totals reconcile with
  the source orders, and the SCD Type 2 histories are well formed. The tables the checker reads from
  the lakehouse are the argument \<open>gold\<close> (one table per name).
\<close>

section \<open>Metrics of the fact\<close>

definition DIMENSION_KEYS :: "(string \<times> string \<times> string) list" where
  "DIMENSION_KEYS = [
     (''dim_date'', ''date_key'', ''order_date_key''),
     (''dim_time'', ''time_key'', ''order_time_key''),
     (''dim_customer'', ''customer_key'', ''customer_key''),
     (''dim_product'', ''product_key'', ''product_key''),
     (''dim_shop'', ''shop_key'', ''shop_key''),
     (''dim_category'', ''category_key'', ''category_key''),
     (''dim_promotion'', ''promotion_key'', ''promotion_key''),
     (''dim_payment'', ''payment_key'', ''payment_key''),
     (''dim_shipping'', ''shipping_key'', ''shipping_key'')]"

definition REQUIRED_NON_UNKNOWN_KEYS :: "string list" where
  "REQUIRED_NON_UNKNOWN_KEYS = [''order_date_key'', ''order_time_key'', ''customer_key'',
     ''product_key'', ''shop_key'', ''category_key'', ''ship_to_location_key'',
     ''bill_to_location_key'']"

definition MONETARY_COLUMNS :: "string list" where
  "MONETARY_COLUMNS = [''unit_price_amount'', ''gross_sales_amount'', ''line_discount_amount'',
     ''order_discount_amount_allocated'', ''total_discount_amount'', ''tax_amount'',
     ''shipping_amount_allocated'', ''net_sales_amount'']"

record fact_metrics =
  fm_rows :: nat
  fm_distinct_source_keys :: nat
  fm_distinct_sales_keys :: nat
  fm_invalid_amount_rows :: nat
  fm_unresolved_key_rows :: nat
  fm_gross_sales_total :: val
  fm_discount_total :: val
  fm_tax_total :: val
  fm_shipping_total :: val
  fm_net_sales_total :: val

record quality_report =
  qr_source_order_rows :: nat
  qr_source_item_rows :: nat
  qr_fact_rows :: nat
  qr_gross_sales_total :: val
  qr_discount_total :: val
  qr_tax_total :: val
  qr_shipping_total :: val
  qr_net_sales_total :: val

definition invalid_amount :: "row \<Rightarrow> bool3" where
  "invalid_amount r =
     fold (\<lambda>c acc. or3 (or3 acc (is_null3 (r c))) (lt3 (r c) (DecV 0))) MONETARY_COLUMNS
       (or3 (is_null3 (r ''quantity'')) (ge3 (IntV 0) (r ''quantity'')))"

definition unresolved_key :: "row \<Rightarrow> bool3" where
  "unresolved_key r =
     fold (\<lambda>c acc. or3 (or3 acc (is_null3 (r c))) (eq3 (r c) (IntV 0))) REQUIRED_NON_UNKNOWN_KEYS
       (Some False)"

definition collect_fact_metrics :: "row list \<Rightarrow> fact_metrics" where
  "collect_fact_metrics facts =
     (let total_of = (\<lambda>c. sum_v (map (\<lambda>r. r c) facts)) in
      \<lparr>fm_rows = length facts,
       fm_distinct_source_keys =
         length (remdups (map (key_of [''source_order_id'', ''source_order_item_id'']) facts)),
       fm_distinct_sales_keys = length (remdups (map (\<lambda>r. r ''sales_key'') facts)),
       fm_invalid_amount_rows = length (where3 invalid_amount facts),
       fm_unresolved_key_rows = length (where3 unresolved_key facts),
       fm_gross_sales_total = total_of ''gross_sales_amount'',
       fm_discount_total = total_of ''total_discount_amount'',
       fm_tax_total = total_of ''tax_amount'',
       fm_shipping_total = total_of ''shipping_amount_allocated'',
       fm_net_sales_total = total_of ''net_sales_amount''\<rparr>)"

definition assert_fact_metrics :: "fact_metrics \<Rightarrow> unit res" where
  "assert_fact_metrics m =
     and_then (raise_if (fm_distinct_source_keys m \<noteq> fm_rows m)
       (GoldQualityError ''Duplicate key: source_order_id, source_order_item_id'')) (\<lambda>_.
     and_then (raise_if (fm_distinct_sales_keys m \<noteq> fm_rows m)
       (GoldQualityError ''Duplicate key: sales_key'')) (\<lambda>_.
     and_then (raise_if (fm_invalid_amount_rows m > 0)
       (GoldQualityError ''Gold fact contains null/invalid quantity or monetary amounts'')) (\<lambda>_.
     raise_if (fm_unresolved_key_rows m > 0)
       (GoldQualityError ''Gold fact contains unresolved required dimension keys''))))"

section \<open>Referential integrity\<close>

definition references :: "(string \<times> string \<times> string) list" where
  "references = DIMENSION_KEYS @
     [(''dim_location'', ''location_key'', ''ship_to_location_key''),
      (''dim_location'', ''location_key'', ''bill_to_location_key'')]"

definition dimension_contracts :: "(string \<times> string) list" where
  "dimension_contracts = remdups (map (\<lambda>(d, dk, fk). (d, dk)) references)"

definition dimension_members :: "sparkfn \<Rightarrow> (string \<Rightarrow> df) \<Rightarrow> (string \<times> val) list" where
  "dimension_members fn gold =
     concat (map (\<lambda>(d, dk). map (\<lambda>r. (d, as_string fn (r dk))) (df_rows (gold d))) dimension_contracts)"

definition missing_references :: "sparkfn \<Rightarrow> (string \<Rightarrow> df) \<Rightarrow> row list \<Rightarrow> (string \<times> string) list" where
  "missing_references fn gold facts =
     concat (map (\<lambda>r. map (\<lambda>(d, dk, fk). (d, fk))
       (filter (\<lambda>(d, dk, fk). as_string fn (r fk) = Null \<or>
           (d, as_string fn (r fk)) \<notin> set (dimension_members fn gold)) references)) facts)"

definition assert_dimension_integrity ::
    "sparkfn \<Rightarrow> (string \<Rightarrow> df) \<Rightarrow> row list \<Rightarrow> bool \<Rightarrow> unit res" where
  "assert_dimension_integrity fn gold facts check_uniqueness =
     (let missing = missing_references fn gold facts;
          members = dimension_members fn gold
      in and_then (raise_if (missing \<noteq> []) (GoldQualityError ''Missing gold reference''))
           (\<lambda>_. raise_if (check_uniqueness \<and> \<not> distinct members)
              (GoldQualityError ''Duplicate key in gold dimension'')))"

section \<open>SCD Type 2 histories\<close>

definition invalid_current :: "string \<Rightarrow> bool \<Rightarrow> row list \<Rightarrow> row list list" where
  "invalid_current skey has_is_deleted dimension =
     filter (\<lambda>g. let current = length (filter (\<lambda>r. holds (bool3_of (r ''is_current''))) g);
                     has_deleted = has_is_deleted \<and>
                       (\<exists>r \<in> set g. holds (bool3_of (r ''is_deleted'')))
                 in current > 1 \<or> (current = 0 \<and> \<not> has_deleted))
       (groups (\<lambda>r. r skey) dimension)"

definition invalid_range :: "row list \<Rightarrow> row list" where
  "invalid_range dimension = where3 (\<lambda>r. ge3 (r ''effective_from'') (r ''effective_to'')) dimension"

fun overlapping :: "row list \<Rightarrow> row list" where
  "overlapping (r # s # rs) =
     (if holds (and3 (not3 (is_null3 (r ''effective_to'')))
                     (lt3 (s ''effective_from'') (r ''effective_to'')))
      then [s] else []) @ overlapping (s # rs)"
| "overlapping _ = []"

definition overlap :: "string \<Rightarrow> string \<Rightarrow> row list \<Rightarrow> row list" where
  "overlap skey sur dimension =
     concat (map (\<lambda>g. overlapping (sort_key (\<lambda>r. [r ''effective_from'', r sur]) g))
       (groups (\<lambda>r. r skey) dimension))"

definition scd2_violations :: "scd2_contract \<Rightarrow> df \<Rightarrow> string list" where
  "scd2_violations contract table =
     (let dimension = filter (\<lambda>r. r (dc_source_key contract) \<noteq> Null) (df_rows table)
      in map (\<lambda>_. ''invalid current member count'')
           (invalid_current (dc_source_key contract) (''is_deleted'' \<in> set (df_cols table)) dimension) @
         map (\<lambda>_. ''invalid effective date range'') (invalid_range dimension) @
         map (\<lambda>_. ''overlapping effective date range'')
           (overlap (dc_source_key contract) (dc_surrogate_key contract) dimension))"

definition validate_scd2 :: "(string \<Rightarrow> df) \<Rightarrow> string list \<Rightarrow> unit res" where
  "validate_scd2 gold table_names =
     (let names = keep_first id table_names
      in and_then (raise_if (\<not> set names \<subseteq> set (map fst SCD2_DIMENSIONS))
           (ValueError ''Unknown SCD2 dimensions'')) (\<lambda>_.
         raise_if (concat (map (\<lambda>t. case map_of SCD2_DIMENSIONS t of
             None \<Rightarrow> [] | Some c \<Rightarrow> scd2_violations c (gold t)) names) \<noteq> [])
           (GoldQualityError ''Invalid SCD2 history'')))"

section \<open>Reconciliation with the source\<close>

definition abs_diff_exceeds :: "int \<Rightarrow> val \<Rightarrow> val \<Rightarrow> bool3" where
  "abs_diff_exceeds tolerance a b = (case sub_v a b of DecV d \<Rightarrow> Some (abs d > tolerance) | _ \<Rightarrow> None)"

text \<open>Source amount, amount of the fact: the pairs compared per order.\<close>

definition reconciled_columns :: "(string \<times> string) list" where
  "reconciled_columns = [(''subtotal_amount'', ''gross_sales_amount''),
     (''discount_amount'', ''total_discount_amount''), (''tax_amount'', ''tax_amount''),
     (''shipping_amount'', ''shipping_amount_allocated''), (''total_amount'', ''net_sales_amount'')]"

definition order_mismatch :: "row list \<Rightarrow> row \<Rightarrow> bool3" where
  "order_mismatch facts ord =
     (let lines = filter (\<lambda>r. holds (eq3 (ord ''order_id'') (r ''source_order_id''))) facts;
          actual = (\<lambda>c. sum_v (map (\<lambda>r. r c) lines))
      in fold (\<lambda>(e, a) acc. or3 acc (abs_diff_exceeds 1 (ord e) (actual a))) reconciled_columns
           (is_null3 (actual ''net_sales_amount'')))"

definition source_item_key :: "row \<Rightarrow> val list" where
  "source_item_key r = [r ''order_id'', r ''order_item_id'']"

definition missing_items :: "row list \<Rightarrow> row list \<Rightarrow> row list" where
  "missing_items facts items =
     filter (\<lambda>r. has_null (source_item_key r) \<or>
       source_item_key r \<notin> key_of [''source_order_id'', ''source_order_item_id''] ` set facts) items"

definition assert_reconciliation ::
    "row list \<Rightarrow> row list \<Rightarrow> row list \<Rightarrow> fact_metrics \<Rightarrow> nat \<Rightarrow> nat \<Rightarrow> quality_report res" where
  "assert_reconciliation facts orders items m source_order_rows source_item_rows =
     and_then (raise_if (source_item_rows \<noteq> fm_rows m)
       (GoldQualityError ''Fact row count mismatch'')) (\<lambda>_.
     and_then (raise_if (missing_items facts items \<noteq> [])
       (GoldQualityError ''Gold fact is missing one or more source order-item keys'')) (\<lambda>_.
     and_then (raise_if (where3 (order_mismatch facts) orders \<noteq> [])
       (GoldQualityError ''Source-to-Gold monetary reconciliation failed'')) (\<lambda>_.
     Inr \<lparr>qr_source_order_rows = source_order_rows, qr_source_item_rows = source_item_rows,
          qr_fact_rows = fm_rows m, qr_gross_sales_total = fm_gross_sales_total m,
          qr_discount_total = fm_discount_total m, qr_tax_total = fm_tax_total m,
          qr_shipping_total = fm_shipping_total m, qr_net_sales_total = fm_net_sales_total m\<rparr>)))"

section \<open>The checker\<close>

definition quality_run ::
    "sparkfn \<Rightarrow> (string \<Rightarrow> df) \<Rightarrow> row list \<Rightarrow> row list \<Rightarrow> quality_report res" where
  "quality_run fn gold orders items =
     (let facts = df_rows (gold ''fact_sales''); m = collect_fact_metrics facts in
      and_then (assert_fact_metrics m) (\<lambda>_.
      and_then (assert_dimension_integrity fn gold facts True) (\<lambda>_.
      and_then (validate_scd2 gold (map fst SCD2_DIMENSIONS)) (\<lambda>_.
      assert_reconciliation facts orders items m (length orders) (length items)))))"

definition quality_run_incremental ::
    "sparkfn \<Rightarrow> (string \<Rightarrow> df) \<Rightarrow> row list \<Rightarrow> row list \<Rightarrow> row list \<Rightarrow> quality_report res" where
  "quality_run_incremental fn gold facts orders items =
     (let m = collect_fact_metrics facts in
      and_then (assert_fact_metrics m) (\<lambda>_.
      and_then (assert_dimension_integrity fn gold facts False) (\<lambda>_.
      assert_reconciliation facts orders items m (length orders) (length items))))"

section \<open>What the fact gate accepts\<close>

definition valid_fact_row :: "row \<Rightarrow> bool" where
  "valid_fact_row r \<longleftrightarrow> r ''quantity'' \<noteq> Null \<and> \<not> r ''quantity'' \<le> IntV 0 \<and>
     (\<forall>c \<in> set MONETARY_COLUMNS. r c \<noteq> Null \<and> \<not> r c < DecV 0) \<and>
     (\<forall>c \<in> set REQUIRED_NON_UNKNOWN_KEYS. r c \<noteq> Null \<and> r c \<noteq> IntV 0)"

lemma holds_fold_or3:
  "holds (fold (\<lambda>c acc. or3 (or3 acc (f c)) (g c)) cs acc) \<longleftrightarrow>
     holds acc \<or> (\<exists>c \<in> set cs. holds (f c) \<or> holds (g c))"
  by (induction cs arbitrary: acc) auto

lemma holds_is_null3 [simp, sql_simps]: "holds (is_null3 v) \<longleftrightarrow> v = Null"
  by (simp add: is_null3_def)

lemma valid_fact_row_iff:
  "valid_fact_row r \<longleftrightarrow> \<not> holds (invalid_amount r) \<and> \<not> holds (unresolved_key r)"
  by (auto simp: valid_fact_row_def invalid_amount_def unresolved_key_def holds_fold_or3)

lemma length_remdups_eq_iff: "length (remdups xs) = length xs \<longleftrightarrow> distinct xs"
  by (metis card_distinct distinct_remdups length_remdups_card_conv distinct_card)

lemma length_remdups_map_iff: "length (remdups (map f xs)) = length xs \<longleftrightarrow> distinct (map f xs)"
  using length_remdups_eq_iff [of "map f xs"] by simp

text \<open>
  The fact gate accepts exactly the fact tables whose source keys and sales keys are unique
  and all of whose rows have a positive quantity, no missing or negative amount and no missing or
  unknown required key.
\<close>

theorem fact_gate_accepts_iff:
  "assert_fact_metrics (collect_fact_metrics facts) = Inr () \<longleftrightarrow>
     distinct (map (key_of [''source_order_id'', ''source_order_item_id'']) facts) \<and>
     distinct (map (\<lambda>r. r ''sales_key'') facts) \<and> list_all valid_fact_row facts"
  by (auto simp: list_all_iff assert_fact_metrics_def collect_fact_metrics_def Let_def and_then_Inr_iff
      length_remdups_map_iff valid_fact_row_iff where3_def filter_empty_conv)

section \<open>A discount the gate rejects\<close>

lemma left_join_Nil [simp]: "left_join on ls [] = map (\<lambda>l. (l, null_row)) ls"
  by (induction ls) (auto simp: left_join_def)

lemma equal_share:
  assumes "0 < w" "n < 2 * a" "a < n" "n \<le> 10000"
  shows "bround_share 6 a w (n * w) = 1"
proof -
  let ?x = "(20000 * a + n) div (2 * n)"
  have n: "0 < n" using assms by linarith
  have "0 \<le> a * w * 10 ^ (6 - 2)" using assms by simp
  then have "round_half_up (a * w * 10 ^ (6 - 2)) (n * w) = (2 * (a * w * 10 ^ (6 - 2)) + n * w) div (2 * (n * w))"
    by (simp add: round_half_up_def)
  also have "\<dots> = (w * (20000 * a + n)) div (w * (2 * n))" by (simp add: algebra_simps)
  also have "\<dots> = ?x" using assms(1) by simp
  finally have x: "round_half_up (a * w * 10 ^ (6 - 2)) (n * w) = ?x" .
  have "5001 * (2 * n) \<le> 20000 * a + n" using assms by linarith
  then have lo: "5001 \<le> ?x" using zdiv_mono1 [of "5001 * (2 * n)" "20000 * a + n" "2 * n"] n by simp
  have "20000 * a + n < 10001 * (2 * n)" using assms n by linarith
  then have hi: "?x < 10001"
    using zdiv_mono1 [of "10001 * (2 * n)" "20000 * a + n" "2 * n"] n div_mult_mod_eq [of "20000 * a + n" "2 * n"]
      pos_mod_sign [of "2 * n" "20000 * a + n"] mult_right_mono [of 10001 ?x "2 * n"] by linarith
  have "round_half_even ?x (10 ^ (6 - 2)) = 1"
  proof (cases "?x = 10000")
    case True
    then show ?thesis by (simp add: round_half_even_def)
  next
    case False
    with lo hi have "?x div 10000 = 0" "?x mod 10000 = ?x" by (simp_all add: div_pos_pos_trivial)
    with lo show ?thesis by (simp add: round_half_even_def Let_def)
  qed
  with x show ?thesis by (simp add: bround_share_def)
qed

lemma small_discount_allocation:
  assumes "list_all (\<lambda>j. line_gross j = DecV w \<and> j_order j ''discount_amount'' = DecV a \<and> j_item j ''discount_amount'' = DecV 0) lines"
    and "0 < w" and "n = int (length lines)" and "n < 2 * a" "a + 1 < n" "n \<le> 10000" and "i < length lines"
  shows "m_order_discount_allocated (order_money lines ! i) =
    DecV (if i = top_index (\<lambda>j. j_item j ''order_item_id'') lines then a - (n - 1) else 1)"
proof -
  have ne: "lines \<noteq> []" using assms(7) by auto
  have cells: "line_gross j = DecV w" "j_order j ''discount_amount'' = DecV a" "j_item j ''discount_amount'' = DecV 0"
    if "j \<in> set lines" for j using assms(1) that by (auto simp: list_all_iff)
  have same: "map line_gross lines = map (\<lambda>j. DecV w) lines" "map (\<lambda>j. j_item j ''discount_amount'') lines = map (\<lambda>j. DecV 0) lines"
    using cells by simp_all
  have sums: "sum_v (map line_gross lines) = DecV (n * w)" "sum_v (map (\<lambda>j. j_item j ''discount_amount'') lines) = DecV 0"
    unfolding same using sum_v_dec_map [OF ne, of "\<lambda>_. w"] sum_v_dec_map [OF ne, of "\<lambda>_. 0"] assms(3) by (simp_all add: sum_list_triv)
  have pos: "0 < n * w" using assms(2,4,5) by simp
  have "greatest [sub_v (j_order j ''discount_amount'') (DecV 0), DecV 0] = DecV a" if "j \<in> set lines" for j
    using cells(2) [OF that] assms(4,5) by (simp add: max_def)
  then have raw: "raw_share 6 (DecV a) (line_gross j) (DecV (n * w)) = DecV 1"
    and amount: "greatest [sub_v (j_order j ''discount_amount'') (DecV 0), DecV 0] = DecV a" if "j \<in> set lines" for j
    using cells(1) [OF that] equal_share [of w n a] pos assms(2,4-6) that by (simp_all add: raw_share_def del: greatest.simps)
  have ones: "map (\<lambda>j. raw_share 6 (greatest [sub_v (j_order j ''discount_amount'') (DecV 0), DecV 0]) (line_gross j) (DecV (n * w))) lines =
      map (\<lambda>j. DecV 1) lines" by (intro map_cong) (simp_all add: raw amount del: greatest.simps)
  have "sum_v (map (\<lambda>j. raw_share 6 (greatest [sub_v (j_order j ''discount_amount'') (DecV 0), DecV 0]) (line_gross j) (DecV (n * w))) lines) =
      DecV n"
    unfolding ones using sum_v_dec_map [OF ne, of "\<lambda>_. 1"] assms(3) by (simp add: sum_list_triv)
  then show ?thesis
    using assms(7) top_index_less [OF ne, of "\<lambda>j. j_item j ''order_item_id''"]
    by (simp add: order_money_def Let_def sums residual_allocation_def raw amount del: greatest.simps)
qed

text \<open>A fact with a negative allocation does not pass, whatever else it holds.\<close>

lemma negative_allocation_rejected:
  assumes "r \<in> set facts" and "r ''order_discount_amount_allocated'' = DecV x" and "x < 0"
  shows "assert_fact_metrics (collect_fact_metrics facts) \<noteq> Inr ()"
proof -
  have "\<not> valid_fact_row r" using assms(2,3) by (auto simp: valid_fact_row_def MONETARY_COLUMNS_def)
  with assms(1) show ?thesis by (auto simp: fact_gate_accepts_iff list_all_iff)
qed

text \<open>
  C37. A small discount over many lines makes a negative allocation. Take any order of \<open>n\<close> lines with equal
  gross amounts and no line discounts, and an order discount of \<open>a\<close> cents with \<open>n / 2 < a < n - 1\<close> (and
  \<open>n \<le> 10000\<close>). Each share is more than half a cent and is rounded to one cent, so the residual of the last line,
  and the allocation of its fact, is \<open>a - (n - 1)\<close> cents, which is negative; the gate rejects the fact table
  whatever else it holds. A discount of 0.03 over five lines is the smallest case: the fact of an otherwise
  valid order is accepted with a discount of 0.05 and rejected with 0.03.
\<close>

theorem small_discount_rejected:
  assumes "lines \<in> set (groups (\<lambda>j. j_item j ''order_id'') (joined_lines fn d))"
    and "list_all (\<lambda>j. line_gross j = DecV w \<and> j_order j ''discount_amount'' = DecV a \<and> j_item j ''discount_amount'' = DecV 0) lines"
    and "0 < w" and "n = int (length lines)" and "n < 2 * a" and "a + 1 < n" and "n \<le> 10000"
  shows "(\<exists>j m. j \<in> set lines \<and> fact_row fn j m \<in> set (build_fact_sales fn d) \<and>
      fact_row fn j m ''order_discount_amount_allocated'' = DecV (a - (n - 1)) \<and> a - (n - 1) < 0) \<and>
    assert_fact_metrics (collect_fact_metrics (build_fact_sales fn d)) \<noteq> Inr ()"
proof -
  let ?k = "top_index (\<lambda>j. j_item j ''order_item_id'') lines" and ?ms = "order_money lines"
  have "lines \<noteq> []" using assms(4-6) by auto
  then have k: "?k < length lines" by (rule top_index_less)
  have "map2 (fact_row fn) lines ?ms ! ?k \<in> set (map2 (fact_row fn) lines ?ms)"
    using k by (intro nth_mem) simp
  then have "fact_row fn (lines ! ?k) (?ms ! ?k) \<in> set (map2 (fact_row fn) lines ?ms)"
    using k by (simp only: nth_map nth_zip length_zip length_order_money min.idem prod.case)
  then have fact: "fact_row fn (lines ! ?k) (?ms ! ?k) \<in> set (build_fact_sales fn d)"
    unfolding build_fact_sales_def set_concat set_map [of _ "groups _ _"] by (rule UN_I [OF imageI [OF assms(1)]])
  have "fact_row fn (lines ! ?k) (?ms ! ?k) ''order_discount_amount_allocated'' =
      cast_decimal 18 (m_order_discount_allocated (?ms ! ?k))" by (simp add: fact_row_def Let_def row_of_def)
  then have negative: "fact_row fn (lines ! ?k) (?ms ! ?k) ''order_discount_amount_allocated'' = DecV (a - (n - 1))"
    using small_discount_allocation [OF assms(2-7) k] assms(4-7) by (simp add: cast_decimal_def)
  have less: "a - (n - 1) < 0" using assms(6) by simp
  from fact negative less k have "\<exists>j m. j \<in> set lines \<and> fact_row fn j m \<in> set (build_fact_sales fn d) \<and>
      fact_row fn j m ''order_discount_amount_allocated'' = DecV (a - (n - 1)) \<and> a - (n - 1) < 0"
    by (intro exI [of _ "lines ! ?k"] exI [of _ "?ms ! ?k"] conjI nth_mem)
  with negative_allocation_rejected [OF fact negative less] show ?thesis by blast
qed


text \<open>An order of items of the same price whose keys all resolve, with an order discount.\<close>

definition demo_version :: "string \<Rightarrow> string \<Rightarrow> row" where
  "demo_version source sur = row_of [(source, IntV 5), (sur, IntV 50), (''effective_from'', TsV 0),
     (''effective_to'', TsV 9000000000000), (''source_category_id'', IntV 5)]"

definition demo_sale_item :: "int \<Rightarrow> row" where
  "demo_sale_item i = row_of [(''order_id'', IntV 1), (''order_item_id'', IntV i), (''product_variant_id'', IntV 5),
     (''shop_id'', IntV 5), (''quantity'', IntV 1), (''unit_price'', DecV 100), (''discount_amount'', DecV 0),
     (''tax_amount'', DecV 0)]"

definition demo_sale_order :: "int \<Rightarrow> row" where
  "demo_sale_order discount = row_of [(''order_id'', IntV 1), (''customer_id'', IntV 5), (''created_at'', TsV 864000000000),
     (''shipping_amount'', DecV 0), (''discount_amount'', DecV discount),
     (''shipping_address_snapshot'', StrV ''a''), (''billing_address_snapshot'', StrV ''a'')]"

definition demo_sale :: "int list \<Rightarrow> int \<Rightarrow> fact_inputs" where
  "demo_sale ids discount = \<lparr>f_orders = [demo_sale_order discount], f_order_items = map demo_sale_item ids,
     f_payments = [], f_shipments = [], f_order_vouchers = [], f_vouchers = [],
     f_dim_customer = [demo_version ''source_customer_id'' ''customer_key''],
     f_dim_product = [demo_version ''source_product_variant_id'' ''product_key''],
     f_dim_shop = [demo_version ''source_shop_id'' ''shop_key''],
     f_dim_category = [demo_version ''source_category_id'' ''category_key'']\<rparr>"

definition demo_sale_line :: "int \<Rightarrow> int \<Rightarrow> joined" where
  "demo_sale_line discount i = (let v = \<lambda>source key more. select (source # (more @ [key]) @ [''effective_from'', ''effective_to'']) (demo_version source key);
       f = \<lambda>source key more. select ([source, key, ''effective_from''] @ more) (demo_version source key) in
     \<lparr>j_item = demo_sale_item i, j_order = demo_sale_order discount,
      j_customer = v ''source_customer_id'' ''customer_key'' [], j_first_customer = f ''source_customer_id'' ''customer_key'' [],
      j_product = v ''source_product_variant_id'' ''product_key'' [''source_category_id''],
      j_first_product = f ''source_product_variant_id'' ''product_key'' [''source_category_id''],
      j_shop = v ''source_shop_id'' ''shop_key'' [], j_first_shop = f ''source_shop_id'' ''shop_key'' [],
      j_category = v ''source_category_id'' ''category_key'' [], j_first_category = f ''source_category_id'' ''category_key'' [],
      j_payment = null_row, j_shipment = null_row, j_promo = null_row\<rparr>)"

lemma join_field_one:
  assumes "\<And>x. x \<in> set xs \<Longrightarrow> holds (on (f x) r)"
  shows "join_field upd on [r] (map f xs) = map (\<lambda>x. upd (\<lambda>_. r) (f x)) xs"
  using assms by (induction xs) (auto simp: join_field_def left_join_def)

lemma join_field_none: "join_field upd on [] (map f xs) = map (\<lambda>x. upd (\<lambda>_. null_row) (f x)) xs"
  by (simp add: join_field_def)

lemma single_version:
  assumes "r key \<noteq> Null"
  shows "versions key cols [r] = [select (key # cols @ [''effective_from'', ''effective_to'']) r]"
    and "first_scd2_version key sur cols [r] = [select ([key, sur, ''effective_from''] @ cols) r]"
  using assms by (simp_all add: versions_def first_scd2_version_def groups_def)

lemma no_rows: "latest_by_order a b [] = []" "map f (order_promotion_keys fn [] []) = []"
  by (simp_all add: latest_by_order_def groups_def order_promotion_keys_def order_voucher_rows_def List.map_filter_def)

lemma demo_version_key: "demo_version source sur source \<noteq> Null"
  by (simp add: demo_version_def row_of_def)

lemma demo_sale_lines: "joined_lines fn (demo_sale ids discount) = map (demo_sale_line discount) ids"
  unfolding demo_sale_def joined_lines_def Let_def fact_inputs.select_convs no_rows
    single_version [OF demo_version_key]
    map_map
  by (simp add: join_field_one join_field_none joined_item_def select_def in_version_def eq3_def ge3_def lt3_def
      joined_category_id_def demo_sale_item_def demo_sale_order_def demo_version_def row_of_def demo_sale_line_def Let_def o_def) (auto simp: fun_eq_iff)


lemma demo_sale_cells:
  "j_item (demo_sale_line a i) ''order_id'' = IntV 1" "j_item (demo_sale_line a i) ''order_item_id'' = IntV i"
  "j_item (demo_sale_line a i) ''discount_amount'' = DecV 0" "j_item (demo_sale_line a i) ''tax_amount'' = DecV 0"
  "j_order (demo_sale_line a i) ''discount_amount'' = DecV a" "j_order (demo_sale_line a i) ''shipping_amount'' = DecV 0"
  "line_gross (demo_sale_line a i) = DecV 100"
  "j_item (demo_sale_line a i) ''quantity'' = IntV 1" "j_item (demo_sale_line a i) ''unit_price'' = DecV 100"
  "j_order (demo_sale_line a i) ''created_at'' = TsV 864000000000"
  "j_order (demo_sale_line a i) ''shipping_address_snapshot'' = StrV ''a''"
  "j_order (demo_sale_line a i) ''billing_address_snapshot'' = StrV ''a''"
  "j_customer (demo_sale_line a i) ''customer_key'' = IntV 50" "j_product (demo_sale_line a i) ''product_key'' = IntV 50"
  "j_shop (demo_sale_line a i) ''shop_key'' = IntV 50" "j_category (demo_sale_line a i) ''category_key'' = IntV 50"
  by (simp_all add: demo_version_def select_def demo_sale_line_def demo_sale_item_def demo_sale_order_def Let_def row_of_def line_gross_def cast_decimal_def)

lemma demo_sale_group:
  assumes "ids \<noteq> []"
  shows "groups (\<lambda>j. j_item j ''order_id'') (joined_lines fn (demo_sale ids a)) = [map (demo_sale_line a) ids]"
proof -
  have "remdups (map (\<lambda>x. IntV 1) ids) = [IntV 1]" using assms
    by (induction ids rule: list_nonempty_induct) (auto simp: image_constant_conv)
  then show ?thesis by (simp add: groups_def demo_sale_lines demo_sale_cells o_def)
qed

definition demo_sale_ids :: "int list" where
  "demo_sale_ids = [1, 10, 100, 1000, 10000]"

lemma demo_sale_money:
  "order_money (map (demo_sale_line 5) demo_sale_ids) = replicate 5 \<lparr>m_gross = DecV 100, m_order_discount_allocated = DecV 1,
     m_shipping_allocated = DecV 0, m_total_discount = DecV 1, m_net_sales = DecV 99\<rparr>"
proof -
  obtain a b c d e where l: "map (demo_sale_line 5) demo_sale_ids = [a, b, c, d, e]"
    by (simp add: demo_sale_ids_def)
  have "map (\<lambda>j. (j_item j ''order_item_id'', line_gross j, j_item j ''discount_amount'', j_order j ''discount_amount'',
      j_order j ''shipping_amount'', j_item j ''tax_amount'')) (map (demo_sale_line 5) demo_sale_ids) =
    map (\<lambda>i. (IntV i, DecV 100, DecV 0, DecV 5, DecV 0, DecV 0)) demo_sale_ids"
    by (simp add: demo_sale_cells o_def)
  note cells = this [unfolded l, unfolded demo_sale_ids_def]
  have "[0..<5] = [0, 1, 2, 3, 4 :: nat]" by (simp add: upt_conv_Cons)
  with cells show ?thesis
    by (simp add: l order_money_def residual_allocation_def raw_share_def top_index_def sum_v_def
        bround_share_def round_half_up_def round_half_even_def numeral_eq_Suc Let_def)
qed

lemma length_digit_text:
  "n < 10 \<Longrightarrow> length (digit_text n) = 1" "10 \<le> n \<Longrightarrow> length (digit_text n) = length (digit_text (n div 10)) + 1"
  by (subst digit_text.simps, simp)+

lemma demo_sale_keys:
  "positive_hash_key example_fn (location_hash_from_json example_fn (StrV ''a'')) = 28"
  "second_of_day_key (TsV 864000000000) = IntV 1"
  "date_part example_fn ''yyyyMMdd'' (to_date (TsV 864000000000)) = IntV 10"
  "map (\<lambda>i. positive_hash_key example_fn (StrV (concat_ws example_fn ''||'' [IntV 1, IntV i]))) demo_sale_ids = [4, 5, 6, 7, 8]"
  by (simp_all add: positive_hash_key_def location_hash_from_json_def location_hash_def address_fields_def json_field_def
      example_fn_def natural_hash_def natural_text_def second_of_day_key_def hour_of_def minute_of_def second_of_def date_part_def to_date_def
      micros_per_day_def concat_ws_def demo_sale_ids_def int_text_def length_digit_text del: digit_text.simps)

lemma demo_sale_valid:
  "valid_fact_row (fact_row example_fn (demo_sale_line a i) \<lparr>m_gross = DecV 100, m_order_discount_allocated = DecV 1,
     m_shipping_allocated = DecV 0, m_total_discount = DecV 1, m_net_sales = DecV 99\<rparr>)"
  by (simp add: valid_fact_row_def fact_row_def Let_def MONETARY_COLUMNS_def REQUIRED_NON_UNKNOWN_KEYS_def demo_sale_cells
      demo_sale_keys row_of_def cast_decimal_def)

lemma demo_sale_accepted:
  "assert_fact_metrics (collect_fact_metrics (build_fact_sales example_fn (demo_sale demo_sale_ids 5))) = Inr ()"
proof -
  let ?m = "\<lparr>m_gross = DecV 100, m_order_discount_allocated = DecV 1, m_shipping_allocated = DecV 0,
    m_total_discount = DecV 1, m_net_sales = DecV 99\<rparr>"
  have "groups (\<lambda>j. j_item j ''order_id'') (joined_lines example_fn (demo_sale demo_sale_ids 5)) = [map (demo_sale_line 5) demo_sale_ids]"
    by (rule demo_sale_group) (simp add: demo_sale_ids_def)
  then have facts: "build_fact_sales example_fn (demo_sale demo_sale_ids 5) =
      map (\<lambda>i. fact_row example_fn (demo_sale_line 5 i) ?m) demo_sale_ids"
    by (simp add: build_fact_sales_def demo_sale_money) (simp add: demo_sale_ids_def numeral_eq_Suc)
  have sources: "map (key_of [''source_order_id'', ''source_order_item_id''] \<circ> (\<lambda>i. fact_row example_fn (demo_sale_line 5 i) ?m)) demo_sale_ids =
      map (\<lambda>i. [IntV 1, IntV i]) demo_sale_ids"
    by (simp add: key_of_def fact_row_def Let_def row_of_def demo_sale_cells o_def)
  have sales: "map ((\<lambda>r. r ''sales_key'') \<circ> (\<lambda>i. fact_row example_fn (demo_sale_line 5 i) ?m)) demo_sale_ids = map IntV [4, 5, 6, 7, 8]"
    unfolding demo_sale_keys(4) [symmetric] by (simp add: fact_row_def Let_def row_of_def demo_sale_cells o_def)
  show ?thesis
    unfolding fact_gate_accepts_iff facts map_map sources sales
    by (simp add: list_all_iff demo_sale_valid) (simp add: demo_sale_ids_def)
qed

theorem small_discount_rejected_witness:
  "assert_fact_metrics (collect_fact_metrics (build_fact_sales example_fn (demo_sale demo_sale_ids 5))) = Inr () \<and>
   assert_fact_metrics (collect_fact_metrics (build_fact_sales example_fn (demo_sale demo_sale_ids 3))) \<noteq> Inr ()"
proof
  have "map (demo_sale_line 3) demo_sale_ids \<in>
      set (groups (\<lambda>j. j_item j ''order_id'') (joined_lines example_fn (demo_sale demo_sale_ids 3)))"
    by (subst demo_sale_group) (simp_all add: demo_sale_ids_def)
  from small_discount_rejected [OF this, of 100 3 5]
  show "assert_fact_metrics (collect_fact_metrics (build_fact_sales example_fn (demo_sale demo_sale_ids 3))) \<noteq> Inr ()"
    by (simp add: list_all_iff demo_sale_cells demo_sale_ids_def)
qed (rule demo_sale_accepted)

end
