(* ===== verification/QualityScd2.thy ===== *)
theory QualityScd2
  imports Quality
begin

text \<open>
  The replay against the gate: a dimension rebuilt from histories whose events have strictly
  increasing times passes every SCD Type 2 rule of the checker; equal event times make it fail.
\<close>

section \<open>Rows of a chain\<close>

lemma chain_from_to:
  assumes "sorted_wrt (<) (map ev_time bs)" "\<forall>a \<in> set bs. wf_event (a_row a)"
    and "v \<in> set (chain (version_row fn spec typed) bs)"
  shows "v_from v < v_to v"
  using assms
proof (induction bs)
  case (Cons b bs)
  show ?case
  proof (cases "v \<in> set (chain (version_row fn spec typed) bs)")
    case True
    with Cons show ?thesis by simp
  next
    case False
    with Cons.prems(3) have v: "v = version_row fn spec typed (case bs of [] \<Rightarrow> None | c # _ \<Rightarrow> Some c) b"
      by (auto split: if_splits)
    have wfb: "wf_event (a_row b)" using Cons.prems(2) by simp
    have "v_from v \<le> ev_time b"
      unfolding v version_from by (rule effective_from_le [OF wfb])
    also have "ev_time b < v_to v"
    proof (cases bs)
      case Nil
      with wfb v show ?thesis by (auto simp: version_to ev_time_def wf_event_iff open_end_def)
    next
      case (Cons c cs)
      with Cons.prems(1,2) v show ?thesis
        by (auto simp: version_to ev_time_def wf_event_iff)
    qed
    finally show ?thesis .
  qed
qed simp

lemma version_current: "(\<And>c. nxt = Some c \<Longrightarrow> wf_event (a_row c)) \<Longrightarrow>
    v_current (version_row fn spec typed nxt a) \<longleftrightarrow> nxt = None"
  by (cases nxt) (auto simp: version_row_def Let_def wf_event_iff)

lemma version_deleted: "(\<And>c. nxt = Some c \<Longrightarrow> wf_event (a_row c)) \<Longrightarrow>
    v_deleted (version_row fn spec typed nxt a) \<longleftrightarrow>
      (\<exists>c. nxt = Some c \<and> holds (is_delete (a_row c)))"
  by (cases nxt)
     (auto simp: version_row_def Let_def wf_event_iff is_delete_def eq3_def coalesce3_def)

lemma chain_current:
  assumes "\<forall>a \<in> set bs. wf_event (a_row a)"
  shows "length (filter v_current (chain (version_row fn spec typed) bs)) =
    (if bs \<noteq> [] \<and> holds (a_start (last bs)) then 1 else 0)"
  using assms
proof (induction bs)
  case (Cons b bs)
  have "v_current (version_row fn spec typed (case bs of [] \<Rightarrow> None | c # _ \<Rightarrow> Some c) b) \<longleftrightarrow> bs = []"
    using Cons.prems by (subst version_current) (auto split: list.splits)
  with Cons show ?case by (cases bs) auto
qed simp

lemma chain_deleted:
  assumes "\<forall>a \<in> set bs. wf_event (a_row a)"
    and "\<forall>a \<in> set bs. \<not> holds (a_start a) \<longrightarrow> holds (is_delete (a_row a))"
    and "bs \<noteq> []" "holds (a_start (hd bs))" "\<not> holds (a_start (last bs))"
  shows "\<exists>v \<in> set (chain (version_row fn spec typed) bs). v_deleted v"
  using assms
proof (induction bs)
  case (Cons b bs)
  obtain c cs where bs: "bs = c # cs" using Cons.prems(4,5) by (cases bs) auto
  show ?case
  proof (cases "holds (a_start c)")
    case True
    with Cons bs show ?thesis by auto
  next
    case False
    then have "v_deleted (version_row fn spec typed (Some c) b)"
      using Cons.prems(1,2) bs by (subst version_deleted) auto
    with Cons.prems(4) bs show ?thesis by auto
  qed
qed simp

section \<open>Histories with strictly increasing times\<close>

definition strict_history :: "scd2_spec \<Rightarrow> row list \<Rightarrow> bool" where
  "strict_history spec ys \<longleftrightarrow> (\<forall>r \<in> set ys. wf_event r) \<and>
     sorted_wrt (<) (map (\<lambda>r. r ''_event_time'') ys) \<and>
     (case ys of [] \<Rightarrow> True | r # _ \<Rightarrow> \<not> holds (is_delete r))"

lemma strict_boundaries:
  assumes "strict_history spec ys"
  shows "sorted_wrt (<) (map ev_time (boundaries (annotate [] 0 ys)))"
    and "\<forall>a \<in> set (boundaries (annotate [] 0 ys)). \<not> holds (a_start a) \<longrightarrow> holds (is_delete (a_row a))"
    and "boundaries (annotate [] 0 ys) \<noteq> [] \<Longrightarrow> holds (a_start (hd (boundaries (annotate [] 0 ys))))"
proof -
  have "map ev_time (annotate [] 0 ys) = map (\<lambda>r. r ''_event_time'') ys"
    by (metis (no_types, lifting) comp_apply ev_time_def map_a_row_annotate map_eq_conv map_map)
  with assms have "sorted_wrt (<) (map ev_time (annotate [] 0 ys))"
    by (simp add: strict_history_def)
  then show "sorted_wrt (<) (map ev_time (boundaries (annotate [] 0 ys)))"
    unfolding boundaries_def sorted_wrt_map by (rule sorted_wrt_filter)
  show "\<forall>a \<in> set (boundaries (annotate [] 0 ys)). \<not> holds (a_start a) \<longrightarrow> holds (is_delete (a_row a))"
    by (auto simp: boundaries_def)
  show "holds (a_start (hd (boundaries (annotate [] 0 ys))))" if "boundaries (annotate [] 0 ys) \<noteq> []"
  proof (cases ys)
    case (Cons r rs)
    with assms have "wf_event r" "\<not> holds (is_delete r)" by (auto simp: strict_history_def)
    then have "holds (is_type2_start [] r)"
      by (auto simp: is_type2_start_def is_non_delete_def is_delete_wf previous_non_delete_hash_def
          is_null3_def)
    with Cons show ?thesis by (simp add: boundaries_def Let_def)
  qed (use that in \<open>simp add: boundaries_def\<close>)
qed

section \<open>The checker on one entity\<close>

definition spec_ok :: "scd2_spec \<Rightarrow> bool" where
  "spec_ok spec \<longleftrightarrow> source_key spec \<in> set (dimension_columns spec) \<and>
     source_key spec \<notin> set (type1_columns spec) \<and>
     source_key spec \<notin> {surrogate_key spec, ''effective_from'', ''effective_to'', ''is_current'', ''is_deleted''} \<and>
     surrogate_key spec \<notin> {''effective_from'', ''effective_to'', ''is_current'', ''is_deleted''}"

lemma dim_row_cells [simp]:
  "dim_row spec v ''effective_to'' = v_to v"
  "dim_row spec v ''is_current'' = BoolV (v_current v)"
  "dim_row spec v ''is_deleted'' = BoolV (v_deleted v)"
  "dim_row spec v ''effective_from'' = v_from v"
  by (simp_all add: dim_row_def)

lemma dim_row_source:
  assumes "spec_ok spec" "v \<in> set (replay_entity fn spec xs)"
  shows "dim_row spec v (source_key spec) = v_source v"
  using assms by (auto simp: replay_entity_def Let_def version_row_def dim_row_def spec_ok_def select_def)

lemma overlapping_chain:
  assumes "sorted_wrt (\<lambda>v w. v_to v \<le> v_from w) vs"
  shows "overlapping (map (dim_row spec) vs) = []"
  using assms
proof (induction vs)
  case (Cons v vs)
  then show ?case by (cases vs) auto
qed simp

lemma bool3_of_BoolV [simp]: "holds (bool3_of (BoolV b)) = b"
  by (simp add: bool3_of_def)

lemma entity_passes:
  assumes vs: "vs = chain (version_row fn spec typed) (boundaries (annotate [] 0 ys))"
    and strict: "strict_history spec ys"
    and disj: "sorted_wrt (\<lambda>v w. v_to v \<le> v_from w) vs"
  shows "\<forall>v \<in> set vs. v_from v < v_to v"
    and "overlapping (sort_key (\<lambda>r. [r ''effective_from'', r (surrogate_key spec)]) (map (dim_row spec) vs)) = []"
    and "vs \<noteq> [] \<Longrightarrow> length (filter v_current vs) \<le> 1 \<and> (length (filter v_current vs) = 0 \<longrightarrow> (\<exists>v \<in> set vs. v_deleted v))"
proof -
  have wf: "\<forall>a \<in> set (boundaries (annotate [] 0 ys)). wf_event (a_row a)"
    using strict boundary_in by (auto simp: strict_history_def)
  show ft: "\<forall>v \<in> set vs. v_from v < v_to v"
    using chain_from_to [OF strict_boundaries(1) [OF strict] wf] vs by blast
  have "sorted_wrt (\<lambda>v w. v_from v < v_from w) vs"
    using disj ft
  proof (induction vs)
    case (Cons v vs)
    then show ?case by (auto intro: less_le_trans)
  qed simp
  then have "sorted (map (\<lambda>v. [v_from v, dim_row spec v (surrogate_key spec)]) vs)"
    unfolding sorted_wrt_map by (rule sorted_wrt_mono_rel [rotated]) simp
  then have "sort_key (\<lambda>r. [r ''effective_from'', r (surrogate_key spec)]) (map (dim_row spec) vs) =
      map (dim_row spec) vs"
    by (intro sort_key_id_if_sorted) (simp add: comp_def)
  then show "overlapping (sort_key (\<lambda>r. [r ''effective_from'', r (surrogate_key spec)]) (map (dim_row spec) vs)) = []"
    using overlapping_chain [OF disj] by simp
  assume "vs \<noteq> []"
  with vs have ne: "boundaries (annotate [] 0 ys) \<noteq> []" by auto
  show "length (filter v_current vs) \<le> 1 \<and> (length (filter v_current vs) = 0 \<longrightarrow> (\<exists>v \<in> set vs. v_deleted v))"
    using chain_current [OF wf, of fn spec typed]
      chain_deleted [OF wf strict_boundaries(2) [OF strict] ne strict_boundaries(3) [OF strict ne], of fn spec typed]
    unfolding vs using ne by auto
qed

section \<open>The checker on a rebuilt dimension\<close>

lemma rebuilt_group:
  assumes "spec_ok spec" "k \<noteq> Null"
  shows "filter (\<lambda>r. r (source_key spec) = k) (map (dim_row spec) (replay_single_entity_scd2 fn spec events)) =
    map (dim_row spec) (filter (\<lambda>v. v_source v = k) (replay_single_entity_scd2 fn spec events))"
proof -
  have "dim_row spec v (source_key spec) = v_source v"
    if "v \<in> set (replay_single_entity_scd2 fn spec events)" for v
    using that dim_row_source [OF assms(1)] by (auto simp: replay_single_entity_scd2_def Let_def)
  then show ?thesis unfolding filter_map comp_def by (intro arg_cong [where f = "map _"] filter_cong) auto
qed

lemma rebuilt_entity:
  assumes "k \<noteq> Null" "strict_history spec (entity_events spec k events)"
    and "vs = filter (\<lambda>v. v_source v = k) (replay_single_entity_scd2 fn spec events)"
  shows "\<forall>v \<in> set vs. v_from v < v_to v"
    and "overlapping (sort_key (\<lambda>r. [r ''effective_from'', r (surrogate_key spec)]) (map (dim_row spec) vs)) = []"
    and "vs \<noteq> [] \<Longrightarrow> length (filter v_current vs) \<le> 1 \<and> (length (filter v_current vs) = 0 \<longrightarrow> (\<exists>v \<in> set vs. v_deleted v))"
proof -
  have wf: "\<forall>r \<in> set (entity_events spec k events). wf_event r"
    using assms(2) by (simp add: strict_history_def)
  have vs: "vs = chain (version_row fn spec (typed_events (history_anns spec k events)))
      (boundaries (annotate [] 0 (entity_events spec k events)))"
    using assms(3) entity_versions [OF assms(1) wf] by (simp add: history_anns_def)
  have disj: "sorted_wrt (\<lambda>v w. v_to v \<le> v_from w) vs"
    using chain_disjoint [OF history_boundaries [OF wf]] vs by (simp add: history_anns_def)
  note entity_passes [OF vs assms(2) disj]
  then show "\<forall>v \<in> set vs. v_from v < v_to v"
    and "overlapping (sort_key (\<lambda>r. [r ''effective_from'', r (surrogate_key spec)]) (map (dim_row spec) vs)) = []"
    and "vs \<noteq> [] \<Longrightarrow> length (filter v_current vs) \<le> 1 \<and> (length (filter v_current vs) = 0 \<longrightarrow> (\<exists>v \<in> set vs. v_deleted v))"
    by blast+
qed

lemma rebuilt_rows_non_null:
  assumes "spec_ok spec" "r \<in> set (map (dim_row spec) (replay_single_entity_scd2 fn spec events))"
  shows "\<exists>v \<in> set (replay_single_entity_scd2 fn spec events).
    r = dim_row spec v \<and> r (source_key spec) = v_source v \<and> v_source v \<noteq> Null"
proof -
  from assms(2) obtain v where v: "r = dim_row spec v" "v \<in> set (replay_single_entity_scd2 fn spec events)"
    by auto
  then have "r (source_key spec) = v_source v"
    using dim_row_source [OF assms(1)] by (auto simp: replay_single_entity_scd2_def Let_def)
  with v replay_sources_non_null [OF v(2)] show ?thesis by blast
qed

lemma rebuilt_dimension_rules:
  assumes ok: "spec_ok spec"
    and strict: "\<And>k. k \<noteq> Null \<Longrightarrow> strict_history spec (entity_events spec k events)"
    and dim: "dimension = map (dim_row spec) (replay_single_entity_scd2 fn spec events)"
  shows "invalid_current (source_key spec) True dimension = []"
    and "invalid_range dimension = []"
    and "overlap (source_key spec) (surrogate_key spec) dimension = []"
proof -
  have group: "\<exists>k. k \<noteq> Null \<and> g \<noteq> [] \<and>
      g = map (dim_row spec) (filter (\<lambda>v. v_source v = k) (replay_single_entity_scd2 fn spec events))"
    if g: "g \<in> set (groups (\<lambda>r. r (source_key spec)) dimension)" for g
  proof -
    from groups_non_empty [OF g] obtain r where r: "r \<in> set g" by (cases g) auto
    from groups_full [OF g r] r have rd: "r \<in> set dimension" by auto
    obtain v :: scd2_row where v: "r (source_key spec) = v_source v" "v_source v \<noteq> Null"
      using rebuilt_rows_non_null [OF ok rd [unfolded dim]] by blast
    have "g = filter (\<lambda>s. s (source_key spec) = v_source v) dimension"
      using groups_full [OF g r] v(1) by simp
    then have "g = map (dim_row spec) (filter (\<lambda>w. v_source w = v_source v) (replay_single_entity_scd2 fn spec events))"
      using rebuilt_group [OF ok v(2), of fn events] dim by (simp only:)
    with v(2) groups_non_empty [OF g] show ?thesis by blast
  qed
  have "\<not> (let current = length (filter (\<lambda>r. holds (bool3_of (r ''is_current''))) g);
             has_deleted = True \<and> (\<exists>r \<in> set g. holds (bool3_of (r ''is_deleted'')))
         in current > 1 \<or> (current = 0 \<and> \<not> has_deleted))"
    if "g \<in> set (groups (\<lambda>r. r (source_key spec)) dimension)" for g
  proof -
    obtain k where k: "k \<noteq> Null" "g \<noteq> []"
      "g = map (dim_row spec) (filter (\<lambda>v. v_source v = k) (replay_single_entity_scd2 fn spec events))"
      using group [OF \<open>g \<in> _\<close>] by blast
    from rebuilt_entity(3) [OF k(1) strict [OF k(1)] refl, of fn] k(2,3) show ?thesis
      by (auto simp: Let_def filter_map comp_def)
  qed
  then show "invalid_current (source_key spec) True dimension = []"
    unfolding invalid_current_def filter_empty_conv by blast
  show "invalid_range dimension = []"
  proof -
    have "r ''effective_from'' < r ''effective_to''" if rd: "r \<in> set dimension" for r
    proof -
      obtain v where v: "r = dim_row spec v" "v \<in> set (replay_single_entity_scd2 fn spec events)"
        "v_source v \<noteq> Null"
        using rebuilt_rows_non_null [OF ok rd [unfolded dim]] by blast
      from rebuilt_entity(1) [OF v(3) strict [OF v(3)] refl, of fn] v show ?thesis by auto
    qed
    then have "\<not> holds (ge3 (r ''effective_from'') (r ''effective_to''))" if "r \<in> set dimension" for r
      using that by (metis holds_ge3 leD)
    then show ?thesis unfolding invalid_range_def where3_def filter_empty_conv by blast
  qed
  show "overlap (source_key spec) (surrogate_key spec) dimension = []"
    unfolding overlap_def concat_eq_Nil_conv
  proof
    fix rs assume "rs \<in> set (map (\<lambda>g. overlapping (sort_key (\<lambda>r. [r ''effective_from'', r (surrogate_key spec)]) g))
        (groups (\<lambda>r. r (source_key spec)) dimension))"
    then obtain g where g: "g \<in> set (groups (\<lambda>r. r (source_key spec)) dimension)"
      "rs = overlapping (sort_key (\<lambda>r. [r ''effective_from'', r (surrogate_key spec)]) g)" by auto
    obtain k where k: "k \<noteq> Null"
      "g = map (dim_row spec) (filter (\<lambda>v. v_source v = k) (replay_single_entity_scd2 fn spec events))"
      using group [OF g(1)] by blast
    from rebuilt_entity(2) [OF k(1) strict [OF k(1)] refl] g(2) k(2) show "rs = []" by simp
  qed
qed

text \<open>
  C35. The replay satisfies the gate: when every entity's history starts with a non-delete event
  and its events have strictly increasing times, the rebuilt dimension (with or without the
  unknown member) has no violation of the checker's rules: at most one current version, a version
  marked deleted where none is current, no empty interval, no overlap.
\<close>

theorem strict_histories_pass_gate:
  assumes "spec_ok spec"
    and "\<forall>k. k \<noteq> Null \<longrightarrow> strict_history spec (entity_events spec k events)"
    and "dc_source_key c = source_key spec" and "dc_surrogate_key c = surrogate_key spec"
    and "''is_deleted'' \<in> set cols" and "map_of member (source_key spec) = None"
  shows "scd2_violations c \<lparr>df_cols = cols, df_rows = with_unknown include_unknown member
     (map (dim_row spec) (replay_single_entity_scd2 fn spec events))\<rparr> = []"
proof -
  let ?dim = "map (dim_row spec) (replay_single_entity_scd2 fn spec events)"
  have "filter (\<lambda>r. r (source_key spec) \<noteq> Null) ?dim = ?dim"
    using rebuilt_rows_non_null [OF assms(1)] by (intro filter_True) metis
  moreover have "row_of (member @ [(''effective_from'', TsV 0), (''effective_to'', open_end),
      (''is_current'', BoolV True), (''is_deleted'', BoolV False)]) (source_key spec) = Null"
    using assms(1,6) by (auto simp: row_of_def spec_ok_def map_add_def split: option.splits)
  ultimately have "filter (\<lambda>r. r (source_key spec) \<noteq> Null) (with_unknown include_unknown member ?dim) = ?dim"
    by (simp add: with_unknown_def)
  then show ?thesis
    using rebuilt_dimension_rules [OF assms(1) _ refl, of events fn] assms(2-5)
    by (simp add: scd2_violations_def)
qed

lemma demo_strict: "k \<noteq> Null \<Longrightarrow> strict_history demo_spec (entity_events demo_spec k demo_history)"
proof (cases "k = IntV 7")
  case True
  show ?thesis unfolding True demo_entity_events
    by (simp add: strict_history_def demo_event_def row_of_def wf_event_def open_end_def is_delete_def
        eq3_def)
next
  case False
  have "r \<notin> set (entity_events demo_spec k demo_history)" for r
  proof
    assume r: "r \<in> set (entity_events demo_spec k demo_history)"
    then have "r \<in> set demo_history" using entity_events_props(3) by blast
    then have "r ''id'' = IntV 7" by (auto simp: demo_history_def demo_event_def row_of_def)
    with entity_events_props(4) [OF r] False show False by (simp add: demo_spec_def)
  qed
  then have "entity_events demo_spec k demo_history = []" by (metis list.set_intros(1) neq_Nil_conv)
  then show ?thesis by (simp add: strict_history_def)
qed

theorem strict_histories_pass_gate_witness:
  "scd2_violations \<lparr>dc_source_key = ''id'', dc_surrogate_key = ''key'',
      dc_initial_effective_from = ''created_at'', dc_type1_columns = [], dc_attribute_hash = ''attribute_hash''\<rparr>
    \<lparr>df_cols = [''is_deleted''], df_rows = with_unknown True [(''key'', IntV 0)]
       (map (dim_row demo_spec) (replay_single_entity_scd2 example_fn demo_spec demo_history))\<rparr> = []"
  by (rule strict_histories_pass_gate) (auto simp: spec_ok_def demo_spec_def demo_strict [unfolded demo_spec_def])

section \<open>Events at the same instant\<close>

lemma chain_adjacent: "holds (a_start a) \<Longrightarrow> f (Some b) a \<in> set (chain f (xs @ a # b # ys))"
  by (induction xs) auto

lemma scd2_violations_range:
  "r \<in> set (df_rows table) \<Longrightarrow> r (dc_source_key c) \<noteq> Null \<Longrightarrow>
    holds (ge3 (r ''effective_from'') (r ''effective_to'')) \<Longrightarrow> scd2_violations c table \<noteq> []"
  by (auto simp: scd2_violations_def Let_def invalid_range_def where3_def filter_empty_conv)

text \<open>
  C36. Two changes of an entity with the same event time (for instance two statements of one
  transaction, whose outbox rows carry the transaction's time) can block Gold: whenever \<open>e1\<close> opens a
  version that is not the entity's first and the next event \<open>e2\<close>, at the same time, opens another
  version or deletes the entity, the version of \<open>e1\<close> is an empty interval and the checker reports a
  violation. (The first version of an entity starts at its creation, so it need not be empty.)
\<close>

theorem equal_event_times_fail_gate:
  assumes "spec_ok spec" and "k \<noteq> Null" and "dc_source_key c = source_key spec"
    and "entity_events spec k events = before @ e1 # e2 # rest"
    and "\<forall>r \<in> set (before @ e1 # e2 # rest). wf_event r"
    and "before \<noteq> []" and "\<not> holds (is_delete (hd before))"
    and "holds (is_type2_start before e1)"
    and "holds (or3 (is_type2_start (before @ [e1]) e2) (is_delete e2))"
    and "e1 ''_event_time'' = e2 ''_event_time''"
  shows "scd2_violations c \<lparr>df_cols = cols, df_rows =
    map (dim_row spec) (replay_single_entity_scd2 fn spec events)\<rparr> \<noteq> []"
proof -
  obtain A where A: "annotate [] 0 (before @ e1 # e2 # rest) = annotate [] 0 before @ A"
      "map a_row A = e1 # e2 # rest" "\<forall>a \<in> set A. holds (a_start a) \<longrightarrow> 1 < a_version a"
    using annotate_split [OF assms(6,7), of "e1 # e2 # rest"] assms(5) by auto
  obtain m where "annotate [] 0 (before @ e1 # e2 # rest) =
      annotate [] 0 before @ annotate ([] @ before) m (e1 # e2 # rest)"
    using annotate_append by blast
  with A(1) obtain a1 a2 C where a: "A = a1 # a2 # C" "a_row a1 = e1" "a_row a2 = e2"
      "a_start a1 = is_type2_start before e1" "a_start a2 = is_type2_start (before @ [e1]) e2"
    by (auto simp: Let_def)
  let ?F = "version_row fn spec (typed_events (history_anns spec k events))"
  have "boundaries (history_anns spec k events) = boundaries (annotate [] 0 before) @ a1 # a2 # boundaries C"
    using A(1) a assms(4,8,9) by (simp add: history_anns_def boundaries_append) (auto simp: boundaries_def)
  then have "?F (Some a2) a1 \<in> set (chain ?F (boundaries (history_anns spec k events)))"
    using chain_adjacent [of a1 ?F a2] a(4) assms(8) by metis
  then have v: "?F (Some a2) a1 \<in> set (filter (\<lambda>v. v_source v = k) (replay_single_entity_scd2 fn spec events))"
    using entity_versions [OF assms(2), of spec events fn] assms(4,5) by simp
  have wf2: "wf_event e2" using assms(5) by simp
  have "v_from (?F (Some a2) a1) = e1 ''_event_time''"
    using A(3) a assms(8) by (simp add: version_from effective_from_later ev_time_def)
  moreover have "v_to (?F (Some a2) a1) = e2 ''_event_time''"
    using wf2 a(3) by (auto simp: version_to ev_time_def wf_event_iff)
  ultimately have "holds (ge3 (v_from (?F (Some a2) a1)) (v_to (?F (Some a2) a1)))"
    using assms(10) wf2 by (auto simp: wf_event_iff)
  moreover have "dim_row spec (?F (Some a2) a1) (source_key spec) = k"
  proof -
    have "dim_row spec (?F (Some a2) a1) \<in> set (filter (\<lambda>r. r (source_key spec) = k)
        (map (dim_row spec) (replay_single_entity_scd2 fn spec events)))"
      unfolding rebuilt_group [OF assms(1,2)] using imageI [OF v] by (simp only: set_map)
    then show ?thesis by (simp only: set_filter mem_Collect_eq)
  qed
  ultimately show ?thesis
    using v assms(2,3) by (intro scd2_violations_range [of "dim_row spec (?F (Some a2) a1)"]) auto
qed

definition twice_in_a_transaction :: "row list" where
  "twice_in_a_transaction = [demo_event 1 10 ''INSERT'' ''ann'', demo_event 2 20 ''UPDATE'' ''bea'',
     demo_event 3 20 ''UPDATE'' ''cyd'']"

theorem equal_event_times_fail_gate_witness:
  "scd2_violations \<lparr>dc_source_key = ''id'', dc_surrogate_key = ''key'',
      dc_initial_effective_from = ''created_at'', dc_type1_columns = [], dc_attribute_hash = ''attribute_hash''\<rparr>
    \<lparr>df_cols = [''is_deleted''], df_rows =
       map (dim_row demo_spec) (replay_single_entity_scd2 example_fn demo_spec twice_in_a_transaction)\<rparr> \<noteq> []"
proof (rule equal_event_times_fail_gate [where k = "IntV 7" and before = "[demo_event 1 10 ''INSERT'' ''ann'']"
      and rest = "[]" and ?e1.0 = "demo_event 2 20 ''UPDATE'' ''bea''" and ?e2.0 = "demo_event 3 20 ''UPDATE'' ''cyd''"])
  show "entity_events demo_spec (IntV 7) twice_in_a_transaction = [demo_event 1 10 ''INSERT'' ''ann''] @
      demo_event 2 20 ''UPDATE'' ''bea'' # demo_event 3 20 ''UPDATE'' ''cyd'' # []"
    by (simp add: entity_events_def twice_in_a_transaction_def demo_event_def demo_spec_def row_of_def
        drop_duplicates_def key_of_def int_text_def event_order_def event_order_columns_def
        order_field_names_def asc_nulls_last_def nulls_last_def)
qed (simp_all add: spec_ok_def demo_spec_def demo_event_def row_of_def wf_event_def open_end_def
    is_type2_start_def is_non_delete_def is_delete_def eq3_def previous_non_delete_hash_def
    eq_null_safe_def last_non_null_def is_null3_def)

end
