(* ===== verification/Delta.thy ===== *)
theory Delta
  imports Config
begin

text \<open>
  The Delta Lake adapter (\<open>adapters/lakehouse.py\<close>). A Delta table is its list of commits: the
  version of a table is the index of its last commit, and a commit holds the schema, the rows, the
  change data feed (change type and row) and the user metadata of its transaction. The lake maps storage locations to tables and carries the
  three Spark settings the context managers set. The semantics of MERGE (\<open>merge_exec\<close>) is Delta's
  documented one: the first clause whose condition holds is applied to a matched row, several source
  rows for one target row are an error, and a MERGE that neither inserts a row nor rewrites the file
  of one (\<open>merge_rewrites\<close>) and carries no transaction identifier makes no commit.
\<close>

section \<open>The lake\<close>

record commit =
  cm_cols :: "string list"
  cm_rows :: "row list"
  cm_changes :: "(string \<times> row) list"
  cm_metadata :: "string option"

record delta_table =
  dt_commits :: "commit list"
  dt_props :: "(string \<times> string) list"
  dt_txns :: "(string \<times> int) list"

record lake =
  lk_tables :: "string \<Rightarrow> delta_table option"
  lk_metadata :: "string option"
  lk_txn_app :: "string option"
  lk_txn_version :: "int option"

text \<open>An operation on the lake returns a result or an exception, and the lake it leaves behind.\<close>

type_synonym 'a io = "lake \<Rightarrow> 'a res \<times> lake"

definition io_return :: "'a \<Rightarrow> 'a io" where
  "io_return a s = (Inr a, s)"

definition io_raise :: "exn \<Rightarrow> 'a io" where
  "io_raise e s = (Inl e, s)"

definition io_bind :: "'a io \<Rightarrow> ('a \<Rightarrow> 'b io) \<Rightarrow> 'b io" where
  "io_bind m f s = (case m s of (Inl e, s') \<Rightarrow> (Inl e, s') | (Inr a, s') \<Rightarrow> f a s')"

definition io_lift :: "'a res \<Rightarrow> 'a io" where
  "io_lift r s = (r, s)"

definition io_get :: "(lake \<Rightarrow> 'a res) \<Rightarrow> 'a io" where
  "io_get f s = (f s, s)"

lemma io_simps [simp, res_simps]:
  "io_bind (io_return a) f = f a"
  "io_bind (io_raise e) f = io_raise e"
  "io_bind (io_lift (Inr a)) f = f a"
  "io_bind (io_lift (Inl e)) f = io_raise e"
  "io_return a s = (Inr a, s)"
  "io_raise e s = (Inl e, s)"
  "io_lift r s = (r, s)"
  by (auto simp: io_bind_def io_return_def io_raise_def io_lift_def)

section \<open>Transaction settings\<close>

definition delta_commit_metadata :: "(json \<Rightarrow> string) \<Rightarrow> json \<Rightarrow> 'a io \<Rightarrow> 'a io" where
  "delta_commit_metadata dumps metadata body s =
     (let previous = lk_metadata s;
          (r, s') = body (s\<lparr>lk_metadata := Some (dumps metadata)\<rparr>)
      in (r, s'\<lparr>lk_metadata := previous\<rparr>))"

definition delta_idempotent_transaction :: "string \<Rightarrow> int \<Rightarrow> 'a io \<Rightarrow> 'a io" where
  "delta_idempotent_transaction application_id transaction_version body s =
     (let previous_app_id = lk_txn_app s; previous_version = lk_txn_version s;
          (r, s') = body (s\<lparr>lk_txn_app := Some application_id, lk_txn_version := Some transaction_version\<rparr>)
      in (r, s'\<lparr>lk_txn_app := previous_app_id, lk_txn_version := previous_version\<rparr>))"

section \<open>Commits\<close>

definition latest_commit :: "delta_table \<Rightarrow> commit" where
  "latest_commit t = last (dt_commits t)"

definition missing_table :: exn where
  "missing_table = DeltaError ''DELTA_TABLE_NOT_FOUND''"

definition delta_table_at :: "lake \<Rightarrow> string \<Rightarrow> delta_table res" where
  "delta_table_at s ref = (case lk_tables s ref of None \<Rightarrow> Inl missing_table | Some t \<Rightarrow> Inr t)"

text \<open>
  A transaction on a table: skipped when the settings name an application whose recorded version is
  not older, appended to the table's commits otherwise.
\<close>

definition txn_seen :: "lake \<Rightarrow> delta_table \<Rightarrow> bool" where
  "txn_seen s t = (case (lk_txn_app s, lk_txn_version s) of
     (Some app, Some v) \<Rightarrow> (case map_of (dt_txns t) app of Some w \<Rightarrow> v \<le> w | None \<Rightarrow> False)
   | _ \<Rightarrow> False)"

definition empty_table :: delta_table where
  "empty_table = \<lparr>dt_commits = [], dt_props = [], dt_txns = []\<rparr>"

definition table_or_empty :: "lake \<Rightarrow> string \<Rightarrow> delta_table" where
  "table_or_empty s ref = (case lk_tables s ref of Some t \<Rightarrow> t | None \<Rightarrow> empty_table)"

definition commit_table ::
    "string \<Rightarrow> string list \<Rightarrow> row list \<Rightarrow> (string \<times> row) list \<Rightarrow> lake \<Rightarrow> lake" where
  "commit_table ref cols rows changes s =
     (let t = table_or_empty s ref
      in if txn_seen s t then s
         else s\<lparr>lk_tables := (lk_tables s)(ref \<mapsto> t\<lparr>
           dt_commits := dt_commits t @ [\<lparr>cm_cols = cols, cm_rows = rows, cm_changes = changes, cm_metadata = lk_metadata s\<rparr>],
           dt_txns := (case (lk_txn_app s, lk_txn_version s) of
             (Some app, Some v) \<Rightarrow> assoc_set app v (dt_txns t) | _ \<Rightarrow> dt_txns t)\<rparr>)\<rparr>)"

text \<open>\<open>history(n)\<close>: version and metadata of the last \<open>n\<close> commits, newest first.\<close>

definition history :: "nat \<Rightarrow> delta_table \<Rightarrow> (int \<times> string option) list" where
  "history n t = take n (rev (map (\<lambda>i. (int i, cm_metadata (dt_commits t ! i))) [0..<length (dt_commits t)]))"

section \<open>Progress metadata\<close>

definition PROGRESS_HISTORY_FALLBACK_LIMIT :: nat where
  "PROGRESS_HISTORY_FALLBACK_LIMIT = 100"

record table_state =
  ts_version :: int
  ts_progress_version :: "int option"
  ts_progress :: "json option"

record pipeline_commit =
  pc_version :: int
  pc_metadata :: json

definition metadata_for_pipelines ::
    "(string \<Rightarrow> json option) \<Rightarrow> string option \<Rightarrow> string list \<Rightarrow> json option" where
  "metadata_for_pipelines loads raw pipelines = (case raw of None \<Rightarrow> None
   | Some text \<Rightarrow> (case loads text of
       Some (JObj kvs) \<Rightarrow> (case map_of kvs ''pipeline'' of
          Some (JStr p) \<Rightarrow> if p \<in> set pipelines then Some (JObj kvs) else None
        | _ \<Rightarrow> None)
     | _ \<Rightarrow> None))"

definition pipeline_metadata :: "(string \<Rightarrow> json option) \<Rightarrow> string option \<Rightarrow> string \<Rightarrow> json option" where
  "pipeline_metadata loads raw pipeline = metadata_for_pipelines loads raw [pipeline]"

definition latest_delta_version :: "lake \<Rightarrow> string \<Rightarrow> int res" where
  "latest_delta_version s ref = and_then (delta_table_at s ref) (\<lambda>t.
     case history 1 t of [] \<Rightarrow> Inl (RuntimeError ''Delta history is empty'') | (v, _) # _ \<Rightarrow> Inr v)"

fun first_progress ::
    "(string option \<Rightarrow> json option) \<Rightarrow> (int \<times> string option) list \<Rightarrow> (int \<times> json) option" where
  "first_progress f [] = None"
| "first_progress f ((v, raw) # rows) = (case f raw of Some m \<Rightarrow> Some (v, m) | None \<Rightarrow> first_progress f rows)"

definition latest_delta_pipeline_commit ::
    "(string \<Rightarrow> json option) \<Rightarrow> lake \<Rightarrow> string \<Rightarrow> string list \<Rightarrow> pipeline_commit res" where
  "latest_delta_pipeline_commit loads s ref pipelines =
     and_then (raise_if (pipelines = []) (ValueError ''pipelines must not be empty'')) (\<lambda>_.
     and_then (delta_table_at s ref) (\<lambda>t.
     case history 1 t of
       [] \<Rightarrow> Inl (RuntimeError ''Delta history is empty'')
     | (v, raw) # _ \<Rightarrow> (case metadata_for_pipelines loads raw pipelines of
           Some m \<Rightarrow> Inr \<lparr>pc_version = v, pc_metadata = m\<rparr>
         | None \<Rightarrow> (case first_progress (\<lambda>raw. metadata_for_pipelines loads raw pipelines)
                        (history PROGRESS_HISTORY_FALLBACK_LIMIT t) of
               Some (w, m) \<Rightarrow> Inr \<lparr>pc_version = w, pc_metadata = m\<rparr>
             | None \<Rightarrow> Inl (RuntimeError ''Delta data progress metadata is missing'')))))"

definition missing_as_none :: "'a res \<Rightarrow> 'a option res" where
  "missing_as_none r = (case r of Inr a \<Rightarrow> Inr (Some a)
     | Inl e \<Rightarrow> if e = missing_table then Inr None else Inl e)"

definition try_latest_delta_pipeline_commit ::
    "(string \<Rightarrow> json option) \<Rightarrow> lake \<Rightarrow> string \<Rightarrow> string list \<Rightarrow> pipeline_commit option res" where
  "try_latest_delta_pipeline_commit loads s ref pipelines =
     missing_as_none (latest_delta_pipeline_commit loads s ref pipelines)"

definition delta_table_state :: "(string \<Rightarrow> json option) \<Rightarrow> lake \<Rightarrow> string \<Rightarrow> string \<Rightarrow> table_state res" where
  "delta_table_state loads s ref pipeline = and_then (delta_table_at s ref) (\<lambda>t.
     case history 1 t of
       [] \<Rightarrow> Inl (RuntimeError ''Delta history is empty'')
     | (v, raw) # _ \<Rightarrow> (case pipeline_metadata loads raw pipeline of
           Some m \<Rightarrow> Inr \<lparr>ts_version = v, ts_progress_version = Some v, ts_progress = Some m\<rparr>
         | None \<Rightarrow> (case first_progress (\<lambda>raw. pipeline_metadata loads raw pipeline)
                        (history PROGRESS_HISTORY_FALLBACK_LIMIT t) of
               Some (w, m) \<Rightarrow> Inr \<lparr>ts_version = v, ts_progress_version = Some w, ts_progress = Some m\<rparr>
             | None \<Rightarrow> Inr \<lparr>ts_version = v, ts_progress_version = None, ts_progress = None\<rparr>)))"

definition try_delta_table_state ::
    "(string \<Rightarrow> json option) \<Rightarrow> lake \<Rightarrow> string \<Rightarrow> string \<Rightarrow> table_state option res" where
  "try_delta_table_state loads s ref pipeline = missing_as_none (delta_table_state loads s ref pipeline)"

definition delta_table_properties :: "lake \<Rightarrow> string \<Rightarrow> (string \<times> string) list res" where
  "delta_table_properties s ref = and_then (delta_table_at s ref) (\<lambda>t. Inr (dt_props t))"

definition try_delta_table_properties :: "lake \<Rightarrow> string \<Rightarrow> (string \<times> string) list option res" where
  "try_delta_table_properties s ref = missing_as_none (delta_table_properties s ref)"

text \<open>\<open>ALTER TABLE ... SET TBLPROPERTIES\<close> is a commit of its own, without new rows.\<close>

definition set_delta_table_property :: "string \<Rightarrow> string \<Rightarrow> string \<Rightarrow> unit io" where
  "set_delta_table_property ref key v s = (case lk_tables s ref of
     None \<Rightarrow> (Inl missing_table, s)
   | Some t \<Rightarrow> (Inr (), s\<lparr>lk_tables := (lk_tables s)(ref \<mapsto> t\<lparr>
       dt_commits := dt_commits t @ [(latest_commit t)\<lparr>cm_changes := [], cm_metadata := lk_metadata s\<rparr>],
       dt_props := assoc_set key v (dt_props t)\<rparr>)\<rparr>))"

section \<open>Reading\<close>

definition snapshot :: "delta_table \<Rightarrow> int option \<Rightarrow> df res" where
  "snapshot t version = (case version of
     None \<Rightarrow> (let c = latest_commit t in Inr \<lparr>df_cols = cm_cols c, df_rows = cm_rows c\<rparr>)
   | Some v \<Rightarrow>
       if 0 \<le> v \<and> nat v < length (dt_commits t)
       then (let c = dt_commits t ! nat v in Inr \<lparr>df_cols = cm_cols c, df_rows = cm_rows c\<rparr>)
       else Inl (DeltaError ''DELTA_VERSION_NOT_FOUND''))"

definition read_delta :: "lake \<Rightarrow> string \<Rightarrow> int option \<Rightarrow> df res" where
  "read_delta s ref version = and_then (delta_table_at s ref) (\<lambda>t. snapshot t version)"

text \<open>
  Reading the change data feed of a range of versions: the changes of its commits in order. A range
  that starts after the latest version is an error, one that ends after it stops there.
\<close>

definition change_feed :: "delta_table \<Rightarrow> int \<Rightarrow> int \<Rightarrow> (string \<times> row) list res" where
  "change_feed t starting_version ending_version =
     (if map_of (dt_props t) ''delta.enableChangeDataFeed'' \<noteq> Some ''true''
      then Inl (DeltaError ''DELTA_MISSING_CHANGE_DATA'')
      else if ending_version < starting_version then Inl (DeltaError ''DELTA_INVALID_CDC_RANGE'')
      else if int (length (dt_commits t)) \<le> starting_version then Inl (DeltaError ''DELTA_INVALID_CDC_RANGE'')
      else Inr (concat (map cm_changes
             (drop (nat starting_version) (take (nat (ending_version + 1)) (dt_commits t))))))"

definition read_change_feed :: "lake \<Rightarrow> string \<Rightarrow> int \<Rightarrow> int \<Rightarrow> (string \<times> row) list res" where
  "read_change_feed s ref starting_version ending_version =
     and_then (delta_table_at s ref) (\<lambda>t. change_feed t starting_version ending_version)"

definition current_rows :: "lake \<Rightarrow> string \<Rightarrow> row list" where
  "current_rows s ref = (case lk_tables s ref of None \<Rightarrow> [] | Some t \<Rightarrow> cm_rows (latest_commit t))"

record adapter =
  ad_lakehouse :: lakehouse_config
  ad_gold_versions :: "(string \<times> int) list option"

definition with_gold_versions :: "(string \<times> int) list \<Rightarrow> adapter \<Rightarrow> adapter" where
  "with_gold_versions versions ad = ad\<lparr>ad_gold_versions := Some versions\<rparr>"

definition hide_deleted :: "df \<Rightarrow> df" where
  "hide_deleted d = (if ''_is_deleted'' \<in> set (df_cols d)
     then d\<lparr>df_rows := where3 (\<lambda>r. not3 (coalesce3 (bool3_of (r ''_is_deleted'')) False)) (df_rows d)\<rparr>
     else d)"

definition read_table :: "adapter \<Rightarrow> lake \<Rightarrow> string \<Rightarrow> string \<Rightarrow> bool \<Rightarrow> df res" where
  "read_table ad s layer name include_deleted =
     and_then (table_reference (ad_lakehouse ad) layer name) (\<lambda>ref.
     and_then (case ad_gold_versions ad of
         Some versions \<Rightarrow> if layer = ''gold'' then (case map_of versions name of
             None \<Rightarrow> Inl (ValueError ''Gold table is not part of the published snapshot'')
           | Some v \<Rightarrow> Inr (Some v)) else Inr None
       | None \<Rightarrow> Inr None) (\<lambda>version.
     and_then (read_delta s (tr_value ref) version) (\<lambda>d.
     Inr (if layer = ''silver'' \<and> \<not> include_deleted then hide_deleted d else d))))"

definition table_exists :: "adapter \<Rightarrow> lake \<Rightarrow> string \<Rightarrow> string \<Rightarrow> bool res" where
  "table_exists ad s layer name =
     and_then (table_reference (ad_lakehouse ad) layer name) (\<lambda>ref.
     Inr (lk_tables s (tr_value ref) \<noteq> None))"

section \<open>Writing\<close>

definition write_table :: "adapter \<Rightarrow> df \<Rightarrow> string \<Rightarrow> string \<Rightarrow> bool \<Rightarrow> unit io" where
  "write_table ad d layer name enable_change_data_feed =
     io_bind (io_lift (table_reference (ad_lakehouse ad) layer name)) (\<lambda>ref s.
       let s' = commit_table (tr_value ref) (df_cols d) (df_rows d)
             (map (Pair ''delete'') (current_rows s (tr_value ref)) @ map (Pair ''insert'') (df_rows d)) s
       in (Inr (), if enable_change_data_feed \<and> \<not> txn_seen s (table_or_empty s (tr_value ref))
            then s'\<lparr>lk_tables := (lk_tables s')(tr_value ref :=
              map_option (\<lambda>t. t\<lparr>dt_props := assoc_set ''delta.enableChangeDataFeed'' ''true'' (dt_props t)\<rparr>)
                (lk_tables s' (tr_value ref)))\<rparr>
            else s'))"

end
