(* ===== verification/Merge.thy ===== *)
theory Merge
  imports Delta
begin

text \<open>
  The keyed writes of the Delta adapter (\<open>upsert_table\<close> and \<open>append_new_rows\<close> of
  \<open>adapters/lakehouse.py\<close>): the MERGE statement each builds, its execution, and the null-safe
  lexicographic order that decides which of two versions of a row is newer.
\<close>

section \<open>MERGE\<close>

text \<open>Conditions see the source row, then the target row.\<close>

type_synonym merge_cond = "row \<Rightarrow> row \<Rightarrow> bool3"

datatype matched_clause = MatchedDelete merge_cond | MatchedUpdate merge_cond "string list"

record merge_stmt =
  ms_on :: merge_cond
  ms_matched :: "matched_clause list"
  ms_insert_cond :: "row \<Rightarrow> bool3"
  ms_insert_cols :: "string list"
  ms_delete_not_matched_by_source :: bool

text \<open>\<open>UPDATE SET target.c = source.c\<close> for the listed columns.\<close>

definition update_from :: "string list \<Rightarrow> row \<Rightarrow> row \<Rightarrow> row" where
  "update_from cols s t = (\<lambda>c. if c \<in> set cols then s c else t c)"

fun apply_matched :: "matched_clause list \<Rightarrow> row \<Rightarrow> row \<Rightarrow> row option" where
  "apply_matched [] s t = Some t"
| "apply_matched (MatchedDelete c # cs) s t = (if holds (c s t) then None else apply_matched cs s t)"
| "apply_matched (MatchedUpdate c cols # cs) s t =
     (if holds (c s t) then Some (update_from cols s t) else apply_matched cs s t)"

fun clause_fires :: "matched_clause list \<Rightarrow> row \<Rightarrow> row \<Rightarrow> bool" where
  "clause_fires [] s t = False"
| "clause_fires (MatchedDelete c # cs) s t = (holds (c s t) \<or> clause_fires cs s t)"
| "clause_fires (MatchedUpdate c cols # cs) s t = (holds (c s t) \<or> clause_fires cs s t)"

definition matches :: "merge_stmt \<Rightarrow> row list \<Rightarrow> row \<Rightarrow> row list" where
  "matches m src t = filter (\<lambda>s. holds (ms_on m s t)) src"

definition merge_target_row :: "merge_stmt \<Rightarrow> row list \<Rightarrow> row \<Rightarrow> row list" where
  "merge_target_row m src t = (case matches m src t of
     [] \<Rightarrow> if ms_delete_not_matched_by_source m then [] else [t]
   | s # _ \<Rightarrow> (case apply_matched (ms_matched m) s t of None \<Rightarrow> [] | Some r \<Rightarrow> [r]))"

definition merge_inserts :: "merge_stmt \<Rightarrow> row list \<Rightarrow> row list \<Rightarrow> row list" where
  "merge_inserts m src tgt =
     map (select (ms_insert_cols m))
       (filter (\<lambda>s. (\<forall>t \<in> set tgt. \<not> holds (ms_on m s t)) \<and> holds (ms_insert_cond m s)) src)"

text \<open>
  Which matched row makes Delta rewrite its file (delta-spark 3.2.0, the release that
  \<open>pyproject.toml\<close> pins; \<open>README.md\<close> gives the rewriting of files of members that already exist as
  the reason why immutable dimensions are appended to and not merged). A statement with update or delete clauses
  only looks for the rows a clause fires on; with an insert clause beside them, or a clause for
  unmatched target rows, the file of every matched row is rewritten, whether or not a clause
  changes the row. A statement with an insert clause only rewrites nothing.
\<close>

definition merge_rewrites :: "merge_stmt \<Rightarrow> row \<Rightarrow> row \<Rightarrow> bool" where
  "merge_rewrites m s t \<longleftrightarrow> clause_fires (ms_matched m) s t \<or>
     ms_matched m \<noteq> [] \<and> ms_insert_cols m \<noteq> [] \<or> ms_delete_not_matched_by_source m"

text \<open>
  The new rows of the target, and whether the statement has files to add or remove, and so makes
  a commit.
\<close>

definition merge_exec :: "merge_stmt \<Rightarrow> row list \<Rightarrow> row list \<Rightarrow> (row list \<times> bool) res" where
  "merge_exec m src tgt =
     (if ms_matched m \<noteq> [] \<and> (\<exists>t \<in> set tgt. length (matches m src t) > 1)
      then Inl (DeltaError ''DELTA_MULTIPLE_SOURCE_ROW_MATCHING_TARGET_ROW_IN_MERGE'')
      else Inr (concat (map (merge_target_row m src) tgt) @ merge_inserts m src tgt,
                merge_inserts m src tgt \<noteq> [] \<or>
                (\<exists>t \<in> set tgt. case matches m src t of
                   [] \<Rightarrow> ms_delete_not_matched_by_source m
                 | s # _ \<Rightarrow> merge_rewrites m s t)))"

text \<open>The change data feed of a MERGE: one pre- and one post-image for an updated row.\<close>

definition merge_feed :: "merge_stmt \<Rightarrow> row list \<Rightarrow> row list \<Rightarrow> (string \<times> row) list" where
  "merge_feed m src tgt =
     concat (map (\<lambda>t. case matches m src t of
         [] \<Rightarrow> if ms_delete_not_matched_by_source m then [(''delete'', t)] else []
       | s # _ \<Rightarrow> if clause_fires (ms_matched m) s t
           then (case apply_matched (ms_matched m) s t of None \<Rightarrow> [(''delete'', t)]
                 | Some r \<Rightarrow> [(''update_preimage'', t), (''update_postimage'', r)])
           else []) tgt) @
     map (Pair ''insert'') (merge_inserts m src tgt)"

section \<open>Newer rows\<close>

definition greater_cond :: "string \<Rightarrow> merge_cond" where
  "greater_cond name s t =
     and3 (Some (s name \<noteq> Null)) (or3 (is_null3 (t name)) (gt3 (s name) (t name)))"

fun newer_clauses :: "string list \<Rightarrow> string list \<Rightarrow> merge_cond list" where
  "newer_clauses equal_prefix [] = []"
| "newer_clauses equal_prefix (name # names) =
     (\<lambda>s t. foldr (\<lambda>p c. and3 (eq_null_safe (s p) (t p)) c) equal_prefix (greater_cond name s t)) #
     newer_clauses (equal_prefix @ [name]) names"

definition lexicographic_newer_condition :: "string list \<Rightarrow> merge_cond option" where
  "lexicographic_newer_condition sequence_columns =
     (if sequence_columns = [] then None
      else Some (\<lambda>s t. foldr (\<lambda>c acc. or3 (c s t) acc) (newer_clauses [] sequence_columns) (Some False)))"

text \<open>\<open>(newer) AND c\<close>, or \<open>c\<close> alone without sequence columns.\<close>

definition and_newer :: "merge_cond option \<Rightarrow> merge_cond \<Rightarrow> merge_cond" where
  "and_newer newer c = (case newer of None \<Rightarrow> c | Some n \<Rightarrow> (\<lambda>s t. and3 (n s t) (c s t)))"

section \<open>The upsert\<close>

record upsert_options =
  uo_delete_mode :: string
  uo_delete_not_matched_by_source :: bool
  uo_delete_keys :: "df option"
  uo_sequence_columns :: "string list"
  uo_target_exists :: "bool option"
  uo_source_is_nonempty :: bool
  uo_preserve_target_on_soft_delete :: bool

definition soft_upsert :: "string list \<Rightarrow> upsert_options" where
  "soft_upsert sequence_columns = \<lparr>uo_delete_mode = ''soft'', uo_delete_not_matched_by_source = False,
     uo_delete_keys = None, uo_sequence_columns = sequence_columns, uo_target_exists = None,
     uo_source_is_nonempty = False, uo_preserve_target_on_soft_delete = False\<rparr>"

text \<open>The options of the CDC stream: a tombstone only updates the metadata columns of the row it deletes.\<close>

definition cdc_upsert :: "string list \<Rightarrow> upsert_options" where
  "cdc_upsert sequence_columns = \<lparr>uo_delete_mode = ''soft'', uo_delete_not_matched_by_source = False,
     uo_delete_keys = None, uo_sequence_columns = sequence_columns, uo_target_exists = Some True,
     uo_source_is_nonempty = True, uo_preserve_target_on_soft_delete = True\<rparr>"

definition join_on :: "string list \<Rightarrow> merge_cond" where
  "join_on keys s t = foldr (\<lambda>k c. and3 (eq3 (t k) (s k)) c) keys (Some True)"

definition rows_differ :: "string list \<Rightarrow> merge_cond" where
  "rows_differ cols s t = not3 (foldr (\<lambda>c acc. and3 (eq_null_safe (t c) (s c)) acc) cols (Some True))"

definition uses_operation_delete :: "upsert_options \<Rightarrow> string list \<Rightarrow> bool" where
  "uses_operation_delete opt cols \<longleftrightarrow> uo_delete_mode opt = ''hard'' \<and> ''_operation'' \<in> set cols"

definition preserves_soft_delete :: "upsert_options \<Rightarrow> string list \<Rightarrow> bool" where
  "preserves_soft_delete opt cols \<longleftrightarrow> uo_preserve_target_on_soft_delete opt \<and>
     uo_delete_mode opt = ''soft'' \<and> ''_is_deleted'' \<in> set cols"

definition delete_condition :: "upsert_options \<Rightarrow> string list \<Rightarrow> (row \<Rightarrow> bool3) option" where
  "delete_condition opt cols =
     (if uo_delete_keys opt \<noteq> None then Some (\<lambda>s. bool3_of (s ''_delete''))
      else if uses_operation_delete opt cols then Some (\<lambda>s. eq3 (s ''_operation'') (StrV ''DELETE''))
      else None)"

definition merge_changes :: "upsert_options \<Rightarrow> string list \<Rightarrow> df \<Rightarrow> row list" where
  "merge_changes opt merge_keys d = (case uo_delete_keys opt of
     None \<Rightarrow> df_rows d
   | Some dk \<Rightarrow> map (\<lambda>r. r(''_delete'' := BoolV False)) (df_rows d) @
       map (\<lambda>r. (select merge_keys r)(''_delete'' := BoolV True)) (drop_duplicates merge_keys (df_rows dk)))"

definition active_source :: "row \<Rightarrow> bool3" where
  "active_source s = not3 (coalesce3 (bool3_of (s ''_is_deleted'')) False)"

definition starts_with_underscore :: "string \<Rightarrow> bool" where
  "starts_with_underscore s = (case s of c # _ \<Rightarrow> c = CHR ''_'' | [] \<Rightarrow> False)"

definition merge_statement :: "upsert_options \<Rightarrow> string \<Rightarrow> string list \<Rightarrow> string list \<Rightarrow> merge_stmt" where
  "merge_statement opt layer merge_keys cols =
    (let newer = lexicographic_newer_condition (uo_sequence_columns opt);
         ignored = merge_keys @ [''created_at'', ''_silver_updated_at''] @
           (if layer = ''gold'' then [''updated_at''] else []);
         compared = sort (filter (\<lambda>c. c \<notin> set ignored) cols);
         update_columns = sort (filter (\<lambda>c. c \<noteq> ''created_at'') cols);
         del = delete_condition opt cols;
         preserves = preserves_soft_delete opt cols;
         not_delete0 = map_option (\<lambda>c s. not3 (c s)) del;
         not_delete = (if preserves then (case not_delete0 of
             None \<Rightarrow> Some active_source
           | Some n \<Rightarrow> Some (\<lambda>s. and3 (n s) (active_source s))) else not_delete0);
         guard = (\<lambda>c. case not_delete of None \<Rightarrow> c | Some n \<Rightarrow> (\<lambda>s t. and3 (n s) (c s t)))
     in \<lparr>ms_on = join_on merge_keys,
         ms_matched =
           (case del of None \<Rightarrow> [] | Some c \<Rightarrow> [MatchedDelete (and_newer newer (\<lambda>s t. c s))]) @
           (if preserves then [MatchedUpdate
              (and_newer newer (\<lambda>s t. eq3 (s ''_is_deleted'') (BoolV True)))
              (filter (starts_with_underscore) update_columns)] else []) @
           (if compared \<noteq> [] then [MatchedUpdate (guard (and_newer newer (rows_differ compared)))
              update_columns] else []),
         ms_insert_cond = (case uo_delete_keys opt of
             None \<Rightarrow> (case not_delete of None \<Rightarrow> (\<lambda>s. Some True) | Some n \<Rightarrow> n)
           | Some dk \<Rightarrow> (\<lambda>s. not3 (bool3_of (s ''_delete'')))),
         ms_insert_cols = cols,
         ms_delete_not_matched_by_source = uo_delete_not_matched_by_source opt\<rparr>)"

definition validate_schema_match :: "string list \<Rightarrow> string list \<Rightarrow> unit res" where
  "validate_schema_match source_columns target_columns =
     raise_if (set source_columns \<noteq> set target_columns) (ValueError ''Schema mismatch'')"

definition validate_upsert :: "df \<Rightarrow> string list \<Rightarrow> upsert_options \<Rightarrow> unit res" where
  "validate_upsert d merge_keys opt =
     and_then (raise_if (merge_keys = []) (ValueError ''merge_keys must not be empty'')) (\<lambda>_.
     and_then (raise_if (uo_delete_mode opt \<notin> {''soft'', ''hard''})
       (ValueError ''delete_mode must be either soft or hard'')) (\<lambda>_.
     and_then (raise_if (case uo_delete_keys opt of None \<Rightarrow> False
         | Some dk \<Rightarrow> \<not> set merge_keys \<subseteq> set (df_cols dk)) (ValueError ''Missing delete keys'')) (\<lambda>_.
     raise_if (\<not> set (uo_sequence_columns opt) \<subseteq> set (df_cols d)) (ValueError ''Missing sequence columns''))))"

text \<open>A transaction identifier is an action of the commit, so it is recorded even when no row changes.\<close>

definition in_transaction :: "lake \<Rightarrow> bool" where
  "in_transaction s \<longleftrightarrow> lk_txn_app s \<noteq> None \<and> lk_txn_version s \<noteq> None"

definition run_merge :: "string \<Rightarrow> merge_stmt \<Rightarrow> row list \<Rightarrow> unit io" where
  "run_merge ref m src s = (case delta_table_at s ref of
     Inl e \<Rightarrow> (Inl e, s)
   | Inr t \<Rightarrow> (let c = latest_commit t in
       (case merge_exec m src (cm_rows c) of
          Inl e \<Rightarrow> (Inl e, s)
        | Inr (rows, touched) \<Rightarrow>
            (Inr (), if touched \<or> in_transaction s then commit_table ref (cm_cols c) rows (merge_feed m src (cm_rows c)) s else s))))"

definition upsert_table ::
    "adapter \<Rightarrow> df \<Rightarrow> string \<Rightarrow> string \<Rightarrow> string list \<Rightarrow> upsert_options \<Rightarrow> bool io" where
  "upsert_table ad d layer name merge_keys opt =
     io_bind (io_lift (validate_upsert d merge_keys opt)) (\<lambda>_.
     io_bind (io_lift (table_reference (ad_lakehouse ad) layer name)) (\<lambda>ref.
     io_bind (case uo_target_exists opt of Some b \<Rightarrow> io_return b
              | None \<Rightarrow> io_get (\<lambda>s. table_exists ad s layer name)) (\<lambda>exists.
     if \<not> exists then
       io_bind (write_table ad
           (if uses_operation_delete opt (df_cols d)
            then d\<lparr>df_rows := where3 (\<lambda>r. coalesce3 (not3 (eq3 (r ''_operation'') (StrV ''DELETE''))) True) (df_rows d)\<rparr>
            else d) layer name False) (\<lambda>_. io_return True)
     else
       io_bind (io_get (\<lambda>s. read_table ad s layer name False)) (\<lambda>target.
       io_bind (io_lift (validate_schema_match (df_cols d) (df_cols target))) (\<lambda>_.
       let changes = merge_changes opt merge_keys d
       in if \<not> uo_source_is_nonempty opt \<and> changes = [] then io_return False
          else io_bind (run_merge (tr_value ref) (merge_statement opt layer merge_keys (df_cols d)) changes)
                 (\<lambda>_. io_return True))))))"

definition append_new_rows ::
    "adapter \<Rightarrow> df \<Rightarrow> string \<Rightarrow> string \<Rightarrow> string list \<Rightarrow> bool option \<Rightarrow> bool io" where
  "append_new_rows ad d layer name merge_keys target_exists =
     io_bind (io_lift (raise_if (merge_keys = []) (ValueError ''merge_keys must not be empty''))) (\<lambda>_.
     io_bind (io_lift (raise_if (\<not> set merge_keys \<subseteq> set (df_cols d)) (ValueError ''Missing append keys''))) (\<lambda>_.
     io_bind (io_lift (table_reference (ad_lakehouse ad) layer name)) (\<lambda>ref.
     io_bind (case target_exists of Some b \<Rightarrow> io_return b
              | None \<Rightarrow> io_get (\<lambda>s. table_exists ad s layer name)) (\<lambda>exists.
     if \<not> exists then io_bind (write_table ad d layer name False) (\<lambda>_. io_return True)
     else
       io_bind (io_get (\<lambda>s. read_table ad s layer name False)) (\<lambda>target.
       io_bind (io_lift (validate_schema_match (df_cols d) (df_cols target))) (\<lambda>_.
       io_bind (run_merge (tr_value ref)
         \<lparr>ms_on = join_on merge_keys, ms_matched = [], ms_insert_cond = (\<lambda>s. Some True),
          ms_insert_cols = df_cols d, ms_delete_not_matched_by_source = False\<rparr>
         (drop_duplicates merge_keys (df_rows d))) (\<lambda>_. io_return True)))))))"

end
