(* ===== verification/MergeSpec.thy ===== *)
theory MergeSpec
  imports Merge
begin

text \<open>
  What the keyed writes promise, stated on tables as maps from keys to rows: the newer condition is
  the strict lexicographic order with NULL lowest; a sequenced upsert keeps the newest version of
  each key, is idempotent, and commutes with other upserts.
\<close>

section \<open>The newer condition\<close>

lemma holds_greater_cond [simp]: "holds (greater_cond name s t) \<longleftrightarrow> t name < s name"
  by (auto simp: greater_cond_def is_null3_def)

lemma holds_foldr_eq_null_safe:
  "holds (foldr (\<lambda>p c. and3 (eq_null_safe (f p) (g p)) c) ps c) \<longleftrightarrow> (\<forall>p \<in> set ps. f p = g p) \<and> holds c"
  by (induction ps) (auto simp: eq_null_safe_def)

lemma holds_foldr_or3: "holds (foldr (\<lambda>c acc. or3 (c s t) acc) cs (Some False)) \<longleftrightarrow> (\<exists>c \<in> set cs. holds (c s t))"
  by (induction cs) auto

lemma newer_clauses_iff:
  "(\<exists>c \<in> set (newer_clauses pre names). holds (c s t)) \<longleftrightarrow>
     (\<forall>p \<in> set pre. s p = t p) \<and> map t names < map s names"
proof (induction names arbitrary: pre)
  case (Cons n names)
  have "(\<exists>c \<in> set (newer_clauses pre (n # names)). holds (c s t)) \<longleftrightarrow>
      ((\<forall>p \<in> set pre. s p = t p) \<and> t n < s n) \<or>
      (\<exists>c \<in> set (newer_clauses (pre @ [n]) names). holds (c s t))"
    by (simp only: newer_clauses.simps list.set bex_simps holds_foldr_eq_null_safe holds_greater_cond)
  also have "\<dots> \<longleftrightarrow> ((\<forall>p \<in> set pre. s p = t p) \<and> t n < s n) \<or>
      (\<forall>p \<in> set (pre @ [n]). s p = t p) \<and> map t names < map s names"
    by (simp only: Cons.IH)
  also have "\<dots> \<longleftrightarrow> (\<forall>p \<in> set pre. s p = t p) \<and> (t n < s n \<or> t n = s n \<and> map t names < map s names)"
    by (simp only: set_append list.set ball_Un ball_simps eq_commute [of "s n"]) blast
  also have "(t n < s n \<or> t n = s n \<and> map t names < map s names) \<longleftrightarrow> map t (n # names) < map s (n # names)"
    by (simp only: list.map Cons_less_Cons)
  finally show ?case .
qed simp

lemma newer_iff_less:
  assumes "lexicographic_newer_condition cols = Some n"
  shows "holds (n s t) \<longleftrightarrow> key_of cols t < key_of cols s"
  using assms newer_clauses_iff [of "[]" cols s t]
  by (auto simp: lexicographic_newer_condition_def holds_foldr_or3 key_of_def split: if_splits)

text \<open>
  The condition the adapter generates for a list of sequence columns holds exactly when the
  target's sequence is strictly below the source's in the lexicographic order in which NULL is the
  least value; so it is a strict order: no row is newer than itself, and two rows with different
  sequences are comparable.
\<close>

theorem newer_condition_lexicographic:
  "case lexicographic_newer_condition cols of None \<Rightarrow> cols = []
   | Some n \<Rightarrow> holds (n s t) = (key_of cols t < key_of cols s) \<and> \<not> holds (n s s)"
proof (cases "lexicographic_newer_condition cols")
  case None
  then show ?thesis by (simp add: lexicographic_newer_condition_def split: if_splits)
next
  case (Some n)
  then show ?thesis using newer_iff_less [OF Some] by simp
qed

section \<open>An order-independent store\<close>

text \<open>
  The contract between the sequence order and the keyed store: rows are compared by their sequence,
  and a put keeps the newer of the stored and the offered row.
\<close>

locale sequenced_store =
  fixes seq :: "'r \<Rightarrow> 'k :: linorder"
    and newer :: "'r \<Rightarrow> 'r \<Rightarrow> bool"
  assumes newer_iff: "newer s t \<longleftrightarrow> seq t < seq s"
begin

definition put :: "'r option \<Rightarrow> 'r option \<Rightarrow> 'r option" where
  "put s t = (case (s, t) of (None, t) \<Rightarrow> t | (Some s, None) \<Rightarrow> Some s
     | (Some s, Some t) \<Rightarrow> Some (if newer s t then s else t))"

lemma put_idem: "put s (put s t) = put s t"
  by (cases s; cases t) (auto simp: put_def newer_iff)

lemma put_commute:
  assumes "\<And>a b. {Some a, Some b} \<subseteq> {s1, s2, t} \<Longrightarrow> seq a = seq b \<Longrightarrow> a = b"
  shows "put s1 (put s2 t) = put s2 (put s1 t)"
proof (cases s1; cases s2; cases t)
  fix a b assume "s1 = Some a" "s2 = Some b" "t = None"
  then show ?thesis using assms [of a b] by (auto simp: put_def newer_iff)
next
  fix a b c assume s: "s1 = Some a" "s2 = Some b" "t = Some c"
  then have "seq a = seq b \<Longrightarrow> a = b" using assms [of a b] by simp
  with s show ?thesis by (auto simp: put_def newer_iff)
qed (auto simp: put_def newer_iff)

lemma put_newest: "put s (Some t) = Some r \<Longrightarrow> seq t \<le> seq r"
  by (cases s) (auto simp: put_def newer_iff split: if_splits)

end

definition newer_row :: "string list \<Rightarrow> row \<Rightarrow> row \<Rightarrow> bool" where
  "newer_row cols s t = (case lexicographic_newer_condition cols of None \<Rightarrow> False | Some n \<Rightarrow> holds (n s t))"

lemma newer_row_iff: "newer_row cols s t \<longleftrightarrow> key_of cols t < key_of cols s"
proof (cases "lexicographic_newer_condition cols")
  case None
  then have "cols = []" by (simp add: lexicographic_newer_condition_def split: if_splits)
  then show ?thesis by (simp add: newer_row_def key_of_def lexicographic_newer_condition_def)
next
  case (Some n)
  then show ?thesis by (simp add: newer_row_def newer_iff_less)
qed

interpretation silver: sequenced_store "key_of cols" "newer_row cols" for cols
  by unfold_locales (rule newer_row_iff)

section \<open>Tables by key\<close>

definition by_key :: "string list \<Rightarrow> row list \<Rightarrow> val list \<Rightarrow> row option" where
  "by_key keys rows = map_of (map (\<lambda>r. (key_of keys r, r)) rows)"

definition keyed :: "string list \<Rightarrow> row list \<Rightarrow> bool" where
  "keyed keys rows \<longleftrightarrow> distinct (map (key_of keys) rows) \<and> (\<forall>r \<in> set rows. \<not> has_null (key_of keys r))"

lemma by_key_Some: "by_key keys rows k = Some r \<Longrightarrow> r \<in> set rows \<and> key_of keys r = k"
  by (auto simp: by_key_def dest: map_of_SomeD)

lemma by_key_None: "by_key keys rows k = None \<longleftrightarrow> (\<forall>r \<in> set rows. key_of keys r \<noteq> k)"
  by (auto simp: by_key_def map_of_eq_None_iff image_iff)

lemma by_key_in: "keyed keys rows \<Longrightarrow> r \<in> set rows \<Longrightarrow> by_key keys rows (key_of keys r) = Some r"
  by (auto simp: by_key_def keyed_def comp_def intro!: map_of_is_SomeI)

lemma holds_join_on: "holds (join_on keys s t) \<longleftrightarrow> key_of keys s = key_of keys t \<and> \<not> has_null (key_of keys t)"
  unfolding join_on_def has_null_def key_of_def by (induction keys) auto

lemma filter_unique_key:
  assumes "keyed keys src" "\<not> has_null (key_of keys t)"
  shows "filter (\<lambda>s. holds (join_on keys s t)) src =
    (case by_key keys src (key_of keys t) of None \<Rightarrow> [] | Some s \<Rightarrow> [s])"
  using assms
proof (induction src)
  case (Cons s src)
  then have ks: "keyed keys src" by (simp add: keyed_def)
  show ?case
  proof (cases "key_of keys s = key_of keys t")
    case True
    have "\<not> holds (join_on keys r t)" if "r \<in> set src" for r
      using Cons.prems(1) that True by (auto simp: holds_join_on keyed_def image_iff)
    then have "filter (\<lambda>s. holds (join_on keys s t)) src = []" by (simp add: filter_empty_conv)
    with True Cons.prems(2) show ?thesis by (simp add: by_key_def holds_join_on)
  next
    case False
    then have "by_key keys (s # src) (key_of keys t) = by_key keys src (key_of keys t)"
      by (simp add: by_key_def)
    with False Cons.IH [OF ks Cons.prems(2)] show ?thesis by (simp add: holds_join_on)
  qed
qed (simp add: by_key_def)

section \<open>The sequenced soft upsert\<close>

definition silver_merge :: "string list \<Rightarrow> string list \<Rightarrow> string list \<Rightarrow> merge_stmt" where
  "silver_merge seqs keys cols = merge_statement (soft_upsert seqs) ''silver'' keys cols"

definition compared_columns :: "string list \<Rightarrow> string list \<Rightarrow> string list" where
  "compared_columns keys cols = sort (filter (\<lambda>c. c \<notin> set (keys @ [''created_at'', ''_silver_updated_at''])) cols)"

definition update_columns :: "string list \<Rightarrow> string list" where
  "update_columns cols = sort (filter (\<lambda>c. c \<noteq> ''created_at'') cols)"

text \<open>The sequence columns are ordinary columns of the table: not keys and not the ignored timestamps.\<close>

definition merge_columns_ok :: "string list \<Rightarrow> string list \<Rightarrow> string list \<Rightarrow> bool" where
  "merge_columns_ok seqs keys cols \<longleftrightarrow> seqs \<noteq> [] \<and> set seqs \<subseteq> set cols \<and> set keys \<subseteq> set cols \<and>
     set seqs \<inter> set (keys @ [''created_at'', ''_silver_updated_at'']) = {} \<and> ''created_at'' \<notin> set keys"

definition in_columns :: "string list \<Rightarrow> row list \<Rightarrow> bool" where
  "in_columns cols rows \<longleftrightarrow> (\<forall>r \<in> set rows. \<forall>c. c \<notin> set cols \<longrightarrow> r c = Null)"

lemma silver_merge_fields:
  assumes "merge_columns_ok seqs keys cols"
  shows "ms_on (silver_merge seqs keys cols) = join_on keys"
    and "\<exists>n. lexicographic_newer_condition seqs = Some n \<and> ms_matched (silver_merge seqs keys cols) =
      [MatchedUpdate (\<lambda>s t. and3 (n s t) (rows_differ (compared_columns keys cols) s t)) (update_columns cols)]"
    and "ms_insert_cond (silver_merge seqs keys cols) = (\<lambda>s. Some True)"
    and "ms_insert_cols (silver_merge seqs keys cols) = cols"
    and "\<not> ms_delete_not_matched_by_source (silver_merge seqs keys cols)"
proof -
  obtain q where "q \<in> set seqs" using assms by (cases seqs) (auto simp: merge_columns_ok_def)
  then have "q \<in> set (compared_columns keys cols)"
    using assms by (auto simp: merge_columns_ok_def compared_columns_def)
  then have ne: "compared_columns keys cols \<noteq> []" by auto
  then have ne': "sort (filter (\<lambda>c. c \<notin> set (keys @ [''created_at'', ''_silver_updated_at''] @ [])) cols) \<noteq> []"
    by (simp add: compared_columns_def)
  have seqs: "seqs \<noteq> []" using assms by (simp add: merge_columns_ok_def)
  show "ms_on (silver_merge seqs keys cols) = join_on keys"
    "ms_insert_cond (silver_merge seqs keys cols) = (\<lambda>s. Some True)"
    "ms_insert_cols (silver_merge seqs keys cols) = cols"
    "\<not> ms_delete_not_matched_by_source (silver_merge seqs keys cols)"
    by (simp_all add: silver_merge_def merge_statement_def soft_upsert_def delete_condition_def
        uses_operation_delete_def preserves_soft_delete_def Let_def)
  show "\<exists>n. lexicographic_newer_condition seqs = Some n \<and> ms_matched (silver_merge seqs keys cols) =
      [MatchedUpdate (\<lambda>s t. and3 (n s t) (rows_differ (compared_columns keys cols) s t)) (update_columns cols)]"
    using ne seqs
    by (auto simp: silver_merge_def merge_statement_def soft_upsert_def delete_condition_def
        uses_operation_delete_def preserves_soft_delete_def Let_def and_newer_def
        lexicographic_newer_condition_def compared_columns_def update_columns_def)
qed

lemma and3_Some: "and3 (Some a) b = (if a then b else Some False)"
  by (cases a) simp_all

lemma holds_rows_differ: "holds (rows_differ cols s t) \<longleftrightarrow> (\<exists>c \<in> set cols. s c \<noteq> t c)"
proof -
  have "foldr (\<lambda>c acc. and3 (eq_null_safe (t c) (s c)) acc) cols (Some True) =
      Some (\<forall>c \<in> set cols. t c = s c)"
    by (induction cols) (auto simp: eq_null_safe_def and3_Some)
  then show ?thesis by (simp add: rows_differ_def) metis
qed

lemma newer_rows_differ:
  assumes "merge_columns_ok seqs keys cols" "newer_row seqs s t"
  shows "\<exists>c \<in> set (compared_columns keys cols). s c \<noteq> t c"
proof (rule ccontr)
  assume "\<not> ?thesis"
  moreover have "set seqs \<subseteq> set (compared_columns keys cols)"
    using assms(1) by (auto simp: merge_columns_ok_def compared_columns_def)
  ultimately have "key_of seqs s = key_of seqs t" by (auto simp: key_of_def)
  with assms(2) show False by (simp add: newer_row_iff)
qed

text \<open>What one offered row does to the stored row of its key.\<close>

definition keep_newest :: "string list \<Rightarrow> row option \<Rightarrow> row option \<Rightarrow> row option" where
  "keep_newest seqs s t = (case (s, t) of (None, t) \<Rightarrow> t | (Some s, None) \<Rightarrow> Some s
     | (Some s, Some t) \<Rightarrow> Some (if newer_row seqs s t then s(''created_at'' := t ''created_at'') else t))"

lemma update_from_columns:
  assumes "\<forall>c. c \<notin> set cols \<longrightarrow> s c = Null" "\<forall>c. c \<notin> set cols \<longrightarrow> t c = Null"
  shows "update_from (update_columns cols) s t = s(''created_at'' := t ''created_at'')"
  using assms by (auto simp: update_from_def update_columns_def)

lemma silver_matched:
  assumes ok: "merge_columns_ok seqs keys cols"
    and "\<forall>c. c \<notin> set cols \<longrightarrow> s c = Null" "\<forall>c. c \<notin> set cols \<longrightarrow> t c = Null"
  shows "apply_matched (ms_matched (silver_merge seqs keys cols)) s t = keep_newest seqs (Some s) (Some t)"
    and "clause_fires (ms_matched (silver_merge seqs keys cols)) s t \<longleftrightarrow> newer_row seqs s t"
proof -
  obtain n where n: "lexicographic_newer_condition seqs = Some n"
    "ms_matched (silver_merge seqs keys cols) =
      [MatchedUpdate (\<lambda>s t. and3 (n s t) (rows_differ (compared_columns keys cols) s t)) (update_columns cols)]"
    using silver_merge_fields(2) [OF ok] by blast
  have "holds (and3 (n s t) (rows_differ (compared_columns keys cols) s t)) \<longleftrightarrow> newer_row seqs s t"
    using newer_rows_differ [OF ok, of s t] by (auto simp: holds_rows_differ newer_row_def n(1))
  then show "apply_matched (ms_matched (silver_merge seqs keys cols)) s t = keep_newest seqs (Some s) (Some t)"
    "clause_fires (ms_matched (silver_merge seqs keys cols)) s t \<longleftrightarrow> newer_row seqs s t"
    using update_from_columns [OF assms(2,3)] by (simp_all add: n(2) keep_newest_def)
qed

lemma key_of_created_at: "''created_at'' \<notin> set keys \<Longrightarrow> key_of keys (r(''created_at'' := v)) = key_of keys r"
  by (simp add: key_of_def)

definition put_row :: "string list \<Rightarrow> string list \<Rightarrow> row list \<Rightarrow> row \<Rightarrow> row" where
  "put_row seqs keys src t = (case keep_newest seqs (by_key keys src (key_of keys t)) (Some t) of Some r \<Rightarrow> r | None \<Rightarrow> t)"

lemma key_put_row:
  assumes "merge_columns_ok seqs keys cols"
  shows "key_of keys (put_row seqs keys src t) = key_of keys t"
proof (cases "by_key keys src (key_of keys t)")
  case (Some s)
  have "''created_at'' \<notin> set keys" using assms by (simp add: merge_columns_ok_def)
  with Some by_key_Some [OF Some] show ?thesis
    by (simp add: put_row_def keep_newest_def key_of_created_at)
qed (simp add: put_row_def keep_newest_def)

lemma put_row_Some: "keep_newest seqs (by_key keys src (key_of keys t)) (Some t) = Some (put_row seqs keys src t)"
  by (auto simp: put_row_def keep_newest_def split: option.splits)

definition new_rows :: "string list \<Rightarrow> row list \<Rightarrow> row list \<Rightarrow> row list" where
  "new_rows keys src tgt = filter (\<lambda>s. by_key keys tgt (key_of keys s) = None) src"

lemma silver_merge_exec:
  assumes ok: "merge_columns_ok seqs keys cols" and ks: "keyed keys src" and kt: "keyed keys tgt"
    and cs: "in_columns cols src" and ct: "in_columns cols tgt"
  shows "merge_exec (silver_merge seqs keys cols) src tgt =
    Inr (map (put_row seqs keys src) tgt @ new_rows keys src tgt,
         new_rows keys src tgt \<noteq> [] \<or> (\<exists>t \<in> set tgt. by_key keys src (key_of keys t) \<noteq> None))"
proof -
  let ?m = "silver_merge seqs keys cols"
  note f = silver_merge_fields [OF ok]
  have nn: "\<not> has_null (key_of keys t)" if "t \<in> set tgt" for t using kt that by (simp add: keyed_def)
  have m: "matches ?m src t = (case by_key keys src (key_of keys t) of None \<Rightarrow> [] | Some s \<Rightarrow> [s])"
    if "t \<in> set tgt" for t
    using filter_unique_key [OF ks nn [OF that]] by (simp add: matches_def f(1))
  have row: "merge_target_row ?m src t = [put_row seqs keys src t]" if t: "t \<in> set tgt" for t
  proof (cases "by_key keys src (key_of keys t)")
    case (Some s)
    then have "s \<in> set src" using by_key_Some by blast
    with t cs ct have "\<forall>c. c \<notin> set cols \<longrightarrow> s c = Null" "\<forall>c. c \<notin> set cols \<longrightarrow> t c = Null"
      by (simp_all add: in_columns_def)
    from silver_matched(1) [OF ok this] Some put_row_Some [of seqs keys src t] show ?thesis
      by (simp add: merge_target_row_def m [OF t])
  qed (simp add: merge_target_row_def m [OF t] f(5) put_row_def keep_newest_def)
  have sel: "select cols s = s" if "s \<in> set src" for s
    using cs that by (auto simp: select_def in_columns_def fun_eq_iff)
  have "filter (\<lambda>s. (\<forall>t \<in> set tgt. \<not> holds (join_on keys s t)) \<and> holds (Some True)) src = new_rows keys src tgt"
    unfolding new_rows_def using nn by (intro filter_cong) (auto simp: holds_join_on by_key_None)
  then have ins: "merge_inserts ?m src tgt = new_rows keys src tgt"
    using map_idI [of "new_rows keys src tgt" "select cols"] sel
    by (simp add: merge_inserts_def f new_rows_def)
  have one: "\<not> length (matches ?m src t) > 1" if "t \<in> set tgt" for t
    using m [OF that] by (auto split: option.splits)
  have "ms_matched ?m \<noteq> []" using f(2) by (elim exE conjE) simp
  moreover have "ms_insert_cols ?m \<noteq> []" using ok by (auto simp: f(4) merge_columns_ok_def)
  ultimately have written: "(case matches ?m src t of [] \<Rightarrow> ms_delete_not_matched_by_source ?m | s # _ \<Rightarrow> merge_rewrites ?m s t) \<longleftrightarrow>
      by_key keys src (key_of keys t) \<noteq> None" if "t \<in> set tgt" for t
    by (simp add: m [OF that] f(5) merge_rewrites_def split: option.split)
  have "concat (map (merge_target_row ?m src) tgt) = map (put_row seqs keys src) tgt"
  proof -
    have "concat (map (merge_target_row ?m src) ts) = map (put_row seqs keys src) ts" if "set ts \<subseteq> set tgt" for ts
      using that row by (induction ts) auto
    then show ?thesis by simp
  qed
  then show ?thesis unfolding merge_exec_def ins using one written by simp
qed

lemma by_key_append: "by_key keys (xs @ ys) k = (case by_key keys xs k of None \<Rightarrow> by_key keys ys k | Some r \<Rightarrow> Some r)"
  by (simp add: by_key_def map_add_def split: option.splits)

lemma by_key_map_same_key:
  "(\<And>r. r \<in> set rows \<Longrightarrow> key_of keys (f r) = key_of keys r) \<Longrightarrow>
    by_key keys (map f rows) k = map_option f (by_key keys rows k)"
  by (induction rows) (auto simp: by_key_def)

lemma by_key_filter_keys:
  "by_key keys (filter (\<lambda>r. P (key_of keys r)) rows) k = (if P k then by_key keys rows k else None)"
  by (induction rows) (auto simp: by_key_def)

lemma silver_merge_by_key:
  assumes ok: "merge_columns_ok seqs keys cols"
  shows "by_key keys (map (put_row seqs keys src) tgt @ new_rows keys src tgt) k =
    keep_newest seqs (by_key keys src k) (by_key keys tgt k)"
proof (cases "by_key keys tgt k")
  case None
  then show ?thesis
    by (auto simp: by_key_append by_key_map_same_key key_put_row [OF ok] new_rows_def
        by_key_filter_keys [where P = "\<lambda>k. by_key keys tgt k = None"] keep_newest_def split: option.splits)
next
  case (Some t)
  with by_key_Some [OF Some] put_row_Some [of seqs keys src t] show ?thesis
    by (simp add: by_key_append by_key_map_same_key key_put_row [OF ok])
qed

lemma silver_merge_keyed:
  assumes ok: "merge_columns_ok seqs keys cols" and ks: "keyed keys src" and kt: "keyed keys tgt"
  shows "keyed keys (map (put_row seqs keys src) tgt @ new_rows keys src tgt)"
proof -
  have "map (key_of keys) (map (put_row seqs keys src) tgt) = map (key_of keys) tgt"
    by (simp add: key_put_row [OF ok])
  moreover have "set (map (key_of keys) tgt) \<inter> set (map (key_of keys) (new_rows keys src tgt)) = {}"
    by (auto simp: new_rows_def by_key_None)
  moreover have "distinct (map (key_of keys) (new_rows keys src tgt))"
    using ks by (simp add: keyed_def new_rows_def distinct_map_filter)
  ultimately show ?thesis
    using ks kt by (auto simp: keyed_def key_put_row [OF ok] new_rows_def comp_def)
qed

text \<open>
  C8. Refinement of the Silver upsert. With source and target rows unique by non-null keys, the MERGE
  statement the adapter builds succeeds, leaves the table unique by key, and acts on it, read as a
  map from keys to rows, as the abstract store: a key's row is replaced exactly when the offered
  row's sequence is strictly greater (only \<open>created_at\<close> is kept), new keys are inserted, all other
  rows stay as they are.
\<close>

theorem silver_upsert_refines_store:
  assumes "merge_columns_ok seqs keys cols" and "keyed keys src" and "keyed keys tgt"
    and "in_columns cols src" and "in_columns cols tgt"
  shows "\<exists>rows touched. merge_exec (merge_statement (soft_upsert seqs) ''silver'' keys cols) src tgt = Inr (rows, touched) \<and>
    keyed keys rows \<and> (\<forall>k. by_key keys rows k = keep_newest seqs (by_key keys src k) (by_key keys tgt k))"
  using silver_merge_exec [OF assms] silver_merge_keyed [OF assms(1-3)] silver_merge_by_key [OF assms(1)]
  unfolding silver_merge_def by blast

definition demo_cols :: "string list" where
  "demo_cols = [''id'', ''name'', ''_seq'', ''created_at'']"

definition demo_row :: "int \<Rightarrow> string \<Rightarrow> int \<Rightarrow> row" where
  "demo_row i name n = row_of [(''id'', IntV i), (''name'', StrV name), (''_seq'', IntV n), (''created_at'', TsV 1)]"

lemma demo_rows_ok:
  "merge_columns_ok [''_seq''] [''id''] demo_cols"
  "in_columns demo_cols (map (\<lambda>(i, name, n). demo_row i name n) xs)"
  "distinct (map fst xs) \<Longrightarrow> keyed [''id''] (map (\<lambda>(i, name, n). demo_row i name n) xs)"
proof -
  show "merge_columns_ok [''_seq''] [''id''] demo_cols"
    by (simp add: merge_columns_ok_def demo_cols_def)
  show "in_columns demo_cols (map (\<lambda>(i, name, n). demo_row i name n) xs)"
    by (auto simp: in_columns_def demo_cols_def demo_row_def row_of_def)
  assume d: "distinct (map fst xs)"
  have "map (key_of [''id'']) (map (\<lambda>(i, name, n). demo_row i name n) xs) = map (\<lambda>i. [IntV i]) (map fst xs)"
    by (auto simp: key_of_def demo_row_def row_of_def)
  moreover have "distinct (map (\<lambda>i. [IntV i]) (map fst xs))"
    using d by (subst distinct_map) (auto intro: inj_onI)
  ultimately have "distinct (map (key_of [''id'']) (map (\<lambda>(i, name, n). demo_row i name n) xs))"
    by (simp only:)
  moreover have "\<not> has_null (key_of [''id''] r)" if "r \<in> set (map (\<lambda>(i, name, n). demo_row i name n) xs)" for r
    using that by (auto simp: key_of_def demo_row_def row_of_def has_null_def)
  ultimately show "keyed [''id''] (map (\<lambda>(i, name, n). demo_row i name n) xs)"
    unfolding keyed_def by blast
qed

theorem silver_upsert_refines_store_witness:
  "\<exists>rows touched. merge_exec (merge_statement (soft_upsert [''_seq'']) ''silver'' [''id''] demo_cols)
      (map (\<lambda>(i, name, n). demo_row i name n) [(1, ''old'', 3), (2, ''new'', 9)])
      (map (\<lambda>(i, name, n). demo_row i name n) [(1, ''kept'', 5), (2, ''stale'', 4)]) = Inr (rows, touched) \<and>
    keyed [''id''] rows \<and> by_key [''id''] rows [IntV 1] = Some (demo_row 1 ''kept'' 5)"
proof -
  let ?src = "map (\<lambda>(i, name, n). demo_row i name n) [(1, ''old'', 3), (2, ''new'', 9)]"
  let ?tgt = "map (\<lambda>(i, name, n). demo_row i name n) [(1, ''kept'', 5), (2, ''stale'', 4)]"
  have "keep_newest [''_seq''] (by_key [''id''] ?src [IntV 1]) (by_key [''id''] ?tgt [IntV 1]) = Some (demo_row 1 ''kept'' 5)"
    by (simp add: by_key_def key_of_def demo_row_def row_of_def keep_newest_def newer_row_iff)
  then show ?thesis
    using silver_upsert_refines_store [of "[''_seq'']" "[''id'']" demo_cols ?src ?tgt]
      demo_rows_ok(1) demo_rows_ok(2,3) [of "[(1, ''old'', 3), (2, ''new'', 9)]"]
      demo_rows_ok(2,3) [of "[(1, ''kept'', 5), (2, ''stale'', 4)]"] by force
qed

lemma silver_merge_in_columns:
  assumes "merge_columns_ok seqs keys cols" "in_columns cols src" "in_columns cols tgt"
  shows "in_columns cols (map (put_row seqs keys src) tgt @ new_rows keys src tgt)"
proof -
  have "\<forall>c. c \<notin> set cols \<longrightarrow> put_row seqs keys src t c = Null" if t: "t \<in> set tgt" for t
  proof (cases "by_key keys src (key_of keys t)")
    case (Some s)
    with by_key_Some [OF Some] assms(2,3) t show ?thesis
      by (auto simp: put_row_def keep_newest_def in_columns_def)
  qed (use assms(3) t in \<open>auto simp: put_row_def keep_newest_def in_columns_def\<close>)
  with assms(2) show ?thesis by (auto simp: in_columns_def new_rows_def)
qed

lemma newer_row_created_at:
  assumes "merge_columns_ok seqs keys cols"
  shows "newer_row seqs s (r(''created_at'' := v)) = newer_row seqs s r"
    and "newer_row seqs (s(''created_at'' := v)) r = newer_row seqs s r"
proof -
  have "''created_at'' \<notin> set seqs" using assms by (auto simp: merge_columns_ok_def)
  then have "key_of seqs (x(''created_at'' := v)) = key_of seqs x" for x by (simp add: key_of_def)
  then show "newer_row seqs s (r(''created_at'' := v)) = newer_row seqs s r"
    "newer_row seqs (s(''created_at'' := v)) r = newer_row seqs s r"
    by (simp_all add: newer_row_iff)
qed

lemma newer_row_irrefl: "\<not> newer_row seqs s s"
  by (simp add: newer_row_iff)

lemma silver_merge_again:
  assumes ok: "merge_columns_ok seqs keys cols" and ks: "keyed keys src" and kt: "keyed keys tgt"
    and cs: "in_columns cols src" and ct: "in_columns cols tgt"
    and rows: "rows = map (put_row seqs keys src) tgt @ new_rows keys src tgt"
  shows "\<exists>touched. merge_exec (silver_merge seqs keys cols) src rows = Inr (rows, touched)"
    and "merge_feed (silver_merge seqs keys cols) src rows = []"
proof -
  have kr: "keyed keys rows" and cr: "in_columns cols rows"
    using silver_merge_keyed [OF ok ks kt] silver_merge_in_columns [OF ok cs ct] rows by simp_all
  have bk: "by_key keys rows k = keep_newest seqs (by_key keys src k) (by_key keys tgt k)" for k
    using silver_merge_by_key [OF ok] rows by simp
  have new: "new_rows keys src rows = []"
  proof -
    have "by_key keys rows (key_of keys s) \<noteq> None" if "s \<in> set src" for s
      using by_key_in [OF ks that] by (simp add: bk keep_newest_def split: option.splits)
    then show ?thesis by (simp add: new_rows_def filter_empty_conv)
  qed
  have old: "\<not> newer_row seqs s r" if r: "r \<in> set rows" and s: "by_key keys src (key_of keys r) = Some s" for r s
  proof -
    have "keep_newest seqs (Some s) (by_key keys tgt (key_of keys r)) = Some r"
      using by_key_in [OF kr r] bk s by simp
    then show ?thesis
      by (auto simp: keep_newest_def newer_row_created_at [OF ok] newer_row_irrefl split: option.splits if_splits)
  qed
  have "put_row seqs keys src r = r" if "r \<in> set rows" for r
    using old [OF that] by (auto simp: put_row_def keep_newest_def split: option.splits)
  then have "map (put_row seqs keys src) rows = rows" by (rule map_idI)
  with new show "\<exists>touched. merge_exec (silver_merge seqs keys cols) src rows = Inr (rows, touched)"
    using silver_merge_exec [OF ok ks kr cs cr] by simp
  note f = silver_merge_fields [OF ok]
  have "filter (\<lambda>s. (\<forall>t \<in> set rows. \<not> holds (join_on keys s t)) \<and> holds (Some True)) src = new_rows keys src rows"
    unfolding new_rows_def using kr by (intro filter_cong) (auto simp: holds_join_on by_key_None keyed_def)
  with new have ins: "merge_inserts (silver_merge seqs keys cols) src rows = []"
    by (simp add: merge_inserts_def f)
  have "matches (silver_merge seqs keys cols) src r = [] \<or>
      (\<exists>s. matches (silver_merge seqs keys cols) src r = [s] \<and> \<not> clause_fires (ms_matched (silver_merge seqs keys cols)) s r)"
    if r: "r \<in> set rows" for r
  proof (cases "by_key keys src (key_of keys r)")
    case None
    then show ?thesis using filter_unique_key [OF ks, of r] kr r by (simp add: matches_def f(1) keyed_def)
  next
    case (Some s)
    then have "s \<in> set src" using by_key_Some by blast
    then have "\<forall>c. c \<notin> set cols \<longrightarrow> s c = Null" "\<forall>c. c \<notin> set cols \<longrightarrow> r c = Null"
      using cs cr r by (simp_all add: in_columns_def)
    from silver_matched(2) [OF ok this] old [OF r Some] Some show ?thesis
      using filter_unique_key [OF ks, of r] kr r by (simp add: matches_def f(1) keyed_def)
  qed
  then show "merge_feed (silver_merge seqs keys cols) src rows = []"
    by (fastforce simp: merge_feed_def ins f(5))
qed

text \<open>Once committed under a transaction identifier, the table has seen that transaction.\<close>

lemma commit_table_seen:
  assumes "lk_tables s ref = Some t" and "\<not> txn_seen s t"
  shows "\<exists>u. lk_tables (commit_table ref cols rows changes s) ref = Some u \<and> cm_rows (latest_commit u) = rows \<and>
    (in_transaction (commit_table ref cols rows changes s) \<longrightarrow> txn_seen (commit_table ref cols rows changes s) u)"
  using assms
  by (cases "lk_txn_app s"; cases "lk_txn_version s")
    (auto simp: commit_table_def table_or_empty_def Let_def latest_commit_def in_transaction_def txn_seen_def)

lemma commit_table_in_transaction: "in_transaction (commit_table ref cols rows changes s) = in_transaction s"
  by (simp add: commit_table_def in_transaction_def Let_def)

text \<open>
  C9. Idempotence: running the same Silver upsert again succeeds and changes no row. The current rows
  and columns of the table and every other table are as the first run left them, and the commits the
  second run adds, if any (Delta rewrites the files of the matched rows), carry no row changes, so a
  reader of the change feed sees a replayed batch once. Under a transaction identifier the second
  run leaves the lake exactly as it was.
\<close>

theorem silver_upsert_idempotent:
  assumes "merge_columns_ok seqs keys cols" and "keyed keys src" and "in_columns cols src"
    and "lk_tables s ref = Some t" and "keyed keys (cm_rows (latest_commit t))"
    and "in_columns cols (cm_rows (latest_commit t))"
    and "run_merge ref (merge_statement (soft_upsert seqs) ''silver'' keys cols) src s = (Inr (), s')"
  shows "\<exists>s'' u v commits. run_merge ref (merge_statement (soft_upsert seqs) ''silver'' keys cols) src s' = (Inr (), s'') \<and>
    lk_tables s' ref = Some u \<and> lk_tables s'' ref = Some v \<and>
    cm_rows (latest_commit v) = cm_rows (latest_commit u) \<and> cm_cols (latest_commit v) = cm_cols (latest_commit u) \<and>
    dt_commits v = dt_commits u @ commits \<and> list_all (\<lambda>c. cm_changes c = []) commits \<and>
    (\<forall>r. r \<noteq> ref \<longrightarrow> lk_tables s'' r = lk_tables s' r) \<and> (in_transaction s \<longrightarrow> s'' = s')"
proof -
  let ?m = "silver_merge seqs keys cols" and ?tgt = "cm_rows (latest_commit t)"
  define rows where "rows = map (put_row seqs keys src) ?tgt @ new_rows keys src ?tgt"
  obtain touched where m: "merge_exec ?m src ?tgt = Inr (rows, touched)"
    using silver_merge_exec [OF assms(1,2,5,3,6)] rows_def by blast
  note again = silver_merge_again [OF assms(1,2,5,3,6) rows_def]
  obtain b where b: "merge_exec ?m src rows = Inr (rows, b)" using again(1) by blast
  have run: "run_merge ref ?m src x = (Inr (), if b \<or> in_transaction x then commit_table ref (cm_cols (latest_commit u)) rs (merge_feed ?m src (cm_rows (latest_commit u))) x else x)"
    if "lk_tables x ref = Some u" "merge_exec ?m src (cm_rows (latest_commit u)) = Inr (rs, b)" for x u rs b
    using that by (simp add: run_merge_def delta_table_at_def Let_def)
  have s': "s' = (if touched \<or> in_transaction s then commit_table ref (cm_cols (latest_commit t)) rows (merge_feed ?m src ?tgt) s else s)"
    using assms(7) run [OF assms(4) m] by (simp add: silver_merge_def)
  show ?thesis
  proof (cases "(touched \<or> in_transaction s) \<and> \<not> txn_seen s t")
    case True
    then have "s' = commit_table ref (cm_cols (latest_commit t)) rows (merge_feed ?m src ?tgt) s" using s' by simp
    then obtain u where u: "lk_tables s' ref = Some u" "cm_rows (latest_commit u) = rows"
        "in_transaction s' \<longrightarrow> txn_seen s' u" "in_transaction s' = in_transaction s"
      using commit_table_seen [OF assms(4)] True by (metis commit_table_in_transaction)
    with run [of s' u rows b] b again(2)
    have "run_merge ref ?m src s' = (Inr (), if b \<or> in_transaction s' then commit_table ref (cm_cols (latest_commit u)) rows [] s' else s')"
      by simp
    with u show ?thesis unfolding silver_merge_def
      by (cases "in_transaction s'"; cases b; cases "txn_seen s' u")
        (simp_all add: commit_table_def table_or_empty_def Let_def latest_commit_def)
  next
    case False
    then have same: "s' = s" using s' assms(4) by (auto simp: commit_table_def table_or_empty_def Let_def)
    with assms(4,7) show ?thesis by auto
  qed
qed

definition demo_lake :: "row list \<Rightarrow> lake" where
  "demo_lake rows = \<lparr>lk_tables = (\<lambda>ref. if ref = ''t'' then Some
       \<lparr>dt_commits = [\<lparr>cm_cols = demo_cols, cm_rows = rows, cm_changes = [], cm_metadata = None\<rparr>], dt_props = [], dt_txns = []\<rparr> else None),
     lk_metadata = None, lk_txn_app = None, lk_txn_version = None\<rparr>"

theorem silver_upsert_idempotent_witness:
  "\<exists>s'. run_merge ''t'' (merge_statement (soft_upsert [''_seq'']) ''silver'' [''id''] demo_cols)
      (map (\<lambda>(i, name, n). demo_row i name n) [(2, ''new'', 9)])
      (demo_lake (map (\<lambda>(i, name, n). demo_row i name n) [(1, ''kept'', 5)])) = (Inr (), s') \<and>
    (\<exists>s'' u v commits. run_merge ''t'' (merge_statement (soft_upsert [''_seq'']) ''silver'' [''id''] demo_cols)
      (map (\<lambda>(i, name, n). demo_row i name n) [(2, ''new'', 9)]) s' = (Inr (), s'') \<and>
      lk_tables s' ''t'' = Some u \<and> lk_tables s'' ''t'' = Some v \<and>
      cm_rows (latest_commit v) = cm_rows (latest_commit u) \<and> cm_cols (latest_commit v) = cm_cols (latest_commit u) \<and>
      dt_commits v = dt_commits u @ commits \<and> list_all (\<lambda>c. cm_changes c = []) commits \<and>
      (\<forall>r. r \<noteq> ''t'' \<longrightarrow> lk_tables s'' r = lk_tables s' r) \<and>
      (in_transaction (demo_lake (map (\<lambda>(i, name, n). demo_row i name n) [(1, ''kept'', 5)])) \<longrightarrow> s'' = s'))"
proof -
  let ?src = "map (\<lambda>(i, name, n). demo_row i name n) [(2, ''new'', 9)]"
  let ?tgt = "map (\<lambda>(i, name, n). demo_row i name n) [(1, ''kept'', 5)]"
  let ?m = "merge_statement (soft_upsert [''_seq'']) ''silver'' [''id''] demo_cols"
  note src = demo_rows_ok(2,3) [of "[(2, ''new'', 9)]"] and tgt = demo_rows_ok(2,3) [of "[(1, ''kept'', 5)]"]
  have "\<exists>s'. run_merge ''t'' ?m ?src (demo_lake ?tgt) = (Inr (), s')"
    using silver_merge_exec [OF demo_rows_ok(1) src(2) tgt(2) src(1) tgt(1)]
    by (simp add: run_merge_def delta_table_at_def demo_lake_def latest_commit_def silver_merge_def Let_def)
  then obtain s' where s': "run_merge ''t'' ?m ?src (demo_lake ?tgt) = (Inr (), s')" ..
  let ?c = "\<lparr>cm_cols = demo_cols, cm_rows = ?tgt, cm_changes = [], cm_metadata = None\<rparr>"
  let ?t = "\<lparr>dt_commits = [?c], dt_props = [], dt_txns = []\<rparr>"
  have t: "lk_tables (demo_lake ?tgt) ''t'' = Some ?t" by (simp add: demo_lake_def)
  have rows: "cm_rows (latest_commit ?t) = ?tgt" by (simp only: latest_commit_def delta_table.select_convs last.simps if_True commit.select_convs refl)
  have tgt: "keyed [''id''] (cm_rows (latest_commit ?t))" "in_columns demo_cols (cm_rows (latest_commit ?t))"
    unfolding rows by (rule tgt(2), simp, rule tgt(1))
  show ?thesis
    by (rule exI [of _ s'], rule conjI, rule s',
        rule silver_upsert_idempotent [OF demo_rows_ok(1) _ src(1) t tgt s'], rule src(2), simp)
qed

text \<open>Rows of one key agree on \<open>created_at\<close>, and on everything when they have the same sequence.\<close>

definition consistent_rows :: "string list \<Rightarrow> string list \<Rightarrow> row list \<Rightarrow> bool" where
  "consistent_rows seqs keys rows \<longleftrightarrow> (\<forall>a \<in> set rows. \<forall>b \<in> set rows. key_of keys a = key_of keys b \<longrightarrow>
     a ''created_at'' = b ''created_at'' \<and> (key_of seqs a = key_of seqs b \<longrightarrow> a = b))"

lemma keep_newest_put:
  "(\<And>a b. s = Some a \<Longrightarrow> t = Some b \<Longrightarrow> a ''created_at'' = b ''created_at'') \<Longrightarrow>
    keep_newest seqs s t = silver.put seqs s t"
  by (cases s; cases t) (auto simp: keep_newest_def silver.put_def intro!: fun_upd_idem)

lemma put_from: "silver.put seqs s t = Some r \<Longrightarrow> s = Some r \<or> t = Some r"
  by (cases s; cases t) (auto simp: silver.put_def split: if_splits)

text \<open>
  Order independence: two batches of rows merged into a Silver table in either order give the
  same table by key, so late and concurrent deliveries converge (for rows that agree on
  \<open>created_at\<close> and are determined by their sequence).
\<close>

theorem silver_upserts_commute:
  assumes "merge_columns_ok seqs keys cols"
    and "keyed keys src1" and "keyed keys src2" and "keyed keys tgt"
    and "in_columns cols src1" and "in_columns cols src2" and "in_columns cols tgt"
    and "consistent_rows seqs keys (src1 @ src2 @ tgt)"
    and "m = merge_statement (soft_upsert seqs) ''silver'' keys cols"
  shows "\<exists>r1 r2 r12 r21 b1 b2 b12 b21. merge_exec m src1 tgt = Inr (r1, b1) \<and> merge_exec m src2 r1 = Inr (r12, b12) \<and>
    merge_exec m src2 tgt = Inr (r2, b2) \<and> merge_exec m src1 r2 = Inr (r21, b21) \<and>
    by_key keys r12 = by_key keys r21"
proof -
  let ?new = "\<lambda>src tgt. map (put_row seqs keys src) tgt @ new_rows keys src tgt"
  note ok = assms(1)
  have m: "m = silver_merge seqs keys cols" using assms(9) by (simp add: silver_merge_def)
  note step = silver_merge_exec [OF ok, folded m]
  have "by_key keys (?new src2 (?new src1 tgt)) k = by_key keys (?new src1 (?new src2 tgt)) k" for k
  proof -
    let ?s1 = "by_key keys src1 k" and ?s2 = "by_key keys src2 k" and ?t = "by_key keys tgt k"
    have mem: "r \<in> set (src1 @ src2 @ tgt) \<and> key_of keys r = k" if "Some r \<in> {?s1, ?s2, ?t}" for r
      using that by (auto dest!: sym [of "Some r"] by_key_Some)
    have ca: "a ''created_at'' = b ''created_at''" if "Some a \<in> {?s1, ?s2, ?t}" "Some b \<in> {?s1, ?s2, ?t}" for a b
      using mem [OF that(1)] mem [OF that(2)] assms(8) unfolding consistent_rows_def by metis
    have sq: "a = b" if "Some a \<in> {?s1, ?s2, ?t}" "Some b \<in> {?s1, ?s2, ?t}" "key_of seqs a = key_of seqs b" for a b
      using mem [OF that(1)] mem [OF that(2)] that(3) assms(8) unfolding consistent_rows_def by metis
    have put: "keep_newest seqs x (silver.put seqs y ?t) = silver.put seqs x (silver.put seqs y ?t)"
      "keep_newest seqs y ?t = silver.put seqs y ?t"
      if "x \<in> {?s1, ?s2}" "y \<in> {?s1, ?s2}" for x y
      using that ca put_from [of seqs y ?t] by (intro keep_newest_put; fastforce)+
    have "silver.put seqs ?s2 (silver.put seqs ?s1 ?t) = silver.put seqs ?s1 (silver.put seqs ?s2 ?t)"
      using sq by (intro silver.put_commute) auto
    then have "keep_newest seqs ?s2 (keep_newest seqs ?s1 ?t) = keep_newest seqs ?s1 (keep_newest seqs ?s2 ?t)"
      using put [of ?s1 ?s2] put [of ?s2 ?s1] by simp
    then show ?thesis by (simp only: silver_merge_by_key [OF ok])
  qed
  then have "by_key keys (?new src2 (?new src1 tgt)) = by_key keys (?new src1 (?new src2 tgt))" ..
  moreover note step [OF assms(2,4,5,7)] step [OF assms(3,4,6,7)]
    step [OF assms(3) silver_merge_keyed [OF ok assms(2,4)] assms(6) silver_merge_in_columns [OF ok assms(5,7)]]
    step [OF assms(2) silver_merge_keyed [OF ok assms(3,4)] assms(5) silver_merge_in_columns [OF ok assms(6,7)]]
  ultimately show ?thesis by blast
qed

theorem silver_upserts_commute_witness:
  "\<exists>r1 r2 r12 r21 b1 b2 b12 b21.
    merge_exec (merge_statement (soft_upsert [''_seq'']) ''silver'' [''id''] demo_cols)
      (map (\<lambda>(i, name, n). demo_row i name n) [(1, ''a'', 3)]) [] = Inr (r1, b1) \<and>
    merge_exec (merge_statement (soft_upsert [''_seq'']) ''silver'' [''id''] demo_cols)
      (map (\<lambda>(i, name, n). demo_row i name n) [(1, ''b'', 4)]) r1 = Inr (r12, b12) \<and>
    merge_exec (merge_statement (soft_upsert [''_seq'']) ''silver'' [''id''] demo_cols)
      (map (\<lambda>(i, name, n). demo_row i name n) [(1, ''b'', 4)]) [] = Inr (r2, b2) \<and>
    merge_exec (merge_statement (soft_upsert [''_seq'']) ''silver'' [''id''] demo_cols)
      (map (\<lambda>(i, name, n). demo_row i name n) [(1, ''a'', 3)]) r2 = Inr (r21, b21) \<and>
    by_key [''id''] r12 = by_key [''id''] r21"
proof (rule silver_upserts_commute [OF demo_rows_ok(1)])
  show "consistent_rows [''_seq''] [''id''] (map (\<lambda>(i, name, n). demo_row i name n) [(1, ''a'', 3)] @
      map (\<lambda>(i, name, n). demo_row i name n) [(1, ''b'', 4)] @ [])"
    by (simp add: consistent_rows_def demo_row_def row_of_def key_of_def)
qed (use demo_rows_ok(2,3) [of "[(1, ''a'', 3)]"] demo_rows_ok(2,3) [of "[(1, ''b'', 4)]"] in
    \<open>simp_all add: keyed_def in_columns_def\<close>)

section \<open>Tombstones of the CDC stream\<close>

lemma cdc_merge_fields:
  assumes "''_is_deleted'' \<in> set cols" and "lexicographic_newer_condition seqs = Some n"
  shows "ms_on (merge_statement (cdc_upsert seqs) ''silver'' keys cols) = join_on keys"
    and "ms_insert_cond (merge_statement (cdc_upsert seqs) ''silver'' keys cols) = active_source"
    and "ms_insert_cols (merge_statement (cdc_upsert seqs) ''silver'' keys cols) = cols"
    and "\<not> ms_delete_not_matched_by_source (merge_statement (cdc_upsert seqs) ''silver'' keys cols)"
    and "\<exists>rest. ms_matched (merge_statement (cdc_upsert seqs) ''silver'' keys cols) =
      MatchedUpdate (\<lambda>s t. and3 (n s t) (eq3 (s ''_is_deleted'') (BoolV True)))
        (filter starts_with_underscore (update_columns cols)) # rest"
  using assms
  by (simp_all add: merge_statement_def cdc_upsert_def delete_condition_def uses_operation_delete_def
      preserves_soft_delete_def Let_def and_newer_def update_columns_def)

lemma concat_map_single: "(\<And>x. x \<in> set xs \<Longrightarrow> f x = [x]) \<Longrightarrow> concat (map f xs) = xs"
  by (induction xs) auto

lemma select_in_columns: "in_columns cols [r] \<Longrightarrow> select cols r = r"
  by (auto simp: select_def in_columns_def fun_eq_iff)

text \<open>
  C38. The order of a tombstone and an older version of its key matters in the CDC stream: applied to
  a table without the key, the tombstone leaves no trace and the older version is then inserted as a
  live row, while in the other order the row ends up deleted.
\<close>

theorem tombstone_without_target_is_lost:
  assumes "merge_columns_ok seqs keys cols" and "''_is_deleted'' \<in> set cols"
    and "in_columns cols [d, s]" and "key_of keys d = key_of keys s" and "\<not> has_null (key_of keys s)"
    and "d ''_is_deleted'' = BoolV True" and "s ''_is_deleted'' = BoolV False"
    and "key_of seqs s < key_of seqs d" and "\<forall>t \<in> set tgt. key_of keys t \<noteq> key_of keys s"
    and "m = merge_statement (cdc_upsert seqs) ''silver'' keys cols"
  shows "merge_exec m [d] tgt = Inr (tgt, False) \<and> merge_exec m [s] tgt = Inr (tgt @ [s], True) \<and>
    (\<exists>r. merge_exec m [d] (tgt @ [s]) = Inr (tgt @ [r], True) \<and>
      key_of keys r = key_of keys s \<and> r ''_is_deleted'' = BoolV True)"
proof -
  obtain n where n: "lexicographic_newer_condition seqs = Some n"
    using assms(1) by (auto simp: merge_columns_ok_def lexicographic_newer_condition_def)
  note f = cdc_merge_fields(1-4) [OF assms(2) n, of keys, folded assms(10)]
  obtain rest where rest: "ms_matched m = MatchedUpdate (\<lambda>s t. and3 (n s t) (eq3 (s ''_is_deleted'') (BoolV True)))
      (filter starts_with_underscore (update_columns cols)) # rest"
    using cdc_merge_fields(5) [OF assms(2) n, of keys] assms(10) by blast
  have none: "matches m [x] t = []" if "t \<in> set tgt" "x \<in> {d, s}" for x t
    using that assms(4,9) by (auto simp: matches_def f(1) holds_join_on)
  have old: "concat (map (merge_target_row m [x]) tgt) = tgt" if "x \<in> {d, s}" for x
    using none [OF _ that] f(4) by (intro concat_map_single) (simp add: merge_target_row_def)
  have act: "holds (active_source s)" "\<not> holds (active_source d)"
    using assms(6,7) by (simp_all add: active_source_def bool3_of_def coalesce3_def)
  have miss: "\<forall>t \<in> set tgt. \<not> holds (join_on keys x t)" if "x \<in> {d, s}" for x
    using that assms(4,9) by (auto simp: holds_join_on)
  have one: "merge_exec m [d] tgt = Inr (tgt, False)"
    using old [of d] none f(4) act(2) by (auto simp: merge_exec_def merge_inserts_def f(2))
  have two: "merge_exec m [s] tgt = Inr (tgt @ [s], True)"
    using old [of s] none f(4) act(1) miss [of s] select_in_columns [of cols s] assms(3)
    by (auto simp: merge_exec_def merge_inserts_def f in_columns_def)
  define r where "r = update_from (filter starts_with_underscore (update_columns cols)) d s"
  have m: "matches m [d] s = [d]" using assms(4,5) by (simp add: matches_def f(1) holds_join_on)
  have fire: "holds (and3 (n d s) (eq3 (d ''_is_deleted'') (BoolV True)))"
    using assms(6,8) newer_iff_less [OF n] by simp
  have row: "merge_target_row m [d] s = [r]"
    using fire by (simp add: merge_target_row_def m rest r_def del: holds_and3)
  have three: "merge_exec m [d] (tgt @ [s]) = Inr (tgt @ [r], True)"
    using old [of d] row none m act(2) fire
    by (auto simp: merge_exec_def merge_inserts_def merge_rewrites_def f(2) rest simp del: holds_and3)
  have "key_of keys r = key_of keys s"
    using assms(4) by (auto simp: r_def update_from_def key_of_def)
  moreover have "r ''_is_deleted'' = BoolV True"
    using assms(2,6) by (simp add: r_def update_from_def update_columns_def starts_with_underscore_def)
  ultimately show ?thesis using one two three by blast
qed

definition demo_event :: "bool \<Rightarrow> int \<Rightarrow> row" where
  "demo_event deleted n = row_of [(''id'', IntV 1), (''_is_deleted'', BoolV deleted), (''_seq'', IntV n)]"

theorem tombstone_without_target_is_lost_witness:
  "merge_exec (merge_statement (cdc_upsert [''_seq'']) ''silver'' [''id''] [''id'', ''_is_deleted'', ''_seq''])
     [demo_event True 2] [] = Inr ([], False) \<and>
   merge_exec (merge_statement (cdc_upsert [''_seq'']) ''silver'' [''id''] [''id'', ''_is_deleted'', ''_seq''])
     [demo_event False 1] [] = Inr ([demo_event False 1], True)"
proof -
  let ?cols = "[''id'', ''_is_deleted'', ''_seq'']"
  have "merge_columns_ok [''_seq''] [''id''] ?cols" by (simp add: merge_columns_ok_def)
  moreover have "in_columns ?cols [demo_event True 2, demo_event False 1]"
    by (auto simp: in_columns_def demo_event_def row_of_def)
  moreover have "key_of [''id''] (demo_event True 2) = key_of [''id''] (demo_event False 1)"
    "\<not> has_null (key_of [''id''] (demo_event False 1))"
    "demo_event True 2 ''_is_deleted'' = BoolV True" "demo_event False 1 ''_is_deleted'' = BoolV False"
    "key_of [''_seq''] (demo_event False 1) < key_of [''_seq''] (demo_event True 2)"
    by (simp_all add: key_of_def demo_event_def row_of_def has_null_def)
  ultimately show ?thesis
    using tombstone_without_target_is_lost [of "[''_seq'']" "[''id'']" ?cols "demo_event True 2"
        "demo_event False 1" "[]"] by simp
qed

end
