(* ===== verification/SilverTransform.thy ===== *)
theory SilverTransform
  imports Contracts MergeSpec
begin

text \<open>
  The Silver transformations (\<open>transformations/silver\<close>): type enforcement, cleaning of texts and
  phone numbers, the collapse of a batch of Bronze events to the newest row per key
  (\<open>current_state\<close>) and the append-only history of events (\<open>change_history\<close>). The clock of
  \<open>current_timestamp\<close> is the argument \<open>now\<close>.
\<close>

section \<open>Names\<close>

definition SILVER_SCHEMA_VERSION :: int where
  "SILVER_SCHEMA_VERSION = 2"

definition SILVER_CHANGE_HISTORY_SUFFIX :: string where
  "SILVER_CHANGE_HISTORY_SUFFIX = ''_change_history''"

definition SILVER_SEQUENCE_COLUMNS :: "string list" where
  "SILVER_SEQUENCE_COLUMNS =
     [''_event_occurred_at'', ''_ingestion_priority'', ''_source_event_sequence'', ''_source_event_subsequence'']"

definition DECIMAL_COLUMNS :: "string list" where
  "DECIMAL_COLUMNS = [''unit_price'', ''compare_at_price'', ''discount_value'', ''max_discount_amount'',
     ''minimum_order_amount'', ''subtotal_amount'', ''shipping_amount'', ''tax_amount'',
     ''discount_amount'', ''total_amount'', ''item_subtotal'', ''item_total'', ''amount'']"

definition INTEGER_COLUMNS :: "string list" where
  "INTEGER_COLUMNS = [''quantity'', ''stock_quantity'', ''reserved_quantity'']"

definition TIMESTAMP_COLUMNS :: "string list" where
  "TIMESTAMP_COLUMNS = [''created_at'', ''updated_at'', ''last_login'', ''starts_at'', ''ends_at'',
     ''paid_at'', ''shipped_at'', ''delivered_at'']"

definition silver_change_history_table_name :: "string \<Rightarrow> string" where
  "silver_change_history_table_name t = t @ SILVER_CHANGE_HISTORY_SUFFIX"

section \<open>Cleaning\<close>

text \<open>\<open>withColumn\<close> for each of the listed columns the table has.\<close>

definition on_columns :: "(val \<Rightarrow> val) \<Rightarrow> string list \<Rightarrow> df \<Rightarrow> df" where
  "on_columns f columns d = fold (\<lambda>name d. if name \<in> set (df_cols d)
     then d\<lparr>df_rows := map (with_column name (\<lambda>r. f (r name))) (df_rows d)\<rparr> else d) columns d"

definition clean_cell :: "sparkfn \<Rightarrow> val \<Rightarrow> val" where
  "clean_cell fn v = (let w = text_fn (fn_trim fn) v in case_when (eq3 w (StrV [])) Null w)"

definition clean_text :: "sparkfn \<Rightarrow> string list \<Rightarrow> df \<Rightarrow> df" where
  "clean_text fn columns d = on_columns (clean_cell fn) columns d"

definition normalize_lower :: "sparkfn \<Rightarrow> string list \<Rightarrow> df \<Rightarrow> df" where
  "normalize_lower fn columns d = on_columns (text_fn (fn_lower fn)) columns d"

definition normalize_upper :: "sparkfn \<Rightarrow> string list \<Rightarrow> df \<Rightarrow> df" where
  "normalize_upper fn columns d = on_columns (text_fn (fn_upper fn)) columns d"

text \<open>A leading plus sign is kept, every other character that is not a digit is removed.\<close>

definition is_ascii_digit :: "char \<Rightarrow> bool" where
  "is_ascii_digit c \<longleftrightarrow> c \<in> set ''0123456789''"

definition phone_text :: "string \<Rightarrow> string" where
  "phone_text s = (if starts_with ''+'' s then ''+'' else []) @ filter is_ascii_digit s"

definition normalize_phone :: "string \<Rightarrow> df \<Rightarrow> df" where
  "normalize_phone col d = (if col \<notin> set (df_cols d) then d
     else d\<lparr>df_rows := map (with_column col (\<lambda>r. text_fn phone_text (r col))) (df_rows d)\<rparr>)"

definition column_type :: "string \<Rightarrow> string option" where
  "column_type name =
     (if name \<in> set DECIMAL_COLUMNS then Some ''decimal(12,2)''
      else if name = ''weight_kg'' then Some ''decimal(8,3)''
      else if name \<in> set INTEGER_COLUMNS \<or>
              ends_with ''_id'' name \<and> \<not> (starts_with ''public_'' name \<or> starts_with ''_'' name)
        then Some ''int''
      else if name \<in> set TIMESTAMP_COLUMNS then Some ''timestamp''
      else if starts_with ''is_'' name then Some ''boolean''
      else None)"

definition enforce_types :: "sparkfn \<Rightarrow> df \<Rightarrow> df" where
  "enforce_types fn d = d\<lparr>df_rows := map (\<lambda>r c. case (if c \<in> set (df_cols d) then column_type c else None) of
     None \<Rightarrow> r c | Some ty \<Rightarrow> fn_cast fn ty (r c)) (df_rows d)\<rparr>"

section \<open>Event metadata\<close>

definition optional_column :: "sparkfn \<Rightarrow> string list \<Rightarrow> string \<Rightarrow> string \<Rightarrow> row \<Rightarrow> val" where
  "optional_column fn cols name ty r = (if name \<in> set cols then fn_cast fn ty (r name) else Null)"

definition silver_required_columns :: "silver_contract \<Rightarrow> string list" where
  "silver_required_columns c = sc_columns c @
     [''_event_id'', ''_event_occurred_at'', ''_operation'', ''_batch_id'', ''_record_hash'']"

definition validate_bronze_columns :: "df \<Rightarrow> silver_contract \<Rightarrow> unit res" where
  "validate_bronze_columns d c =
     raise_if (\<not> set (silver_required_columns c) \<subseteq> set (df_cols d)) (ValueError ''Missing Bronze columns'')"

text \<open>
  The four columns both functions derive: where an event was ingested, and its position in its
  source, the write-ahead log position for CDC and the event id for batch events.
\<close>

definition is_cdc :: "string list \<Rightarrow> row \<Rightarrow> bool" where
  "is_cdc cols r \<longleftrightarrow> ''_ingestion_type'' \<in> set cols \<and> holds (eq3 (r ''_ingestion_type'') (StrV ''streaming_cdc''))"

definition source_event_sequence :: "sparkfn \<Rightarrow> string list \<Rightarrow> row \<Rightarrow> val" where
  "source_event_sequence fn cols r = (if is_cdc cols r
     then coalesce [optional_column fn cols ''_source_lsn'' ''long'' r, optional_column fn cols ''_kafka_offset'' ''long'' r]
     else fn_cast fn ''long'' (r ''_event_id''))"

definition source_event_subsequence :: "sparkfn \<Rightarrow> string list \<Rightarrow> row \<Rightarrow> val" where
  "source_event_subsequence fn cols r = (if is_cdc cols r
     then coalesce [optional_column fn cols ''_kafka_offset'' ''long'' r, IntV (- 1)]
     else IntV 0)"

definition with_event_metadata :: "sparkfn \<Rightarrow> string list \<Rightarrow> row \<Rightarrow> row" where
  "with_event_metadata fn cols r = r(
     ''_ingestion_mode'' := StrV (if is_cdc cols r then ''cdc'' else ''batch''),
     ''_ingestion_priority'' := IntV (if is_cdc cols r then 2 else 1),
     ''_source_event_sequence'' := source_event_sequence fn cols r,
     ''_source_event_subsequence'' := source_event_subsequence fn cols r)"

definition event_metadata :: "sparkfn \<Rightarrow> string list \<Rightarrow> (string \<times> (row \<Rightarrow> val)) list" where
  "event_metadata fn cols = map column [''_ingestion_mode'', ''_ingestion_priority'',
       ''_source_event_sequence'', ''_source_event_subsequence''] @
     [(''_source_lsn'', optional_column fn cols ''_source_lsn'' ''long''),
      (''_kafka_partition'', optional_column fn cols ''_kafka_partition'' ''int''),
      (''_kafka_offset'', optional_column fn cols ''_kafka_offset'' ''long'')]"

section \<open>Current state\<close>

text \<open>The descending sort key of the window: the sequence columns, then the event id as text.\<close>

definition silver_event_order :: "sparkfn \<Rightarrow> row \<Rightarrow> val list" where
  "silver_event_order fn r = key_of SILVER_SEQUENCE_COLUMNS r @ [fn_cast fn ''string'' (r ''_event_id'')]"

definition current_state_metadata ::
    "sparkfn \<Rightarrow> int \<Rightarrow> string list \<Rightarrow> silver_contract \<Rightarrow> (string \<times> (row \<Rightarrow> val)) list" where
  "current_state_metadata fn now cols c =
     [column ''_operation'',
      (''_is_deleted'', \<lambda>r. val_of_bool3 (eq3 (r ''_operation'') (StrV ''DELETE''))),
      column ''_event_occurred_at'',
      (''_bronze_event_id'', \<lambda>r. fn_cast fn ''string'' (r ''_event_id'')),
      (''_bronze_batch_id'', \<lambda>r. r ''_batch_id'')] @
     event_metadata fn cols @
     [(''_silver_updated_at'', \<lambda>r. TsV now),
      (''_source_table'', \<lambda>r. StrV (sc_table_name c)),
      (''_silver_schema_version'', \<lambda>r. IntV SILVER_SCHEMA_VERSION)]"

definition current_state_columns ::
    "sparkfn \<Rightarrow> int \<Rightarrow> string list \<Rightarrow> silver_contract \<Rightarrow> (string \<times> (row \<Rightarrow> val)) list" where
  "current_state_columns fn now cols c = map column (sc_columns c) @ current_state_metadata fn now cols c"

definition prepare_events :: "sparkfn \<Rightarrow> df \<Rightarrow> row list" where
  "prepare_events fn d = map (with_event_metadata fn (df_cols d)) (df_rows (enforce_types fn d))"

definition current_state :: "sparkfn \<Rightarrow> int \<Rightarrow> df \<Rightarrow> silver_contract \<Rightarrow> df res" where
  "current_state fn now d c = and_then (validate_bronze_columns d c) (\<lambda>_.
     let out = current_state_columns fn now (df_cols d) c
     in Inr \<lparr>df_cols = map fst out,
             df_rows = map (\<lambda>g. project out (the (top_desc (silver_event_order fn) g)))
               (groups (key_of (sc_primary_keys c)) (prepare_events fn d))\<rparr>)"

section \<open>Change history\<close>

definition history_event_id :: "sparkfn \<Rightarrow> string list \<Rightarrow> silver_contract \<Rightarrow> row \<Rightarrow> string" where
  "history_event_id fn cols c r = fn_sha2 fn (concat_ws fn ''||''
     [StrV (sc_table_name c), fn_cast fn ''string'' (r ''_event_id''), fn_cast fn ''string'' (r ''_batch_id''),
      fn_cast fn ''string'' (optional_column fn cols ''_source_lsn'' ''long'' r),
      fn_cast fn ''string'' (optional_column fn cols ''_kafka_partition'' ''int'' r),
      fn_cast fn ''string'' (optional_column fn cols ''_kafka_offset'' ''long'' r),
      fn_cast fn ''string'' (r ''_operation'')])"

definition change_history_metadata ::
    "sparkfn \<Rightarrow> int \<Rightarrow> string list \<Rightarrow> silver_contract \<Rightarrow> (string \<times> (row \<Rightarrow> val)) list" where
  "change_history_metadata fn now cols c =
     [column ''_operation'', column ''_event_occurred_at'',
      (''_bronze_event_id'', \<lambda>r. fn_cast fn ''string'' (r ''_event_id'')),
      (''_history_event_id'', \<lambda>r. StrV (history_event_id fn cols c r)),
      (''_bronze_batch_id'', \<lambda>r. r ''_batch_id''),
      (''_bronze_record_hash'', \<lambda>r. fn_cast fn ''string'' (r ''_record_hash''))] @
     event_metadata fn cols @
     [(''_silver_history_ingested_at'', \<lambda>r. TsV now),
      (''_source_table'', \<lambda>r. StrV (sc_table_name c)),
      (''_silver_schema_version'', \<lambda>r. IntV SILVER_SCHEMA_VERSION)]"

definition change_history_columns ::
    "sparkfn \<Rightarrow> int \<Rightarrow> string list \<Rightarrow> silver_contract \<Rightarrow> (string \<times> (row \<Rightarrow> val)) list" where
  "change_history_columns fn now cols c = map column (sc_columns c) @ change_history_metadata fn now cols c"

definition change_history :: "sparkfn \<Rightarrow> int \<Rightarrow> df \<Rightarrow> silver_contract \<Rightarrow> df res" where
  "change_history fn now d c = and_then (validate_bronze_columns d c) (\<lambda>_.
     let out = change_history_columns fn now (df_cols d) c
     in Inr \<lparr>df_cols = map fst out, df_rows = map (project out) (prepare_events fn d)\<rparr>)"

section \<open>Customer tables\<close>

definition CUSTOMER_TABLES :: "string list" where
  "CUSTOMER_TABLES = [''app_users'', ''user_addresses'']"

definition clean_customer :: "sparkfn \<Rightarrow> string \<Rightarrow> df \<Rightarrow> df" where
  "clean_customer fn table d = (if table = ''app_users''
     then normalize_phone ''phone_number'' (normalize_lower fn [''username'', ''email'', ''status'']
       (clean_text fn [''username'', ''email'', ''first_name'', ''last_name'', ''phone_number''] d))
     else normalize_phone ''phone_number'' (normalize_lower fn [''address_type'']
       (clean_text fn [''address_type'', ''recipient_name'', ''phone_number'', ''street'', ''ward'',
          ''district'', ''city'', ''state'', ''postal_code'', ''country''] d)))"

definition transform_customer_table :: "sparkfn \<Rightarrow> int \<Rightarrow> df \<Rightarrow> silver_contract \<Rightarrow> df res" where
  "transform_customer_table fn now d c =
     and_then (raise_if (sc_table_name c \<notin> set CUSTOMER_TABLES) (ValueError ''Unsupported customer silver table'')) (\<lambda>_.
     and_then (current_state fn now d c) (\<lambda>cleaned. Inr (clean_customer fn (sc_table_name c) cleaned)))"

definition transform_customer_history :: "sparkfn \<Rightarrow> int \<Rightarrow> df \<Rightarrow> silver_contract \<Rightarrow> df res" where
  "transform_customer_history fn now d c =
     and_then (raise_if (sc_table_name c \<notin> set CUSTOMER_TABLES) (ValueError ''Unsupported customer silver history table'')) (\<lambda>_.
     and_then (change_history fn now d c) (\<lambda>cleaned. Inr (clean_customer fn (sc_table_name c) cleaned)))"

section \<open>Sales tables\<close>

definition SALES_TABLES :: "string list" where
  "SALES_TABLES = [''shops'', ''categories'', ''products'', ''product_variants'', ''vouchers'', ''orders'',
     ''order_items'', ''order_vouchers'', ''payments'', ''shipments'']"

definition TEXT_COLUMNS :: "string list" where
  "TEXT_COLUMNS = [''shop_name'', ''shop_slug'', ''category_name'', ''slug'', ''product_sku'', ''product_slug'',
     ''product_name'', ''brand'', ''variant_sku'', ''variant_name'', ''voucher_code'', ''voucher_name'',
     ''order_number'', ''product_name_snapshot'', ''product_sku_snapshot'', ''variant_name_snapshot'',
     ''variant_sku_snapshot'', ''payment_method'', ''carrier'', ''tracking_number'']"

definition LOWER_COLUMNS :: "string list" where
  "LOWER_COLUMNS = [''status'', ''order_status'', ''payment_status'', ''shipment_status'', ''discount_type'',
     ''payment_method'']"

definition UPPER_COLUMNS :: "string list" where
  "UPPER_COLUMNS = [''currency'', ''product_sku'', ''variant_sku'', ''voucher_code'', ''product_sku_snapshot'',
     ''variant_sku_snapshot'']"

text \<open>\<open>sorted(NAMES & set(df.columns))\<close>.\<close>

definition sorted_present :: "string list \<Rightarrow> df \<Rightarrow> string list" where
  "sorted_present names d = sort (filter (\<lambda>n. n \<in> set (df_cols d)) names)"

definition clean_sales :: "sparkfn \<Rightarrow> df \<Rightarrow> df" where
  "clean_sales fn d =
     (let cleaned = clean_text fn (sorted_present TEXT_COLUMNS d) d;
          lowered = normalize_lower fn (sorted_present LOWER_COLUMNS cleaned) cleaned
      in normalize_upper fn (sorted_present UPPER_COLUMNS lowered) lowered)"

definition transform_sales_table :: "sparkfn \<Rightarrow> int \<Rightarrow> df \<Rightarrow> silver_contract \<Rightarrow> df res" where
  "transform_sales_table fn now d c =
     and_then (raise_if (sc_table_name c \<notin> set SALES_TABLES) (ValueError ''Unsupported sales silver table'')) (\<lambda>_.
     and_then (current_state fn now d c) (\<lambda>cleaned. Inr (clean_sales fn cleaned)))"

definition transform_sales_history :: "sparkfn \<Rightarrow> int \<Rightarrow> df \<Rightarrow> silver_contract \<Rightarrow> df res" where
  "transform_sales_history fn now d c =
     and_then (raise_if (sc_table_name c \<notin> set SALES_TABLES) (ValueError ''Unsupported sales silver history table'')) (\<lambda>_.
     and_then (change_history fn now d c) (\<lambda>cleaned. Inr (clean_sales fn cleaned)))"

section \<open>The transformations row by row\<close>

definition on_columns_row :: "(val \<Rightarrow> val) \<Rightarrow> string list \<Rightarrow> string list \<Rightarrow> row \<Rightarrow> row" where
  "on_columns_row f columns cols r =
     fold (\<lambda>name r. if name \<in> set cols then r(name := f (r name)) else r) columns r"

lemma on_columns_rows:
  "on_columns f columns d = d\<lparr>df_rows := map (on_columns_row f columns (df_cols d)) (df_rows d)\<rparr>"
  unfolding on_columns_def
proof (induction columns arbitrary: d)
  case Nil
  then show ?case by (simp add: on_columns_row_def)
next
  case (Cons name columns)
  then show ?case by (auto simp: on_columns_row_def with_column_def comp_def)
qed

lemma on_columns_row_other:
  "c \<notin> set columns \<or> c \<notin> set cols \<Longrightarrow> on_columns_row f columns cols r c = r c"
  by (induction columns arbitrary: r) (auto simp: on_columns_row_def)

definition phone_row :: "string \<Rightarrow> string list \<Rightarrow> row \<Rightarrow> row" where
  "phone_row col cols r = (if col \<in> set cols then r(col := text_fn phone_text (r col)) else r)"

lemma normalize_phone_rows:
  "normalize_phone col d = d\<lparr>df_rows := map (phone_row col (df_cols d)) (df_rows d)\<rparr>"
proof (cases "col \<in> set (df_cols d)")
  case True
  then have "with_column col (\<lambda>r. text_fn phone_text (r col)) = phone_row col (df_cols d)"
    by (simp add: fun_eq_iff with_column_def phone_row_def)
  with True show ?thesis by (simp add: normalize_phone_def)
next
  case False
  then have "map (phone_row col (df_cols d)) (df_rows d) = df_rows d"
    by (intro map_idI) (simp add: phone_row_def)
  with False show ?thesis by (simp add: normalize_phone_def)
qed

lemmas cleaning_rows = clean_text_def normalize_lower_def normalize_upper_def on_columns_rows normalize_phone_rows

text \<open>A transformation that works row by row and leaves the columns outside \<open>cs\<close> alone.\<close>

definition rowwise :: "string list \<Rightarrow> (string list \<Rightarrow> row \<Rightarrow> row) \<Rightarrow> (df \<Rightarrow> df) \<Rightarrow> bool" where
  "rowwise cs g f \<longleftrightarrow> (\<forall>d. f d = d\<lparr>df_rows := map (g (df_cols d)) (df_rows d)\<rparr>) \<and>
     (\<forall>cols r c. c \<notin> set cs \<or> c \<notin> set cols \<longrightarrow> g cols r c = r c)"

lemma rowwise_comp:
  "rowwise cs g f \<Longrightarrow> rowwise cs' g' f' \<Longrightarrow> rowwise (cs @ cs') (\<lambda>cols. g' cols \<circ> g cols) (\<lambda>d. f' (f d))"
  by (auto simp: rowwise_def)

lemma rowwise_on_columns: "rowwise columns (on_columns_row f columns) (on_columns f columns)"
  using on_columns_row_other by (auto simp: rowwise_def on_columns_rows)

lemma rowwise_phone: "rowwise [col] (phone_row col) (normalize_phone col)"
  by (auto simp: rowwise_def normalize_phone_rows phone_row_def)

lemma rowwise_weaken: "rowwise cs g f \<Longrightarrow> set cs \<subseteq> set cs' \<Longrightarrow> rowwise cs' g f"
  unfolding rowwise_def by blast

text \<open>Every column any cleaning step may change.\<close>

definition cleaned_columns :: "string list" where
  "cleaned_columns = TEXT_COLUMNS @ LOWER_COLUMNS @ UPPER_COLUMNS @
     [''username'', ''email'', ''first_name'', ''last_name'', ''phone_number'', ''address_type'', ''recipient_name'',
      ''street'', ''ward'', ''district'', ''city'', ''state'', ''postal_code'', ''country'']"

lemma rowwise_clean_customer: "\<exists>g. rowwise cleaned_columns g (clean_customer fn table)"
proof -
  have "\<exists>g. rowwise cleaned_columns g (\<lambda>d. normalize_phone ''phone_number'' (normalize_lower fn ls (clean_text fn ts d)))"
    if "set (ts @ ls @ [''phone_number'']) \<subseteq> set cleaned_columns" for ls ts
    using rowwise_weaken [OF rowwise_comp [OF rowwise_on_columns [of ts "clean_cell fn"] rowwise_comp [OF
        rowwise_on_columns [of ls "text_fn (fn_lower fn)"] rowwise_phone [of "''phone_number''"]]] that]
    unfolding clean_text_def normalize_lower_def by blast
  note this [of "[''username'', ''email'', ''first_name'', ''last_name'', ''phone_number'']" "[''username'', ''email'', ''status'']"]
    this [of "[''address_type'', ''recipient_name'', ''phone_number'', ''street'', ''ward'', ''district'', ''city'',
      ''state'', ''postal_code'', ''country'']" "[''address_type'']"]
  then show ?thesis
    unfolding clean_customer_def by (cases "table = ''app_users''") (simp_all add: cleaned_columns_def LOWER_COLUMNS_def)
qed

lemma rowwise_sorted_present:
  "set names \<subseteq> set cleaned_columns \<Longrightarrow>
   rowwise cleaned_columns (\<lambda>cols. on_columns_row f (sort (filter (\<lambda>n. n \<in> set cols) names)) cols)
     (\<lambda>d. on_columns f (sorted_present names d) d)"
  unfolding rowwise_def on_columns_rows sorted_present_def
  by (auto intro!: on_columns_row_other)

lemma rowwise_clean_sales: "\<exists>g. rowwise cleaned_columns g (clean_sales fn)"
proof -
  have "set TEXT_COLUMNS \<subseteq> set cleaned_columns" "set LOWER_COLUMNS \<subseteq> set cleaned_columns"
    "set UPPER_COLUMNS \<subseteq> set cleaned_columns" unfolding cleaned_columns_def set_append by blast+
  note s = this(1) [THEN rowwise_sorted_present, where f = "clean_cell fn"]
    this(2) [THEN rowwise_sorted_present, where f = "text_fn (fn_lower fn)"]
    this(3) [THEN rowwise_sorted_present, where f = "text_fn (fn_upper fn)"]
  have "clean_sales fn = (\<lambda>d. normalize_upper fn (sorted_present UPPER_COLUMNS
      (normalize_lower fn (sorted_present LOWER_COLUMNS (clean_text fn (sorted_present TEXT_COLUMNS d) d))
        (clean_text fn (sorted_present TEXT_COLUMNS d) d)))
      (normalize_lower fn (sorted_present LOWER_COLUMNS (clean_text fn (sorted_present TEXT_COLUMNS d) d))
        (clean_text fn (sorted_present TEXT_COLUMNS d) d)))"
    by (simp add: clean_sales_def Let_def fun_eq_iff)
  then show ?thesis
    using rowwise_weaken [OF rowwise_comp [OF rowwise_comp [OF s(1,2)] s(3)], of cleaned_columns]
    unfolding clean_text_def normalize_lower_def normalize_upper_def by auto
qed

section \<open>Splitting a batch\<close>

context sequenced_store
begin

text \<open>Two puts in a row are one put of the newer of the two rows.\<close>

lemma put_put:
  assumes "c \<in> {a, b}" and "seq a \<le> seq c" and "seq b \<le> seq c" and "seq a = seq b \<Longrightarrow> a = b"
  shows "put (Some b) (put (Some a) t) = put (Some c) t"
  using assms by (cases t) (auto simp: put_def newer_iff)

end

definition newest_rows :: "sparkfn \<Rightarrow> string list \<Rightarrow> row list \<Rightarrow> row list" where
  "newest_rows fn keys rows = map (\<lambda>g. the (top_desc (silver_event_order fn) g)) (groups (key_of keys) rows)"

lemma newest_rows_eq: "newest_rows fn keys rows =
  map (\<lambda>k. the (top_desc (silver_event_order fn) (filter (\<lambda>r. key_of keys r = k) rows))) (remdups (map (key_of keys) rows))"
  by (simp add: newest_rows_def groups_def)

lemma newest_rows_in:
  "r \<in> set (newest_rows fn keys rows) \<Longrightarrow>
    \<exists>k \<in> key_of keys ` set rows. r = the (top_desc (silver_event_order fn) (filter (\<lambda>r. key_of keys r = k) rows))"
  unfolding newest_rows_eq by auto

lemma top_of_key:
  assumes "k \<in> key_of keys ` set rows"
  obtains r where "top_desc (silver_event_order fn) (filter (\<lambda>r. key_of keys r = k) rows) = Some r"
    and "r \<in> set rows" and "key_of keys r = k"
proof -
  have "filter (\<lambda>r. key_of keys r = k) rows \<noteq> []" using assms by (auto simp: filter_empty_conv)
  then obtain r where r: "top_desc (silver_event_order fn) (filter (\<lambda>r. key_of keys r = k) rows) = Some r"
    by (cases "top_desc (silver_event_order fn) (filter (\<lambda>r. key_of keys r = k) rows)") auto
  with top_desc_in [OF r] that show ?thesis by auto
qed

lemma keys_newest_rows:
  assumes "\<And>r. r \<in> set rows \<Longrightarrow> key_of keys (F r) = key_of keys r"
  shows "map (key_of keys) (map F (newest_rows fn keys rows)) = remdups (map (key_of keys) rows)"
  unfolding newest_rows_eq map_map comp_def
proof (rule map_idI)
  fix k assume "k \<in> set (remdups (map (key_of keys) rows))"
  then have "k \<in> key_of keys ` set rows" by simp
  from top_of_key [OF this, of fn] assms
  show "key_of keys (F (the (top_desc (silver_event_order fn) (filter (\<lambda>r. key_of keys r = k) rows)))) = k"
    by (metis option.sel)
qed

lemma map_of_tabulate: "map_of (map (\<lambda>k. (k, h k)) ks) k = (if k \<in> set ks then Some (h k) else None)"
  by (induction ks) auto

lemma by_key_newest:
  assumes "\<And>r. r \<in> set rows \<Longrightarrow> key_of keys (F r) = key_of keys r"
  shows "by_key keys (map F (newest_rows fn keys rows)) k =
    map_option F (top_desc (silver_event_order fn) (filter (\<lambda>r. key_of keys r = k) rows))"
proof -
  let ?top = "\<lambda>k. top_desc (silver_event_order fn) (filter (\<lambda>r. key_of keys r = k) rows)"
  have "map (\<lambda>r. (key_of keys r, r)) (map F (newest_rows fn keys rows)) =
      map (\<lambda>k. (k, F (the (?top k)))) (remdups (map (key_of keys) rows))"
    using keys_newest_rows [OF assms, where fn = fn] unfolding newest_rows_eq by (simp add: list_eq_iff_nth_eq)
  then have "by_key keys (map F (newest_rows fn keys rows)) k =
      (if k \<in> key_of keys ` set rows then Some (F (the (?top k))) else None)"
    by (simp add: by_key_def map_of_tabulate)
  moreover have "?top k = None" if "k \<notin> key_of keys ` set rows"
    using that by (auto simp: filter_empty_conv)
  moreover have "\<exists>r. ?top k = Some r" if "k \<in> key_of keys ` set rows"
    using top_of_key [OF that] by metis
  ultimately show ?thesis by force
qed

lemma keyed_newest:
  assumes "\<And>r. r \<in> set rows \<Longrightarrow> key_of keys (F r) = key_of keys r"
    and "\<And>r. r \<in> set rows \<Longrightarrow> \<not> has_null (key_of keys r)"
  shows "keyed keys (map F (newest_rows fn keys rows))"
proof -
  have "key_of keys r \<in> key_of keys ` set rows" if "r \<in> set (map F (newest_rows fn keys rows))" for r
    using keys_newest_rows [OF assms(1), where fn = fn] that by (metis image_eqI list.set_map set_remdups)
  then have "\<not> has_null (key_of keys r)" if "r \<in> set (map F (newest_rows fn keys rows))" for r
    using that assms(2) by fastforce
  then show ?thesis
    using keys_newest_rows [OF assms(1), where fn = fn] unfolding keyed_def by (metis distinct_remdups)
qed

lemma silver_event_order_seq: "silver_event_order fn a \<le> silver_event_order fn b \<Longrightarrow> key_of SILVER_SEQUENCE_COLUMNS a \<le> key_of SILVER_SEQUENCE_COLUMNS b"
  by (simp add: silver_event_order_def key_of_def SILVER_SEQUENCE_COLUMNS_def)
    (meson order.strict_implies_order order_le_less)

text \<open>
  Rows of one key whose sequence, after the projection \<open>F\<close>, determines the row: keeping the newest of
  the first batch and then of the second is keeping the newest of both.
\<close>

lemma newest_append:
  fixes F :: "row \<Rightarrow> row"
  assumes seq: "\<And>r. r \<in> set (xs @ ys) \<Longrightarrow> key_of SILVER_SEQUENCE_COLUMNS (F r) = key_of SILVER_SEQUENCE_COLUMNS r"
    and det: "\<And>a b. a \<in> set (xs @ ys) \<Longrightarrow> b \<in> set (xs @ ys) \<Longrightarrow>
      key_of SILVER_SEQUENCE_COLUMNS a = key_of SILVER_SEQUENCE_COLUMNS b \<Longrightarrow> F a = F b"
  shows "silver.put SILVER_SEQUENCE_COLUMNS (map_option F (top_desc (silver_event_order fn) ys))
      (silver.put SILVER_SEQUENCE_COLUMNS (map_option F (top_desc (silver_event_order fn) xs)) t) =
    silver.put SILVER_SEQUENCE_COLUMNS (map_option F (top_desc (silver_event_order fn) (xs @ ys))) t"
proof (cases "xs = [] \<or> ys = []")
  case True
  then show ?thesis by (auto simp: silver.put_def split: option.splits)
next
  case False
  let ?top = "top_desc (silver_event_order fn)" and ?seq = "key_of SILVER_SEQUENCE_COLUMNS"
  obtain a b c where top: "?top xs = Some a" "?top ys = Some b" "?top (xs @ ys) = Some c"
    using False top_desc_None [of "silver_event_order fn"] by (metis append_is_Nil_conv not_None_eq)
  note mem = top_desc_in [OF top(1)] top_desc_in [OF top(2)] top_desc_in [OF top(3)]
  have le: "?seq r \<le> ?seq c" if "r \<in> set (xs @ ys)" for r
    using top_desc_max [OF top(3) that] by (rule silver_event_order_seq)
  have "?seq c = ?seq a \<or> ?seq c = ?seq b"
  proof (cases "c \<in> set xs")
    case True
    then show ?thesis using silver_event_order_seq [OF top_desc_max [OF top(1) True]] le [of a] mem by auto
  next
    case F: False
    then have "c \<in> set ys" using mem(3) by simp
    then show ?thesis using silver_event_order_seq [OF top_desc_max [OF top(2)], of c] le [of b] mem(2) by (simp add: antisym)
  qed
  then have "F c = F a \<or> F c = F b" using det [of c a] det [of c b] mem by auto
  then have "silver.put SILVER_SEQUENCE_COLUMNS (Some (F b)) (silver.put SILVER_SEQUENCE_COLUMNS (Some (F a)) t) =
      silver.put SILVER_SEQUENCE_COLUMNS (Some (F c)) t"
    using seq [of a] seq [of b] seq [of c] le [of a] le [of b] det [of a b] mem
    by (intro silver.put_put) auto
  with top show ?thesis by simp
qed

section \<open>The contracts fit the transformation\<close>

text \<open>
  What the transformation and the sequenced MERGE need of a contract: the key columns and
  \<open>created_at\<close> are business columns that no cleaning step changes, and no business column has the
  underscore prefix of the metadata.
\<close>

definition silver_contract_ok :: "silver_contract \<Rightarrow> bool" where
  "silver_contract_ok c \<longleftrightarrow> sc_primary_keys c \<noteq> [] \<and>
     list_all (\<lambda>k. k \<in> set (sc_columns c) \<and> k \<noteq> ''created_at'' \<and> k \<notin> set cleaned_columns) (sc_primary_keys c) \<and>
     ''created_at'' \<in> set (sc_columns c) \<and>
     list_all (\<lambda>k. \<not> starts_with_underscore k) (sc_columns c) \<and>
     (sc_table_name c \<in> set CUSTOMER_TABLES) = (sc_table_name c \<notin> set SALES_TABLES)"

lemma silver_tables_ok: "list_all (\<lambda>(t, c). silver_contract_ok c) SILVER_TABLES"
  by code_simp

lemma created_at_not_cleaned: "''created_at'' \<notin> set cleaned_columns"
  by code_simp

lemma sequence_not_cleaned: "set SILVER_SEQUENCE_COLUMNS \<inter> set cleaned_columns = {}"
  by code_simp

lemma contract_no_underscore:
  "silver_contract_ok c \<Longrightarrow> starts_with_underscore n \<Longrightarrow> n \<notin> set (sc_columns c)"
  by (auto simp: silver_contract_ok_def list_all_iff)

lemma map_of_columns:
  "map_of (map column cs @ rest) n = (if n \<in> set cs then Some (\<lambda>r. r n) else map_of rest n)"
  by (induction cs) (auto simp: column_def)

lemma fst_columns: "map fst (map column cs @ rest) = cs @ map fst rest"
  by (simp add: column_def comp_def)

lemma sequence_metadata_cases:
  "map_of (current_state_metadata fn now cols c) ''_event_occurred_at'' = Some (\<lambda>r. r ''_event_occurred_at'')"
  "map_of (current_state_metadata fn now cols c) ''_ingestion_priority'' = Some (\<lambda>r. r ''_ingestion_priority'')"
  "map_of (current_state_metadata fn now cols c) ''_source_event_sequence'' = Some (\<lambda>r. r ''_source_event_sequence'')"
  "map_of (current_state_metadata fn now cols c) ''_source_event_subsequence'' = Some (\<lambda>r. r ''_source_event_subsequence'')"
  by (simp_all add: current_state_metadata_def event_metadata_def column_def)

lemma sequence_columns_cases:
  "n \<in> set SILVER_SEQUENCE_COLUMNS \<longleftrightarrow> n = ''_event_occurred_at'' \<or> n = ''_ingestion_priority'' \<or>
     n = ''_source_event_sequence'' \<or> n = ''_source_event_subsequence''"
  by (simp add: SILVER_SEQUENCE_COLUMNS_def)

lemma sequence_metadata:
  "n \<in> set SILVER_SEQUENCE_COLUMNS \<Longrightarrow> map_of (current_state_metadata fn now cols c) n = Some (\<lambda>r. r n)"
  unfolding sequence_columns_cases using sequence_metadata_cases by blast

lemma project_current_state:
  assumes "silver_contract_ok c"
  shows "n \<in> set (sc_columns c) \<Longrightarrow> project (current_state_columns fn now cols c) r n = r n"
    and "n \<in> set SILVER_SEQUENCE_COLUMNS \<Longrightarrow> project (current_state_columns fn now cols c) r n = r n"
proof -
  show "n \<in> set (sc_columns c) \<Longrightarrow> project (current_state_columns fn now cols c) r n = r n"
    by (simp only: project_def current_state_columns_def map_of_columns if_True option.case)
  assume n: "n \<in> set SILVER_SEQUENCE_COLUMNS"
  then have "starts_with_underscore n"
    by (auto simp: SILVER_SEQUENCE_COLUMNS_def starts_with_underscore_def)
  with contract_no_underscore [OF assms] have "n \<notin> set (sc_columns c)" by blast
  then show "project (current_state_columns fn now cols c) r n = r n"
    by (simp only: project_def current_state_columns_def map_of_columns if_False sequence_metadata [OF n] option.case)
qed

lemma project_outside: "n \<notin> set (map fst es) \<Longrightarrow> project es r n = Null"
  unfolding project_def using map_of_eq_None_iff [of es n] by simp

lemma current_state_eq:
  assumes "set (silver_required_columns c) \<subseteq> set (df_cols d)"
  shows "current_state fn now d c = Inr \<lparr>df_cols = map fst (current_state_columns fn now (df_cols d) c),
    df_rows = map (project (current_state_columns fn now (df_cols d) c))
      (newest_rows fn (sc_primary_keys c) (prepare_events fn d))\<rparr>"
  using assms by (simp add: current_state_def validate_bronze_columns_def newest_rows_def Let_def comp_def)

lemma sequence_in_columns: "set SILVER_SEQUENCE_COLUMNS \<subseteq> set (map fst (current_state_columns fn now cols c))"
  by (simp add: current_state_columns_def current_state_metadata_def event_metadata_def column_def SILVER_SEQUENCE_COLUMNS_def)

lemma contract_merge_columns_ok:
  assumes "silver_contract_ok c"
  shows "merge_columns_ok SILVER_SEQUENCE_COLUMNS (sc_primary_keys c) (map fst (current_state_columns fn now cols c))"
proof -
  have "set (sc_primary_keys c) \<subseteq> set (sc_columns c)" "''created_at'' \<notin> set (sc_primary_keys c)"
    using assms by (auto simp: silver_contract_ok_def list_all_iff)
  moreover have "q \<notin> set (sc_columns c)" if "q \<in> set SILVER_SEQUENCE_COLUMNS" for q
    using contract_no_underscore [OF assms, of q] that
    by (auto simp: SILVER_SEQUENCE_COLUMNS_def starts_with_underscore_def)
  moreover have "SILVER_SEQUENCE_COLUMNS \<noteq> []" "''created_at'' \<notin> set SILVER_SEQUENCE_COLUMNS"
    "''_silver_updated_at'' \<notin> set SILVER_SEQUENCE_COLUMNS" by (simp_all add: SILVER_SEQUENCE_COLUMNS_def)
  moreover have "set (sc_columns c) \<subseteq> set (map fst (current_state_columns fn now cols c))"
    unfolding current_state_columns_def fst_columns set_append by (rule Un_upper1)
  ultimately show ?thesis
    using sequence_in_columns [of fn now cols c] unfolding merge_columns_ok_def by fastforce
qed

section \<open>Properties\<close>

text \<open>
  Every Silver contract fits the sequenced MERGE: for every source table, the columns that
  \<open>current_state\<close> produces contain the key and the sequence columns, and these are neither compared
  columns of the key nor among the ignored timestamps.
\<close>

theorem silver_contracts_mergeable:
  "list_all (\<lambda>(t, c). merge_columns_ok SILVER_SEQUENCE_COLUMNS (sc_primary_keys c)
     (map fst (current_state_columns fn now cols c))) SILVER_TABLES"
  using silver_tables_ok contract_merge_columns_ok by (auto simp: list_all_iff)

lemma silver_table_ok: "(t, c) \<in> set SILVER_TABLES \<Longrightarrow> silver_contract_ok c"
  using silver_tables_ok by (auto simp: list_all_iff)

lemma current_state_key:
  assumes "silver_contract_ok c"
  shows "key_of (sc_primary_keys c) (project (current_state_columns fn now cols c) r) = key_of (sc_primary_keys c) r"
    and "key_of SILVER_SEQUENCE_COLUMNS (project (current_state_columns fn now cols c) r) = key_of SILVER_SEQUENCE_COLUMNS r"
  using assms project_current_state [OF assms, where fn = fn and now = now and cols = cols and r = r]
  by (auto simp: key_of_def silver_contract_ok_def list_all_iff)

text \<open>
  The current state of a batch of Bronze events has one row per business key that occurs in it,
  and that row carries the greatest event sequence (event time, ingestion priority, source position)
  of the key's events.
\<close>

theorem current_state_keeps_newest:
  assumes "(t, c) \<in> set SILVER_TABLES" and "current_state fn now d c = Inr out"
  shows "map (key_of (sc_primary_keys c)) (df_rows out) = remdups (map (key_of (sc_primary_keys c)) (prepare_events fn d)) \<and>
    list_all (\<lambda>r. list_all (\<lambda>e. key_of (sc_primary_keys c) e \<noteq> key_of (sc_primary_keys c) r \<or>
      key_of SILVER_SEQUENCE_COLUMNS e \<le> key_of SILVER_SEQUENCE_COLUMNS r) (prepare_events fn d)) (df_rows out)"
proof -
  let ?keys = "sc_primary_keys c" and ?rows = "prepare_events fn d"
    and ?F = "project (current_state_columns fn now (df_cols d) c)"
  note ok = silver_table_ok [OF assms(1)]
  note key = current_state_key [OF ok, where fn = fn and now = now and cols = "df_cols d"]
  have rows: "df_rows out = map ?F (newest_rows fn ?keys ?rows)"
  proof (cases "set (silver_required_columns c) \<subseteq> set (df_cols d)")
    case True
    with assms(2) show ?thesis by (auto simp: current_state_eq)
  next
    case False
    with assms(2) show ?thesis by (simp add: current_state_def validate_bronze_columns_def)
  qed
  have max: "key_of SILVER_SEQUENCE_COLUMNS e \<le> key_of SILVER_SEQUENCE_COLUMNS (?F r)"
    if "r \<in> set (newest_rows fn ?keys ?rows)" "e \<in> set ?rows" "key_of ?keys e = key_of ?keys (?F r)" for r e
  proof -
    note e = that
    obtain k where k: "k \<in> key_of ?keys ` set ?rows"
      and r: "r = the (top_desc (silver_event_order fn) (filter (\<lambda>r. key_of ?keys r = k) ?rows))"
      using newest_rows_in [OF e(1)] by blast
    obtain m where m: "top_desc (silver_event_order fn) (filter (\<lambda>r. key_of ?keys r = k) ?rows) = Some m" "key_of ?keys m = k"
      using top_of_key [OF k] by metis
    with r e(2,3) have "e \<in> set (filter (\<lambda>r. key_of ?keys r = k) ?rows)" "r = m" by (auto simp: key(1))
    with top_desc_max [OF m(1)] show ?thesis by (auto simp: key(2) intro: silver_event_order_seq)
  qed
  have "map (key_of ?keys) (df_rows out) = remdups (map (key_of ?keys) ?rows)"
    unfolding rows by (rule keys_newest_rows) (simp add: key(1))
  with max rows show ?thesis by (auto simp: list_all_iff)
qed

text \<open>
  Cleaning a phone number leaves at most one leading plus sign and digits, and cleaning it again
  changes nothing.
\<close>

theorem phone_normal_form:
  "(\<exists>ds. phone_text s \<in> {ds, CHR ''+'' # ds} \<and> list_all is_ascii_digit ds) \<and>
    normalize_phone col (normalize_phone col d) = normalize_phone col d"
proof
  have "list_all is_ascii_digit (filter is_ascii_digit s)" by (simp add: list_all_iff)
  then show "\<exists>ds. phone_text s \<in> {ds, CHR ''+'' # ds} \<and> list_all is_ascii_digit ds"
    by (intro exI [of _ "filter is_ascii_digit s"]) (simp add: phone_text_def)
  have plus: "\<not> is_ascii_digit (CHR ''+'')" by (simp add: is_ascii_digit_def)
  have digits: "\<not> starts_with ''+'' (filter is_ascii_digit s)" for s
  proof (cases "filter is_ascii_digit s")
    case (Cons a as)
    then have "a \<in> set (filter is_ascii_digit s)" by simp
    then have "is_ascii_digit a" by simp
    with Cons plus show ?thesis by (auto simp: starts_with_def)
  qed (simp add: starts_with_def)
  have "phone_text (phone_text s) = phone_text s" for s
    using digits [of s] plus by (auto simp: phone_text_def starts_with_def)
  then have "text_fn phone_text (text_fn phone_text v) = text_fn phone_text v" for v
    by (simp add: text_fn_def split: val.split)
  then show "normalize_phone col (normalize_phone col d) = normalize_phone col d"
    by (simp add: normalize_phone_rows phone_row_def comp_def)
qed

definition demo_contract :: silver_contract where
  "demo_contract = \<lparr>sc_table_name = ''order_vouchers'', sc_primary_keys = [''order_voucher_id''],
     sc_columns = [''order_voucher_id'', ''order_id'', ''voucher_id'', ''discount_amount'', ''created_at'', ''updated_at''],
     sc_materialize_change_history = False\<rparr>"

lemma demo_contract_in: "(''order_vouchers'', demo_contract) \<in> set SILVER_TABLES"
  by (simp add: SILVER_TABLES_def demo_contract_def)

definition demo_bronze :: "(int \<times> int \<times> int) list \<Rightarrow> df" where
  "demo_bronze es = \<lparr>df_cols = silver_required_columns demo_contract,
     df_rows = map (\<lambda>(i, k, time). row_of [(''_event_id'', IntV i), (''order_voucher_id'', IntV k),
       (''_event_occurred_at'', TsV time), (''_operation'', StrV ''UPDATE'')]) es\<rparr>"

lemma demo_bronze_keys:
  "map (key_of [''order_voucher_id'']) (prepare_events example_fn (demo_bronze es)) = map (\<lambda>(i, k, time). [IntV k]) es"
  by (induction es)
    (auto simp: prepare_events_def enforce_types_def demo_bronze_def with_event_metadata_def key_of_def row_of_def
      example_fn_def column_type_def)

theorem current_state_keeps_newest_witness:
  "\<exists>out. current_state example_fn 7 (demo_bronze [(1, 5, 10), (2, 5, 20), (3, 6, 15)]) demo_contract = Inr out \<and>
    map (key_of [''order_voucher_id'']) (df_rows out) = [[IntV 5], [IntV 6]]"
proof -
  let ?d = "demo_bronze [(1, 5, 10), (2, 5, 20), (3, 6, 15)]"
  have "\<exists>out. current_state example_fn 7 ?d demo_contract = Inr out"
    by (rule exI, rule current_state_eq) (simp add: demo_bronze_def)
  then obtain out where out: "current_state example_fn 7 ?d demo_contract = Inr out" ..
  have pk: "sc_primary_keys demo_contract = [''order_voucher_id'']" by (simp add: demo_contract_def)
  have "map (key_of [''order_voucher_id'']) (df_rows out) =
      remdups (map (key_of [''order_voucher_id'']) (prepare_events example_fn ?d))"
    using conjunct1 [OF current_state_keeps_newest [OF demo_contract_in out]] unfolding pk .
  also have "\<dots> = remdups (map (\<lambda>(i, k, time). [IntV k]) [(1 :: int, 5, 10 :: int), (2, 5, 20), (3, 6, 15)])"
    unfolding demo_bronze_keys ..
  also have "\<dots> = [[IntV 5], [IntV 6]]" by code_simp
  finally show ?thesis by (intro exI [of _ out] conjI out)
qed

lemma map_triple:
  "map f xs = map f' ys \<Longrightarrow> map g xs = map g' ys \<Longrightarrow> map h xs = map h' ys \<Longrightarrow>
    map (\<lambda>r. (u (f r), g r, h r)) xs = map (\<lambda>r. (u (f' r), g' r, h' r)) ys"
proof (induction xs arbitrary: ys)
  case (Cons x xs)
  then show ?case by (cases ys) auto
qed simp

lemma history_metadata_cases:
  "map_of (change_history_metadata fn now cols c) ''_bronze_event_id'' = Some (\<lambda>r. fn_cast fn ''string'' (r ''_event_id''))"
  "map_of (change_history_metadata fn now cols c) ''_operation'' = Some (\<lambda>r. r ''_operation'')"
  "map_of (change_history_metadata fn now cols c) ''_event_occurred_at'' = Some (\<lambda>r. r ''_event_occurred_at'')"
  by (simp_all add: change_history_metadata_def event_metadata_def column_def)

lemma enforce_types_meta:
  assumes "column_type n = None" and "n \<notin> {''_ingestion_mode'', ''_ingestion_priority'', ''_source_event_sequence'', ''_source_event_subsequence''}"
  shows "map (\<lambda>r. r n) (prepare_events fn d) = map (\<lambda>r. r n) (df_rows d)"
  using assms by (simp add: prepare_events_def enforce_types_def with_event_metadata_def comp_def)

text \<open>
  The change history keeps every Bronze event, in order, with its operation: no event is dropped
  or merged, whatever its key.
\<close>

theorem change_history_keeps_every_event:
  assumes "(t, c) \<in> set SILVER_TABLES" and "change_history fn now d c = Inr h"
  shows "map (\<lambda>r. (r ''_bronze_event_id'', r ''_operation'', r ''_event_occurred_at'')) (df_rows h) =
    map (\<lambda>r. (fn_cast fn ''string'' (r ''_event_id''), r ''_operation'', r ''_event_occurred_at'')) (df_rows d)"
proof -
  let ?es = "change_history_columns fn now (df_cols d) c"
  have rows: "df_rows h = map (project ?es) (prepare_events fn d)"
    using assms(2) by (auto simp: change_history_def validate_bronze_columns_def raise_if_def Let_def split: if_splits)
  have "n \<notin> set (sc_columns c)" if "starts_with_underscore n" for n
    using contract_no_underscore [OF silver_table_ok [OF assms(1)] that] .
  then have "''_bronze_event_id'' \<notin> set (sc_columns c)" "''_operation'' \<notin> set (sc_columns c)"
    "''_event_occurred_at'' \<notin> set (sc_columns c)" by (simp_all add: starts_with_underscore_def)
  then have cols: "project ?es r ''_bronze_event_id'' = fn_cast fn ''string'' (r ''_event_id'')"
    "project ?es r ''_operation'' = r ''_operation''"
    "project ?es r ''_event_occurred_at'' = r ''_event_occurred_at''" for r
    by (simp_all only: project_def change_history_columns_def map_of_columns if_False history_metadata_cases option.case)
  note enforce_types_meta [of "''_event_id''" fn d] enforce_types_meta [of "''_operation''" fn d]
    enforce_types_meta [of "''_event_occurred_at''" fn d]
  moreover have "column_type ''_event_id'' = None" "column_type ''_operation'' = None"
    "column_type ''_event_occurred_at'' = None" by code_simp+
  ultimately have "map (\<lambda>r. r ''_event_id'') (prepare_events fn d) = map (\<lambda>r. r ''_event_id'') (df_rows d)"
    "map (\<lambda>r. r ''_operation'') (prepare_events fn d) = map (\<lambda>r. r ''_operation'') (df_rows d)"
    "map (\<lambda>r. r ''_event_occurred_at'') (prepare_events fn d) = map (\<lambda>r. r ''_event_occurred_at'') (df_rows d)"
    by simp_all
  then show ?thesis unfolding rows map_map comp_def cols by (rule map_triple)
qed

theorem change_history_keeps_every_event_witness:
  "\<exists>h. change_history example_fn 7 (demo_bronze [(1, 5, 10), (2, 5, 20)]) demo_contract = Inr h \<and>
    map (\<lambda>r. (r ''_bronze_event_id'', r ''_operation'', r ''_event_occurred_at'')) (df_rows h) =
      [(IntV 1, StrV ''UPDATE'', TsV 10), (IntV 2, StrV ''UPDATE'', TsV 20)]"
proof -
  obtain h where h: "change_history example_fn 7 (demo_bronze [(1, 5, 10), (2, 5, 20)]) demo_contract = Inr h"
    by (simp add: change_history_def validate_bronze_columns_def demo_bronze_def Let_def)
  with change_history_keeps_every_event [OF demo_contract_in h] show ?thesis
    by (auto simp: demo_bronze_def row_of_def example_fn_def)
qed

end
