(* ===== verification/Manifests.thy ===== *)
theory Manifests
  imports Json
begin

text \<open>
  The manifests that hand table versions from one pipeline stage to the next
  (\<open>control/manifests.py\<close>) and their JSON form for an external orchestrator. A dict is the list of
  its items; two dicts are equal when they agree as maps.
\<close>

record bronze_result =
  br_batch_id :: string
  br_table_name :: string
  br_record_count :: int
  br_ingestion_type :: string
  br_delta_version :: int
  br_operation_counts :: "(string \<times> int) list"
  br_schema_version :: int

record bronze_manifest =
  bm_batch_id :: string
  bm_tables :: "(string \<times> bronze_result) list"

record silver_result =
  sr_table_name :: string
  sr_committed_version :: int
  sr_schema_version :: int

type_synonym silver_manifest = "(string \<times> silver_result) list"

datatype manifest = BronzeManifest bronze_manifest | SilverManifest silver_manifest

record gold_candidate =
  gc_batch_id :: string
  gc_changed_tables :: "string list"
  gc_committed_versions :: "(string \<times> int) list"
  gc_silver_versions :: "(string \<times> int) list"
  gc_quality_status :: string

text \<open>\<open>{result.table_name: result for result in results}\<close>: a later result replaces an earlier one.\<close>

definition from_results :: "string \<Rightarrow> bronze_result list \<Rightarrow> bronze_manifest res" where
  "from_results batch_id results =
     (let tables = fold (\<lambda>r kvs. assoc_set (br_table_name r) r kvs) results []
      in and_then (raise_if (length tables \<noteq> length results)
           (ValueError ''Bronze manifest contains duplicate table names'')) (\<lambda>_.
         and_then (raise_if (\<exists>r \<in> set results. br_batch_id r \<noteq> batch_id)
           (ValueError ''Bronze manifest contains a mismatched batch_id'')) (\<lambda>_.
         Inr \<lparr>bm_batch_id = batch_id, bm_tables = tables\<rparr>)))"

definition manifest_results :: "bronze_manifest \<Rightarrow> bronze_result list" where
  "manifest_results m = map snd (bm_tables m)"

definition committed_versions :: "silver_manifest \<Rightarrow> (string \<times> int) list" where
  "committed_versions m = map (\<lambda>(name, r). (name, sr_committed_version r)) m"

section \<open>Serialization\<close>

definition json_counts :: "(string \<times> int) list \<Rightarrow> json" where
  "json_counts kvs = jobj (map (\<lambda>(k, n). (k, JInt n)) kvs)"

definition bronze_result_json :: "bronze_result \<Rightarrow> json" where
  "bronze_result_json r = jobj
     [(''record_count'', JInt (br_record_count r)),
      (''ingestion_type'', JStr (br_ingestion_type r)),
      (''delta_version'', JInt (br_delta_version r)),
      (''operation_counts'', json_counts (br_operation_counts r)),
      (''schema_version'', JInt (br_schema_version r))]"

definition silver_result_json :: "silver_result \<Rightarrow> json" where
  "silver_result_json r = jobj
     [(''committed_version'', JInt (sr_committed_version r)),
      (''schema_version'', JInt (sr_schema_version r))]"

definition manifest_payload :: "manifest \<Rightarrow> json" where
  "manifest_payload m = (case m of
     BronzeManifest b \<Rightarrow> jobj [(''type'', JStr ''bronze''), (''batch_id'', JStr (bm_batch_id b)),
       (''tables'', jobj (map (\<lambda>(name, r). (name, bronze_result_json r)) (bm_tables b)))]
   | SilverManifest s \<Rightarrow> jobj [(''type'', JStr ''silver''),
       (''tables'', jobj (map (\<lambda>(name, r). (name, silver_result_json r)) s))])"

definition serialize_manifest :: "(json \<Rightarrow> string) \<Rightarrow> manifest \<Rightarrow> string" where
  "serialize_manifest dumps m = dumps (manifest_payload m)"

section \<open>Deserialization\<close>

definition checked_table_name :: "string \<Rightarrow> string res" where
  "checked_table_name name = and_then (raise_if (name = []) (ValueError ''Invalid manifest table name'')) (\<lambda>_. Inr name)"

definition table_values :: "json \<Rightarrow> (string \<times> json) list res" where
  "table_values j = (case j of JObj kvs \<Rightarrow> Inr kvs | _ \<Rightarrow> Inl (ValueError ''Invalid manifest table metadata''))"

definition non_negative_int :: "json \<Rightarrow> string \<Rightarrow> int res" where
  "non_negative_int values field_name = and_then (table_values values) (\<lambda>kvs.
     case map_of kvs field_name of
       Some (JInt i) \<Rightarrow> if i < 0 then Inl (ValueError ''Invalid manifest field'') else Inr i
     | _ \<Rightarrow> Inl (ValueError ''Invalid manifest field''))"

definition string_field :: "json \<Rightarrow> string \<Rightarrow> string res" where
  "string_field values field_name = and_then (table_values values) (\<lambda>kvs.
     case map_of kvs field_name of
       Some (JStr s) \<Rightarrow> if s = [] then Inl (ValueError ''Invalid manifest field'') else Inr s
     | _ \<Rightarrow> Inl (ValueError ''Invalid manifest field''))"

definition operation_count :: "string \<times> json \<Rightarrow> (string \<times> int) res" where
  "operation_count kv = (case snd kv of
     JInt i \<Rightarrow> if i < 0 then Inl (ValueError ''Invalid manifest operation_counts'') else Inr (fst kv, i)
   | _ \<Rightarrow> Inl (ValueError ''Invalid manifest operation_counts''))"

definition operation_counts :: "json \<Rightarrow> (string \<times> int) list res" where
  "operation_counts values = and_then (table_values values) (\<lambda>kvs.
     case map_of kvs ''operation_counts'' of
       Some (JObj raw) \<Rightarrow> traverse operation_count raw
     | _ \<Rightarrow> Inl (ValueError ''Invalid manifest operation_counts''))"

definition bronze_result_from :: "string \<Rightarrow> string \<times> json \<Rightarrow> bronze_result res" where
  "bronze_result_from batch_id kv =
     and_then (checked_table_name (fst kv)) (\<lambda>name.
     and_then (non_negative_int (snd kv) ''record_count'') (\<lambda>n.
     and_then (string_field (snd kv) ''ingestion_type'') (\<lambda>ty.
     and_then (non_negative_int (snd kv) ''delta_version'') (\<lambda>v.
     and_then (operation_counts (snd kv)) (\<lambda>ops.
     and_then (non_negative_int (snd kv) ''schema_version'') (\<lambda>sv.
     Inr \<lparr>br_batch_id = batch_id, br_table_name = name, br_record_count = n, br_ingestion_type = ty,
          br_delta_version = v, br_operation_counts = ops, br_schema_version = sv\<rparr>))))))"

definition silver_result_from :: "string \<times> json \<Rightarrow> (string \<times> silver_result) res" where
  "silver_result_from kv =
     and_then (checked_table_name (fst kv)) (\<lambda>name.
     and_then (non_negative_int (snd kv) ''committed_version'') (\<lambda>v.
     and_then (non_negative_int (snd kv) ''schema_version'') (\<lambda>sv.
     Inr (name, \<lparr>sr_table_name = name, sr_committed_version = v, sr_schema_version = sv\<rparr>))))"

definition manifest_from_payload :: "json \<Rightarrow> manifest res" where
  "manifest_from_payload payload = (case jget payload ''tables'' of
     Some (JObj tables) \<Rightarrow> (case jget payload ''type'' of
       Some (JStr ty) \<Rightarrow>
         if ty = ''bronze'' then (case jget payload ''batch_id'' of
             Some (JStr batch_id) \<Rightarrow>
               if batch_id = [] then Inl (ValueError ''Invalid Bronze manifest batch_id'')
               else and_then (traverse (bronze_result_from batch_id) tables) (\<lambda>results.
                    and_then (from_results batch_id results) (\<lambda>m. Inr (BronzeManifest m)))
           | _ \<Rightarrow> Inl (ValueError ''Invalid Bronze manifest batch_id''))
         else if ty = ''silver'' then
           and_then (traverse silver_result_from tables) (\<lambda>s. Inr (SilverManifest s))
         else Inl (ValueError ''Unsupported upstream manifest type'')
     | _ \<Rightarrow> Inl (ValueError ''Unsupported upstream manifest type''))
   | _ \<Rightarrow> Inl (ValueError ''Invalid upstream manifest payload''))"

definition deserialize_manifest :: "(string \<Rightarrow> json option) \<Rightarrow> string \<Rightarrow> manifest res" where
  "deserialize_manifest loads raw = (case loads raw of
     None \<Rightarrow> Inl (ValueError ''Invalid upstream manifest JSON'')
   | Some payload \<Rightarrow> manifest_from_payload payload)"

section \<open>Valid manifests\<close>

definition bronze_result_ok :: "string \<Rightarrow> string \<times> bronze_result \<Rightarrow> bool" where
  "bronze_result_ok batch_id kv \<longleftrightarrow> (case kv of (name, r) \<Rightarrow>
     name \<noteq> [] \<and> br_table_name r = name \<and> br_batch_id r = batch_id \<and> br_ingestion_type r \<noteq> [] \<and>
     0 \<le> br_record_count r \<and> 0 \<le> br_delta_version r \<and> 0 \<le> br_schema_version r \<and>
     list_all (\<lambda>(op, n). 0 \<le> n) (br_operation_counts r))"

definition silver_result_ok :: "string \<times> silver_result \<Rightarrow> bool" where
  "silver_result_ok kv \<longleftrightarrow> (case kv of (name, r) \<Rightarrow>
     name \<noteq> [] \<and> sr_table_name r = name \<and> 0 \<le> sr_committed_version r \<and> 0 \<le> sr_schema_version r)"

definition manifest_ok :: "manifest \<Rightarrow> bool" where
  "manifest_ok m \<longleftrightarrow> (case m of
     BronzeManifest b \<Rightarrow> bm_batch_id b \<noteq> [] \<and> distinct (map fst (bm_tables b)) \<and>
       list_all (bronze_result_ok (bm_batch_id b)) (bm_tables b)
   | SilverManifest s \<Rightarrow> list_all silver_result_ok s)"

text \<open>The manifest with the items of its dicts in key order, as \<open>sort_keys=True\<close> writes them.\<close>

definition canonical_result :: "bronze_result \<Rightarrow> bronze_result" where
  "canonical_result r = r\<lparr>br_operation_counts := sort_key fst (br_operation_counts r)\<rparr>"

definition canonical_manifest :: "manifest \<Rightarrow> manifest" where
  "canonical_manifest m = (case m of
     BronzeManifest b \<Rightarrow> BronzeManifest (b\<lparr>bm_tables := sort_key fst (map (\<lambda>(n, r). (n, canonical_result r)) (bm_tables b))\<rparr>)
   | SilverManifest s \<Rightarrow> SilverManifest (sort_key fst s))"

lemma insort_key_map: "(\<And>x. f (g x) = h x) \<Longrightarrow> insort_key f (g x) (map g xs) = map g (insort_key h x xs)"
  by (induction xs) auto

lemma sort_key_map: "(\<And>x. f (g x) = h x) \<Longrightarrow> sort_key f (map g xs) = map g (sort_key h xs)"
  by (induction xs) (simp_all add: insort_key_map)

lemma jobj_map: "jobj (map (\<lambda>(k, v). (k, f v)) kvs) = JObj (map (\<lambda>(k, v). (k, f v)) (sort_key fst kvs))"
  unfolding jobj_def by (simp add: sort_key_map [where h = fst] split_beta)

lemma assoc_set_new: "k \<notin> fst ` set kvs \<Longrightarrow> assoc_set k v kvs = kvs @ [(k, v)]"
  by (induction kvs) auto

lemma fold_assoc_set_distinct:
  "distinct (map fst acc @ map key rs) \<Longrightarrow> fold (\<lambda>r kvs. assoc_set (key r) r kvs) rs acc = acc @ map (\<lambda>r. (key r, r)) rs"
proof (induction rs arbitrary: acc)
  case (Cons r rs)
  from Cons.prems have "key r \<notin> fst ` set acc" by auto
  with Cons show ?case by (simp add: assoc_set_new)
qed simp

lemma from_results_distinct:
  assumes "distinct (map br_table_name rs)" and "\<forall>r \<in> set rs. br_batch_id r = batch_id"
  shows "from_results batch_id rs = Inr \<lparr>bm_batch_id = batch_id, bm_tables = map (\<lambda>r. (br_table_name r, r)) rs\<rparr>"
  using assms by (auto simp: from_results_def fold_assoc_set_distinct raise_if_def)

lemma jobj_field: "distinct (map fst kvs) \<Longrightarrow> (k, v) \<in> set kvs \<Longrightarrow> \<exists>kvs'. jobj kvs = JObj kvs' \<and> map_of kvs' k = Some v"
  using jget_jobj [of kvs k] by (auto simp: jget_def jobj_def)

lemma non_negative_int_jobj:
  "distinct (map fst kvs) \<Longrightarrow> (k, JInt i) \<in> set kvs \<Longrightarrow> 0 \<le> i \<Longrightarrow> non_negative_int (jobj kvs) k = Inr i"
  using jobj_field [of kvs k "JInt i"] by (auto simp: non_negative_int_def table_values_def)

lemma string_field_jobj:
  "distinct (map fst kvs) \<Longrightarrow> (k, JStr s) \<in> set kvs \<Longrightarrow> s \<noteq> [] \<Longrightarrow> string_field (jobj kvs) k = Inr s"
  using jobj_field [of kvs k "JStr s"] by (auto simp: string_field_def table_values_def)

lemma operation_counts_jobj:
  assumes "distinct (map fst kvs)" and "(''operation_counts'', json_counts ops) \<in> set kvs"
    and "list_all (\<lambda>(op, n). 0 \<le> n) ops"
  shows "operation_counts (jobj kvs) = Inr (sort_key fst ops)"
proof -
  obtain kvs' where "jobj kvs = JObj kvs'" "map_of kvs' ''operation_counts'' = Some (json_counts ops)"
    using jobj_field [OF assms(1,2)] by blast
  moreover have "json_counts ops = JObj (map (\<lambda>(k, n). (k, JInt n)) (sort_key fst ops))"
    unfolding json_counts_def by (rule jobj_map)
  moreover have "traverse operation_count (map (\<lambda>(k, n). (k, JInt n)) (sort_key fst ops)) = Inr (sort_key fst ops)"
    using assms(3)
    by (subst traverse_Inr_iff) (auto simp: list_all2_map1 list_all2_same operation_count_def list_all_iff split_beta)
  ultimately show ?thesis by (simp add: operation_counts_def table_values_def)
qed


lemma bronze_result_roundtrip:
  assumes "bronze_result_ok batch_id (name, r)"
  shows "bronze_result_from batch_id (name, bronze_result_json r) = Inr (canonical_result r)"
proof -
  let ?kvs = "[(''record_count'', JInt (br_record_count r)), (''ingestion_type'', JStr (br_ingestion_type r)),
      (''delta_version'', JInt (br_delta_version r)), (''operation_counts'', json_counts (br_operation_counts r)),
      (''schema_version'', JInt (br_schema_version r))]"
  have d: "distinct (map fst ?kvs)" by simp
  note ok = assms [unfolded bronze_result_ok_def, simplified]
  have "non_negative_int (jobj ?kvs) ''record_count'' = Inr (br_record_count r)"
    "non_negative_int (jobj ?kvs) ''delta_version'' = Inr (br_delta_version r)"
    "non_negative_int (jobj ?kvs) ''schema_version'' = Inr (br_schema_version r)"
    using ok by (auto intro!: non_negative_int_jobj [OF d])
  moreover have "string_field (jobj ?kvs) ''ingestion_type'' = Inr (br_ingestion_type r)"
    using ok by (auto intro!: string_field_jobj [OF d])
  moreover have "operation_counts (jobj ?kvs) = Inr (sort_key fst (br_operation_counts r))"
    using ok by (intro operation_counts_jobj [OF d]) auto
  ultimately show ?thesis
    using ok by (cases r) (simp add: bronze_result_from_def bronze_result_json_def checked_table_name_def canonical_result_def)
qed

lemma silver_result_roundtrip:
  assumes "silver_result_ok (name, r)"
  shows "silver_result_from (name, silver_result_json r) = Inr (name, r)"
proof -
  let ?kvs = "[(''committed_version'', JInt (sr_committed_version r)), (''schema_version'', JInt (sr_schema_version r))]"
  have d: "distinct (map fst ?kvs)" by simp
  note ok = assms [unfolded silver_result_ok_def, simplified]
  have "non_negative_int (jobj ?kvs) ''committed_version'' = Inr (sr_committed_version r)"
    "non_negative_int (jobj ?kvs) ''schema_version'' = Inr (sr_schema_version r)"
    using ok by (auto intro!: non_negative_int_jobj [OF d])
  then show ?thesis
    using ok by (cases r) (simp add: silver_result_from_def silver_result_json_def checked_table_name_def)
qed

text \<open>
  C39. Round trip of the manifests: a valid manifest, written as JSON with sorted keys and read back,
  is accepted and is the same manifest (its dicts in key order).
\<close>

theorem manifest_roundtrip:
  assumes "json_codec dumps loads" and "manifest_ok m"
  shows "deserialize_manifest loads (serialize_manifest dumps m) = Inr (canonical_manifest m)"
proof (cases m)
  case (BronzeManifest b)
  let ?sorted = "sort_key fst (bm_tables b)"
  note ok = assms(2) [unfolded manifest_ok_def BronzeManifest, simplified]
  have tables: "jobj (map (\<lambda>(name, r). (name, bronze_result_json r)) (bm_tables b)) =
      JObj (map (\<lambda>(name, r). (name, bronze_result_json r)) ?sorted)" by (rule jobj_map)
  have trav: "traverse (bronze_result_from (bm_batch_id b)) (map (\<lambda>(name, r). (name, bronze_result_json r)) ?sorted) =
      Inr (map (\<lambda>(name, r). canonical_result r) ?sorted)"
    using ok by (subst traverse_Inr_iff)
      (auto simp: list_all2_map1 list_all2_map2 list_all2_same list_all_iff bronze_result_roundtrip)
  have key: "map br_table_name (map (\<lambda>(name, r). canonical_result r) ?sorted) = map fst ?sorted"
    using ok by (auto simp: canonical_result_def bronze_result_ok_def list_all_iff)
  have "from_results (bm_batch_id b) (map (\<lambda>(name, r). canonical_result r) ?sorted) =
      Inr \<lparr>bm_batch_id = bm_batch_id b, bm_tables = map (\<lambda>r. (br_table_name r, r)) (map (\<lambda>(name, r). canonical_result r) ?sorted)\<rparr>"
    using ok by (intro from_results_distinct, unfold key)
      (auto simp: distinct_map canonical_result_def bronze_result_ok_def list_all_iff)
  moreover have "map (\<lambda>r. (br_table_name r, r)) (map (\<lambda>(name, r). canonical_result r) ?sorted) =
      sort_key fst (map (\<lambda>(n, r). (n, canonical_result r)) (bm_tables b))"
    using ok unfolding sort_key_map [of fst "\<lambda>(n, r). (n, canonical_result r)" fst, simplified split_beta fst_conv, OF refl]
    by (auto simp: canonical_result_def bronze_result_ok_def list_all_iff sort_key_map [where h = fst] split_beta)
  ultimately show ?thesis
    using assms(1) ok trav tables
    by (simp add: deserialize_manifest_def serialize_manifest_def json_codec_def manifest_payload_def BronzeManifest
        manifest_from_payload_def canonical_manifest_def)
next
  case (SilverManifest s)
  note ok = assms(2) [unfolded manifest_ok_def SilverManifest, simplified]
  have tables: "jobj (map (\<lambda>(name, r). (name, silver_result_json r)) s) =
      JObj (map (\<lambda>(name, r). (name, silver_result_json r)) (sort_key fst s))" by (rule jobj_map)
  have "traverse silver_result_from (map (\<lambda>(name, r). (name, silver_result_json r)) (sort_key fst s)) = Inr (sort_key fst s)"
    using ok by (subst traverse_Inr_iff) (auto simp: list_all2_map1 list_all2_same list_all_iff silver_result_roundtrip)
  then show ?thesis
    using assms(1) tables
    by (simp add: deserialize_manifest_def serialize_manifest_def json_codec_def manifest_payload_def SilverManifest
        manifest_from_payload_def canonical_manifest_def)
qed

theorem manifest_roundtrip_witness:
  "deserialize_manifest example_loads (serialize_manifest example_dumps (SilverManifest
      [(''shops'', \<lparr>sr_table_name = ''shops'', sr_committed_version = 3, sr_schema_version = 2\<rparr>)])) =
    Inr (SilverManifest [(''shops'', \<lparr>sr_table_name = ''shops'', sr_committed_version = 3, sr_schema_version = 2\<rparr>)])"
  using manifest_roundtrip [OF example_codec, of "SilverManifest [(''shops'', \<lparr>sr_table_name = ''shops'',
      sr_committed_version = 3, sr_schema_version = 2\<rparr>)]"]
  by (simp add: manifest_ok_def silver_result_ok_def canonical_manifest_def)

lemma set_assoc_set: "set (assoc_set k v kvs) \<subseteq> insert (k, v) (set kvs)"
  by (induction kvs) (auto split: if_splits)

lemma from_results_ok:
  assumes "from_results batch_id rs = Inr m" and "\<forall>r \<in> set rs. bronze_result_ok batch_id (br_table_name r, r)"
    and "batch_id \<noteq> []"
  shows "manifest_ok (BronzeManifest m)"
proof -
  have "set (fold (\<lambda>r kvs. assoc_set (br_table_name r) r kvs) rs acc) \<subseteq> (\<lambda>r. (br_table_name r, r)) ` set rs \<union> set acc"
    for acc
  proof (induction rs arbitrary: acc)
    case (Cons r rs)
    then show ?case using set_assoc_set [of "br_table_name r" r acc] by fastforce
  qed simp
  moreover have "distinct (map fst acc) \<Longrightarrow> distinct (map fst (fold (\<lambda>r kvs. assoc_set (br_table_name r) r kvs) rs acc))"
    for acc by (induction rs arbitrary: acc) (simp_all add: distinct_assoc_set)
  moreover have "m = \<lparr>bm_batch_id = batch_id, bm_tables = fold (\<lambda>r kvs. assoc_set (br_table_name r) r kvs) rs []\<rparr>"
    using assms(1) by (auto simp: from_results_def Let_def)
  ultimately show ?thesis using assms(2,3) by (fastforce simp: manifest_ok_def list_all_iff)
qed

lemma non_negative_int_Inr: "non_negative_int j k = Inr i \<Longrightarrow> 0 \<le> i"
  by (auto simp: non_negative_int_def split: option.splits json.splits if_splits)

lemma string_field_Inr: "string_field j k = Inr s \<Longrightarrow> s \<noteq> []"
  by (auto simp: string_field_def split: option.splits json.splits if_splits)

lemma operation_counts_Inr: "operation_counts j = Inr ops \<Longrightarrow> list_all (\<lambda>(op, n). 0 \<le> n) ops"
proof -
  assume "operation_counts j = Inr ops"
  then obtain raw where "list_all2 (\<lambda>kv x. operation_count kv = Inr x) raw ops"
    by (auto simp: operation_counts_def traverse_Inr_iff split: option.splits json.splits)
  then show ?thesis
    by (induction rule: list_all2_induct) (auto simp: operation_count_def split: json.splits if_splits)
qed

lemma bronze_result_from_Inr:
  "bronze_result_from batch_id kv = Inr r \<Longrightarrow> bronze_result_ok batch_id (br_table_name r, r)"
  by (auto simp: bronze_result_from_def bronze_result_ok_def checked_table_name_def
      dest: non_negative_int_Inr string_field_Inr operation_counts_Inr)

lemma silver_result_from_Inr: "silver_result_from kv = Inr r \<Longrightarrow> silver_result_ok r"
  by (auto simp: silver_result_from_def silver_result_ok_def checked_table_name_def
      dest: non_negative_int_Inr)

lemma list_all2_right: "list_all2 P xs ys \<Longrightarrow> (\<And>x y. P x y \<Longrightarrow> Q y) \<Longrightarrow> list_all Q ys"
  by (induction rule: list_all2_induct) auto

text \<open>
  Validation at the task boundary: whatever text an external orchestrator hands over, a manifest
  that is accepted has non-empty names, results filed under their own table name, one batch id, and no
  negative count or version.
\<close>

theorem deserialized_manifest_valid:
  assumes "deserialize_manifest loads raw = Inr m"
  shows "manifest_ok m"
proof -
  obtain payload where "manifest_from_payload payload = Inr m"
    using assms by (auto simp: deserialize_manifest_def split: option.splits)
  then consider batch_id tables rs b where "batch_id \<noteq> []" "traverse (bronze_result_from batch_id) tables = Inr rs"
      "from_results batch_id rs = Inr b" "m = BronzeManifest b"
    | tables s where "traverse silver_result_from tables = Inr s" "m = SilverManifest s"
    by (auto simp: manifest_from_payload_def split: option.splits json.splits if_splits)
  then show ?thesis
  proof cases
    case 1
    then have "list_all (\<lambda>r. bronze_result_ok batch_id (br_table_name r, r)) rs"
      unfolding traverse_Inr_iff by (elim list_all2_right) (rule bronze_result_from_Inr)
    with 1 show ?thesis by (simp add: from_results_ok list_all_iff)
  next
    case 2
    then have "list_all silver_result_ok s"
      unfolding traverse_Inr_iff by (elim list_all2_right) (rule silver_result_from_Inr)
    with 2 show ?thesis by (simp add: manifest_ok_def)
  qed
qed

theorem deserialized_manifest_valid_witness:
  "manifest_ok (SilverManifest [(''shops'', \<lparr>sr_table_name = ''shops'', sr_committed_version = 3, sr_schema_version = 2\<rparr>)])"
proof (rule deserialized_manifest_valid)
  let ?m = "SilverManifest [(''shops'', \<lparr>sr_table_name = ''shops'', sr_committed_version = 3, sr_schema_version = 2\<rparr>)]"
  have "example_loads (example_dumps j) = Some j" for j
    using example_codec by (simp add: json_codec_def)
  then show "deserialize_manifest example_loads (example_dumps (manifest_payload ?m)) = Inr ?m"
    by (simp add: deserialize_manifest_def manifest_payload_def jobj_def manifest_from_payload_def jget_def
        silver_result_from_def silver_result_json_def checked_table_name_def non_negative_int_def table_values_def)
qed

end
