(* ===== verification/BuildSilver.thy ===== *)
theory BuildSilver
  imports SilverTransform Manifests
begin

text \<open>
  The Silver build (\<open>pipelines/build_silver.py\<close>): for each source table, the Bronze version to
  process, the choice between a rebuild from the snapshot, a guarded merge into a table that CDC
  bootstrapped, and an incremental merge of the change feed, with the progress metadata and the
  idempotent append of the change history. The worker threads touch different tables; they are run
  in the order of the tables.
\<close>

section \<open>The builder\<close>

definition SILVER_PIPELINE_NAME :: string where
  "SILVER_PIPELINE_NAME = ''bronze_to_silver''"

definition SILVER_CHANGE_HISTORY_PIPELINE_NAME :: string where
  "SILVER_CHANGE_HISTORY_PIPELINE_NAME = ''bronze_to_silver_change_history''"

definition SILVER_DATA_PIPELINES :: "string list" where
  "SILVER_DATA_PIPELINES = [SILVER_PIPELINE_NAME, ''cdc_to_silver'']"

record silver_builder =
  sb_fn :: sparkfn
  sb_now :: int
  sb_dumps :: "json \<Rightarrow> string"
  sb_loads :: "string \<Rightarrow> json option"
  sb_adapter :: adapter
  sb_manifest :: "bronze_manifest option"

definition reference_io :: "silver_builder \<Rightarrow> string \<Rightarrow> string \<Rightarrow> string io" where
  "reference_io b layer name =
     io_bind (io_lift (table_reference (ad_lakehouse (sb_adapter b)) layer name)) (\<lambda>ref. io_return (tr_value ref))"

definition silver_transform :: "silver_builder \<Rightarrow> silver_contract \<Rightarrow> df \<Rightarrow> df res" where
  "silver_transform b c d =
     (if sc_table_name c \<in> set CUSTOMER_TABLES then transform_customer_table (sb_fn b) (sb_now b) d c
      else if sc_table_name c \<in> set SALES_TABLES then transform_sales_table (sb_fn b) (sb_now b) d c
      else Inl (ValueError ''Missing silver transformation for table''))"

definition silver_transform_history :: "silver_builder \<Rightarrow> silver_contract \<Rightarrow> df \<Rightarrow> df res" where
  "silver_transform_history b c d =
     (if sc_table_name c \<in> set CUSTOMER_TABLES then transform_customer_history (sb_fn b) (sb_now b) d c
      else if sc_table_name c \<in> set SALES_TABLES then transform_sales_history (sb_fn b) (sb_now b) d c
      else Inl (ValueError ''Missing silver history transformation for table''))"

definition read_bronze_snapshot :: "silver_builder \<Rightarrow> string \<Rightarrow> df io" where
  "read_bronze_snapshot b t = io_bind (reference_io b ''bronze'' t) (\<lambda>ref. io_get (\<lambda>s. read_delta s ref None))"

text \<open>The inserted rows of the Bronze change feed, without the feed's own columns.\<close>

definition read_bronze_changes :: "silver_builder \<Rightarrow> string \<Rightarrow> int \<Rightarrow> int \<Rightarrow> df io" where
  "read_bronze_changes b t starting_version ending_version =
     io_bind (reference_io b ''bronze'' t) (\<lambda>ref. io_get (\<lambda>s.
       and_then (read_change_feed s ref starting_version ending_version) (\<lambda>feed.
       and_then (read_delta s ref None) (\<lambda>d.
       Inr (d\<lparr>df_rows := map snd (filter (\<lambda>(ty, r). ty = ''insert'') feed)\<rparr>)))))"

section \<open>Versions and metadata\<close>

definition bronze_version :: "silver_builder \<Rightarrow> string \<Rightarrow> int io" where
  "bronze_version b t = (case sb_manifest b of
     Some m \<Rightarrow> (case map_of (bm_tables m) t of
         None \<Rightarrow> io_raise (ValueError ''Bronze version was not provided for table'')
       | Some r \<Rightarrow> if br_schema_version r \<noteq> BRONZE_SCHEMA_VERSION
           then io_raise (RuntimeError ''Bronze schema version is outdated'')
           else io_return (br_delta_version r))
   | None \<Rightarrow> io_bind (reference_io b ''bronze'' t) (\<lambda>ref.
       io_bind (io_get (\<lambda>s. try_delta_table_state (sb_loads b) s ref ''postgres_to_bronze'')) (\<lambda>state.
       case state of
         None \<Rightarrow> io_raise (RuntimeError ''Bronze table is missing'')
       | Some st \<Rightarrow> (case ts_progress_version st of
           None \<Rightarrow> io_raise (RuntimeError ''Bronze progress metadata is missing'')
         | Some v \<Rightarrow> io_return v))))"

definition processed_version :: "json option \<Rightarrow> int option res" where
  "processed_version metadata = (case metadata of None \<Rightarrow> Inr None
   | Some m \<Rightarrow> (case jget m ''last_processed_bronze_version'' of
       Some (JInt v) \<Rightarrow> if v < 0 then Inl (ValueError ''Invalid Silver Delta progress'') else Inr (Some v)
     | _ \<Rightarrow> Inl (ValueError ''Invalid Silver Delta progress'')))"

definition validate_silver_schema_version :: "json option \<Rightarrow> unit res" where
  "validate_silver_schema_version metadata =
     raise_if (metadata = None \<or> jget (the metadata) ''silver_schema_version'' \<noteq> Some (JInt SILVER_SCHEMA_VERSION))
       (RuntimeError ''Silver schema version is outdated'')"

definition json_of_option :: "int option \<Rightarrow> json" where
  "json_of_option v = (case v of None \<Rightarrow> JNull | Some i \<Rightarrow> JInt i)"

definition progress_metadata :: "string \<Rightarrow> int \<Rightarrow> string \<Rightarrow> int option \<Rightarrow> json" where
  "progress_metadata t version batch_id starting_version = jobj
     [(''pipeline'', JStr SILVER_PIPELINE_NAME), (''source_table'', JStr t), (''batch_id'', JStr batch_id),
      (''last_processed_bronze_version'', JInt version),
      (''bronze_starting_version'', json_of_option starting_version),
      (''silver_schema_version'', JInt SILVER_SCHEMA_VERSION)]"

definition history_progress_metadata :: "string \<Rightarrow> int \<Rightarrow> string \<Rightarrow> int option \<Rightarrow> string \<Rightarrow> json" where
  "history_progress_metadata t version batch_id starting_version pipeline_name = jobj
     [(''pipeline'', JStr pipeline_name), (''source_table'', JStr t),
      (''history_table'', JStr (silver_change_history_table_name t)), (''batch_id'', JStr batch_id),
      (''last_processed_bronze_version'', JInt version),
      (''bronze_starting_version'', json_of_option starting_version),
      (''silver_schema_version'', JInt SILVER_SCHEMA_VERSION), (''append_only'', JBool True)]"

definition silver_result_of :: "silver_contract \<Rightarrow> int \<Rightarrow> silver_result" where
  "silver_result_of c v = \<lparr>sr_table_name = sc_table_name c, sr_committed_version = v,
     sr_schema_version = SILVER_SCHEMA_VERSION\<rparr>"

section \<open>Change history\<close>

text \<open>An append with \<open>mergeSchema\<close>; a new table gets the change data feed.\<close>

definition append_delta :: "string \<Rightarrow> df \<Rightarrow> lake \<Rightarrow> lake" where
  "append_delta ref d s = (case lk_tables s ref of
     Some t \<Rightarrow> (let cols = cm_cols (latest_commit t) in
       commit_table ref (cols @ filter (\<lambda>c. c \<notin> set cols) (df_cols d)) (cm_rows (latest_commit t) @ df_rows d)
         (map (Pair ''insert'') (df_rows d)) s)
   | None \<Rightarrow> (let s' = commit_table ref (df_cols d) (df_rows d) (map (Pair ''insert'') (df_rows d)) s
       in s'\<lparr>lk_tables := (lk_tables s')(ref := map_option (\<lambda>t. t\<lparr>dt_props :=
            assoc_set ''delta.enableChangeDataFeed'' ''true'' (dt_props t)\<rparr>) (lk_tables s' ref))\<rparr>))"

definition append_change_history ::
    "silver_builder \<Rightarrow> silver_contract \<Rightarrow> df \<Rightarrow> string \<Rightarrow> int \<Rightarrow> int option \<Rightarrow> int \<Rightarrow> string \<Rightarrow> string option \<Rightarrow> bool io" where
  "append_change_history b c d batch_id version starting_version transaction_version pipeline_name transaction_app_id =
     io_bind (reference_io b ''silver'' (silver_change_history_table_name (sc_table_name c))) (\<lambda>ref.
     let application_id = (case transaction_app_id of
           Some a \<Rightarrow> if a = [] then pipeline_name @ '':'' @ sc_table_name c @ '':v'' @ int_text SILVER_SCHEMA_VERSION else a
         | None \<Rightarrow> pipeline_name @ '':'' @ sc_table_name c @ '':v'' @ int_text SILVER_SCHEMA_VERSION)
     in delta_idempotent_transaction application_id transaction_version
          (delta_commit_metadata (sb_dumps b)
            (history_progress_metadata (sc_table_name c) version batch_id starting_version pipeline_name)
            (\<lambda>s. (Inr True, append_delta ref d s))))"

section \<open>One table\<close>

definition replace_from_snapshot :: "silver_builder \<Rightarrow> silver_contract \<Rightarrow> int \<Rightarrow> string \<Rightarrow> unit io" where
  "replace_from_snapshot b c version batch_id =
     io_bind (read_bronze_snapshot b (sc_table_name c)) (\<lambda>source.
     io_bind (io_lift (silver_transform b c source)) (\<lambda>snapshot.
     io_bind (delta_commit_metadata (sb_dumps b) (progress_metadata (sc_table_name c) version batch_id None)
       (write_table (sb_adapter b) snapshot ''silver'' (sc_table_name c) True)) (\<lambda>_.
     if \<not> sc_materialize_change_history c then io_return ()
     else io_bind (io_lift (silver_transform_history b c source)) (\<lambda>history.
       delta_commit_metadata (sb_dumps b)
         (history_progress_metadata (sc_table_name c) version batch_id None SILVER_CHANGE_HISTORY_PIPELINE_NAME)
         (write_table (sb_adapter b) history ''silver'' (silver_change_history_table_name (sc_table_name c)) True)))))"

definition silver_upsert_options :: upsert_options where
  "silver_upsert_options = (soft_upsert SILVER_SEQUENCE_COLUMNS)
     \<lparr>uo_target_exists := Some True, uo_source_is_nonempty := True\<rparr>"

text \<open>The change history (when the contract materializes it), then the sequence-guarded MERGE.\<close>

definition merge_changes_into_silver ::
    "silver_builder \<Rightarrow> silver_contract \<Rightarrow> df \<Rightarrow> int \<Rightarrow> string \<Rightarrow> int option \<Rightarrow> unit io" where
  "merge_changes_into_silver b c source version batch_id starting_version =
     io_bind (if sc_materialize_change_history c
       then io_bind (io_lift (silver_transform_history b c source)) (\<lambda>history.
         append_change_history b c history batch_id version starting_version version
           SILVER_CHANGE_HISTORY_PIPELINE_NAME None)
       else io_return True) (\<lambda>_.
     io_bind (io_lift (silver_transform b c source)) (\<lambda>transformed.
     io_bind (delta_commit_metadata (sb_dumps b) (progress_metadata (sc_table_name c) version batch_id starting_version)
       (upsert_table (sb_adapter b) transformed ''silver'' (sc_table_name c) (sc_primary_keys c) silver_upsert_options))
       (\<lambda>_. io_return ())))"

definition merge_snapshot_into_unified :: "silver_builder \<Rightarrow> silver_contract \<Rightarrow> int \<Rightarrow> string \<Rightarrow> unit io" where
  "merge_snapshot_into_unified b c version batch_id =
     io_bind (read_bronze_snapshot b (sc_table_name c)) (\<lambda>source.
     merge_changes_into_silver b c source version batch_id None)"

definition run_incremental :: "silver_builder \<Rightarrow> silver_contract \<Rightarrow> int \<Rightarrow> int \<Rightarrow> string \<Rightarrow> unit io" where
  "run_incremental b c previous current batch_id =
     io_bind (read_bronze_changes b (sc_table_name c) (previous + 1) current) (\<lambda>changes.
     merge_changes_into_silver b c changes current batch_id (Some (previous + 1)))"

definition run_table :: "silver_builder \<Rightarrow> string \<Rightarrow> string \<Rightarrow> bool \<Rightarrow> silver_result io" where
  "run_table b t batch_id full_rebuild =
     io_bind (io_lift (get_silver_contract t)) (\<lambda>c.
     io_bind (bronze_version b t) (\<lambda>current.
     io_bind (reference_io b ''silver'' t) (\<lambda>ref.
     io_bind (io_get (\<lambda>s. try_delta_table_state (sb_loads b) s ref SILVER_PIPELINE_NAME)) (\<lambda>state.
     case (if full_rebuild then None else state) of
       None \<Rightarrow> io_bind (replace_from_snapshot b c current batch_id) (\<lambda>_.
         io_return (silver_result_of c (case state of None \<Rightarrow> 0 | Some st \<Rightarrow> ts_version st + 1)))
     | Some st \<Rightarrow>
       if ts_progress st = None then
         io_bind (merge_snapshot_into_unified b c current batch_id) (\<lambda>_.
         io_bind (io_get (\<lambda>s. latest_delta_pipeline_commit (sb_loads b) s ref SILVER_DATA_PIPELINES)) (\<lambda>committed.
         io_return (silver_result_of c (pc_version committed))))
       else
         io_bind (io_lift (processed_version (ts_progress st))) (\<lambda>previous.
         case previous of None \<Rightarrow> io_raise (RuntimeError ''Silver progress metadata is missing'')
         | Some v \<Rightarrow>
           if v > current then io_raise (RuntimeError ''Silver progress is ahead of Bronze'')
           else if v = current then (case ts_progress_version st of
               None \<Rightarrow> io_raise (RuntimeError ''Silver progress version is missing'')
             | Some pv \<Rightarrow> io_return (silver_result_of c pv))
           else
             io_bind (io_lift (validate_silver_schema_version (ts_progress st))) (\<lambda>_.
             io_bind (run_incremental b c v current batch_id) (\<lambda>_.
             io_return (silver_result_of c (ts_version st + 1)))))))))"

section \<open>All tables\<close>

text \<open>A new Spark session starts without transaction settings.\<close>

definition in_new_session :: "'a io \<Rightarrow> 'a io" where
  "in_new_session body s =
     (let (r, s') = body (s\<lparr>lk_metadata := None, lk_txn_app := None, lk_txn_version := None\<rparr>)
      in (r, s'\<lparr>lk_metadata := lk_metadata s, lk_txn_app := lk_txn_app s, lk_txn_version := lk_txn_version s\<rparr>))"

fun io_traverse :: "('a \<Rightarrow> 'b io) \<Rightarrow> 'a list \<Rightarrow> 'b list io" where
  "io_traverse f [] = io_return []"
| "io_traverse f (x # xs) = io_bind (f x) (\<lambda>y. io_bind (io_traverse f xs) (\<lambda>ys. io_return (y # ys)))"

definition run_silver :: "silver_builder \<Rightarrow> string list option \<Rightarrow> string \<Rightarrow> bool \<Rightarrow> silver_manifest io" where
  "run_silver b table_names batch_id full_rebuild =
     (let tables = (case table_names of None \<Rightarrow> map fst SILVER_TABLES | Some ts \<Rightarrow> ts)
      in io_bind (io_lift (raise_if (\<not> set tables \<subseteq> set (map fst SILVER_TABLES))
             (ValueError ''Unknown silver source tables''))) (\<lambda>_.
         io_bind (io_traverse (\<lambda>t. in_new_session (run_table b t batch_id full_rebuild)) tables) (\<lambda>results.
         io_return (fold (\<lambda>(t, r) m. assoc_set t r m) (zip tables results) []))))"

section \<open>Incremental processing and rebuild\<close>

lemma rowwise_transform:
  assumes "(t, c) \<in> set SILVER_TABLES"
  obtains g f where "rowwise cleaned_columns g f"
    and "\<And>d. silver_transform b c d = and_then (current_state (sb_fn b) (sb_now b) d c) (\<lambda>r. Inr (f r))"
proof (cases "sc_table_name c \<in> set CUSTOMER_TABLES")
  case True
  obtain g where "rowwise cleaned_columns g (clean_customer (sb_fn b) (sc_table_name c))"
    using rowwise_clean_customer by blast
  with that [of g] True show ?thesis by (simp add: silver_transform_def transform_customer_table_def)
next
  case False
  then have "sc_table_name c \<in> set SALES_TABLES"
    using silver_table_ok [OF assms] by (simp add: silver_contract_ok_def)
  moreover obtain g where "rowwise cleaned_columns g (clean_sales (sb_fn b))" using rowwise_clean_sales by blast
  ultimately show ?thesis using that [of g] False by (simp add: silver_transform_def transform_sales_table_def)
qed

text \<open>
  For given input columns the transformation picks the newest event of each key and maps it by a
  function of the row that keeps the key, the sequence and \<open>created_at\<close>.
\<close>

lemma silver_transform_rows:
  assumes "(t, c) \<in> set SILVER_TABLES"
  obtains F where "\<And>d r. df_cols d = cols \<Longrightarrow> silver_transform b c d = Inr r \<Longrightarrow>
      df_cols r = map fst (current_state_columns (sb_fn b) (sb_now b) cols c) \<and>
      df_rows r = map F (newest_rows (sb_fn b) (sc_primary_keys c) (prepare_events (sb_fn b) d))"
    and "\<And>e. key_of (sc_primary_keys c) (F e) = key_of (sc_primary_keys c) e"
    and "\<And>e. key_of SILVER_SEQUENCE_COLUMNS (F e) = key_of SILVER_SEQUENCE_COLUMNS e"
    and "\<And>e. F e ''created_at'' = e ''created_at''"
    and "\<And>e n. n \<notin> set (map fst (current_state_columns (sb_fn b) (sb_now b) cols c)) \<Longrightarrow> F e n = Null"
proof -
  let ?out = "current_state_columns (sb_fn b) (sb_now b) cols c"
  note ok = silver_table_ok [OF assms]
  obtain g f where g: "rowwise cleaned_columns g f"
    and f: "\<And>d. silver_transform b c d = and_then (current_state (sb_fn b) (sb_now b) d c) (\<lambda>r. Inr (f r))"
    by (rule rowwise_transform [OF assms]) blast
  define F where "F = g (map fst ?out) \<circ> project ?out"
  have same: "F e n = project ?out e n" if "n \<notin> set cleaned_columns \<or> n \<notin> set (map fst ?out)" for e n
    using g that unfolding rowwise_def F_def comp_def by blast
  note key = current_state_key [OF ok, where fn = "sb_fn b" and now = "sb_now b" and cols = cols]
  show ?thesis
  proof
    fix d r assume d: "df_cols d = cols" and r: "silver_transform b c d = Inr r"
    have "set (silver_required_columns c) \<subseteq> set (df_cols d)"
      using r f by (cases "set (silver_required_columns c) \<subseteq> set (df_cols d)")
        (simp_all add: current_state_def validate_bronze_columns_def)
    from current_state_eq [OF this, of "sb_fn b" "sb_now b"] r f d g
    show "df_cols r = map fst ?out \<and> df_rows r = map F (newest_rows (sb_fn b) (sc_primary_keys c) (prepare_events (sb_fn b) d))"
      by (auto simp: rowwise_def F_def)
  next
    fix e
    have "F e k = project ?out e k" if "k \<in> set (sc_primary_keys c)" for k
      using ok that by (intro same) (auto simp: silver_contract_ok_def list_all_iff)
    then show "key_of (sc_primary_keys c) (F e) = key_of (sc_primary_keys c) e"
      using key(1) by (simp add: key_of_def)
    have "F e k = project ?out e k" if "k \<in> set SILVER_SEQUENCE_COLUMNS" for k
      using sequence_not_cleaned that by (intro same) auto
    then show "key_of SILVER_SEQUENCE_COLUMNS (F e) = key_of SILVER_SEQUENCE_COLUMNS e"
      using key(2) by (simp add: key_of_def)
    show "F e ''created_at'' = e ''created_at''"
      using same [of "''created_at''" e] created_at_not_cleaned project_current_state(1) [OF ok, of "''created_at''"] ok
      by (simp add: silver_contract_ok_def)
    show "F e n = Null" if "n \<notin> set (map fst ?out)" for n
      using same [of n e] that project_outside by simp
  qed
qed

text \<open>Events of one key agree on \<open>created_at\<close>, and their sequence identifies them.\<close>

definition events_consistent :: "string list \<Rightarrow> row list \<Rightarrow> bool" where
  "events_consistent keys es \<longleftrightarrow> (\<forall>a \<in> set es. \<forall>b \<in> set es. key_of keys a = key_of keys b \<longrightarrow>
     a ''created_at'' = b ''created_at'' \<and>
     (key_of SILVER_SEQUENCE_COLUMNS a = key_of SILVER_SEQUENCE_COLUMNS b \<longrightarrow> a = b))"

lemma silver_upsert_statement:
  "merge_statement silver_upsert_options layer keys cols = merge_statement (soft_upsert SILVER_SEQUENCE_COLUMNS) layer keys cols"
  by (simp add: merge_statement_def silver_upsert_options_def delete_condition_def uses_operation_delete_def
      preserves_soft_delete_def soft_upsert_def)

lemma prepare_append:
  "prepare_events fn (d\<lparr>df_rows := df_rows d @ rs\<rparr>) = prepare_events fn d @ prepare_events fn (d\<lparr>df_rows := rs\<rparr>)"
  by (simp add: prepare_events_def enforce_types_def)

text \<open>
  C5. Incremental processing is equivalent to a rebuild. Transform a first batch of Bronze events into a
  Silver table and MERGE the transformation of a second batch into it with the statement the builder
  uses: the MERGE succeeds and the table has, for every key, exactly the row that transforming both
  batches at once would give.
\<close>

theorem incremental_equals_rebuild:
  assumes "(t, c) \<in> set SILVER_TABLES" and "d2 = d1\<lparr>df_rows := rs2\<rparr>"
    and "silver_transform b c d1 = Inr r1" and "silver_transform b c d2 = Inr r2"
    and "silver_transform b c (d1\<lparr>df_rows := df_rows d1 @ rs2\<rparr>) = Inr r12"
    and "events_consistent (sc_primary_keys c) (prepare_events (sb_fn b) (d1\<lparr>df_rows := df_rows d1 @ rs2\<rparr>))"
    and "list_all (\<lambda>e. \<not> has_null (key_of (sc_primary_keys c) e)) (prepare_events (sb_fn b) (d1\<lparr>df_rows := df_rows d1 @ rs2\<rparr>))"
  shows "\<exists>rows touched. merge_exec (merge_statement silver_upsert_options ''silver'' (sc_primary_keys c) (df_cols r2))
      (df_rows r2) (df_rows r1) = Inr (rows, touched) \<and>
    by_key (sc_primary_keys c) rows = by_key (sc_primary_keys c) (df_rows r12)"
proof -
  let ?keys = "sc_primary_keys c" and ?cols = "map fst (current_state_columns (sb_fn b) (sb_now b) (df_cols d1) c)"
    and ?P1 = "prepare_events (sb_fn b) d1" and ?P2 = "prepare_events (sb_fn b) d2"
    and ?top = "top_desc (silver_event_order (sb_fn b))" and ?seq = SILVER_SEQUENCE_COLUMNS
  obtain F where F: "\<And>d r. df_cols d = df_cols d1 \<Longrightarrow> silver_transform b c d = Inr r \<Longrightarrow>
      df_cols r = ?cols \<and> df_rows r = map F (newest_rows (sb_fn b) ?keys (prepare_events (sb_fn b) d))"
    and key: "\<And>e. key_of ?keys (F e) = key_of ?keys e" and seq: "\<And>e. key_of ?seq (F e) = key_of ?seq e"
    and created: "\<And>e. F e ''created_at'' = e ''created_at''" and null: "\<And>e n. n \<notin> set ?cols \<Longrightarrow> F e n = Null"
    by (rule silver_transform_rows [OF assms(1), of "df_cols d1" b]) blast
  have P: "prepare_events (sb_fn b) (d1\<lparr>df_rows := df_rows d1 @ rs2\<rparr>) = ?P1 @ ?P2"
    using prepare_append assms(2) by blast
  have r1: "df_rows r1 = map F (newest_rows (sb_fn b) ?keys ?P1)"
    and r2: "df_cols r2 = ?cols" "df_rows r2 = map F (newest_rows (sb_fn b) ?keys ?P2)"
    and r12: "df_rows r12 = map F (newest_rows (sb_fn b) ?keys (?P1 @ ?P2))"
    using F [OF _ assms(3)] F [OF _ assms(4)] F [OF _ assms(5)] P assms(2) by simp_all
  note ok = contract_merge_columns_ok [OF silver_table_ok [OF assms(1)], of "sb_fn b" "sb_now b" "df_cols d1"]
  have nn: "\<not> has_null (key_of ?keys e)" if "e \<in> set (?P1 @ ?P2)" for e
    using assms(7) that unfolding P by (simp add: list_all_iff)
  have keyed: "keyed ?keys (df_rows r1)" "keyed ?keys (df_rows r2)"
    using nn unfolding r1 r2 by (auto intro!: keyed_newest simp: key)
  have incols: "in_columns ?cols (df_rows r1)" "in_columns ?cols (df_rows r2)"
    using null unfolding r1 r2 in_columns_def by fastforce+
  have "merge_exec (merge_statement silver_upsert_options ''silver'' ?keys (df_cols r2)) (df_rows r2) (df_rows r1) =
      merge_exec (silver_merge ?seq ?keys ?cols) (df_rows r2) (df_rows r1)"
    by (simp only: silver_upsert_statement silver_merge_def r2(1))
  note exec = this [unfolded silver_merge_exec [OF ok keyed(2,1) incols(2,1)]]
  have "keep_newest ?seq (by_key ?keys (df_rows r2) k) (by_key ?keys (df_rows r1) k) = by_key ?keys (df_rows r12) k" for k
  proof -
    let ?x = "filter (\<lambda>e. key_of ?keys e = k) ?P1" and ?y = "filter (\<lambda>e. key_of ?keys e = k) ?P2"
    have b: "by_key ?keys (df_rows r1) k = map_option F (?top ?x)" "by_key ?keys (df_rows r2) k = map_option F (?top ?y)"
      "by_key ?keys (df_rows r12) k = map_option F (?top (?x @ ?y))"
      unfolding r1 r2(2) r12 by (simp_all add: by_key_newest key)
    have det: "a ''created_at'' = b ''created_at'' \<and> (key_of ?seq a = key_of ?seq b \<longrightarrow> a = b)"
      if "a \<in> set (?x @ ?y)" "b \<in> set (?x @ ?y)" for a b
      using assms(6) that unfolding P events_consistent_def by auto
    have "silver.put ?seq (map_option F (?top ?y)) (silver.put ?seq (map_option F (?top ?x)) None) =
        silver.put ?seq (map_option F (?top (?x @ ?y))) None"
      by (rule newest_append) (use seq det in auto)
    then have "silver.put ?seq (map_option F (?top ?y)) (map_option F (?top ?x)) = map_option F (?top (?x @ ?y))"
      by (auto simp: silver.put_def split: option.splits)
    moreover have "keep_newest ?seq (map_option F (?top ?y)) (map_option F (?top ?x)) =
        silver.put ?seq (map_option F (?top ?y)) (map_option F (?top ?x))"
    proof (rule keep_newest_put)
      fix u v assume "map_option F (?top ?y) = Some u" "map_option F (?top ?x) = Some v"
      then obtain e f where ef: "?top ?y = Some e" "?top ?x = Some f" "u = F e" "v = F f" by auto
      with top_desc_in [OF ef(1)] top_desc_in [OF ef(2)] have "e \<in> set (?x @ ?y)" "f \<in> set (?x @ ?y)" by auto
      then show "u ''created_at'' = v ''created_at''" using det [of e f] ef(3,4) by (simp add: created)
    qed
    ultimately show ?thesis unfolding b by simp
  qed
  with exec silver_merge_by_key [OF ok] show ?thesis by (simp add: fun_eq_iff)
qed

definition demo_builder :: silver_builder where
  "demo_builder = \<lparr>sb_fn = example_fn, sb_now = 7, sb_dumps = example_dumps, sb_loads = example_loads,
     sb_adapter = \<lparr>ad_lakehouse = \<lparr>lc_base_path = Some ''lake'', lc_catalog = None, lc_schemas = [], lc_external_root = None\<rparr>,
       ad_gold_versions = None\<rparr>, sb_manifest = None\<rparr>"

lemma demo_prepared:
  obtains g where "\<And>es. prepare_events example_fn (demo_bronze es) = map g es"
    and "\<And>i k time. g (i, k, time) ''_event_occurred_at'' = TsV time"
    and "\<And>e. g e ''created_at'' = Null" and "\<And>i k time. key_of [''order_voucher_id''] (g (i, k, time)) = [IntV k]"
proof
  let ?typed = "\<lambda>r :: row. \<lambda>c. case (if c \<in> set (silver_required_columns demo_contract) then column_type c else None) of
      None \<Rightarrow> r c | Some ty \<Rightarrow> fn_cast example_fn ty (r c)"
  let ?g = "\<lambda>(i, k, time). with_event_metadata example_fn (silver_required_columns demo_contract) (?typed
      (row_of [(''_event_id'', IntV i), (''order_voucher_id'', IntV k), (''_event_occurred_at'', TsV time),
        (''_operation'', StrV ''UPDATE'')]))"
  show "prepare_events example_fn (demo_bronze es) = map ?g es" for es
    by (auto simp: prepare_events_def enforce_types_def demo_bronze_def)
  show "?g (i, k, time) ''_event_occurred_at'' = TsV time" for i k time
    by (simp add: with_event_metadata_def row_of_def example_fn_def split: option.split)
  show "?g e ''created_at'' = Null" for e
    by (cases e) (simp add: with_event_metadata_def row_of_def example_fn_def split: option.split)
  show "key_of [''order_voucher_id''] (?g (i, k, time)) = [IntV k]" for i k time
    by (simp add: key_of_def with_event_metadata_def row_of_def example_fn_def split: option.split)
qed

lemma demo_keys: "sc_primary_keys demo_contract = [''order_voucher_id'']"
  by (simp add: demo_contract_def)

lemma demo_events_consistent:
  assumes "distinct (map (\<lambda>(i, k, time). time) es)"
  shows "events_consistent (sc_primary_keys demo_contract) (prepare_events example_fn (demo_bronze es))"
    and "list_all (\<lambda>e. \<not> has_null (key_of (sc_primary_keys demo_contract) e)) (prepare_events example_fn (demo_bronze es))"
proof -
  obtain g where g: "\<And>es. prepare_events example_fn (demo_bronze es) = map g es"
      "\<And>i k time. g (i, k, time) ''_event_occurred_at'' = TsV time" "\<And>e. g e ''created_at'' = Null"
      "\<And>i k time. key_of [''order_voucher_id''] (g (i, k, time)) = [IntV k]"
    using demo_prepared by blast
  have eq: "x = y" if "x \<in> set es" "y \<in> set es" "key_of SILVER_SEQUENCE_COLUMNS (g x) = key_of SILVER_SEQUENCE_COLUMNS (g y)" for x y
  proof -
    have "g x ''_event_occurred_at'' = g y ''_event_occurred_at''"
      using that(3) by (simp add: key_of_def SILVER_SEQUENCE_COLUMNS_def)
    then have "(\<lambda>(i, k, time). time) x = (\<lambda>(i, k, time). time) y" using g(2) by (cases x; cases y) auto
    with assms that(1,2) show ?thesis by (meson distinct_map inj_onD)
  qed
  show "events_consistent (sc_primary_keys demo_contract) (prepare_events example_fn (demo_bronze es))"
    unfolding g(1) events_consistent_def set_map ball_simps(9)
    by (intro ballI impI conjI) (simp add: g(3), rule arg_cong [OF eq])
  show "list_all (\<lambda>e. \<not> has_null (key_of (sc_primary_keys demo_contract) e)) (prepare_events example_fn (demo_bronze es))"
    using g(4) unfolding g(1) demo_keys by (auto simp: list_all_iff has_null_def)
qed

lemma demo_transform: "\<exists>r. silver_transform demo_builder demo_contract (demo_bronze es) = Inr r"
proof -
  have "current_state example_fn 7 (demo_bronze es) demo_contract \<noteq> Inl e" for e
    by (subst current_state_eq) (simp_all add: demo_bronze_def)
  then obtain r where "current_state example_fn 7 (demo_bronze es) demo_contract = Inr r"
    by (cases "current_state example_fn 7 (demo_bronze es) demo_contract") auto
  then show ?thesis
    by (simp add: silver_transform_def demo_contract_def demo_builder_def CUSTOMER_TABLES_def SALES_TABLES_def
        transform_sales_table_def)
qed

theorem incremental_equals_rebuild_witness:
  "\<exists>r1 r2 r12 rows touched. silver_transform demo_builder demo_contract (demo_bronze [(1, 5, 10), (2, 6, 11)]) = Inr r1 \<and>
    silver_transform demo_builder demo_contract (demo_bronze [(3, 5, 20)]) = Inr r2 \<and>
    silver_transform demo_builder demo_contract (demo_bronze [(1, 5, 10), (2, 6, 11), (3, 5, 20)]) = Inr r12 \<and>
    merge_exec (merge_statement silver_upsert_options ''silver'' [''order_voucher_id''] (df_cols r2)) (df_rows r2) (df_rows r1) =
      Inr (rows, touched) \<and>
    by_key [''order_voucher_id''] rows = by_key [''order_voucher_id''] (df_rows r12)"
proof -
  let ?es1 = "[(1, 5, 10), (2, 6, 11)] :: (int \<times> int \<times> int) list" and ?es2 = "[(3, 5, 20)] :: (int \<times> int \<times> int) list"
  obtain r1 r2 r12 where r: "silver_transform demo_builder demo_contract (demo_bronze ?es1) = Inr r1"
      "silver_transform demo_builder demo_contract (demo_bronze ?es2) = Inr r2"
      "silver_transform demo_builder demo_contract (demo_bronze (?es1 @ ?es2)) = Inr r12"
    using demo_transform by metis
  have d2: "demo_bronze ?es2 = (demo_bronze ?es1)\<lparr>df_rows := df_rows (demo_bronze ?es2)\<rparr>"
    and d12: "(demo_bronze ?es1)\<lparr>df_rows := df_rows (demo_bronze ?es1) @ df_rows (demo_bronze ?es2)\<rparr> = demo_bronze (?es1 @ ?es2)"
    by (simp_all add: demo_bronze_def)
  have fn: "sb_fn demo_builder = example_fn" by (simp add: demo_builder_def)
  have dist: "distinct (map (\<lambda>(i, k, time). time) (?es1 @ ?es2))" by simp
  obtain rows touched where m: "merge_exec (merge_statement silver_upsert_options ''silver'' (sc_primary_keys demo_contract)
      (df_cols r2)) (df_rows r2) (df_rows r1) = Inr (rows, touched)"
      "by_key (sc_primary_keys demo_contract) rows = by_key (sc_primary_keys demo_contract) (df_rows r12)"
    using incremental_equals_rebuild [OF demo_contract_in d2 r(1,2), unfolded d12 fn, OF r(3) demo_events_consistent [OF dist]]
    by blast
  have list: "?es1 @ ?es2 = [(1, 5, 10), (2, 6, 11), (3, 5, 20)]" by simp
  show ?thesis
    by (intro exI [of _ r1] exI [of _ r2] exI [of _ r12] exI [of _ rows] exI [of _ touched] conjI)
      (fact r(1), fact r(2), fact r(3) [unfolded list], fact m(1) [unfolded demo_keys], fact m(2) [unfolded demo_keys])
qed

section \<open>Progress\<close>

lemma json_codec_loads: "json_codec dumps loads \<Longrightarrow> loads (dumps j) = Some j"
  by (simp add: json_codec_def)

lemma progress_metadata_fields:
  "jget (progress_metadata t v batch_id start) ''pipeline'' = Some (JStr SILVER_PIPELINE_NAME)"
  "jget (progress_metadata t v batch_id start) ''last_processed_bronze_version'' = Some (JInt v)"
  "jget (progress_metadata t v batch_id start) ''silver_schema_version'' = Some (JInt SILVER_SCHEMA_VERSION)"
  by (simp_all add: progress_metadata_def)

lemma pipeline_metadata_progress:
  "json_codec dumps loads \<Longrightarrow> pipeline_metadata loads (Some (dumps (progress_metadata t v batch_id start))) SILVER_PIPELINE_NAME =
    Some (progress_metadata t v batch_id start)"
  using progress_metadata_fields(1) [of t v batch_id start]
  by (auto simp: pipeline_metadata_def metadata_for_pipelines_def json_codec_loads jget_def jobj_def progress_metadata_def
      split: json.splits)

lemma history_newest:
  assumes "dt_commits t \<noteq> []"
  shows "history 1 t = [(int (length (dt_commits t)) - 1, cm_metadata (latest_commit t))]"
proof -
  obtain cs c where "dt_commits t = cs @ [c]" using assms by (cases "dt_commits t" rule: rev_cases) auto
  then show ?thesis by (simp add: history_def latest_commit_def)
qed

text \<open>A lake whose Silver table was last committed by this pipeline, at Bronze version \<open>v\<close>.\<close>

definition silver_at :: "silver_builder \<Rightarrow> silver_contract \<Rightarrow> string \<Rightarrow> int \<Rightarrow> delta_table \<Rightarrow> lake \<Rightarrow> bool" where
  "silver_at b c ref v u s \<longleftrightarrow> map_sum id tr_value (table_reference (ad_lakehouse (sb_adapter b)) ''silver'' (sc_table_name c)) = Inr ref \<and>
     lk_tables s ref = Some u \<and> dt_commits u \<noteq> [] \<and> 0 \<le> v \<and>
     (\<exists>batch_id start. cm_metadata (latest_commit u) = Some (sb_dumps b (progress_metadata (sc_table_name c) v batch_id start)))"

lemma silver_at_state:
  assumes "json_codec (sb_dumps b) (sb_loads b)" and "silver_at b c ref v u s"
  shows "\<exists>m. try_delta_table_state (sb_loads b) s ref SILVER_PIPELINE_NAME = Inr (Some \<lparr>
      ts_version = int (length (dt_commits u)) - 1, ts_progress_version = Some (int (length (dt_commits u)) - 1),
      ts_progress = Some m\<rparr>) \<and> processed_version (Some m) = Inr (Some v) \<and> validate_silver_schema_version (Some m) = Inr ()"
proof -
  obtain batch_id start where m: "cm_metadata (latest_commit u) = Some (sb_dumps b (progress_metadata (sc_table_name c) v batch_id start))"
    using assms(2) by (auto simp: silver_at_def)
  note u = assms(2) [unfolded silver_at_def, THEN conjunct2]
  have "delta_table_state (sb_loads b) s ref SILVER_PIPELINE_NAME = Inr \<lparr>ts_version = int (length (dt_commits u)) - 1,
      ts_progress_version = Some (int (length (dt_commits u)) - 1), ts_progress = Some (progress_metadata (sc_table_name c) v batch_id start)\<rparr>"
    using u m by (simp add: delta_table_state_def delta_table_at_def history_newest pipeline_metadata_progress [OF assms(1)]
        del: One_nat_def)
  then show ?thesis
    using u by (intro exI [of _ "progress_metadata (sc_table_name c) v batch_id start"])
      (simp add: try_delta_table_state_def missing_as_none_def processed_version_def validate_silver_schema_version_def
        progress_metadata_fields)
qed

lemma get_silver_contract_in:
  assumes "get_silver_contract t = Inr c"
  shows "(t, c) \<in> set SILVER_TABLES \<and> sc_table_name c = t"
proof -
  have "list_all (\<lambda>(t, c). sc_table_name c = t) SILVER_TABLES" by code_simp
  moreover have "(t, c) \<in> set SILVER_TABLES"
    using assms by (auto simp: get_silver_contract_def dest: map_of_SomeD split: option.splits)
  ultimately show ?thesis by (auto simp: list_all_iff)
qed

lemma bronze_version_manifest:
  assumes "sb_manifest b = Some m" and "map_of (bm_tables m) t = Some r" and "br_schema_version r = BRONZE_SCHEMA_VERSION"
  shows "bronze_version b t s = (Inr (br_delta_version r), s)"
  using assms by (simp add: bronze_version_def)

lemma io_bind_Inr: "m s = (Inr a, s') \<Longrightarrow> io_bind m f s = f a s'"
  by (simp add: io_bind_def)

lemma io_bind_Inl: "m s = (Inl e, s') \<Longrightarrow> io_bind m f s = (Inl e, s')"
  by (simp add: io_bind_def)

lemma reference_io_eq:
  "map_sum id tr_value (table_reference (ad_lakehouse (sb_adapter b)) layer name) = Inr ref \<Longrightarrow>
    reference_io b layer name s = (Inr ref, s)"
  by (cases "table_reference (ad_lakehouse (sb_adapter b)) layer name") (simp_all add: reference_io_def)

text \<open>The common prefix of an incremental run, up to the comparison of versions.\<close>

lemma run_table_prefix:
  assumes "json_codec (sb_dumps b) (sb_loads b)" and "get_silver_contract t = Inr c"
    and "bronze_version b t s = (Inr w, s)" and "silver_at b c ref v u s"
  shows "run_table b t batch_id False s =
    (if v > w then (Inl (RuntimeError ''Silver progress is ahead of Bronze''), s)
     else if v = w then (Inr (silver_result_of c (int (length (dt_commits u)) - 1)), s)
     else io_bind (run_incremental b c v w batch_id) (\<lambda>_. io_return (silver_result_of c (int (length (dt_commits u))))) s)"
proof -
  obtain m where m: "try_delta_table_state (sb_loads b) s ref SILVER_PIPELINE_NAME = Inr (Some \<lparr>
      ts_version = int (length (dt_commits u)) - 1, ts_progress_version = Some (int (length (dt_commits u)) - 1),
      ts_progress = Some m\<rparr>)" "processed_version (Some m) = Inr (Some v)" "validate_silver_schema_version (Some m) = Inr ()"
    using silver_at_state [OF assms(1,4)] by blast
  have ref: "reference_io b ''silver'' t s = (Inr ref, s)"
    using assms(4) get_silver_contract_in [OF assms(2)] by (intro reference_io_eq) (simp add: silver_at_def)
  have steps: "io_bind (bronze_version b t) f s = f w s" "io_bind (reference_io b ''silver'' t) g s = g ref s"
    "io_bind (io_get (\<lambda>s. try_delta_table_state (sb_loads b) s ref SILVER_PIPELINE_NAME)) h s = h (Some \<lparr>
      ts_version = int (length (dt_commits u)) - 1, ts_progress_version = Some (int (length (dt_commits u)) - 1),
      ts_progress = Some m\<rparr>) s"
    for f :: "int \<Rightarrow> silver_result io" and g :: "string \<Rightarrow> silver_result io"
      and h :: "table_state option \<Rightarrow> silver_result io"
    using assms(3) ref m(1) by (simp_all add: io_bind_def io_get_def)
  show ?thesis
    unfolding run_table_def assms(2) io_simps(3) steps by (simp add: m(2,3))
qed

text \<open>
  A repeated Silver run is a no-op: when the Silver table's last commit records the Bronze version
  the manifest names, running the table again changes nothing and returns the version of that commit.
\<close>

theorem silver_rerun_is_noop:
  assumes "json_codec (sb_dumps b) (sb_loads b)" and "get_silver_contract t = Inr c"
    and "sb_manifest b = Some m" and "map_of (bm_tables m) t = Some r"
    and "br_schema_version r = BRONZE_SCHEMA_VERSION" and "silver_at b c ref (br_delta_version r) u s"
  shows "run_table b t batch_id False s = (Inr (silver_result_of c (int (length (dt_commits u)) - 1)), s)"
  using run_table_prefix [OF assms(1,2) bronze_version_manifest [OF assms(3,4,5)] assms(6)] by simp

definition demo_lake_at :: "int \<Rightarrow> row list \<Rightarrow> lake" where
  "demo_lake_at v rows = \<lparr>lk_tables = (\<lambda>ref. if ref = ''lake/silver/order_vouchers'' then Some
     \<lparr>dt_commits = [\<lparr>cm_cols = map fst (current_state_columns example_fn 7 (silver_required_columns demo_contract) demo_contract),
        cm_rows = rows, cm_changes = [],
        cm_metadata = Some (example_dumps (progress_metadata ''order_vouchers'' v ''b1'' None))\<rparr>],
      dt_props = [(''delta.enableChangeDataFeed'', ''true'')], dt_txns = []\<rparr> else None),
     lk_metadata = None, lk_txn_app = None, lk_txn_version = None\<rparr>"

definition demo_bronze_manifest :: "int \<Rightarrow> bronze_manifest" where
  "demo_bronze_manifest v = \<lparr>bm_batch_id = ''b2'', bm_tables = [(''order_vouchers'', \<lparr>br_batch_id = ''b2'',
     br_table_name = ''order_vouchers'', br_record_count = 1, br_ingestion_type = ''batch'', br_delta_version = v,
     br_operation_counts = [], br_schema_version = 1\<rparr>)]\<rparr>"

lemma demo_reference:
  "map_sum id tr_value (table_reference (ad_lakehouse (sb_adapter demo_builder)) ''silver'' ''order_vouchers'') =
     Inr ''lake/silver/order_vouchers''"
  "map_sum id tr_value (table_reference (ad_lakehouse (sb_adapter demo_builder)) ''bronze'' ''order_vouchers'') =
     Inr ''lake/bronze/batch/order_vouchers''"
  by code_simp+

lemma demo_get_contract: "get_silver_contract ''order_vouchers'' = Inr demo_contract"
  by (simp add: get_silver_contract_def SILVER_TABLES_def demo_contract_def)

lemma demo_codec: "json_codec (sb_dumps demo_builder) (sb_loads demo_builder)"
  by (simp add: demo_builder_def example_codec)

theorem silver_rerun_is_noop_witness:
  "run_table (demo_builder\<lparr>sb_manifest := Some (demo_bronze_manifest 4)\<rparr>) ''order_vouchers'' ''b2'' False (demo_lake_at 4 []) =
    (Inr \<lparr>sr_table_name = ''order_vouchers'', sr_committed_version = 0, sr_schema_version = 2\<rparr>, demo_lake_at 4 [])"
proof -
  let ?b = "demo_builder\<lparr>sb_manifest := Some (demo_bronze_manifest 4)\<rparr>"
  let ?u = "the (lk_tables (demo_lake_at 4 []) ''lake/silver/order_vouchers'')"
  have "silver_at ?b demo_contract ''lake/silver/order_vouchers'' 4 ?u (demo_lake_at 4 [])"
    using demo_reference(1) by (auto simp: silver_at_def demo_lake_at_def demo_contract_def latest_commit_def demo_builder_def)
  with silver_rerun_is_noop [of ?b "''order_vouchers''" demo_contract "demo_bronze_manifest 4" _ _ ?u "demo_lake_at 4 []" "''b2''"]
    demo_codec demo_get_contract show ?thesis
    by (simp add: demo_bronze_manifest_def BRONZE_SCHEMA_VERSION_def silver_result_of_def demo_contract_def
        SILVER_SCHEMA_VERSION_def demo_lake_at_def)
qed

section \<open>The version a run reports\<close>









end
