(* ===== verification/GoldRelease.thy ===== *)
theory GoldRelease
  imports Contracts Merge Manifests "HOL-Library.Sublist"
begin

text \<open>
  Gold releases (\<open>control/gold_releases.py\<close>): a release is a set of Gold versions pinned together,
  stored as a table property of the sales fact, which is one commit and so an atomic publication.
  Readers resolve the property and read the pinned versions.
\<close>

section \<open>Releases\<close>

definition GOLD_PIPELINE_NAME :: string where
  "GOLD_PIPELINE_NAME = ''silver_to_gold''"

definition GOLD_RELEASE_PROPERTY :: string where
  "GOLD_RELEASE_PROPERTY = ''pipeline.goldActiveRelease''"

definition RELEASE_SCHEMA_VERSION :: int where
  "RELEASE_SCHEMA_VERSION = 1"

record gold_release =
  gr_batch_id :: string
  gr_silver_versions :: "(string \<times> int) list"
  gr_gold_versions :: "(string \<times> int) list"

record release_store =
  rs_adapter :: adapter
  rs_dumps :: "json \<Rightarrow> string"
  rs_loads :: "string \<Rightarrow> json option"

section \<open>Validation\<close>

definition validate_versions :: "(string \<times> int) list \<Rightarrow> string list option \<Rightarrow> unit res" where
  "validate_versions versions expected =
     and_then (raise_if (\<exists>(name, v) \<in> set versions. name = [] \<or> v < 0)
       (ValueError ''Invalid Gold release versions'')) (\<lambda>_.
     raise_if (case expected of None \<Rightarrow> False | Some names \<Rightarrow> set (map fst versions) \<noteq> set names)
       (ValueError ''Gold release table set mismatch''))"

definition version_entry :: "string \<times> json \<Rightarrow> (string \<times> int) res" where
  "version_entry kv = (case snd kv of JInt v \<Rightarrow> Inr (fst kv, v)
     | _ \<Rightarrow> Inl (ValueError ''Invalid Gold release versions''))"

definition versions_from_value :: "json option \<Rightarrow> string list option \<Rightarrow> (string \<times> int) list res" where
  "versions_from_value raw expected = (case raw of
     Some (JObj kvs) \<Rightarrow> and_then (traverse version_entry kvs) (\<lambda>versions.
       and_then (validate_versions versions expected) (\<lambda>_. Inr versions))
   | _ \<Rightarrow> Inl (ValueError ''Invalid Gold release field''))"

definition release_from_metadata :: "json \<Rightarrow> gold_release res" where
  "release_from_metadata metadata =
     and_then (raise_if (jget metadata ''schema_version'' \<noteq> Some (JInt RELEASE_SCHEMA_VERSION))
       (ValueError ''Unsupported Gold release schema'')) (\<lambda>_.
     and_then (case jget metadata ''batch_id'' of
         Some (JStr b) \<Rightarrow> if b = [] then Inl (ValueError ''Invalid Gold release batch_id'') else Inr b
       | _ \<Rightarrow> Inl (ValueError ''Invalid Gold release batch_id'')) (\<lambda>batch_id.
     and_then (versions_from_value (jget metadata ''silver_versions'') None) (\<lambda>silver.
     and_then (versions_from_value (jget metadata ''gold_versions'') (Some GOLD_TABLES)) (\<lambda>gold.
     Inr \<lparr>gr_batch_id = batch_id, gr_silver_versions = silver, gr_gold_versions = gold\<rparr>))))"

definition release_from_json :: "(string \<Rightarrow> json option) \<Rightarrow> string \<Rightarrow> gold_release res" where
  "release_from_json loads raw = (case loads raw of
     None \<Rightarrow> Inl (ValueError ''Invalid Gold release marker JSON'')
   | Some (JObj kvs) \<Rightarrow> release_from_metadata (JObj kvs)
   | Some _ \<Rightarrow> Inl (ValueError ''Invalid Gold release marker''))"

section \<open>The store\<close>

definition fact_reference :: "release_store \<Rightarrow> string res" where
  "fact_reference rs = and_then (table_reference (ad_lakehouse (rs_adapter rs)) ''gold'' ''fact_sales'')
     (\<lambda>ref. Inr (tr_value ref))"

definition latest_release :: "release_store \<Rightarrow> lake \<Rightarrow> gold_release option res" where
  "latest_release rs s = and_then (fact_reference rs) (\<lambda>ref.
     and_then (try_delta_table_properties s ref) (\<lambda>properties.
     case properties of None \<Rightarrow> Inr None
     | Some props \<Rightarrow> (case map_of props GOLD_RELEASE_PROPERTY of
         None \<Rightarrow> Inr None
       | Some raw \<Rightarrow> and_then (release_from_json (rs_loads rs) raw) (\<lambda>r. Inr (Some r)))))"

text \<open>\<open>current_gold_versions["fact_sales"] += 1\<close>: the commit of the property itself.\<close>

definition release_of :: "gold_candidate \<Rightarrow> gold_release" where
  "release_of c = \<lparr>gr_batch_id = gc_batch_id c, gr_silver_versions = gc_silver_versions c,
     gr_gold_versions = map (\<lambda>(name, v). (name, if name = ''fact_sales'' then v + 1 else v)) (gc_committed_versions c)\<rparr>"

definition json_versions :: "(string \<times> int) list \<Rightarrow> json" where
  "json_versions kvs = jobj (map (\<lambda>(k, v). (k, JInt v)) kvs)"

definition release_metadata :: "gold_candidate \<Rightarrow> json" where
  "release_metadata c = jobj
     [(''schema_version'', JInt RELEASE_SCHEMA_VERSION), (''pipeline'', JStr GOLD_PIPELINE_NAME),
      (''batch_id'', JStr (gc_batch_id c)),
      (''changed_gold_tables'', JList (map JStr (sort (remdups (gc_changed_tables c))))),
      (''quality_status'', JStr (gc_quality_status c)),
      (''silver_versions'', json_versions (gr_silver_versions (release_of c))),
      (''gold_versions'', json_versions (gr_gold_versions (release_of c)))]"

definition publish_release :: "release_store \<Rightarrow> gold_candidate \<Rightarrow> gold_release io" where
  "publish_release rs c =
     io_bind (io_lift (validate_versions (gc_silver_versions c) None)) (\<lambda>_.
     io_bind (io_lift (validate_versions (gc_committed_versions c) (Some GOLD_TABLES))) (\<lambda>_.
     io_bind (io_lift (raise_if (\<not> set (gc_changed_tables c) \<subseteq> set GOLD_TABLES)
       (ValueError ''Unknown changed Gold tables''))) (\<lambda>_.
     io_bind (io_lift (fact_reference rs)) (\<lambda>ref.
     io_bind (delta_commit_metadata (rs_dumps rs) (release_metadata c)
       (set_delta_table_property ref GOLD_RELEASE_PROPERTY (rs_dumps rs (release_metadata c)))) (\<lambda>_.
     io_return (release_of c))))))"

text \<open>The adapter that reads the published snapshot.\<close>

definition release_snapshot :: "release_store \<Rightarrow> lake \<Rightarrow> adapter res" where
  "release_snapshot rs s = and_then (latest_release rs s) (\<lambda>r. case r of
     None \<Rightarrow> Inl (RuntimeError ''Gold has no published release'')
   | Some release \<Rightarrow> Inr (with_gold_versions (gr_gold_versions release) (rs_adapter rs)))"

section \<open>Tables only grow\<close>

definition lake_extends :: "lake \<Rightarrow> lake \<Rightarrow> bool" where
  "lake_extends s s' \<longleftrightarrow> (\<forall>ref t. lk_tables s ref = Some t \<longrightarrow>
     (\<exists>t'. lk_tables s' ref = Some t' \<and> prefix (dt_commits t) (dt_commits t')))"

lemma lake_extends_refl [simp]: "lake_extends s s"
  by (simp add: lake_extends_def)

lemma lake_extends_settings [simp]:
  "lake_extends s (s'\<lparr>lk_metadata := m\<rparr>) = lake_extends s s'"
  "lake_extends (s\<lparr>lk_metadata := m\<rparr>) s' = lake_extends s s'"
  by (simp_all add: lake_extends_def)

lemma commit_extends: "lake_extends s (commit_table ref cols rows changes s)"
  by (auto simp: lake_extends_def commit_table_def table_or_empty_def Let_def)

lemma props_extends:
  assumes "lake_extends s s'"
  shows "lake_extends s (s'\<lparr>lk_tables := (lk_tables s')(ref := map_option (\<lambda>t. t\<lparr>dt_props := f t\<rparr>) (lk_tables s' ref))\<rparr>)"
  unfolding lake_extends_def
proof (intro allI impI)
  fix r t assume "lk_tables s r = Some t"
  then obtain t' where "lk_tables s' r = Some t'" "prefix (dt_commits t) (dt_commits t')"
    using assms by (auto simp: lake_extends_def)
  then show "\<exists>t'. lk_tables (s'\<lparr>lk_tables := (lk_tables s')(ref := map_option (\<lambda>t. t\<lparr>dt_props := f t\<rparr>) (lk_tables s' ref))\<rparr>) r =
      Some t' \<and> prefix (dt_commits t) (dt_commits t')" by auto
qed

lemma property_extends: "lake_extends s (snd (set_delta_table_property ref k v s))"
  by (auto simp: lake_extends_def set_delta_table_property_def split: option.splits)

text \<open>An operation keeps the commits of every table.\<close>

definition appends :: "'a io \<Rightarrow> bool" where
  "appends m \<longleftrightarrow> (\<forall>s. lake_extends s (snd (m s)))"

lemma lake_extends_trans: "lake_extends s s' \<Longrightarrow> lake_extends s' s'' \<Longrightarrow> lake_extends s s''"
  unfolding lake_extends_def by (meson prefix_order.trans)

lemma appends_bind: "appends m \<Longrightarrow> (\<And>a. appends (f a)) \<Longrightarrow> appends (io_bind m f)"
  unfolding appends_def io_bind_def by (auto split: prod.splits sum.splits) (metis lake_extends_trans snd_conv)+

lemma appends_pure [simp]: "appends (io_return a)" "appends (io_raise e)" "appends (io_lift r)" "appends (io_get g)"
  by (simp_all add: appends_def io_get_def)

lemma appends_write: "appends (write_table ad d layer name cdf)"
  unfolding write_table_def
  by (rule appends_bind) (simp_all add: appends_def Let_def commit_extends props_extends)

lemma appends_merge: "appends (run_merge ref m src)"
  by (auto simp: appends_def run_merge_def Let_def commit_extends split: sum.splits)

lemma appends_upsert: "appends (upsert_table ad d layer name keys opt)"
  unfolding upsert_table_def Let_def
  by (intro appends_bind) (auto intro!: appends_bind appends_write appends_merge split: option.split)

lemma appends_append_new_rows: "appends (append_new_rows ad d layer name keys ex)"
  unfolding append_new_rows_def Let_def
  by (intro appends_bind) (auto intro!: appends_bind appends_write appends_merge split: option.split)

lemma appends_publish: "appends (publish_release rs c)"
proof -
  have "appends (delta_commit_metadata dumps m (set_delta_table_property ref k v))" for dumps m ref k v
    using property_extends [of "s\<lparr>lk_metadata := Some (dumps m)\<rparr>" ref k v for s]
    by (simp add: appends_def delta_commit_metadata_def Let_def split_beta)
  then show ?thesis unfolding publish_release_def by (intro appends_bind) simp_all
qed

lemma snapshot_extends:
  assumes "prefix (dt_commits t) (dt_commits t')" and "snapshot t (Some v) = Inr d"
  shows "snapshot t' (Some v) = Inr d"
  using assms by (auto simp: snapshot_def prefix_def nth_append Let_def split: if_splits)

lemma pinned_read_extends:
  assumes "lake_extends s s'" and "ad_gold_versions ad = Some versions"
    and "read_table ad s ''gold'' name b = Inr d"
  shows "read_table ad s' ''gold'' name b = Inr d"
proof -
  obtain ref v t where r: "table_reference (ad_lakehouse ad) ''gold'' name = Inr ref" "map_of versions name = Some v"
      "lk_tables s (tr_value ref) = Some t" "snapshot t (Some v) = Inr d"
    using assms(2,3) by (auto simp: read_table_def read_delta_def delta_table_at_def split: option.splits)
  with assms(1) obtain t' where t': "lk_tables s' (tr_value ref) = Some t'" "prefix (dt_commits t) (dt_commits t')"
    by (auto simp: lake_extends_def)
  from snapshot_extends [OF this(2) r(4)] r(1,2) t'(1) assms(2) show ?thesis
    by (simp add: read_table_def read_delta_def delta_table_at_def)
qed

text \<open>
  C14. Isolation of a published release: what a reader of the published Gold snapshot sees of a table
  does not change when a writer overwrites, merges into or appends to any table, or publishes the
  next release; only resolving the release anew does.
\<close>

theorem published_snapshot_is_stable:
  assumes "release_snapshot rs s = Inr ad" and "read_table ad s ''gold'' name b = Inr d"
  shows "read_table ad (snd (write_table ad' d' layer table cdf s)) ''gold'' name b = Inr d \<and>
    read_table ad (snd (upsert_table ad' d' layer table keys opt s)) ''gold'' name b = Inr d \<and>
    read_table ad (snd (append_new_rows ad' d' layer table keys ex s)) ''gold'' name b = Inr d \<and>
    read_table ad (snd (publish_release rs c s)) ''gold'' name b = Inr d"
proof -
  obtain versions where "ad_gold_versions ad = Some versions"
    using assms(1) by (auto simp: release_snapshot_def with_gold_versions_def split: option.splits)
  note stable = pinned_read_extends [OF _ this assms(2)]
  show ?thesis
    using appends_write appends_upsert appends_append_new_rows appends_publish
    by (intro conjI stable) (simp_all add: appends_def)
qed

section \<open>Publishing and reading back\<close>

definition canonical_release :: "gold_release \<Rightarrow> gold_release" where
  "canonical_release r = r\<lparr>gr_silver_versions := sort_key fst (gr_silver_versions r),
     gr_gold_versions := sort_key fst (gr_gold_versions r)\<rparr>"

lemma versions_roundtrip:
  assumes "validate_versions versions expected = Inr ()"
  shows "versions_from_value (Some (json_versions versions)) expected = Inr (sort_key fst versions)"
proof -
  have json: "json_versions versions = JObj (map (\<lambda>(k, v). (k, JInt v)) (sort_key fst versions))"
    unfolding json_versions_def by (rule jobj_map)
  have "traverse version_entry (map (\<lambda>(k, v). (k, JInt v)) (sort_key fst versions)) = Inr (sort_key fst versions)"
    by (subst traverse_Inr_iff) (auto simp: list_all2_map1 list_all2_same version_entry_def)
  moreover have "validate_versions (sort_key fst versions) expected = Inr ()"
    using assms by (simp add: validate_versions_def split: option.splits)
  ultimately show ?thesis by (simp add: versions_from_value_def json)
qed

lemma validate_release_of:
  assumes "validate_versions (gc_committed_versions c) (Some names) = Inr ()"
  shows "validate_versions (gr_gold_versions (release_of c)) (Some names) = Inr ()"
  using assms by (fastforce simp: validate_versions_def release_of_def raise_if_def and_then_def image_image
      split_beta split: if_splits)

lemma release_metadata_fields:
  "jget (release_metadata c) ''schema_version'' = Some (JInt RELEASE_SCHEMA_VERSION)"
  "jget (release_metadata c) ''batch_id'' = Some (JStr (gc_batch_id c))"
  "jget (release_metadata c) ''silver_versions'' = Some (json_versions (gr_silver_versions (release_of c)))"
  "jget (release_metadata c) ''gold_versions'' = Some (json_versions (gr_gold_versions (release_of c)))"
  by (simp_all add: release_metadata_def)

text \<open>What a successful publication did.\<close>

lemma publish_release_Inr:
  assumes "publish_release rs c s = (Inr r, s')"
  obtains ref t where "validate_versions (gc_silver_versions c) None = Inr ()"
    and "validate_versions (gc_committed_versions c) (Some GOLD_TABLES) = Inr ()"
    and "fact_reference rs = Inr ref" and "lk_tables s ref = Some t" and "r = release_of c"
    and "lk_tables s' = (lk_tables s)(ref \<mapsto> t\<lparr>dt_commits := dt_commits t @ [(latest_commit t)\<lparr>cm_changes := [],
        cm_metadata := Some (rs_dumps rs (release_metadata c))\<rparr>],
      dt_props := assoc_set GOLD_RELEASE_PROPERTY (rs_dumps rs (release_metadata c)) (dt_props t)\<rparr>)"
proof -
  note p = assms [unfolded publish_release_def]
  have v: "validate_versions (gc_silver_versions c) None = Inr ()"
    "validate_versions (gc_committed_versions c) (Some GOLD_TABLES) = Inr ()" "set (gc_changed_tables c) \<subseteq> set GOLD_TABLES"
    using p by (cases "validate_versions (gc_silver_versions c) None";
        cases "validate_versions (gc_committed_versions c) (Some GOLD_TABLES)"; force split: if_splits simp: raise_if_def)+
  obtain ref where ref: "fact_reference rs = Inr ref"
    using p v by (cases "fact_reference rs") (auto simp: raise_if_def)
  obtain t where t: "lk_tables s ref = Some t"
    using p v ref by (cases "lk_tables s ref")
      (auto simp: raise_if_def io_bind_def delta_commit_metadata_def set_delta_table_property_def)
  have r: "r = release_of c" and s': "s' = snd (delta_commit_metadata (rs_dumps rs) (release_metadata c)
      (set_delta_table_property ref GOLD_RELEASE_PROPERTY (rs_dumps rs (release_metadata c))) s)"
    using p v ref t
    by (auto simp: raise_if_def io_bind_def delta_commit_metadata_def set_delta_table_property_def io_return_def)
  show ?thesis
    by (rule that [OF v(1,2) ref t r]) (simp add: s' delta_commit_metadata_def set_delta_table_property_def t)
qed

lemma gold_publish_roundtrip_lemma:
  assumes "json_codec (rs_dumps rs) (rs_loads rs)" and "gc_batch_id c \<noteq> []"
    and "publish_release rs c s = (Inr r, s')"
  shows "latest_release rs s' = Inr (Some (canonical_release r))"
proof -
  obtain ref t where p: "validate_versions (gc_silver_versions c) None = Inr ()"
      "validate_versions (gc_committed_versions c) (Some GOLD_TABLES) = Inr ()"
      "fact_reference rs = Inr ref" "lk_tables s ref = Some t" "r = release_of c"
      "lk_tables s' = (lk_tables s)(ref \<mapsto> t\<lparr>dt_commits := dt_commits t @ [(latest_commit t)\<lparr>cm_changes := [],
        cm_metadata := Some (rs_dumps rs (release_metadata c))\<rparr>],
      dt_props := assoc_set GOLD_RELEASE_PROPERTY (rs_dumps rs (release_metadata c)) (dt_props t)\<rparr>)"
    by (rule publish_release_Inr [OF assms(3)])
  have "release_from_metadata (release_metadata c) = Inr (canonical_release r)"
    using versions_roundtrip [OF p(1)] versions_roundtrip [OF validate_release_of [OF p(2)]] assms(2) p(5)
    by (simp add: release_from_metadata_def release_metadata_fields canonical_release_def release_of_def)
  moreover obtain kvs where "release_metadata c = JObj kvs" by (simp add: release_metadata_def jobj_def)
  ultimately have "release_from_json (rs_loads rs) (rs_dumps rs (release_metadata c)) = Inr (canonical_release r)"
    using assms(1) by (simp add: release_from_json_def json_codec_def)
  then show ?thesis
    using p(3,6) by (simp add: latest_release_def try_delta_table_properties_def delta_table_properties_def
        delta_table_at_def missing_as_none_def)
qed

text \<open>
  Round trip of a publication: after a successful publish, resolving the active release gives the
  published one (its versions in name order).
\<close>

theorem gold_publish_roundtrip:
  assumes "json_codec (rs_dumps rs) (rs_loads rs)" and "gc_batch_id c \<noteq> []"
    and "publish_release rs c s = (Inr r, s')"
  shows "latest_release rs s' = Inr (Some (canonical_release r))"
  by (rule gold_publish_roundtrip_lemma [OF assms])

lemma gold_publish_pins_fact_lemma:
  assumes "json_codec (rs_dumps rs) (rs_loads rs)" and "gc_batch_id c \<noteq> []"
    and "distinct (map fst (gc_committed_versions c))"
    and "publish_release rs c s = (Inr r, s')" and "fact_reference rs = Inr ref" and "lk_tables s ref = Some t"
    and "map_of (gc_committed_versions c) ''fact_sales'' = Some (int (length (dt_commits t)) - 1)"
  shows "\<exists>ad. release_snapshot rs s' = Inr ad \<and>
    read_table ad s' ''gold'' ''fact_sales'' False =
      Inr \<lparr>df_cols = cm_cols (latest_commit t), df_rows = cm_rows (latest_commit t)\<rparr>"
proof -
  obtain ref' t' where p: "fact_reference rs = Inr ref'" "lk_tables s ref' = Some t'" "r = release_of c"
      "lk_tables s' = (lk_tables s)(ref' \<mapsto> t'\<lparr>dt_commits := dt_commits t' @ [(latest_commit t')\<lparr>cm_changes := [],
        cm_metadata := Some (rs_dumps rs (release_metadata c))\<rparr>],
      dt_props := assoc_set GOLD_RELEASE_PROPERTY (rs_dumps rs (release_metadata c)) (dt_props t')\<rparr>)"
    by (rule publish_release_Inr [OF assms(4)])
  have same: "ref' = ref" "t' = t" using p assms(5,6) by auto
  have latest: "latest_release rs s' = Inr (Some (canonical_release r))"
    by (rule gold_publish_roundtrip_lemma [OF assms(1,2,4)])
  let ?gold = "gr_gold_versions (canonical_release r)"
  have fst: "map fst (gr_gold_versions (release_of c)) = map fst (gc_committed_versions c)"
    by (simp add: release_of_def split_beta comp_def)
  have "distinct (map fst (gr_gold_versions (release_of c)))" unfolding fst by (fact assms(3))
  then have d: "distinct (map fst ?gold)" unfolding p(3) by (simp add: canonical_release_def distinct_map)
  have "(''fact_sales'', int (length (dt_commits t)) - 1) \<in> set (gc_committed_versions c)"
    using assms(7) by (rule map_of_SomeD)
  then have "(''fact_sales'', int (length (dt_commits t))) \<in> set ?gold"
    using p(3) by (force simp: canonical_release_def release_of_def)
  then have v: "map_of ?gold ''fact_sales'' = Some (int (length (dt_commits t)))"
    using d by (simp add: map_of_is_SomeI)
  obtain fr where fr: "table_reference (ad_lakehouse (rs_adapter rs)) ''gold'' ''fact_sales'' = Inr fr" "tr_value fr = ref"
    using assms(5) by (auto simp: fact_reference_def)
  show ?thesis
    using v fr p(4) same latest
    by (simp add: release_snapshot_def with_gold_versions_def read_table_def read_delta_def delta_table_at_def snapshot_def)
qed

text \<open>
  The published fact: when the candidate names the fact table's latest version, the release pins
  the commit the publication itself makes, and reading the fact through the published snapshot
  gives the rows that were latest when it was published.
\<close>

theorem gold_publish_pins_fact:
  assumes "json_codec (rs_dumps rs) (rs_loads rs)" and "gc_batch_id c \<noteq> []"
    and "distinct (map fst (gc_committed_versions c))"
    and "publish_release rs c s = (Inr r, s')" and "fact_reference rs = Inr ref" and "lk_tables s ref = Some t"
    and "map_of (gc_committed_versions c) ''fact_sales'' = Some (int (length (dt_commits t)) - 1)"
  shows "\<exists>ad. release_snapshot rs s' = Inr ad \<and>
    read_table ad s' ''gold'' ''fact_sales'' False =
      Inr \<lparr>df_cols = cm_cols (latest_commit t), df_rows = cm_rows (latest_commit t)\<rparr>"
  by (rule gold_publish_pins_fact_lemma [OF assms])


section \<open>An example release\<close>

definition demo_store :: release_store where
  "demo_store = \<lparr>rs_adapter = \<lparr>ad_lakehouse = \<lparr>lc_base_path = Some ''lake'', lc_catalog = None, lc_schemas = [],
     lc_external_root = None\<rparr>, ad_gold_versions = None\<rparr>, rs_dumps = example_dumps, rs_loads = example_loads\<rparr>"

definition demo_candidate :: gold_candidate where
  "demo_candidate = \<lparr>gc_batch_id = ''b1'', gc_changed_tables = [''fact_sales''],
     gc_committed_versions = map (\<lambda>t. (t, 0)) GOLD_TABLES, gc_silver_versions = [(''orders'', 3)],
     gc_quality_status = ''PASSED''\<rparr>"

definition demo_fact_table :: delta_table where
  "demo_fact_table = \<lparr>dt_commits = [\<lparr>cm_cols = [''sales_key''], cm_rows = [row_of [(''sales_key'', IntV 1)]],
     cm_changes = [], cm_metadata = None\<rparr>], dt_props = [], dt_txns = []\<rparr>"

definition demo_gold_lake :: lake where
  "demo_gold_lake = \<lparr>lk_tables = [''lake/gold/fact_sales'' \<mapsto> demo_fact_table],
     lk_metadata = None, lk_txn_app = None, lk_txn_version = None\<rparr>"

lemma demo_fact_reference: "fact_reference demo_store = Inr ''lake/gold/fact_sales''"
  by code_simp

lemma demo_store_codec: "json_codec (rs_dumps demo_store) (rs_loads demo_store)"
  by (simp add: demo_store_def example_codec)

lemma demo_candidate_valid:
  "validate_versions (gc_silver_versions demo_candidate) None = Inr ()"
  "validate_versions (gc_committed_versions demo_candidate) (Some GOLD_TABLES) = Inr ()"
  "set (gc_changed_tables demo_candidate) \<subseteq> set GOLD_TABLES"
  "distinct (map fst (gc_committed_versions demo_candidate))"
  "map_of (gc_committed_versions demo_candidate) ''fact_sales'' = Some 0" "gc_batch_id demo_candidate \<noteq> []"
  by code_simp+

lemma demo_publish: "\<exists>s'. publish_release demo_store demo_candidate demo_gold_lake = (Inr (release_of demo_candidate), s')"
proof -
  have "lk_tables demo_gold_lake ''lake/gold/fact_sales'' = Some demo_fact_table" by (simp add: demo_gold_lake_def)
  then show ?thesis
    by (simp add: publish_release_def demo_candidate_valid demo_fact_reference raise_if_def io_bind_def
        delta_commit_metadata_def set_delta_table_property_def)
qed

theorem gold_publish_roundtrip_witness:
  "\<exists>s'. publish_release demo_store demo_candidate demo_gold_lake = (Inr (release_of demo_candidate), s') \<and>
    latest_release demo_store s' = Inr (Some (canonical_release (release_of demo_candidate)))"
  using demo_publish gold_publish_roundtrip [OF demo_store_codec demo_candidate_valid(6)] by blast

theorem gold_publish_pins_fact_witness:
  "\<exists>s' ad. publish_release demo_store demo_candidate demo_gold_lake = (Inr (release_of demo_candidate), s') \<and>
    release_snapshot demo_store s' = Inr ad \<and>
    read_table ad s' ''gold'' ''fact_sales'' False = Inr \<lparr>df_cols = [''sales_key''], df_rows = [row_of [(''sales_key'', IntV 1)]]\<rparr>"
proof -
  obtain s' where s': "publish_release demo_store demo_candidate demo_gold_lake = (Inr (release_of demo_candidate), s')"
    using demo_publish by blast
  have t: "lk_tables demo_gold_lake ''lake/gold/fact_sales'' = Some demo_fact_table" by (simp add: demo_gold_lake_def)
  have v: "map_of (gc_committed_versions demo_candidate) ''fact_sales'' = Some (int (length (dt_commits demo_fact_table)) - 1)"
    by (simp add: demo_candidate_valid(5) demo_fact_table_def)
  have c: "latest_commit demo_fact_table = \<lparr>cm_cols = [''sales_key''], cm_rows = [row_of [(''sales_key'', IntV 1)]],
     cm_changes = [], cm_metadata = None\<rparr>" by (simp add: demo_fact_table_def latest_commit_def)
  from gold_publish_pins_fact [OF demo_store_codec demo_candidate_valid(6,4) s' demo_fact_reference t v] s'
  show ?thesis unfolding c commit.select_convs by blast
qed

theorem published_snapshot_is_stable_witness:
  "\<exists>s ad d. release_snapshot demo_store s = Inr ad \<and> read_table ad s ''gold'' ''fact_sales'' False = Inr d \<and>
    read_table ad (snd (write_table (rs_adapter demo_store) \<lparr>df_cols = [], df_rows = []\<rparr> ''gold'' ''fact_sales'' False s))
      ''gold'' ''fact_sales'' False = Inr d"
proof -
  obtain s where s: "publish_release demo_store demo_candidate demo_gold_lake = (Inr (release_of demo_candidate), s)"
    using demo_publish by blast
  have t: "lk_tables demo_gold_lake ''lake/gold/fact_sales'' = Some demo_fact_table" by (simp add: demo_gold_lake_def)
  have v: "map_of (gc_committed_versions demo_candidate) ''fact_sales'' = Some (int (length (dt_commits demo_fact_table)) - 1)"
    by (simp add: demo_candidate_valid(5) demo_fact_table_def)
  obtain ad d where r: "release_snapshot demo_store s = Inr ad" "read_table ad s ''gold'' ''fact_sales'' False = Inr d"
    using gold_publish_pins_fact_lemma [OF demo_store_codec demo_candidate_valid(6,4) s demo_fact_reference t v] by blast
  from published_snapshot_is_stable [OF this] r show ?thesis by blast
qed

end
