(* ===== verification/UpsertSpec.thy ===== *)
theory UpsertSpec
  imports MergeSpec
begin

text \<open>
  The upsert without sequence columns (\<open>upsert_table\<close> of \<open>adapters/lakehouse.py\<close> as the Gold build and
  the reconcile queue call it): what the MERGE statement does to the table read as a map from keys to
  rows, with and without rows to delete.
\<close>

section \<open>A MERGE with at most one source row for each target row\<close>

lemma merge_exec_one:
  assumes "\<And>t. t \<in> set tgt \<Longrightarrow> matches m src t = (case g t of None \<Rightarrow> [] | Some s \<Rightarrow> [s])"
  shows "merge_exec m src tgt = Inr
    (List.map_filter (\<lambda>t. case g t of None \<Rightarrow> if ms_delete_not_matched_by_source m then None else Some t
       | Some s \<Rightarrow> apply_matched (ms_matched m) s t) tgt @ merge_inserts m src tgt,
     merge_inserts m src tgt \<noteq> [] \<or>
     (\<exists>t \<in> set tgt. case g t of None \<Rightarrow> ms_delete_not_matched_by_source m | Some s \<Rightarrow> merge_rewrites m s t))"
proof -
  let ?f = "\<lambda>t. case g t of None \<Rightarrow> if ms_delete_not_matched_by_source m then None else Some t
       | Some s \<Rightarrow> apply_matched (ms_matched m) s t"
  have one: "\<not> length (matches m src t) > 1" if "t \<in> set tgt" for t
    using assms [OF that] by (simp split: option.splits)
  have "concat (map (merge_target_row m src) ts) = List.map_filter ?f ts" if "set ts \<subseteq> set tgt" for ts
    using that
  proof (induction ts)
    case (Cons t ts)
    then show ?case using assms [of t]
      by (simp add: merge_target_row_def map_filter_simps split: option.splits)
  qed (simp add: map_filter_simps)
  then have rows: "concat (map (merge_target_row m src) tgt) = List.map_filter ?f tgt" by simp
  have touched: "(\<exists>t \<in> set tgt. case matches m src t of [] \<Rightarrow> ms_delete_not_matched_by_source m | s # _ \<Rightarrow> merge_rewrites m s t) \<longleftrightarrow>
      (\<exists>t \<in> set tgt. case g t of None \<Rightarrow> ms_delete_not_matched_by_source m | Some s \<Rightarrow> merge_rewrites m s t)"
    using assms by (intro bex_cong) (auto split: option.splits)
  show ?thesis unfolding merge_exec_def rows touched using one by auto
qed

lemma by_key_map_filter:
  assumes "keyed keys rows" and "\<And>r r'. r \<in> set rows \<Longrightarrow> f r = Some r' \<Longrightarrow> key_of keys r' = key_of keys r"
  shows "by_key keys (List.map_filter f rows) k = Option.bind (by_key keys rows k) f"
  using assms
proof (induction rows)
  case (Cons r rows)
  then have ks: "keyed keys rows" by (simp add: keyed_def)
  have IH: "by_key keys (List.map_filter f rows) k = Option.bind (by_key keys rows k) f"
    using Cons.prems by (intro Cons.IH [OF ks]) auto
  show ?case
  proof (cases "key_of keys r = k")
    case True
    then have none: "by_key keys rows k = None"
      using Cons.prems(1) unfolding by_key_None keyed_def by (metis distinct.simps(2) image_eqI list.set_map list.simps(9))
    show ?thesis
    proof (cases "f r")
      case None
      with True none IH show ?thesis by (simp add: map_filter_simps by_key_def)
    next
      case (Some r')
      with Cons.prems(2) [of r r'] True show ?thesis by (simp add: map_filter_simps by_key_def)
    qed
  next
    case False
    then have "by_key keys (r # rows) k = by_key keys rows k" by (simp add: by_key_def)
    with IH False Cons.prems(2) [of r] show ?thesis
      by (cases "f r") (simp_all add: map_filter_simps by_key_def)
  qed
qed (simp add: by_key_def map_filter_simps)

lemma keyed_map_filter:
  assumes "keyed keys rows" and "\<And>r r'. r \<in> set rows \<Longrightarrow> f r = Some r' \<Longrightarrow> key_of keys r' = key_of keys r"
  shows "keyed keys (List.map_filter f rows)" and "key_of keys ` set (List.map_filter f rows) \<subseteq> key_of keys ` set rows"
proof -
  have "map (key_of keys) (List.map_filter f rows) = map (key_of keys) (filter (\<lambda>r. f r \<noteq> None) rows)"
    using assms(2) by (induction rows) (auto simp: map_filter_simps)
  moreover have "keyed keys (filter (\<lambda>r. f r \<noteq> None) rows)"
    using assms(1) by (auto simp: keyed_def distinct_map_filter)
  ultimately have d: "distinct (map (key_of keys) (List.map_filter f rows))" by (simp add: keyed_def)
  have sub: "\<exists>r \<in> set rows. f r = Some r' \<and> key_of keys r' = key_of keys r" if "r' \<in> set (List.map_filter f rows)" for r'
    using that assms(2) by (induction rows) (auto simp: map_filter_simps split: option.splits)
  then show "key_of keys ` set (List.map_filter f rows) \<subseteq> key_of keys ` set rows" by fast
  show "keyed keys (List.map_filter f rows)"
    unfolding keyed_def using d sub assms(1) by (metis keyed_def)
qed

section \<open>The upsert by key\<close>

text \<open>The columns a stored and an offered row of one key are compared on, and the row that is kept.\<close>

definition ignored_columns :: "string \<Rightarrow> string list \<Rightarrow> string list" where
  "ignored_columns layer keys = keys @ [''created_at'', ''_silver_updated_at''] @
     (if layer = ''gold'' then [''updated_at''] else [])"

definition rows_equal_on :: "string list \<Rightarrow> string list \<Rightarrow> row \<Rightarrow> row \<Rightarrow> bool" where
  "rows_equal_on ignored cols s t \<longleftrightarrow> list_all (\<lambda>c. c \<in> set ignored \<or> s c = t c) cols"

definition overwrite :: "string list \<Rightarrow> string list \<Rightarrow> row \<Rightarrow> row \<Rightarrow> row" where
  "overwrite ignored cols s t = (if rows_equal_on ignored cols s t then t else s(''created_at'' := t ''created_at''))"

definition plain_upsert :: "upsert_options \<Rightarrow> bool" where
  "plain_upsert opt \<longleftrightarrow> uo_delete_mode opt = ''soft'' \<and> uo_sequence_columns opt = [] \<and>
     \<not> uo_preserve_target_on_soft_delete opt"

definition deleted_keys :: "upsert_options \<Rightarrow> string list \<Rightarrow> val list set" where
  "deleted_keys opt keys = (case uo_delete_keys opt of None \<Rightarrow> {} | Some dk \<Rightarrow> key_of keys ` set (df_rows dk))"

text \<open>What the upsert makes of the stored row \<open>t\<close> of a key when the offered row is \<open>s\<close>.\<close>

definition upsert_key ::
    "upsert_options \<Rightarrow> string \<Rightarrow> string list \<Rightarrow> string list \<Rightarrow> val list \<Rightarrow> row option \<Rightarrow> row option \<Rightarrow> row option" where
  "upsert_key opt layer keys cols k s t = (case (s, t) of
     (Some s, None) \<Rightarrow> Some s
   | (Some s, Some t) \<Rightarrow> Some (overwrite (ignored_columns layer keys) cols s t)
   | (None, t) \<Rightarrow> if uo_delete_not_matched_by_source opt \<or> k \<in> deleted_keys opt keys then None else t)"

lemma plain_statement:
  assumes "plain_upsert opt"
  shows "ms_on (merge_statement opt layer keys cols) = join_on keys"
    and "ms_insert_cols (merge_statement opt layer keys cols) = cols"
    and "ms_delete_not_matched_by_source (merge_statement opt layer keys cols) = uo_delete_not_matched_by_source opt"
    and "ms_insert_cond (merge_statement opt layer keys cols) = (case uo_delete_keys opt of
         None \<Rightarrow> (\<lambda>s. Some True) | Some dk \<Rightarrow> (\<lambda>s. not3 (bool3_of (s ''_delete''))))"
  using assms
  by (auto simp: merge_statement_def plain_upsert_def delete_condition_def uses_operation_delete_def
      preserves_soft_delete_def Let_def split: option.splits)

lemma rows_equal_on_differ:
  "rows_equal_on ignored cols s t \<longleftrightarrow> \<not> holds (rows_differ (sort (filter (\<lambda>c. c \<notin> set ignored) cols)) s t)"
  by (auto simp: rows_equal_on_def holds_rows_differ list_all_iff)

lemma rows_equal_on_update:
  "x \<notin> set cols \<Longrightarrow> rows_equal_on ignored cols (s(x := v)) t = rows_equal_on ignored cols s t"
  by (auto simp: rows_equal_on_def list_all_iff)

lemma overwrite_update_from:
  assumes "\<forall>c. c \<notin> set cols \<longrightarrow> s c = Null" "\<forall>c. c \<notin> set cols \<longrightarrow> t c = Null" "x \<notin> set cols"
  shows "update_from (update_columns cols) (s(x := v)) t = s(''created_at'' := t ''created_at'')"
  using assms by (auto simp: update_from_def update_columns_def)

lemma plain_matched:
  assumes "plain_upsert opt" and "\<forall>c. c \<notin> set cols \<longrightarrow> s c = Null" "\<forall>c. c \<notin> set cols \<longrightarrow> t c = Null"
    and "''_delete'' \<notin> set cols" and "uo_delete_keys opt \<noteq> None \<longrightarrow> v = BoolV False"
  shows "apply_matched (ms_matched (merge_statement opt layer keys cols)) (s(''_delete'' := v)) t =
      Some (overwrite (ignored_columns layer keys) cols s t)"
    and "clause_fires (ms_matched (merge_statement opt layer keys cols)) (s(''_delete'' := v)) t \<longleftrightarrow>
      \<not> rows_equal_on (ignored_columns layer keys) cols s t"
proof -
  let ?cmp = "sort (filter (\<lambda>c. c \<notin> set (ignored_columns layer keys)) cols)"
  note defs = merge_statement_def plain_upsert_def delete_condition_def uses_operation_delete_def
      preserves_soft_delete_def Let_def and_newer_def lexicographic_newer_condition_def
  define g where "g = (if uo_delete_keys opt = None then rows_differ ?cmp
        else (\<lambda>s t. and3 (not3 (bool3_of (s ''_delete''))) (rows_differ ?cmp s t)))"
  have m: "ms_matched (merge_statement opt layer keys cols) =
      (if uo_delete_keys opt = None then [] else [MatchedDelete (\<lambda>s t. bool3_of (s ''_delete''))]) @
      (if ?cmp = [] then [] else [MatchedUpdate g (update_columns cols)])"
    using assms(1) unfolding g_def defs ignored_columns_def update_columns_def
    by (cases "uo_delete_keys opt") simp_all
  have eq: "rows_equal_on (ignored_columns layer keys) cols (s(''_delete'' := v)) t \<longleftrightarrow>
      rows_equal_on (ignored_columns layer keys) cols s t"
    by (rule rows_equal_on_update [OF assms(4)])
  have g': "holds (g (s(''_delete'' := v)) t) \<longleftrightarrow> \<not> rows_equal_on (ignored_columns layer keys) cols s t"
    unfolding eq [symmetric] unfolding g_def rows_equal_on_differ
    using assms(5) by (cases "uo_delete_keys opt") (simp_all add: bool3_of_def sql_simps)
  have nil: "?cmp = [] \<Longrightarrow> rows_equal_on (ignored_columns layer keys) cols s t"
    unfolding rows_equal_on_differ by (simp add: holds_rows_differ)
  note u = overwrite_update_from [OF assms(2,3,4), of v]
  show "apply_matched (ms_matched (merge_statement opt layer keys cols)) (s(''_delete'' := v)) t =
      Some (overwrite (ignored_columns layer keys) cols s t)"
    using assms(5) nil g' u unfolding m overwrite_def by (auto simp: bool3_of_def)
  show "clause_fires (ms_matched (merge_statement opt layer keys cols)) (s(''_delete'' := v)) t \<longleftrightarrow>
      \<not> rows_equal_on (ignored_columns layer keys) cols s t"
    using assms(5) nil g' unfolding m by (auto simp: bool3_of_def)
qed

text \<open>
  The offered rows are unique by non-null keys, and so are the stored ones; a row to delete is not
  offered at the same time; the rows live in the columns of the table.
\<close>

definition upsert_ok :: "upsert_options \<Rightarrow> string list \<Rightarrow> string list \<Rightarrow> row list \<Rightarrow> row list \<Rightarrow> bool" where
  "upsert_ok opt keys cols src tgt \<longleftrightarrow> plain_upsert opt \<and> keyed keys src \<and> keyed keys tgt \<and>
     in_columns cols src \<and> in_columns cols tgt \<and> set keys \<subseteq> set cols \<and>
     ''_delete'' \<notin> set cols \<and> ''created_at'' \<notin> set keys \<and>
     deleted_keys opt keys \<inter> key_of keys ` set src = {}"

lemma key_of_delete: "''_delete'' \<notin> set keys \<Longrightarrow> key_of keys (r(''_delete'' := v)) = key_of keys r"
  by (simp add: key_of_def)

lemma key_of_select: "set keys \<subseteq> set cols \<Longrightarrow> key_of keys (select cols r) = key_of keys r"
  by (auto simp: key_of_def select_def)

lemma key_overwrite:
  "''created_at'' \<notin> set keys \<Longrightarrow> key_of keys s = key_of keys t \<Longrightarrow> key_of keys (overwrite ign cols s t) = key_of keys t"
  by (simp add: overwrite_def key_of_created_at)

text \<open>The source row that a stored row meets: an offered row, or a row of keys to delete.\<close>

definition offered :: "upsert_options \<Rightarrow> string list \<Rightarrow> row list \<Rightarrow> row \<Rightarrow> row option" where
  "offered opt keys src t = (case by_key keys src (key_of keys t) of
     Some s \<Rightarrow> Some (case uo_delete_keys opt of None \<Rightarrow> s | Some dk \<Rightarrow> s(''_delete'' := BoolV False))
   | None \<Rightarrow> (case uo_delete_keys opt of None \<Rightarrow> None
     | Some dk \<Rightarrow> map_option (\<lambda>r. (select keys r)(''_delete'' := BoolV True)) (by_key keys (df_rows dk) (key_of keys t))))"

lemma filter_drop_duplicates_key:
  assumes "\<not> has_null (key_of keys t)"
  shows "filter (\<lambda>s. holds (join_on keys s t)) (drop_duplicates keys rows) =
    (case by_key keys rows (key_of keys t) of None \<Rightarrow> [] | Some s \<Rightarrow> [s])"
  unfolding drop_duplicates_def
proof (induction rows)
  case (Cons r rows)
  show ?case
  proof (cases "key_of keys r = key_of keys t")
    case True
    then have "filter (\<lambda>s. holds (join_on keys s t)) (filter (\<lambda>y. key_of keys y \<noteq> key_of keys r) (keep_first (key_of keys) rows)) = []"
      by (auto simp: filter_empty_conv holds_join_on)
    with True assms show ?thesis by (simp add: holds_join_on by_key_def)
  next
    case False
    have "filter (\<lambda>s. holds (join_on keys s t)) (filter (\<lambda>y. key_of keys y \<noteq> key_of keys r) (keep_first (key_of keys) rows)) =
        filter (\<lambda>s. holds (join_on keys s t)) (keep_first (key_of keys) rows)"
      using False by (subst filter_filter, intro filter_cong) (auto simp: holds_join_on)
    with False Cons show ?thesis by (simp add: holds_join_on by_key_def)
  qed
qed (simp add: by_key_def)

lemma upsert_matches:
  assumes "upsert_ok opt keys (df_cols d) (df_rows d) tgt" and "t \<in> set tgt"
  shows "matches (merge_statement opt layer keys (df_cols d)) (merge_changes opt keys d) t =
    (case offered opt keys (df_rows d) t of None \<Rightarrow> [] | Some s \<Rightarrow> [s])"
proof -
  note ok = assms(1) [unfolded upsert_ok_def]
  have nn: "\<not> has_null (key_of keys t)" using ok assms(2) by (simp add: keyed_def)
  have del: "''_delete'' \<notin> set keys" using ok by auto
  let ?src = "df_rows d" and ?on = "\<lambda>s. holds (join_on keys s t)"
  have src: "filter ?on ?src = (case by_key keys ?src (key_of keys t) of None \<Rightarrow> [] | Some s \<Rightarrow> [s])"
    using ok nn by (intro filter_unique_key) simp_all
  have inj: "?on (r(''_delete'' := v)) = ?on r" "?on ((select keys r)(''_delete'' := v)) = ?on r" "?on (select keys r) = ?on r" for r v
    by (simp_all add: holds_join_on key_of_delete [OF del] key_of_select)
  show ?thesis
  proof (cases "uo_delete_keys opt")
    case None
    with ok src show ?thesis
      by (simp add: matches_def plain_statement merge_changes_def offered_def split: option.splits)
  next
    case (Some dk)
    have m: "matches (merge_statement opt layer keys (df_cols d)) (merge_changes opt keys d) t =
        map (\<lambda>r. r(''_delete'' := BoolV False)) (filter ?on ?src) @
        map (\<lambda>r. (select keys r)(''_delete'' := BoolV True)) (filter ?on (drop_duplicates keys (df_rows dk)))"
      using ok Some by (simp add: matches_def plain_statement merge_changes_def filter_map comp_def inj)
    have disj: "by_key keys (df_rows dk) (key_of keys t) = None" if "by_key keys ?src (key_of keys t) = Some s" for s
    proof -
      have disj: "deleted_keys opt keys \<inter> key_of keys ` set ?src = {}" using ok by simp
      have "key_of keys t \<in> key_of keys ` set ?src" using by_key_Some [OF that] by (metis imageI)
      then have "key_of keys t \<notin> deleted_keys opt keys" using disj by blast
      moreover have "\<forall>r \<in> set (df_rows dk). key_of keys r \<in> deleted_keys opt keys" by (simp add: deleted_keys_def Some)
      ultimately show ?thesis unfolding by_key_None by metis
    qed
    show ?thesis unfolding m src filter_drop_duplicates_key [OF nn]
      using disj Some by (simp add: offered_def split: option.splits)
  qed
qed

lemma upsert_inserts:
  assumes "upsert_ok opt keys (df_cols d) (df_rows d) tgt"
  shows "merge_inserts (merge_statement opt layer keys (df_cols d)) (merge_changes opt keys d) tgt =
    new_rows keys (df_rows d) tgt"
proof -
  note ok = assms [unfolded upsert_ok_def]
  have del: "''_delete'' \<notin> set keys" using ok by auto
  have new: "(\<forall>t \<in> set tgt. \<not> holds (join_on keys s t)) \<longleftrightarrow> by_key keys tgt (key_of keys s) = None" for s
    using ok by (auto simp: holds_join_on by_key_None keyed_def)
  have sel: "select (df_cols d) (s(''_delete'' := v)) = s" "select (df_cols d) s = s" if "s \<in> set (df_rows d)" for s v
    using ok that by (auto simp: select_def in_columns_def fun_eq_iff)
  have all: "map (\<lambda>s. select (df_cols d) (f s)) (filter P (df_rows d)) = filter P (df_rows d)"
    if "\<And>s. s \<in> set (df_rows d) \<Longrightarrow> select (df_cols d) (f s) = s" for f P
    using that by (intro map_idI) simp
  note all1 = all [of "\<lambda>s. s"] all [of "\<lambda>s. s(''_delete'' := BoolV False)"]
  show ?thesis
  proof (cases "uo_delete_keys opt")
    case None
    with ok show ?thesis
      by (simp add: merge_inserts_def plain_statement merge_changes_def new new_rows_def sel all1)
  next
    case (Some dk)
    with ok show ?thesis
      by (simp add: merge_inserts_def plain_statement merge_changes_def new new_rows_def sel filter_map comp_def
          bool3_of_def key_of_delete [OF del] all1)
  qed
qed

text \<open>The rows the upsert leaves, and the table they form.\<close>

definition upserted :: "upsert_options \<Rightarrow> string \<Rightarrow> string list \<Rightarrow> df \<Rightarrow> row list \<Rightarrow> row list" where
  "upserted opt layer keys d tgt =
     List.map_filter (\<lambda>t. upsert_key opt layer keys (df_cols d) (key_of keys t) (by_key keys (df_rows d) (key_of keys t)) (Some t)) tgt @
     new_rows keys (df_rows d) tgt"

lemma upsert_exec:
  assumes "upsert_ok opt keys (df_cols d) (df_rows d) tgt"
  shows "\<exists>touched. merge_exec (merge_statement opt layer keys (df_cols d)) (merge_changes opt keys d) tgt =
    Inr (upserted opt layer keys d tgt, touched) \<and> (\<not> touched \<longrightarrow> upserted opt layer keys d tgt = tgt)"
proof -
  note ok = assms [unfolded upsert_ok_def]
  let ?m = "merge_statement opt layer keys (df_cols d)" and ?src = "df_rows d"
  let ?g = "offered opt keys ?src"
  let ?f = "\<lambda>t. case ?g t of None \<Rightarrow> if ms_delete_not_matched_by_source ?m then None else Some t
       | Some s \<Rightarrow> apply_matched (ms_matched ?m) s t"
  let ?u = "\<lambda>t. upsert_key opt layer keys (df_cols d) (key_of keys t) (by_key keys ?src (key_of keys t)) (Some t)"
  have cols: "\<forall>c. c \<notin> set (df_cols d) \<longrightarrow> r c = Null" if "r \<in> set ?src \<union> set tgt" for r
    using ok that by (auto simp: in_columns_def)
  have row: "?f t = ?u t \<and> ((case ?g t of None \<Rightarrow> ms_delete_not_matched_by_source ?m
      | Some s \<Rightarrow> merge_rewrites ?m s t) \<or> ?u t = Some t)" if t: "t \<in> set tgt" for t
  proof (cases "by_key keys ?src (key_of keys t)")
    case (Some s)
    then have s: "s \<in> set ?src" using by_key_Some by blast
    obtain v where g: "?g t = Some (s(''_delete'' := v))" and v: "uo_delete_keys opt \<noteq> None \<longrightarrow> v = BoolV False"
    proof (cases "uo_delete_keys opt")
      case None
      then have "?g t = Some (s(''_delete'' := s ''_delete''))" using Some by (simp add: offered_def)
      with None that show thesis by blast
    next
      case (Some dk)
      then show thesis using that [of "BoolV False"] \<open>by_key keys ?src (key_of keys t) = Some s\<close> by (simp add: offered_def)
    qed
    note pm = plain_matched [OF conjunct1 [OF ok] cols cols _ v, of s t layer keys]
    show ?thesis using s t ok Some unfolding g by (simp add: pm upsert_key_def overwrite_def merge_rewrites_def)
  next
    case None
    show ?thesis
    proof (cases "uo_delete_keys opt")
      case None
      with \<open>by_key keys ?src (key_of keys t) = None\<close> ok show ?thesis
        by (simp add: offered_def upsert_key_def plain_statement deleted_keys_def)
    next
      case (Some dk)
      have "by_key keys (df_rows dk) (key_of keys t) \<noteq> None \<longleftrightarrow> key_of keys t \<in> deleted_keys opt keys"
        using Some by (simp add: deleted_keys_def by_key_None image_iff) metis
      moreover have "ms_matched ?m = MatchedDelete (\<lambda>s t. bool3_of (s ''_delete'')) # tl (ms_matched ?m)"
        using ok Some by (simp add: merge_statement_def plain_upsert_def delete_condition_def Let_def and_newer_def
            lexicographic_newer_condition_def)
      ultimately show ?thesis using ok Some \<open>by_key keys ?src (key_of keys t) = None\<close>
        by (cases "by_key keys (df_rows dk) (key_of keys t)"; cases "ms_matched ?m")
          (auto simp: offered_def upsert_key_def plain_statement bool3_of_def merge_rewrites_def)
    qed
  qed
  have f: "List.map_filter ?f tgt = List.map_filter ?u tgt"
    using row by (induction tgt) (simp_all add: map_filter_simps cong: option.case_cong)
  have id: "List.map_filter ?u tgt = tgt" if "\<forall>t \<in> set tgt. ?u t = Some t"
    using that by (induction tgt) (simp_all add: map_filter_simps)
  let ?touched = "new_rows keys ?src tgt \<noteq> [] \<or> (\<exists>t \<in> set tgt. case ?g t of
      None \<Rightarrow> ms_delete_not_matched_by_source ?m | Some s \<Rightarrow> merge_rewrites ?m s t)"
  have same: "upserted opt layer keys d tgt = tgt" if "\<not> ?touched"
  proof -
    have "new_rows keys ?src tgt = []" "\<forall>t \<in> set tgt. ?u t = Some t" using row that by blast+
    with id show ?thesis by (simp add: upserted_def)
  qed
  have exec: "merge_exec ?m (merge_changes opt keys d) tgt = Inr (upserted opt layer keys d tgt, ?touched)"
    using merge_exec_one [of tgt ?m "merge_changes opt keys d" ?g, OF upsert_matches [OF assms]]
    unfolding upsert_inserts [OF assms] f upserted_def .
  show ?thesis by (rule exI [of _ ?touched], rule conjI, rule exec, rule impI, rule same)
qed

lemma upserted_by_key:
  assumes "upsert_ok opt keys (df_cols d) (df_rows d) tgt"
  shows "by_key keys (upserted opt layer keys d tgt) k =
    upsert_key opt layer keys (df_cols d) k (by_key keys (df_rows d) k) (by_key keys tgt k)"
    and "keyed keys (upserted opt layer keys d tgt)"
proof -
  note ok = assms [unfolded upsert_ok_def]
  let ?u = "\<lambda>t. upsert_key opt layer keys (df_cols d) (key_of keys t) (by_key keys (df_rows d) (key_of keys t)) (Some t)"
  have key: "key_of keys r' = key_of keys r" if "?u r = Some r'" for r r'
    using that ok by (auto simp: upsert_key_def key_overwrite dest!: by_key_Some split: option.splits if_splits)
  have tgt: "keyed keys tgt" and src: "keyed keys (df_rows d)" using ok by simp_all
  have new: "by_key keys (new_rows keys (df_rows d) tgt) k = (if by_key keys tgt k = None then by_key keys (df_rows d) k else None)"
    unfolding new_rows_def by (rule by_key_filter_keys [where P = "\<lambda>k. by_key keys tgt k = None"])
  have old: "by_key keys (List.map_filter ?u tgt) k = Option.bind (by_key keys tgt k) ?u"
    by (rule by_key_map_filter [OF tgt key])
  show "by_key keys (upserted opt layer keys d tgt) k =
    upsert_key opt layer keys (df_cols d) k (by_key keys (df_rows d) k) (by_key keys tgt k)"
  proof (cases "by_key keys tgt k")
    case None
    then show ?thesis unfolding upserted_def by_key_append old new
      by (simp add: upsert_key_def split: option.splits)
  next
    case (Some t)
    then have "key_of keys t = k" using by_key_Some by blast
    with Some show ?thesis unfolding upserted_def by_key_append old new by (simp split: option.splits)
  qed
  note kf = keyed_map_filter [of keys tgt ?u, OF tgt key]
  have "keyed keys (new_rows keys (df_rows d) tgt)"
    using src by (auto simp: keyed_def new_rows_def distinct_map_filter)
  moreover have "set (map (key_of keys) tgt) \<inter> set (map (key_of keys) (new_rows keys (df_rows d) tgt)) = {}"
    by (auto simp: new_rows_def by_key_None)
  ultimately show "keyed keys (upserted opt layer keys d tgt)"
    unfolding upserted_def using kf by (fastforce simp: keyed_def)
qed

section \<open>The call\<close>

text \<open>
  The upsert of an existing table outside a transaction: it succeeds, the table holds the upserted
  rows, and no other table changes. (A call that is not told its source is non-empty returns without
  a MERGE when there is no change at all.)
\<close>

lemma current_rows_commit:
  "lk_txn_app s = None \<Longrightarrow> current_rows (commit_table ref cols rows ch s) ref = rows"
  by (simp add: current_rows_def commit_table_def txn_seen_def table_or_empty_def latest_commit_def Let_def)

lemma commit_table_cols:
  "lk_txn_app s = None \<Longrightarrow> \<exists>t'. lk_tables (commit_table ref cols rows ch s) ref = Some t' \<and> cm_cols (latest_commit t') = cols \<and>
    dt_commits t' \<noteq> []"
  by (simp add: commit_table_def txn_seen_def latest_commit_def Let_def)

lemma commit_table_other:
  "ref' \<noteq> ref \<Longrightarrow> lk_tables (commit_table ref cols rows ch s) ref' = lk_tables s ref'"
  "lk_txn_app (commit_table ref cols rows ch s) = lk_txn_app s"
  "lk_metadata (commit_table ref cols rows ch s) = lk_metadata s"
  by (simp_all add: commit_table_def Let_def)

lemma df_cols_hide_deleted [simp]: "df_cols (hide_deleted d) = df_cols d"
  by (simp add: hide_deleted_def)

lemma read_table_latest:
  assumes "table_reference (ad_lakehouse ad) layer name = Inr ref" and "lk_tables s (tr_value ref) = Some t"
    and "ad_gold_versions ad = None"
  shows "read_table ad s layer name b = Inr (if layer = ''silver'' \<and> \<not> b
    then hide_deleted \<lparr>df_cols = cm_cols (latest_commit t), df_rows = cm_rows (latest_commit t)\<rparr>
    else \<lparr>df_cols = cm_cols (latest_commit t), df_rows = cm_rows (latest_commit t)\<rparr>)"
  using assms by (simp add: read_table_def read_delta_def delta_table_at_def snapshot_def Let_def)

lemma upsert_table_plain:
  assumes ref: "table_reference (ad_lakehouse ad) layer name = Inr ref" and t: "lk_tables s (tr_value ref) = Some t"
    and ad: "ad_gold_versions ad = None" and txn: "lk_txn_app s = None" and keys: "keys \<noteq> []"
    and exists: "uo_target_exists opt \<noteq> Some False"
    and cols: "set (df_cols d) = set (cm_cols (latest_commit t))"
    and dk: "\<forall>dk. uo_delete_keys opt = Some dk \<longrightarrow> set keys \<subseteq> set (df_cols dk)"
    and ok: "upsert_ok opt keys (df_cols d) (df_rows d) (cm_rows (latest_commit t))"
    and ne: "uo_source_is_nonempty opt \<or> merge_changes opt keys d \<noteq> []"
  shows "\<exists>s'. upsert_table ad d layer name keys opt s = (Inr True, s') \<and>
    current_rows s' (tr_value ref) = upserted opt layer keys d (cm_rows (latest_commit t)) \<and>
    (\<exists>t'. lk_tables s' (tr_value ref) = Some t' \<and> cm_cols (latest_commit t') = cm_cols (latest_commit t)) \<and>
    (\<forall>r. r \<noteq> tr_value ref \<longrightarrow> lk_tables s' r = lk_tables s r) \<and> lk_txn_app s' = None"
proof -
  let ?m = "merge_statement opt layer keys (df_cols d)" and ?ch = "merge_changes opt keys d"
  let ?c = "latest_commit t"
  have valid: "validate_upsert d keys opt = Inr ()"
    using ok keys dk by (auto simp: validate_upsert_def upsert_ok_def plain_upsert_def raise_if_def split: option.splits)
  have ex: "(case uo_target_exists opt of Some b \<Rightarrow> io_return b
      | None \<Rightarrow> io_get (\<lambda>s. table_exists ad s layer name)) s = (Inr True, s)"
    using exists ref t by (auto simp: table_exists_def io_get_def split: option.splits)
  have schema: "and_then (read_table ad s layer name False) (\<lambda>target. validate_schema_match (df_cols d) (df_cols target)) = Inr ()"
    unfolding read_table_latest [OF ref t ad] by (simp add: validate_schema_match_def cols)
  obtain touched where m: "merge_exec ?m ?ch (cm_rows ?c) = Inr (upserted opt layer keys d (cm_rows ?c), touched)"
      "\<not> touched \<longrightarrow> upserted opt layer keys d (cm_rows ?c) = cm_rows ?c"
    using upsert_exec [OF ok] by blast
  let ?s = "if touched then commit_table (tr_value ref) (cm_cols ?c) (upserted opt layer keys d (cm_rows ?c))
      (merge_feed ?m ?ch (cm_rows ?c)) s else s"
  have run: "run_merge (tr_value ref) ?m ?ch s = (Inr (), ?s)"
    using m t txn by (simp add: run_merge_def delta_table_at_def in_transaction_def Let_def)
  obtain target where read: "read_table ad s layer name False = Inr target"
    and match: "validate_schema_match (df_cols d) (df_cols target) = Inr ()"
    using schema by (auto simp: and_then_Inr_iff)
  have call: "upsert_table ad d layer name keys opt s = (Inr True, ?s)"
    using ne by (auto simp: upsert_table_def valid ref io_bind_def [of "case uo_target_exists opt of Some b \<Rightarrow> io_return b
      | None \<Rightarrow> io_get (\<lambda>s. table_exists ad s layer name)"] ex io_bind_def [of "io_get f" for f] io_get_def read match
      io_bind_def [of "run_merge a b c" for a b c] run)
  have rows: "current_rows ?s (tr_value ref) = upserted opt layer keys d (cm_rows ?c)"
    using m(2) t txn by (simp add: current_rows_commit) (simp add: current_rows_def)
  have t': "\<exists>t'. lk_tables ?s (tr_value ref) = Some t' \<and> cm_cols (latest_commit t') = cm_cols ?c"
    using t commit_table_cols [OF txn, of "tr_value ref" "cm_cols ?c" "upserted opt layer keys d (cm_rows ?c)"
      "merge_feed ?m ?ch (cm_rows ?c)"] by (cases touched) auto
  show ?thesis
    by (rule exI [of _ ?s], intro conjI call rows t' allI impI) (simp_all add: commit_table_other txn)
qed

end
