(* ===== verification/ReconcileQueue.thy ===== *)
theory ReconcileQueue
  imports UpsertSpec
begin

text \<open>
  The reconcile queue (\<open>control/gold_reconcile_queue.py\<close>): the durable hand-off from the Silver stream
  to the Gold publication. A committed micro-batch enqueues the orders it touched; the control thread
  takes a bounded prefix of the pending rows, publishes Gold and marks these rows published.
\<close>

section \<open>The queue table\<close>

definition GOLD_RECONCILE_QUEUE_TABLE :: string where
  "GOLD_RECONCILE_QUEUE_TABLE = ''gold_reconcile_queue''"

definition queue_columns :: "string list" where
  "queue_columns = [''request_id'', ''scope_key'', ''order_id'', ''requires_fact_readiness'', ''status'',
     ''created_at'', ''updated_at'']"

definition queue_keys :: "string list" where
  "queue_keys = [''request_id'', ''scope_key'']"

record pending_scope =
  ps_keys :: "(string \<times> string) list"
  ps_affected_order_ids :: "int list option"
  ps_requires_fact_readiness :: bool

definition queue_upsert :: upsert_options where
  "queue_upsert = (soft_upsert [])\<lparr>uo_target_exists := Some True, uo_source_is_nonempty := True\<rparr>"

section \<open>Enqueue\<close>

text \<open>
  The scopes of a request: all orders, one scope for each order, or only metadata. An order id that
  is not positive widens the request to all orders.
\<close>

definition queue_scopes :: "int list option \<Rightarrow> (string \<times> val) list" where
  "queue_scopes affected = (case affected of
     None \<Rightarrow> [(''all-orders'', Null)]
   | Some ids \<Rightarrow>
       if ids = [] then [(''metadata-only'', Null)]
       else let valid_ids = sort (remdups (filter (\<lambda>i. i > 0) ids));
                invalid_ids = sort (remdups (filter (\<lambda>i. i \<notin> set valid_ids) ids))
            in if invalid_ids \<noteq> [] then [(''all-orders'', Null)]
               else map (\<lambda>i. (''order:'' @ int_text i, IntV i)) valid_ids)"

definition queue_row :: "string \<Rightarrow> int \<Rightarrow> bool \<Rightarrow> string \<times> val \<Rightarrow> row" where
  "queue_row request_id now ready scope = row_of
     [(''request_id'', StrV request_id), (''scope_key'', StrV (fst scope)), (''order_id'', snd scope),
      (''requires_fact_readiness'', BoolV ready), (''status'', StrV ''pending''),
      (''created_at'', TsV now), (''updated_at'', TsV now)]"

definition request_rows :: "string \<Rightarrow> int list option \<Rightarrow> bool \<Rightarrow> int \<Rightarrow> df" where
  "request_rows request_id affected ready now =
     \<lparr>df_cols = queue_columns, df_rows = map (queue_row request_id now ready) (queue_scopes affected)\<rparr>"

definition enqueue :: "adapter \<Rightarrow> int \<Rightarrow> string \<Rightarrow> int list option \<Rightarrow> bool \<Rightarrow> unit io" where
  "enqueue ad now request_id affected ready =
     (let d = request_rows request_id affected ready now
      in io_bind (io_get (\<lambda>s. table_exists ad s ''silver'' GOLD_RECONCILE_QUEUE_TABLE)) (\<lambda>exists.
         if \<not> exists then write_table ad d ''silver'' GOLD_RECONCILE_QUEUE_TABLE False
         else io_bind (upsert_table ad d ''silver'' GOLD_RECONCILE_QUEUE_TABLE queue_keys queue_upsert)
                (\<lambda>_. io_return ())))"

section \<open>Pending scopes\<close>

text \<open>\<open>str\<close> of a text cell.\<close>

definition str_of_cell :: "val \<Rightarrow> string" where
  "str_of_cell v = (case v of StrV s \<Rightarrow> s | _ \<Rightarrow> ''None'')"

definition queue_row_key :: "row \<Rightarrow> string \<times> string" where
  "queue_row_key r = (str_of_cell (r ''request_id''), str_of_cell (r ''scope_key''))"

definition is_pending :: "row \<Rightarrow> bool" where
  "is_pending r \<longleftrightarrow> holds (eq3 (r ''status'') (StrV ''pending''))"

fun positive_ids :: "val list \<Rightarrow> int list" where
  "positive_ids [] = []"
| "positive_ids (IntV i # vs) = (if i > 0 then i # positive_ids vs else positive_ids vs)"
| "positive_ids (_ # vs) = positive_ids vs"

definition pending :: "adapter \<Rightarrow> nat \<Rightarrow> lake \<Rightarrow> pending_scope option res" where
  "pending ad max_order_ids s =
     and_then (table_exists ad s ''silver'' GOLD_RECONCILE_QUEUE_TABLE) (\<lambda>exists.
     if \<not> exists then Inr None
     else and_then (read_table ad s ''silver'' GOLD_RECONCILE_QUEUE_TABLE False) (\<lambda>d.
       let rows = take (max_order_ids + 1) (where3 (\<lambda>r. eq3 (r ''status'') (StrV ''pending'')) (df_rows d))
       in if rows = [] then Inr None
          else Inr (Some \<lparr>ps_keys = map queue_row_key rows,
            ps_affected_order_ids =
              (if (\<exists>r \<in> set rows. r ''scope_key'' = StrV ''all-orders'') \<or> max_order_ids < length rows then None
               else Some (positive_ids (map (\<lambda>r. r ''order_id'') rows))),
            ps_requires_fact_readiness = (\<exists>r \<in> set rows. r ''requires_fact_readiness'' = BoolV True)\<rparr>)))"

section \<open>Completion\<close>

definition completed_rows :: "int \<Rightarrow> (string \<times> string) list \<Rightarrow> row list \<Rightarrow> row list" where
  "completed_rows now keys rows =
     concat (map (\<lambda>(request_id, scope_key).
       map (\<lambda>r. r(''status'' := StrV ''published'', ''updated_at'' := TsV now))
         (filter (\<lambda>r. r ''request_id'' = StrV request_id \<and> r ''scope_key'' = StrV scope_key) rows)) keys)"

definition complete :: "adapter \<Rightarrow> int \<Rightarrow> (string \<times> string) list \<Rightarrow> unit io" where
  "complete ad now keys =
     (if keys = [] then io_return ()
      else io_bind (io_get (\<lambda>s. read_table ad s ''silver'' GOLD_RECONCILE_QUEUE_TABLE False)) (\<lambda>d.
        io_bind (upsert_table ad
          \<lparr>df_cols = queue_keys @ filter (\<lambda>c. c \<notin> set queue_keys) (df_cols d),
           df_rows = completed_rows now keys (df_rows d)\<rparr>
          ''silver'' GOLD_RECONCILE_QUEUE_TABLE queue_keys queue_upsert) (\<lambda>_. io_return ())))"

section \<open>The queue as a set of open scopes\<close>

definition queue_row_ok :: "row \<Rightarrow> bool" where
  "queue_row_ok r \<longleftrightarrow> (case (r ''request_id'', r ''scope_key'') of (StrV a, StrV b) \<Rightarrow> True | _ \<Rightarrow> False)"

definition queue_ok :: "row list \<Rightarrow> bool" where
  "queue_ok rows \<longleftrightarrow> keyed queue_keys rows \<and> in_columns queue_columns rows \<and> list_all queue_row_ok rows"

definition queue_reference :: "adapter \<Rightarrow> string" where
  "queue_reference ad = (case table_reference (ad_lakehouse ad) ''silver'' GOLD_RECONCILE_QUEUE_TABLE of
     Inl e \<Rightarrow> [] | Inr ref \<Rightarrow> tr_value ref)"

definition queue_rows :: "adapter \<Rightarrow> lake \<Rightarrow> row list" where
  "queue_rows ad s = current_rows s (queue_reference ad)"

text \<open>
  A session that reads and writes the queue: the queue has a location, no transaction is open, no
  Gold snapshot is pinned, and the table, if it exists, has the queue's columns and distinct keys.
\<close>

definition queue_ready :: "adapter \<Rightarrow> lake \<Rightarrow> bool" where
  "queue_ready ad s \<longleftrightarrow> ad_gold_versions ad = None \<and> lk_txn_app s = None \<and>
     isl (table_reference (ad_lakehouse ad) ''silver'' GOLD_RECONCILE_QUEUE_TABLE) = False \<and>
     (case lk_tables s (queue_reference ad) of None \<Rightarrow> True
      | Some t \<Rightarrow> cm_cols (latest_commit t) = queue_columns) \<and>
     queue_ok (queue_rows ad s)"

definition pending_keys :: "adapter \<Rightarrow> lake \<Rightarrow> (string \<times> string) set" where
  "pending_keys ad s = queue_row_key ` {r \<in> set (queue_rows ad s). is_pending r}"

lemma queue_key_eq:
  "queue_row_ok r \<Longrightarrow> key_of queue_keys r = [StrV (fst (queue_row_key r)), StrV (snd (queue_row_key r))]"
  by (auto simp: queue_row_ok_def queue_keys_def key_of_def queue_row_key_def str_of_cell_def split: val.splits)

lemma queue_key_iff:
  assumes "queue_row_ok r" "queue_row_ok r'"
  shows "key_of queue_keys r = key_of queue_keys r' \<longleftrightarrow> queue_row_key r = queue_row_key r'"
  by (simp add: queue_key_eq assms prod_eq_iff)

lemma queue_ready_reference:
  assumes "queue_ready ad s"
  obtains ref where "table_reference (ad_lakehouse ad) ''silver'' GOLD_RECONCILE_QUEUE_TABLE = Inr ref"
    and "queue_reference ad = tr_value ref"
  using assms by (cases "table_reference (ad_lakehouse ad) ''silver'' GOLD_RECONCILE_QUEUE_TABLE")
    (auto simp: queue_ready_def queue_reference_def)

text \<open>In the queue every column other than the key and the creation time is compared.\<close>

lemma overwrite_queue:
  assumes "in_columns queue_columns [s, t]" "key_of queue_keys s = key_of queue_keys t"
  shows "overwrite (ignored_columns ''silver'' queue_keys) queue_columns s t = s(''created_at'' := t ''created_at'')"
proof (cases "rows_equal_on (ignored_columns ''silver'' queue_keys) queue_columns s t")
  case True
  have "s c = t c" if "c \<noteq> ''created_at''" for c
  proof (cases "c \<in> set queue_columns")
    case True
    with \<open>rows_equal_on _ _ s t\<close> assms(2) that show ?thesis
      by (auto simp: rows_equal_on_def ignored_columns_def queue_columns_def queue_keys_def key_of_def)
  next
    case False
    with assms(1) show ?thesis by (auto simp: in_columns_def)
  qed
  then show ?thesis by (auto simp: overwrite_def True fun_eq_iff)
qed (simp add: overwrite_def)

lemma queue_columns_facts:
  "set queue_keys \<subseteq> set queue_columns" "''_delete'' \<notin> set queue_columns" "''created_at'' \<notin> set queue_keys"
  by (simp_all add: queue_keys_def queue_columns_def)

lemma queue_upsert_ok:
  assumes "queue_ok src" "queue_ok tgt" "set cols = set queue_columns"
  shows "upsert_ok queue_upsert queue_keys cols src tgt"
  using assms queue_columns_facts
  by (simp add: upsert_ok_def queue_ok_def plain_upsert_def queue_upsert_def soft_upsert_def deleted_keys_def
      in_columns_def)

lemma queue_row_update:
  assumes "c \<in> set queue_columns" "c \<notin> set queue_keys"
  shows "queue_row_ok (q(c := v)) = queue_row_ok q" "in_columns queue_columns [q(c := v)] = in_columns queue_columns [q]"
    "queue_row_key (q(c := v)) = queue_row_key q"
  using assms by (auto simp: queue_row_ok_def in_columns_def queue_row_key_def queue_keys_def)

lemma queue_created_at: "''created_at'' \<in> set queue_columns" "''created_at'' \<notin> set queue_keys"
  by (simp_all add: queue_keys_def queue_columns_def)

text \<open>One keyed write to the queue: the offered rows replace the rows of their keys.\<close>

lemma queue_write:
  assumes ready: "queue_ready ad s" and t: "lk_tables s (queue_reference ad) = Some t"
    and d: "queue_ok (df_rows d)" "df_cols d = queue_columns"
  shows "\<exists>s'. upsert_table ad d ''silver'' GOLD_RECONCILE_QUEUE_TABLE queue_keys queue_upsert s = (Inr True, s') \<and>
    queue_ready ad s' \<and> lk_tables s' (queue_reference ad) \<noteq> None \<and>
    (\<forall>k. by_key queue_keys (queue_rows ad s') k = (case by_key queue_keys (df_rows d) k of
       None \<Rightarrow> by_key queue_keys (queue_rows ad s) k
     | Some r \<Rightarrow> Some (case by_key queue_keys (queue_rows ad s) k of None \<Rightarrow> r
         | Some r' \<Rightarrow> r(''created_at'' := r' ''created_at''))))"
proof -
  obtain ref where ref: "table_reference (ad_lakehouse ad) ''silver'' GOLD_RECONCILE_QUEUE_TABLE = Inr ref"
    "queue_reference ad = tr_value ref" by (rule queue_ready_reference [OF ready])
  have rows: "queue_rows ad s = cm_rows (latest_commit t)" using t by (simp add: queue_rows_def current_rows_def)
  have tgt: "queue_ok (cm_rows (latest_commit t))" and cols: "cm_cols (latest_commit t) = queue_columns"
    using ready t by (simp_all add: queue_ready_def rows)
  have ok: "upsert_ok queue_upsert queue_keys (df_cols d) (df_rows d) (cm_rows (latest_commit t))"
    by (rule queue_upsert_ok [OF d(1) tgt]) (simp add: d(2))
  let ?new = "upserted queue_upsert ''silver'' queue_keys d (cm_rows (latest_commit t))"
  obtain s' where s': "upsert_table ad d ''silver'' GOLD_RECONCILE_QUEUE_TABLE queue_keys queue_upsert s = (Inr True, s')"
      "current_rows s' (tr_value ref) = ?new"
      "\<exists>t'. lk_tables s' (tr_value ref) = Some t' \<and> cm_cols (latest_commit t') = cm_cols (latest_commit t)"
      "lk_txn_app s' = None"
    using upsert_table_plain [OF ref(1) _ _ _ _ _ _ _ ok, of s] ready t ref(2) cols d(2)
    by (auto simp: queue_ready_def queue_upsert_def soft_upsert_def queue_keys_def)
  have key: "by_key queue_keys ?new k = (case by_key queue_keys (df_rows d) k of
       None \<Rightarrow> by_key queue_keys (queue_rows ad s) k
     | Some r \<Rightarrow> Some (case by_key queue_keys (queue_rows ad s) k of None \<Rightarrow> r
         | Some r' \<Rightarrow> r(''created_at'' := r' ''created_at'')))" for k
  proof -
    have ow: "overwrite (ignored_columns ''silver'' queue_keys) queue_columns r r' = r(''created_at'' := r' ''created_at'')"
      if "by_key queue_keys (df_rows d) k = Some r" "by_key queue_keys (queue_rows ad s) k = Some r'" for r r'
      using by_key_Some [OF that(1)] by_key_Some [OF that(2)] d(1) tgt
      by (intro overwrite_queue) (auto simp: queue_ok_def in_columns_def rows)
    show ?thesis using ow unfolding upserted_by_key(1) [OF ok] rows
      by (auto simp: upsert_key_def d(2) deleted_keys_def queue_upsert_def soft_upsert_def split: option.splits)
  qed
  have keyed: "keyed queue_keys ?new" by (rule upserted_by_key(2) [OF ok])
  have row_ok: "queue_row_ok r \<and> in_columns queue_columns [r]" if "r \<in> set ?new" for r
  proof -
    have "by_key queue_keys ?new (key_of queue_keys r) = Some r" by (rule by_key_in [OF keyed that])
    then have "(\<exists>q \<in> set (df_rows d). r = q \<or> (\<exists>v. r = q(''created_at'' := v))) \<or> r \<in> set (queue_rows ad s)"
      unfolding key by (auto dest: by_key_Some split: option.splits)
    moreover have "queue_row_ok q \<and> in_columns queue_columns [q]" if "q \<in> set (df_rows d) \<union> set (queue_rows ad s)" for q
      using d(1) tgt that by (auto simp: queue_ok_def list_all_iff in_columns_def rows)
    ultimately show ?thesis using queue_row_update(1,2) [OF queue_created_at] by blast
  qed
  have "queue_ok ?new" using keyed row_ok by (auto simp: queue_ok_def list_all_iff in_columns_def)
  then have "queue_ready ad s'"
    using ready s' ref(2) cols by (auto simp: queue_ready_def queue_rows_def)
  moreover have "queue_rows ad s' = ?new" using s'(2) by (simp add: queue_rows_def ref(2))
  ultimately show ?thesis using s'(1,3) key ref(2) by (intro exI [of _ s']) auto
qed

section \<open>What the operations do to it\<close>

fun text_value :: "string \<Rightarrow> nat" where
  "text_value s = foldl (\<lambda>n c. n * 10 + (of_char c - 48)) 0 s"

lemma digit_text_value: "text_value (digit_text n) = n \<and> CHR ''-'' \<notin> set (digit_text n)"
proof (induction n rule: digit_text.induct)
  case (1 n)
  have digit: "of_char (char_of (48 + i :: nat)) = (48 + i :: nat)" if "i < 10" for i :: nat
    using that by simp
  have minus: "CHR ''-'' \<noteq> char_of (48 + i :: nat)" if "i < 10" for i
  proof
    assume "CHR ''-'' = char_of (48 + i :: nat)"
    then have "of_char (CHR ''-'') = (48 + i :: nat)" using digit [OF that] by metis
    then show False by simp
  qed
  show ?case
  proof (cases "n < 10")
    case True
    with digit [of n] minus [of n] show ?thesis by simp
  next
    case False
    with 1 digit [of "n mod 10"] minus [of "n mod 10"] show ?thesis
      by (subst digit_text.simps, subst (2) digit_text.simps) (simp del: digit_text.simps)
  qed
qed

lemma inj_int_text: "0 \<le> i \<Longrightarrow> 0 \<le> j \<Longrightarrow> int_text i = int_text j \<Longrightarrow> i = j"
  using digit_text_value [of "nat i"] digit_text_value [of "nat j"]
  by (simp add: int_text_def del: digit_text.simps) (metis eq_nat_nat_iff)

lemma distinct_queue_scopes: "distinct (map fst (queue_scopes affected))"
proof -
  have "distinct (map (\<lambda>i. ''order:'' @ int_text i) (sort (remdups (filter (\<lambda>i. i > 0) ids))))" for ids
    by (subst distinct_map) (simp, rule inj_onI, simp add: inj_int_text)
  then have "distinct (map fst (map (\<lambda>i. (''order:'' @ int_text i, IntV i)) (sort (remdups (filter (\<lambda>i. i > 0) ids)))))" for ids
    by (simp only: map_map comp_def fst_conv)
  then show ?thesis unfolding queue_scopes_def Let_def by (cases affected) (simp_all only: option.case split: if_split, auto)
qed

lemma queue_row_fields [simp]:
  "queue_row_key (queue_row rid now ready sc) = (rid, fst sc)" "is_pending (queue_row rid now ready sc)"
  "queue_row_ok (queue_row rid now ready sc)" "in_columns queue_columns [queue_row rid now ready sc]"
  by (simp_all add: queue_row_key_def queue_row_def row_of_def str_of_cell_def is_pending_def queue_row_ok_def
      in_columns_def queue_columns_def)

lemma queue_ok_keys:
  assumes "list_all queue_row_ok rows"
  shows "keyed queue_keys rows \<longleftrightarrow> distinct (map queue_row_key rows)"
proof -
  let ?f = "\<lambda>(a, b). [StrV a, StrV b]"
  have "map (key_of queue_keys) rows = map ?f (map queue_row_key rows)"
    using assms by (simp add: queue_key_eq list_all_iff split_beta)
  moreover have "distinct (map ?f xs) = distinct xs" for xs
    by (subst distinct_map) (auto intro: inj_onI)
  moreover have "\<not> has_null (key_of queue_keys r)" if "r \<in> set rows" for r
    using assms that by (simp add: queue_key_eq list_all_iff has_null_def)
  ultimately show ?thesis unfolding keyed_def by metis
qed

lemma request_rows_ok: "queue_ok (df_rows (request_rows rid affected ready now))"
proof -
  have "list_all queue_row_ok (df_rows (request_rows rid affected ready now))"
    by (simp add: request_rows_def list_all_iff)
  moreover have "distinct (map queue_row_key (df_rows (request_rows rid affected ready now)))"
    using distinct_queue_scopes [of affected] by (simp add: request_rows_def comp_def distinct_map inj_on_def)
  moreover have "in_columns queue_columns (df_rows (request_rows rid affected ready now))"
    using queue_row_fields(4) by (simp add: request_rows_def in_columns_def)
  ultimately show ?thesis by (simp add: queue_ok_def queue_ok_keys)
qed

text \<open>Membership by key.\<close>

lemma queue_member:
  assumes "queue_ready ad s"
  shows "r \<in> set (queue_rows ad s) \<longleftrightarrow> by_key queue_keys (queue_rows ad s) (key_of queue_keys r) = Some r"
  using assms by (auto simp: queue_ready_def queue_ok_def intro: by_key_in dest: by_key_Some)

lemma enqueue_refines:
  assumes ready: "queue_ready ad s"
  shows "\<exists>s'. enqueue ad now rid affected ready s = (Inr (), s') \<and> queue_ready ad s' \<and>
    (\<forall>k. by_key queue_keys (queue_rows ad s') k = (case by_key queue_keys (df_rows (request_rows rid affected ready now)) k of
       None \<Rightarrow> by_key queue_keys (queue_rows ad s) k
     | Some r \<Rightarrow> Some (case by_key queue_keys (queue_rows ad s) k of None \<Rightarrow> r
         | Some r' \<Rightarrow> r(''created_at'' := r' ''created_at''))))"
proof -
  let ?d = "request_rows rid affected ready now"
  obtain ref where ref: "table_reference (ad_lakehouse ad) ''silver'' GOLD_RECONCILE_QUEUE_TABLE = Inr ref"
    "queue_reference ad = tr_value ref" by (rule queue_ready_reference [OF ready])
  have cols: "df_cols ?d = queue_columns" by (simp add: request_rows_def)
  have exists: "table_exists ad s ''silver'' GOLD_RECONCILE_QUEUE_TABLE = Inr (lk_tables s (queue_reference ad) \<noteq> None)"
    by (simp add: table_exists_def ref)
  show ?thesis
  proof (cases "lk_tables s (queue_reference ad)")
    case None
    let ?s' = "commit_table (tr_value ref) (df_cols ?d) (df_rows ?d) (map (Pair ''delete'') (current_rows s (tr_value ref)) @
        map (Pair ''insert'') (df_rows ?d)) s"
    have run: "enqueue ad now rid affected ready s = (Inr (), ?s')"
      using None exists by (simp add: enqueue_def io_bind_def io_get_def write_table_def ref Let_def)
    have txn: "lk_txn_app s = None" using ready by (simp add: queue_ready_def)
    have rows: "queue_rows ad ?s' = df_rows ?d" "queue_rows ad s = []"
      using None by (simp add: queue_rows_def ref(2) current_rows_commit [OF txn])
        (simp add: queue_rows_def current_rows_def None)
    obtain t' where t': "lk_tables ?s' (queue_reference ad) = Some t'" "cm_cols (latest_commit t') = queue_columns"
      using commit_table_cols [OF txn, of "tr_value ref" "df_cols ?d" "df_rows ?d"] unfolding ref(2) cols by blast
    have ready': "queue_ready ad ?s'"
      unfolding queue_ready_def rows t'(1) option.case commit_table_other(2)
      using ready request_rows_ok t'(2) by (simp add: queue_ready_def)
    have by_key: "(case by_key queue_keys (df_rows ?d) k of None \<Rightarrow> by_key queue_keys (queue_rows ad s) k
        | Some r \<Rightarrow> Some (case by_key queue_keys (queue_rows ad s) k of None \<Rightarrow> r
         | Some r' \<Rightarrow> r(''created_at'' := r' ''created_at''))) = by_key queue_keys (df_rows ?d) k" for k
      unfolding rows by (simp add: by_key_def split: option.split)
    show ?thesis
      by (rule exI [of _ ?s'], intro conjI allI, rule run, rule ready') (simp only: rows(1) by_key)
  next
    case (Some t)
    obtain s' where w: "upsert_table ad ?d ''silver'' GOLD_RECONCILE_QUEUE_TABLE queue_keys queue_upsert s = (Inr True, s')"
        "queue_ready ad s'"
        "\<forall>k. by_key queue_keys (queue_rows ad s') k = (case by_key queue_keys (df_rows ?d) k of
       None \<Rightarrow> by_key queue_keys (queue_rows ad s) k
     | Some r \<Rightarrow> Some (case by_key queue_keys (queue_rows ad s) k of None \<Rightarrow> r
         | Some r' \<Rightarrow> r(''created_at'' := r' ''created_at'')))"
      using queue_write [OF ready Some request_rows_ok cols] by blast
    have "enqueue ad now rid affected ready s = (Inr (), s')"
      using Some exists w(1) by (simp add: enqueue_def io_bind_def io_get_def Let_def)
    with w(2,3) show ?thesis by blast
  qed
qed

definition published :: "int \<Rightarrow> row \<Rightarrow> row" where
  "published now r = r(''status'' := StrV ''published'', ''updated_at'' := TsV now)"

lemma published_simps [simp]:
  "queue_row_ok (published now r) = queue_row_ok r" "queue_row_key (published now r) = queue_row_key r"
  "in_columns queue_columns [published now r] = in_columns queue_columns [r]" "\<not> is_pending (published now r)"
  "published now r ''created_at'' = r ''created_at''"
  by (simp_all add: published_def queue_row_ok_def queue_row_key_def is_pending_def in_columns_def queue_columns_def)

lemma queue_row_text:
  assumes "queue_row_ok r"
  shows "r ''request_id'' = StrV a \<and> r ''scope_key'' = StrV b \<longleftrightarrow> queue_row_key r = (a, b)"
  using assms by (auto simp: queue_row_ok_def queue_row_key_def str_of_cell_def split: val.splits)

lemma completed_rows_set:
  assumes "list_all queue_row_ok rows"
  shows "set (completed_rows now ks rows) = published now ` {r \<in> set rows. queue_row_key r \<in> set ks}"
proof -
  have "filter (\<lambda>r. r ''request_id'' = StrV a \<and> r ''scope_key'' = StrV b) rows = filter (\<lambda>r. queue_row_key r = (a, b)) rows" for a b
    using assms by (intro filter_cong) (auto simp: queue_row_text list_all_iff)
  then show ?thesis unfolding completed_rows_def published_def [abs_def] by (auto simp: image_iff)
qed

lemma completed_rows_ok:
  assumes "queue_ok rows" "distinct ks"
  shows "queue_ok (completed_rows now ks rows)"
proof -
  have ok: "list_all queue_row_ok rows" and keyed: "distinct (map queue_row_key rows)" and cols: "in_columns queue_columns rows"
    using assms(1) by (auto simp: queue_ok_def queue_ok_keys)
  note set = completed_rows_set [OF ok]
  have "distinct (map queue_row_key (completed_rows now ks rows))"
    using assms(2)
  proof (induction ks)
    case (Cons k ks)
    obtain a b where k: "k = (a, b)" by force
    let ?new = "map (published now) (filter (\<lambda>r. queue_row_key r = k) rows)"
    have "filter (\<lambda>r. r ''request_id'' = StrV a \<and> r ''scope_key'' = StrV b) rows = filter (\<lambda>r. queue_row_key r = k) rows"
      using ok by (intro filter_cong) (auto simp: queue_row_text list_all_iff k)
    then have split: "completed_rows now (k # ks) rows = ?new @ completed_rows now ks rows"
      by (simp add: completed_rows_def k published_def [abs_def])
    have "distinct (map queue_row_key ?new)" using keyed by (simp add: comp_def distinct_map_filter)
    moreover have "queue_row_key ` set ?new \<subseteq> {k}" by auto
    moreover have "queue_row_key ` set (completed_rows now ks rows) \<subseteq> set ks" unfolding set by auto
    ultimately show ?case unfolding split using Cons by auto
  qed (simp add: completed_rows_def)
  moreover have "list_all queue_row_ok (completed_rows now ks rows)"
    using ok by (auto simp: list_all_iff set)
  moreover have "in_columns queue_columns (completed_rows now ks rows)"
    using cols published_simps(3) unfolding in_columns_def set by fastforce
  ultimately show ?thesis by (simp add: queue_ok_def queue_ok_keys)
qed

lemma queue_columns_reordered: "queue_keys @ filter (\<lambda>c. c \<notin> set queue_keys) queue_columns = queue_columns"
  by (simp add: queue_keys_def queue_columns_def)

lemma queue_read:
  assumes ready: "queue_ready ad s" and t: "lk_tables s (queue_reference ad) = Some t"
  shows "read_table ad s ''silver'' GOLD_RECONCILE_QUEUE_TABLE False = Inr \<lparr>df_cols = queue_columns, df_rows = queue_rows ad s\<rparr>"
proof -
  obtain ref where ref: "table_reference (ad_lakehouse ad) ''silver'' GOLD_RECONCILE_QUEUE_TABLE = Inr ref"
    "queue_reference ad = tr_value ref" by (rule queue_ready_reference [OF ready])
  show ?thesis
    using ready t unfolding ref(2)
    by (subst read_table_latest [OF ref(1)])
      (auto simp: queue_ready_def ref hide_deleted_def queue_columns_def queue_rows_def current_rows_def)
qed

text \<open>Completing keys publishes their rows and leaves every other row as it is.\<close>

lemma complete_refines:
  assumes ready: "queue_ready ad s" and d: "distinct ks" and sub: "set ks \<subseteq> queue_row_key ` set (queue_rows ad s)"
  shows "\<exists>s'. complete ad now ks s = (Inr (), s') \<and> queue_ready ad s' \<and>
    set (queue_rows ad s') = (\<lambda>r. if queue_row_key r \<in> set ks then published now r else r) ` set (queue_rows ad s)"
proof (cases "ks = []")
  case True
  with ready show ?thesis by (simp add: complete_def)
next
  case False
  with sub have "queue_rows ad s \<noteq> []" by auto
  then obtain t where t: "lk_tables s (queue_reference ad) = Some t"
    by (cases "lk_tables s (queue_reference ad)") (auto simp: queue_rows_def current_rows_def)
  let ?old = "queue_rows ad s"
  have old: "queue_ok ?old" using ready by (simp add: queue_ready_def)
  then have row: "list_all queue_row_ok ?old" and kold: "keyed queue_keys ?old" by (simp_all add: queue_ok_def)
  let ?d = "\<lparr>df_cols = queue_columns, df_rows = completed_rows now ks ?old\<rparr>"
  have new: "queue_ok (df_rows ?d)" using completed_rows_ok [OF old d] by simp
  obtain s' where s': "upsert_table ad ?d ''silver'' GOLD_RECONCILE_QUEUE_TABLE queue_keys queue_upsert s = (Inr True, s')"
      "queue_ready ad s'" and by_key: "\<And>k. by_key queue_keys (queue_rows ad s') k = (case by_key queue_keys (df_rows ?d) k of
       None \<Rightarrow> by_key queue_keys ?old k
     | Some r \<Rightarrow> Some (case by_key queue_keys ?old k of None \<Rightarrow> r | Some r' \<Rightarrow> r(''created_at'' := r' ''created_at'')))"
    using queue_write [OF ready t new] by auto
  have "complete ad now ks s = (Inr (), s')"
    using s'(1) False by (simp add: complete_def io_bind_def io_get_def queue_read [OF ready t] queue_columns_reordered)
  moreover have "set (queue_rows ad s') = (\<lambda>r. if queue_row_key r \<in> set ks then published now r else r) ` set ?old"
  proof -
    have set: "set (df_rows ?d) = published now ` {r \<in> set ?old. queue_row_key r \<in> set ks}"
      by (simp add: completed_rows_set [OF row])
    have key: "by_key queue_keys (df_rows ?d) (key_of queue_keys r) = (if queue_row_key r \<in> set ks then Some (published now r) else None)"
      if r: "r \<in> set ?old" for r
    proof (cases "queue_row_key r \<in> set ks")
      case True
      then have "published now r \<in> set (df_rows ?d)" using r set by blast
      moreover have "key_of queue_keys (published now r) = key_of queue_keys r"
        using r row by (subst queue_key_iff) (auto simp: list_all_iff)
      ultimately show ?thesis using new True by_key_in [of queue_keys "df_rows ?d"] by (fastforce simp: queue_ok_def)
    next
      case False
      have "key_of queue_keys q \<noteq> key_of queue_keys r" if "q \<in> set (df_rows ?d)" for q
        using that False r row unfolding set by (auto simp: queue_key_iff list_all_iff)
      with False show ?thesis by (simp add: by_key_None)
    qed
    have upd: "by_key queue_keys (queue_rows ad s') (key_of queue_keys r) =
        Some (if queue_row_key r \<in> set ks then published now r else r)" if r: "r \<in> set ?old" for r
      unfolding by_key key [OF r] using by_key_in [OF kold r] by (simp add: published_def fun_upd_idem)
    have new_key: "\<exists>q \<in> set ?old. r = (if queue_row_key q \<in> set ks then published now q else q)" if r: "r \<in> set (queue_rows ad s')" for r
    proof -
      have r': "by_key queue_keys (queue_rows ad s') (key_of queue_keys r) = Some r"
        using r queue_member [OF s'(2)] by blast
      have "\<exists>q \<in> set ?old. key_of queue_keys q = key_of queue_keys r"
      proof (cases "by_key queue_keys (df_rows ?d) (key_of queue_keys r)")
        case None
        with r' show ?thesis unfolding by_key by (auto dest: by_key_Some)
      next
        case (Some p)
        then obtain q where "p = published now q" "q \<in> set ?old" "key_of queue_keys p = key_of queue_keys r"
          using by_key_Some [OF Some] unfolding set by blast
        moreover have "key_of queue_keys (published now q) = key_of queue_keys q"
          using calculation(2) row by (subst queue_key_iff) (auto simp: list_all_iff)
        ultimately show ?thesis by metis
      qed
      then obtain q where q: "q \<in> set ?old" "key_of queue_keys q = key_of queue_keys r" by blast
      show ?thesis using upd [OF q(1)] r' q by auto
    qed
    have "(if queue_row_key q \<in> set ks then published now q else q) \<in> set (queue_rows ad s')" if "q \<in> set ?old" for q
      using by_key_Some [OF upd [OF that]] by blast
    with new_key show ?thesis by blast
  qed
  ultimately show ?thesis using s'(2) by blast
qed

section \<open>A bounded work queue\<close>

text \<open>
  The contract between the queue and the control thread: taking returns some open keys whenever there
  are any, and completing them removes exactly them. A loop that takes and completes empties it.
\<close>

locale work_queue =
  fixes invar :: "'s \<Rightarrow> bool"
    and open_keys :: "'s \<Rightarrow> 'k set"
    and take_keys :: "'s \<Rightarrow> 'k list option"
    and finish :: "'k list \<Rightarrow> 's \<Rightarrow> 's"
  assumes finite_open: "invar s \<Longrightarrow> finite (open_keys s)"
    and take_None: "invar s \<Longrightarrow> take_keys s = None \<longleftrightarrow> open_keys s = {}"
    and take_Some: "invar s \<Longrightarrow> take_keys s = Some ks \<Longrightarrow> ks \<noteq> [] \<and> distinct ks \<and> set ks \<subseteq> open_keys s"
    and finish_invar: "invar s \<Longrightarrow> distinct ks \<Longrightarrow> set ks \<subseteq> open_keys s \<Longrightarrow> invar (finish ks s)"
    and finish_open: "invar s \<Longrightarrow> distinct ks \<Longrightarrow> set ks \<subseteq> open_keys s \<Longrightarrow> open_keys (finish ks s) = open_keys s - set ks"
begin

definition round :: "'s \<Rightarrow> 's" where
  "round s = (case take_keys s of None \<Rightarrow> s | Some ks \<Rightarrow> finish ks s)"

lemma round_invar: "invar s \<Longrightarrow> invar (round s)"
  using take_Some by (auto simp: round_def finish_invar split: option.split)

lemma round_open: "invar s \<Longrightarrow> open_keys (round s) \<subseteq> open_keys s"
  using take_Some by (auto simp: round_def finish_open split: option.split)

lemma round_card: "invar s \<Longrightarrow> card (open_keys (round s)) \<le> card (open_keys s) - 1"
proof -
  assume i: "invar s"
  show ?thesis
  proof (cases "take_keys s")
    case None
    then have "open_keys s = {}" using take_None [OF i] by blast
    moreover have "round s = s" unfolding round_def None by simp
    ultimately show ?thesis by simp
  next
    case (Some ks)
    note ks = take_Some [OF i Some]
    then have "open_keys s - set ks \<subset> open_keys s" by (cases ks) auto
    then have "open_keys (round s) \<subset> open_keys s" using i Some ks by (simp add: round_def finish_open)
    with finite_open [OF i] have "card (open_keys (round s)) < card (open_keys s)" by (rule psubset_card_mono)
    then show ?thesis by simp
  qed
qed

lemma rounds: "invar s \<Longrightarrow> invar ((round ^^ n) s) \<and> card (open_keys ((round ^^ n) s)) \<le> card (open_keys s) - n"
proof (induction n)
  case (Suc n)
  then have "card (open_keys (round ((round ^^ n) s))) \<le> card (open_keys ((round ^^ n) s)) - 1" by (intro round_card) simp
  with Suc round_invar show ?case by auto
qed simp

lemma drains: "invar s \<Longrightarrow> card (open_keys s) \<le> n \<Longrightarrow> take_keys ((round ^^ n) s) = None"
proof -
  assume i: "invar s" and n: "card (open_keys s) \<le> n"
  note r = rounds [OF i, of n]
  then have "card (open_keys ((round ^^ n) s)) = 0" using n by simp
  with r finite_open take_None show ?thesis by (metis card_0_eq)
qed

end

text \<open>The model's queue is one.\<close>

definition next_keys :: "adapter \<Rightarrow> nat \<Rightarrow> lake \<Rightarrow> (string \<times> string) list option" where
  "next_keys ad m s = (case pending ad m s of Inr (Some p) \<Rightarrow> Some (ps_keys p) | _ \<Rightarrow> None)"

definition taken_rows :: "adapter \<Rightarrow> nat \<Rightarrow> lake \<Rightarrow> row list" where
  "taken_rows ad m s = take (m + 1) (filter is_pending (queue_rows ad s))"

lemma pending_refines:
  assumes "queue_ready ad s"
  shows "pending ad m s = Inr (if taken_rows ad m s = [] then None
    else Some \<lparr>ps_keys = map queue_row_key (taken_rows ad m s),
      ps_affected_order_ids =
        (if (\<exists>r \<in> set (taken_rows ad m s). r ''scope_key'' = StrV ''all-orders'') \<or> m < length (taken_rows ad m s) then None
         else Some (positive_ids (map (\<lambda>r. r ''order_id'') (taken_rows ad m s)))),
      ps_requires_fact_readiness = (\<exists>r \<in> set (taken_rows ad m s). r ''requires_fact_readiness'' = BoolV True)\<rparr>)"
proof -
  obtain ref where ref: "table_reference (ad_lakehouse ad) ''silver'' GOLD_RECONCILE_QUEUE_TABLE = Inr ref"
    "queue_reference ad = tr_value ref" by (rule queue_ready_reference [OF assms])
  show ?thesis
  proof (cases "lk_tables s (queue_reference ad)")
    case None
    then show ?thesis by (simp add: pending_def table_exists_def ref taken_rows_def queue_rows_def current_rows_def)
  next
    case (Some t)
    have ex: "table_exists ad s ''silver'' GOLD_RECONCILE_QUEUE_TABLE = Inr True"
      using Some by (simp add: table_exists_def ref)
    have w: "where3 (\<lambda>r. eq3 (r ''status'') (StrV ''pending'')) rows = filter is_pending rows" for rows
      by (simp add: where3_def is_pending_def [abs_def])
    show ?thesis
      by (simp only: pending_def ex and_then_simps not_True_eq_False if_False queue_read [OF assms Some] df.select_convs w
          Let_def taken_rows_def [symmetric] if_distrib [of Inr])
  qed
qed

lemma taken_rows_props:
  assumes "queue_ready ad s"
  shows "set (taken_rows ad m s) \<subseteq> {r \<in> set (queue_rows ad s). is_pending r}"
    and "distinct (map queue_row_key (taken_rows ad m s))"
    and "taken_rows ad m s = [] \<longleftrightarrow> filter is_pending (queue_rows ad s) = []"
    and "length (taken_rows ad m s) \<le> m \<Longrightarrow> taken_rows ad m s = filter is_pending (queue_rows ad s)"
proof -
  have "distinct (map queue_row_key (queue_rows ad s))"
    using assms by (auto simp: queue_ready_def queue_ok_def queue_ok_keys)
  then have d: "distinct (map queue_row_key (filter is_pending (queue_rows ad s)))" by (simp add: distinct_map_filter)
  show "set (taken_rows ad m s) \<subseteq> {r \<in> set (queue_rows ad s). is_pending r}"
    unfolding taken_rows_def using set_take_subset [of "m + 1" "filter is_pending (queue_rows ad s)"] by auto
  show "distinct (map queue_row_key (taken_rows ad m s))"
    unfolding taken_rows_def take_map [symmetric] using d by (rule distinct_take)
  show "taken_rows ad m s = [] \<longleftrightarrow> filter is_pending (queue_rows ad s) = []"
    by (simp add: taken_rows_def)
  show "length (taken_rows ad m s) \<le> m \<Longrightarrow> taken_rows ad m s = filter is_pending (queue_rows ad s)"
    by (simp add: taken_rows_def)
qed

interpretation gold_queue: work_queue "queue_ready ad" "pending_keys ad" "next_keys ad m" "\<lambda>ks s. snd (complete ad now ks s)"
  for ad m now
proof
  fix s and ks :: "(string \<times> string) list"
  assume ready: "queue_ready ad s"
  show "finite (pending_keys ad s)" by (simp add: pending_keys_def)
  show "next_keys ad m s = None \<longleftrightarrow> pending_keys ad s = {}"
    unfolding next_keys_def pending_refines [OF ready] using taken_rows_props(3) [OF ready, of m]
    by (auto simp: pending_keys_def filter_empty_conv)
  show "ks \<noteq> [] \<and> distinct ks \<and> set ks \<subseteq> pending_keys ad s" if "next_keys ad m s = Some ks"
  proof -
    have "ks = map queue_row_key (taken_rows ad m s)" "taken_rows ad m s \<noteq> []"
      using that unfolding next_keys_def pending_refines [OF ready] by (auto split: if_splits)
    moreover have "queue_row_key ` set (taken_rows ad m s) \<subseteq> pending_keys ad s"
      unfolding pending_keys_def by (rule image_mono [OF taken_rows_props(1) [OF ready]])
    ultimately show ?thesis using taken_rows_props(2) [OF ready] by simp
  qed
  assume d: "distinct ks" and sub: "set ks \<subseteq> pending_keys ad s"
  then obtain s' where s': "complete ad now ks s = (Inr (), s')" "queue_ready ad s'"
      "set (queue_rows ad s') = (\<lambda>r. if queue_row_key r \<in> set ks then published now r else r) ` set (queue_rows ad s)"
    using complete_refines [OF ready d] unfolding pending_keys_def by blast
  then show "queue_ready ad (snd (complete ad now ks s))" by simp
  show "pending_keys ad (snd (complete ad now ks s)) = pending_keys ad s - set ks"
    unfolding pending_keys_def s'(1) snd_conv s'(3) by (auto simp: image_iff split: if_splits)
qed

text \<open>One successful reconciliation: the pending scope is taken and marked published.\<close>

definition drain_round :: "adapter \<Rightarrow> nat \<Rightarrow> int \<Rightarrow> lake \<Rightarrow> lake" where
  "drain_round ad m now s = (case pending ad m s of Inr (Some p) \<Rightarrow> snd (complete ad now (ps_keys p) s) | _ \<Rightarrow> s)"

text \<open>
  C25. Liveness of the reconcile queue. When every round takes the pending scope and marks it
  published, a queue with \<open>n\<close> pending scopes has nothing pending after \<open>n\<close> rounds, whatever bound
  the rounds use.
\<close>

theorem queue_drains:
  assumes "queue_ready ad s" and "card (pending_keys ad s) \<le> n"
  shows "pending ad m ((drain_round ad m now ^^ n) s) = Inr None"
proof -
  have "drain_round ad m now = gold_queue.round ad m now"
    by (auto simp: fun_eq_iff drain_round_def gold_queue.round_def next_keys_def split: sum.split option.split)
  moreover have "queue_ready ad ((gold_queue.round ad m now ^^ n) s)" using gold_queue.rounds [OF assms(1)] by blast
  ultimately show ?thesis
    using gold_queue.drains [OF assms, of m now] pending_refines [of ad "(drain_round ad m now ^^ n) s" m]
    by (auto simp: next_keys_def split: if_splits)
qed

section \<open>Nothing is lost\<close>

text \<open>Enqueuing opens exactly the scopes of the request, whatever their state was.\<close>

lemma enqueue_pending_keys:
  assumes ready: "queue_ready ad s"
  shows "\<exists>s'. enqueue ad now rid affected b s = (Inr (), s') \<and> queue_ready ad s' \<and>
    pending_keys ad s' = pending_keys ad s \<union> Pair rid ` fst ` set (queue_scopes affected)"
proof -
  let ?rows = "df_rows (request_rows rid affected b now)"
  obtain s' where s': "enqueue ad now rid affected b s = (Inr (), s')" "queue_ready ad s'"
    and by_key: "\<And>k. by_key queue_keys (queue_rows ad s') k = (case by_key queue_keys ?rows k of
       None \<Rightarrow> by_key queue_keys (queue_rows ad s) k
     | Some r \<Rightarrow> Some (case by_key queue_keys (queue_rows ad s) k of None \<Rightarrow> r
         | Some r' \<Rightarrow> r(''created_at'' := r' ''created_at'')))"
    using enqueue_refines [OF ready, of now rid affected b] by blast
  have rows: "queue_ok ?rows" by (rule request_rows_ok)
  have row: "queue_row_ok r" if "r \<in> set ?rows \<union> set (queue_rows ad s) \<union> set (queue_rows ad s')" for r
    using that ready s'(2) rows by (auto simp: queue_ready_def queue_ok_def list_all_iff)
  have upd: "queue_row_key (r(''created_at'' := v)) = queue_row_key r" "is_pending (r(''created_at'' := v)) = is_pending r" for r v
    by (simp_all add: queue_row_key_def is_pending_def)
  have new: "queue_row_key ` set ?rows = Pair rid ` fst ` set (queue_scopes affected)" "r \<in> set ?rows \<Longrightarrow> is_pending r" for r
    by (simp add: request_rows_def image_image) (auto simp: request_rows_def)
  have sub1: "k \<in> pending_keys ad s'" if k: "k \<in> queue_row_key ` set ?rows" for k
  proof -
    obtain r where r: "r \<in> set ?rows" "k = queue_row_key r" using k by blast
    have "by_key queue_keys ?rows (key_of queue_keys r) = Some r" using rows r(1) by (auto simp: queue_ok_def intro: by_key_in)
    then obtain v where "by_key queue_keys (queue_rows ad s') (key_of queue_keys r) = Some (r(''created_at'' := v))"
      unfolding by_key by (cases "by_key queue_keys (queue_rows ad s) (key_of queue_keys r)") (auto, metis fun_upd_triv)
    then have "r(''created_at'' := v) \<in> set (queue_rows ad s')" using by_key_Some by blast
    then show ?thesis unfolding pending_keys_def r(2) using new(2) [OF r(1)] upd [of r v] by (auto simp: image_iff intro!: bexI)
  qed
  have sub2: "k \<in> pending_keys ad s'" if k: "k \<in> pending_keys ad s" "k \<notin> queue_row_key ` set ?rows" for k
  proof -
    obtain r where r: "r \<in> set (queue_rows ad s)" "is_pending r" "k = queue_row_key r" using k(1) by (auto simp: pending_keys_def)
    have "by_key queue_keys ?rows (key_of queue_keys r) = None"
      unfolding by_key_None using k(2) r row by (auto simp: queue_key_iff image_iff)
    then have "by_key queue_keys (queue_rows ad s') (key_of queue_keys r) = Some r"
      unfolding by_key using r(1) queue_member [OF ready] by simp
    then have "r \<in> set (queue_rows ad s')" using by_key_Some by blast
    with r show ?thesis by (auto simp: pending_keys_def)
  qed
  have sub3: "k \<in> pending_keys ad s \<or> k \<in> queue_row_key ` set ?rows" if k: "k \<in> pending_keys ad s'" for k
  proof -
    obtain r where r: "r \<in> set (queue_rows ad s')" "is_pending r" "k = queue_row_key r" using k by (auto simp: pending_keys_def)
    then have eq: "by_key queue_keys (queue_rows ad s') (key_of queue_keys r) = Some r" using queue_member [OF s'(2)] by simp
    show ?thesis
    proof (cases "by_key queue_keys ?rows (key_of queue_keys r)")
      case None
      then have "r \<in> set (queue_rows ad s)" using eq unfolding by_key by (auto dest: by_key_Some)
      with r show ?thesis by (auto simp: pending_keys_def)
    next
      case (Some q)
      then have "queue_row_key q = queue_row_key r" "q \<in> set ?rows"
        using by_key_Some [OF Some] row r(1) by (auto simp: queue_key_iff)
      with r(3) show ?thesis by (metis imageI)
    qed
  qed
  have "pending_keys ad s' = pending_keys ad s \<union> queue_row_key ` set ?rows" using sub1 sub2 sub3 by blast
  with s' show ?thesis unfolding new(1) by blast
qed

definition covers :: "pending_scope \<Rightarrow> row \<Rightarrow> bool" where
  "covers p r \<longleftrightarrow> (case ps_affected_order_ids p of None \<Rightarrow> True
     | Some ids \<Rightarrow> r ''scope_key'' \<noteq> StrV ''all-orders'' \<and>
         (case r ''order_id'' of IntV i \<Rightarrow> i \<le> 0 \<or> i \<in> set ids | _ \<Rightarrow> True))"

text \<open>
  C24. No order is lost between Silver and Gold. The scope the control thread takes is a non-empty part of
  the pending rows, and covers all of them: it either names every order or contains the
  order of every pending row of the whole queue, also those beyond the bound of the read.
\<close>

theorem pending_scope_covers:
  assumes "queue_ready ad s" and "pending ad m s = Inr (Some p)"
  shows "ps_keys p \<noteq> [] \<and> distinct (ps_keys p) \<and> set (ps_keys p) \<subseteq> pending_keys ad s \<and>
    list_all (covers p) (filter is_pending (queue_rows ad s))"
proof -
  let ?rows = "taken_rows ad m s"
  let ?full = "(\<exists>r \<in> set ?rows. r ''scope_key'' = StrV ''all-orders'') \<or> m < length ?rows"
  have ne: "?rows \<noteq> []" using assms(2) unfolding pending_refines [OF assms(1)] by (cases "?rows = []") simp_all
  have p: "p = \<lparr>ps_keys = map queue_row_key ?rows, ps_affected_order_ids =
        (if ?full then None else Some (positive_ids (map (\<lambda>r. r ''order_id'') ?rows))),
      ps_requires_fact_readiness = (\<exists>r \<in> set ?rows. r ''requires_fact_readiness'' = BoolV True)\<rparr>"
    using assms(2) unfolding pending_refines [OF assms(1)] if_not_P [OF ne] by (simp only: sum.inject option.inject)
  have pos: "i \<in> set (positive_ids vs)" if "IntV i \<in> set vs" "0 < i" for i vs
    using that by (induction vs rule: positive_ids.induct) auto
  have keys: "set (map queue_row_key ?rows) \<subseteq> pending_keys ad s"
    using taken_rows_props(1) [OF assms(1), of m] by (auto simp: pending_keys_def)
  have cov: "covers p r" if r: "r \<in> set (filter is_pending (queue_rows ad s))" for r
  proof (cases ?full)
    case False
    then have "?rows = filter is_pending (queue_rows ad s)" by (intro taken_rows_props(4) [OF assms(1)]) simp
    then have mem: "r \<in> set ?rows" using r by metis
    have "i \<in> set (positive_ids (map (\<lambda>r. r ''order_id'') ?rows))" if "r ''order_id'' = IntV i" "0 < i" for i
      using mem that by (intro pos) (simp_all add: image_iff, metis)
    moreover have "r ''scope_key'' \<noteq> StrV ''all-orders''" using False mem by blast
    ultimately show ?thesis using False by (cases "r ''order_id''") (simp_all add: covers_def p, metis not_le)
  next
    case True
    then show ?thesis by (simp add: covers_def p)
  qed
  show ?thesis
    using ne keys taken_rows_props(2) [OF assms(1), of m] cov by (simp add: p list_all_iff)
qed

section \<open>An example queue\<close>

definition demo_adapter :: adapter where
  "demo_adapter = \<lparr>ad_lakehouse = \<lparr>lc_base_path = Some ''lake'', lc_catalog = None, lc_schemas = [],
     lc_external_root = None\<rparr>, ad_gold_versions = None\<rparr>"

definition empty_lake :: lake where
  "empty_lake = \<lparr>lk_tables = (\<lambda>ref. None), lk_metadata = None, lk_txn_app = None, lk_txn_version = None\<rparr>"

lemma demo_queue_reference:
  "map_sum id tr_value (table_reference (ad_lakehouse demo_adapter) ''silver'' GOLD_RECONCILE_QUEUE_TABLE) =
    Inr ''lake/silver/gold_reconcile_queue''"
  by code_simp

lemma demo_queue_ready: "queue_ready demo_adapter empty_lake" "pending_keys demo_adapter empty_lake = {}"
proof -
  have "queue_rows demo_adapter empty_lake = []" by (simp add: queue_rows_def current_rows_def empty_lake_def)
  then show "queue_ready demo_adapter empty_lake" "pending_keys demo_adapter empty_lake = {}"
    using demo_queue_reference
    by (auto simp: queue_ready_def queue_ok_def keyed_def in_columns_def pending_keys_def demo_adapter_def empty_lake_def
        split: sum.splits) (cases "table_reference (ad_lakehouse demo_adapter) ''silver'' GOLD_RECONCILE_QUEUE_TABLE";
        simp add: demo_adapter_def)
qed

lemma demo_enqueued:
  "\<exists>s. enqueue demo_adapter 1 ''r1'' (Some [7, 5]) True empty_lake = (Inr (), s) \<and> queue_ready demo_adapter s \<and>
    pending_keys demo_adapter s = {(''r1'', ''order:5''), (''r1'', ''order:7'')}"
proof -
  have "set (queue_scopes (Some [7, 5])) = {(''order:5'', IntV 5), (''order:7'', IntV 7)}" by code_simp
  with enqueue_pending_keys [OF demo_queue_ready(1), of 1 "''r1''" "Some [7, 5]" True] show ?thesis
    by (simp add: demo_queue_ready(2))
qed

theorem queue_drains_witness:
  "\<exists>s. enqueue demo_adapter 1 ''r1'' (Some [7, 5]) True empty_lake = (Inr (), s) \<and>
    pending demo_adapter 0 ((drain_round demo_adapter 0 9 ^^ 2) s) = Inr None"
proof -
  obtain s where s: "enqueue demo_adapter 1 ''r1'' (Some [7, 5]) True empty_lake = (Inr (), s)" "queue_ready demo_adapter s"
      "pending_keys demo_adapter s = {(''r1'', ''order:5''), (''r1'', ''order:7'')}"
    using demo_enqueued by blast
  have "card (pending_keys demo_adapter s) \<le> 2" unfolding s(3) by simp
  from queue_drains [OF s(2) this, of 0 9] s(1) show ?thesis by blast
qed

theorem pending_scope_covers_witness:
  "\<exists>s p. enqueue demo_adapter 1 ''r1'' (Some [7, 5]) True empty_lake = (Inr (), s) \<and>
    pending demo_adapter 5 s = Inr (Some p) \<and> ps_keys p \<noteq> [] \<and>
    set (ps_keys p) \<subseteq> {(''r1'', ''order:5''), (''r1'', ''order:7'')}"
proof -
  obtain s where s: "enqueue demo_adapter 1 ''r1'' (Some [7, 5]) True empty_lake = (Inr (), s)" "queue_ready demo_adapter s"
      "pending_keys demo_adapter s = {(''r1'', ''order:5''), (''r1'', ''order:7'')}"
    using demo_enqueued by blast
  have ne: "taken_rows demo_adapter 5 s \<noteq> []"
  proof
    assume "taken_rows demo_adapter 5 s = []"
    then have "filter is_pending (queue_rows demo_adapter s) = []" using taken_rows_props(3) [OF s(2)] by blast
    then have "pending_keys demo_adapter s = {}" unfolding pending_keys_def filter_empty_conv by blast
    with s(3) show False by blast
  qed
  obtain p where p: "pending demo_adapter 5 s = Inr (Some p)"
    using pending_refines [OF s(2), of 5, unfolded if_not_P [OF ne]] by (rule that)
  note c = pending_scope_covers [OF s(2) p]
  show ?thesis by (rule exI [of _ s], rule exI [of _ p], intro conjI)
      (fact s(1), fact p, fact conjunct1 [OF c], fact conjunct1 [OF conjunct2 [OF conjunct2 [OF c]], unfolded s(3)])
qed

end
