(* ===== verification/BuildGold.thy ===== *)
theory BuildGold
  imports Scd2History FactSales Quality BuildSilver GoldRelease
begin

text \<open>
  The Gold build (\<open>pipelines/build_gold.py\<close>): the choice between a full build and an incremental one
  from the Silver change feeds, the scope of orders, products and categories an incremental run
  replays, the writes of the dimensions and the fact, the quality gate and the publication. The worker threads
  write different tables; they run in the order of the tables. A DataFrame of ids is the list of its
  distinct non-null values. Timings, caching and local checkpoints are left out.
\<close>

section \<open>The builder\<close>

definition FACT_SOURCE_TABLES :: "string list" where
  "FACT_SOURCE_TABLES = [''orders'', ''order_items'', ''order_vouchers'', ''payments'', ''shipments'', ''vouchers'']"

definition GOLD_SILVER_DATA_PIPELINES :: "string list" where
  "GOLD_SILVER_DATA_PIPELINES = [''bronze_to_silver'', ''cdc_to_silver'']"

definition GOLD_SCD2_CHECKPOINT_TABLE :: string where
  "GOLD_SCD2_CHECKPOINT_TABLE = ''gold_scd2_checkpoint''"

record gold_builder =
  gb_fn :: sparkfn
  gb_timezone :: string
  gb_now :: int
  gb_dumps :: "json \<Rightarrow> string"
  gb_loads :: "string \<Rightarrow> json option"
  gb_adapter :: adapter
  gb_manifest :: "silver_manifest option"

definition gold_store :: "gold_builder \<Rightarrow> release_store" where
  "gold_store b = \<lparr>rs_adapter = gb_adapter b, rs_dumps = gb_dumps b, rs_loads = gb_loads b\<rparr>"

definition gold_reference :: "gold_builder \<Rightarrow> string \<Rightarrow> string \<Rightarrow> string res" where
  "gold_reference b layer name = and_then (table_reference (ad_lakehouse (gb_adapter b)) layer name) (\<lambda>ref. Inr (tr_value ref))"

definition read_silver :: "gold_builder \<Rightarrow> string \<Rightarrow> df io" where
  "read_silver b name = io_get (\<lambda>s. read_table (gb_adapter b) s ''silver'' name False)"

definition read_gold :: "gold_builder \<Rightarrow> string \<Rightarrow> df io" where
  "read_gold b name = io_get (\<lambda>s. read_table (gb_adapter b) s ''gold'' name False)"

definition read_silver_history :: "gold_builder \<Rightarrow> string \<Rightarrow> df io" where
  "read_silver_history b name =
     io_bind (io_lift (gold_reference b ''silver'' (silver_change_history_table_name name))) (\<lambda>ref.
     io_get (\<lambda>s. read_delta s ref None))"

text \<open>The tables of a list by name.\<close>

definition io_tables :: "(string \<Rightarrow> df io) \<Rightarrow> string list \<Rightarrow> (string \<Rightarrow> df) io" where
  "io_tables read names = io_bind (io_traverse (\<lambda>n. io_bind (read n) (\<lambda>d. io_return (n, d))) names) (\<lambda>tables.
     io_return (\<lambda>n. case map_of tables n of Some d \<Rightarrow> d | None \<Rightarrow> \<lparr>df_cols = [], df_rows = []\<rparr>))"

section \<open>Versions\<close>

definition silver_versions :: "gold_builder \<Rightarrow> lake \<Rightarrow> (string \<times> int) list res" where
  "silver_versions b s = traverse (\<lambda>t. and_then (gold_reference b ''silver'' t) (\<lambda>ref.
     and_then (latest_delta_pipeline_commit (gb_loads b) s ref GOLD_SILVER_DATA_PIPELINES) (\<lambda>c.
     Inr (t, pc_version c)))) (map fst SILVER_TABLES)"

definition current_silver_versions :: "gold_builder \<Rightarrow> lake \<Rightarrow> (string \<times> int) list res" where
  "current_silver_versions b s = (case gb_manifest b of
     Some m \<Rightarrow> (let versions = committed_versions m in
       if set (map fst versions) \<noteq> set (map fst SILVER_TABLES)
       then Inl (ValueError ''Invalid propagated Silver versions'')
       else if \<exists>(name, r) \<in> set m. sr_schema_version r \<noteq> SILVER_SCHEMA_VERSION
       then Inl (RuntimeError ''Invalid propagated Silver schema versions'')
       else Inr versions)
   | None \<Rightarrow> silver_versions b s)"

definition version_of :: "(string \<times> int) list \<Rightarrow> string \<Rightarrow> int" where
  "version_of kvs name = (case map_of kvs name of Some v \<Rightarrow> v | None \<Rightarrow> -1)"

definition refresh_stale_propagated_versions ::
    "gold_builder \<Rightarrow> (string \<times> int) list \<Rightarrow> (string \<times> int) list \<Rightarrow> lake \<Rightarrow> (string \<times> int) list res" where
  "refresh_stale_propagated_versions b previous propagated s =
     (if gb_manifest b = None \<or> set (map fst previous) \<noteq> set (map fst propagated) then Inr propagated
      else if \<not> (\<exists>n \<in> set (map fst propagated). version_of propagated n < version_of previous n) then Inr propagated
      else silver_versions b s)"

definition validate_progress :: "(string \<times> int) list \<Rightarrow> (string \<times> int) list \<Rightarrow> unit res" where
  "validate_progress previous current =
     and_then (raise_if (set (map fst previous) \<noteq> set (map fst current))
       (RuntimeError ''Gold progress does not match Silver contracts'')) (\<lambda>_.
     raise_if (\<exists>n \<in> set (map fst current). version_of current n < version_of previous n)
       (RuntimeError ''Gold progress is ahead of Silver''))"

section \<open>Changes\<close>

text \<open>The change feed as a table: the columns of the table and the change type.\<close>

definition read_changes :: "gold_builder \<Rightarrow> string \<Rightarrow> int \<Rightarrow> int \<Rightarrow> lake \<Rightarrow> df res" where
  "read_changes b name starting_version ending_version s =
     and_then (gold_reference b ''silver'' name) (\<lambda>ref.
     and_then (read_change_feed s ref starting_version ending_version) (\<lambda>feed.
     and_then (read_delta s ref None) (\<lambda>d.
     Inr \<lparr>df_cols = df_cols d @ [''_change_type''],
          df_rows = map (\<lambda>(ty, r). r(''_change_type'' := StrV ty)) feed\<rparr>)))"

definition business_columns :: "silver_contract \<Rightarrow> string list" where
  "business_columns c = sc_columns c @ [''_is_deleted'']"

definition business_hash :: "sparkfn \<Rightarrow> silver_contract \<Rightarrow> row \<Rightarrow> string" where
  "business_hash fn c r = fn_sha2 fn (fn_to_json fn (map r (business_columns c)))"

text \<open>
  A feed is substantive when it inserts or deletes a row, or when the images of one key differ in a
  business column.
\<close>

definition substantive :: "sparkfn \<Rightarrow> silver_contract \<Rightarrow> row list \<Rightarrow> bool" where
  "substantive fn c rows \<longleftrightarrow>
     (\<exists>r \<in> set rows. r ''_change_type'' \<in> {StrV ''insert'', StrV ''delete''}) \<or>
     (\<exists>g \<in> set (groups (key_of (sc_primary_keys c)) rows). length (remdups (map (business_hash fn c) g)) > 1)"

definition substantive_changes :: "sparkfn \<Rightarrow> (string \<times> df) list \<Rightarrow> (string \<times> df) list res" where
  "substantive_changes fn changes =
     and_then (traverse (\<lambda>(name, d). and_then (get_silver_contract name) (\<lambda>c.
       and_then (raise_if (\<not> set (sc_primary_keys c @ business_columns c @ [''_change_type'']) \<subseteq> set (df_cols d))
         (ValueError ''Silver CDF is missing columns'')) (\<lambda>_.
       Inr (if substantive fn c (df_rows d) then [(name, d)] else [])))) changes) (\<lambda>kept. Inr (concat kept))"

section \<open>Ids\<close>

definition ids_of :: "string \<Rightarrow> row list \<Rightarrow> val list" where
  "ids_of col rows = remdups (filter (\<lambda>v. v \<noteq> Null) (map (\<lambda>r. r col) rows))"

definition with_ids :: "string \<Rightarrow> val list \<Rightarrow> df \<Rightarrow> df" where
  "with_ids col ids d = d\<lparr>df_rows := filter (\<lambda>r. r col \<noteq> Null \<and> r col \<in> set ids) (df_rows d)\<rparr>"

definition union_ids :: "val list list \<Rightarrow> val list" where
  "union_ids frames = remdups (filter (\<lambda>v. v \<noteq> Null) (concat frames))"

definition filter_current :: "gold_builder \<Rightarrow> string \<Rightarrow> string \<Rightarrow> val list \<Rightarrow> df io" where
  "filter_current b name col ids = io_bind (read_silver b name) (\<lambda>d. io_return (with_ids col ids d))"

definition filter_history :: "gold_builder \<Rightarrow> string \<Rightarrow> string \<Rightarrow> val list \<Rightarrow> df io" where
  "filter_history b name col ids = io_bind (read_silver_history b name) (\<lambda>d. io_return (with_ids col ids d))"

definition filter_gold :: "gold_builder \<Rightarrow> string \<Rightarrow> string \<Rightarrow> val list \<Rightarrow> df io" where
  "filter_gold b name col ids = io_bind (read_gold b name) (\<lambda>d. io_return (with_ids col ids d))"

definition empty_current :: "gold_builder \<Rightarrow> string \<Rightarrow> df io" where
  "empty_current b name = io_bind (read_silver b name) (\<lambda>d. io_return (d\<lparr>df_rows := []\<rparr>))"

definition ids_if_changed :: "gold_builder \<Rightarrow> (string \<times> df) list \<Rightarrow> string \<Rightarrow> string \<Rightarrow> val list io" where
  "ids_if_changed b changes name col = (case map_of changes name of
     Some d \<Rightarrow> io_return (ids_of col (df_rows d))
   | None \<Rightarrow> io_bind (empty_current b name) (\<lambda>d. io_return []))"

section \<open>Columns of the Gold tables\<close>

definition scd2_columns :: "scd2_spec \<Rightarrow> string list" where
  "scd2_columns spec = surrogate_key spec # dimension_columns spec @
     [''effective_from'', ''effective_to'', ''is_current'', ''is_deleted'']"

definition fact_columns :: "string list" where
  "fact_columns = [''sales_key'', ''order_date_key'', ''order_time_key'', ''customer_key'', ''product_key'',
     ''shop_key'', ''category_key'', ''promotion_key'', ''payment_key'', ''shipping_key'',
     ''ship_to_location_key'', ''bill_to_location_key'', ''source_order_id'', ''source_order_item_id'',
     ''order_number'', ''order_status'', ''payment_status'', ''source_customer_id'', ''source_product_id'',
     ''source_product_variant_id'', ''source_shop_id'', ''source_category_id'', ''currency'', ''quantity'',
     ''unit_price_amount'', ''gross_sales_amount'', ''line_discount_amount'',
     ''order_discount_amount_allocated'', ''total_discount_amount'', ''tax_amount'',
     ''shipping_amount_allocated'', ''net_sales_amount'', ''order_created_at'', ''order_item_created_at'']"

definition gold_columns :: "string \<Rightarrow> string list" where
  "gold_columns name = (case map_of [
     (''dim_customer'', scd2_columns customer_spec), (''dim_shop'', scd2_columns shop_spec),
     (''dim_category'', scd2_columns category_spec), (''dim_product'', scd2_columns product_spec),
     (''dim_date'', [''date_key'', ''full_date'', ''day_of_week'', ''day_name'', ''day_of_month'',
        ''day_of_year'', ''week_of_year'', ''month_number'', ''month_name'', ''quarter_number'',
        ''year_number'', ''is_weekend'', ''is_month_end'', ''season_name'', ''fiscal_year'', ''fiscal_quarter'']),
     (''dim_time'', [''time_key'', ''full_time'', ''hour_24'', ''minute_number'', ''second_number'', ''am_pm'',
        ''day_part'']),
     (''dim_location'', [''location_key'', ''source_address_id'', ''source_customer_id'',
        ''natural_location_hash''] @ address_fields),
     (''dim_promotion'', [''promotion_key'', ''natural_promotion_hash'', ''promotion_type'', ''voucher_count'',
        ''voucher_codes'', ''voucher_names'', ''discount_types'', ''promotion_scope'', ''promotion_start_at'',
        ''promotion_end_at'', ''minimum_order_amount'', ''is_active'']),
     (''dim_payment'', [''payment_key'', ''natural_payment_hash'', ''payment_method'', ''payment_method_group'',
        ''payment_status'', ''paid_flag'']),
     (''dim_shipping'', [''shipping_key'', ''natural_shipping_hash'', ''carrier'', ''shipment_status'',
        ''shipped_flag'', ''delivered_flag'']),
     (''fact_sales'', fact_columns)] name of Some cols \<Rightarrow> cols | None \<Rightarrow> [])"

definition gold_df :: "string \<Rightarrow> row list \<Rightarrow> df" where
  "gold_df name rows = \<lparr>df_cols = gold_columns name, df_rows = rows\<rparr>"

section \<open>The SCD2 checkpoint\<close>

definition scd2_checkpoint :: "gold_builder \<Rightarrow> string \<Rightarrow> lake \<Rightarrow> row option res" where
  "scd2_checkpoint b dimension_name s =
     and_then (table_exists (gb_adapter b) s ''gold'' GOLD_SCD2_CHECKPOINT_TABLE) (\<lambda>exists.
     if \<not> exists then Inr None
     else and_then (read_table (gb_adapter b) s ''gold'' GOLD_SCD2_CHECKPOINT_TABLE False) (\<lambda>d.
       Inr (top_desc (\<lambda>r. r ''processed_at'')
         (where3 (\<lambda>r. eq3 (r ''dimension_name'') (StrV dimension_name)) (df_rows d)))))"

definition gold_upsert :: upsert_options where
  "gold_upsert = soft_upsert []"

definition write_scd2_checkpoint :: "gold_builder \<Rightarrow> string \<Rightarrow> string \<Rightarrow> bool option \<Rightarrow> bool io" where
  "write_scd2_checkpoint b dimension_name source_table_name target_exists =
     io_bind (io_lift (gold_reference b ''silver'' (silver_change_history_table_name source_table_name))) (\<lambda>ref.
     io_bind (io_get (\<lambda>s. latest_delta_version s ref)) (\<lambda>history_version.
     upsert_table (gb_adapter b)
       \<lparr>df_cols = [''dimension_name'', ''last_processed_history_version'', ''processed_at''],
        df_rows = [row_of [(''dimension_name'', StrV dimension_name),
          (''last_processed_history_version'', IntV history_version), (''processed_at'', TsV (gb_now b))]]\<rparr>
       ''gold'' GOLD_SCD2_CHECKPOINT_TABLE [''dimension_name'']
       (gold_upsert\<lparr>uo_target_exists := target_exists, uo_source_is_nonempty := True\<rparr>)))"

definition read_scd2_history_increment :: "gold_builder \<Rightarrow> string \<Rightarrow> string \<Rightarrow> (df \<times> bool) io" where
  "read_scd2_history_increment b dimension_name source_table_name =
     io_bind (io_get (scd2_checkpoint b dimension_name)) (\<lambda>checkpoint.
     case checkpoint of None \<Rightarrow> io_raise (RuntimeError ''Gold SCD2 checkpoint is missing'')
     | Some row \<Rightarrow>
       io_bind (io_lift (gold_reference b ''silver'' (silver_change_history_table_name source_table_name))) (\<lambda>ref.
       io_bind (io_get (\<lambda>s. latest_delta_version s ref)) (\<lambda>latest_history_version.
       case row ''last_processed_history_version'' of
         IntV last_processed \<Rightarrow>
           if latest_history_version \<le> last_processed
           then io_bind (read_silver_history b source_table_name) (\<lambda>d. io_return (d\<lparr>df_rows := []\<rparr>, False))
           else io_bind (io_get (\<lambda>s. read_change_feed s ref (last_processed + 1) latest_history_version)) (\<lambda>feed.
             io_bind (io_get (\<lambda>s. read_delta s ref None)) (\<lambda>d.
             io_return (d\<lparr>df_rows := map snd (filter (\<lambda>(ty, r). ty = ''insert'') feed)\<rparr>, True)))
       | _ \<Rightarrow> io_raise (OtherError ''TypeError''))))"

section \<open>Writing dimensions\<close>

definition append_dimension_members :: "gold_builder \<Rightarrow> row list \<Rightarrow> string \<Rightarrow> string \<Rightarrow> unit io" where
  "append_dimension_members b dimension name key =
     io_bind (append_new_rows (gb_adapter b)
       (gold_df name (where3 (\<lambda>r. not3 (eq3 (r key) (IntV 0))) dimension)) ''gold'' name [key] (Some True))
       (\<lambda>_. io_return ())"

text \<open>The replayed entities replace their stored versions; keys that are no longer derived are deleted.\<close>

definition upsert_replayed_scd2 ::
    "gold_builder \<Rightarrow> string \<Rightarrow> row list \<Rightarrow> string \<Rightarrow> string \<Rightarrow> val list \<Rightarrow> unit io" where
  "upsert_replayed_scd2 b name replayed surrogate source affected_ids =
     io_bind (filter_gold b name source affected_ids) (\<lambda>existing.
     let stale_keys = left_anti [surrogate] (map (select [surrogate]) (df_rows existing)) replayed
     in io_bind (upsert_table (gb_adapter b) (gold_df name replayed) ''gold'' name [surrogate]
          (gold_upsert\<lparr>uo_delete_keys := Some \<lparr>df_cols = [surrogate], df_rows = stale_keys\<rparr>,
             uo_target_exists := Some True, uo_source_is_nonempty := True\<rparr>)) (\<lambda>_. io_return ()))"

section \<open>The full build\<close>

definition read_sources :: "gold_builder \<Rightarrow> (string \<Rightarrow> df) io" where
  "read_sources b = io_tables (read_silver b) (map fst SILVER_TABLES)"

definition read_fact_dimensions :: "gold_builder \<Rightarrow> (string \<Rightarrow> df) io" where
  "read_fact_dimensions b = io_tables (read_gold b) (map fst SCD2_DIMENSIONS)"

definition fact_inputs_of :: "(string \<Rightarrow> df) \<Rightarrow> (string \<Rightarrow> df) \<Rightarrow> fact_inputs" where
  "fact_inputs_of sources dimensions =
     \<lparr>f_orders = df_rows (sources ''orders''), f_order_items = df_rows (sources ''order_items''),
      f_payments = df_rows (sources ''payments''), f_shipments = df_rows (sources ''shipments''),
      f_order_vouchers = df_rows (sources ''order_vouchers''), f_vouchers = df_rows (sources ''vouchers''),
      f_dim_customer = df_rows (dimensions ''dim_customer''), f_dim_product = df_rows (dimensions ''dim_product''),
      f_dim_shop = df_rows (dimensions ''dim_shop''), f_dim_category = df_rows (dimensions ''dim_category'')\<rparr>"

definition scd2_outputs :: "gold_builder \<Rightarrow> (string \<Rightarrow> df) \<Rightarrow> (string \<times> row list) list" where
  "scd2_outputs b histories = (let fn = gb_fn b; tz = gb_timezone b in
     [(''dim_customer'', build_dim_customer_from_history fn tz True (histories ''app_users'')),
      (''dim_shop'', build_dim_shop_from_history fn tz True (histories ''shops'')),
      (''dim_category'', build_dim_category_from_history fn tz True (histories ''categories'')),
      (''dim_product'', build_dim_product_from_history fn tz True (histories ''products'') (histories ''product_variants''))])"

definition non_scd2_dimensions :: "gold_builder \<Rightarrow> (string \<Rightarrow> df) \<Rightarrow> (string \<times> row list \<times> string list) list" where
  "non_scd2_dimensions b tables = (let fn = gb_fn b; rows = (\<lambda>t. df_rows (tables t)) in
     [(''dim_date'', build_dim_date fn (rows ''orders''), [''date_key'']),
      (''dim_time'', build_dim_time (rows ''orders''), [''time_key'']),
      (''dim_location'', build_dim_location fn (rows ''user_addresses'') (rows ''orders''), [''location_key'']),
      (''dim_promotion'', build_dim_promotion fn (rows ''order_vouchers'') (rows ''vouchers''), [''promotion_key'']),
      (''dim_payment'', build_dim_payment fn (rows ''payments''), [''payment_key'']),
      (''dim_shipping'', build_dim_shipping fn (rows ''shipments''), [''shipping_key''])])"

definition write_scd2_table :: "gold_builder \<Rightarrow> string \<times> row list \<Rightarrow> unit io" where
  "write_scd2_table b job = (case job of (name, dimension) \<Rightarrow>
     io_bind (write_table (gb_adapter b) (gold_df name dimension) ''gold'' name False) (\<lambda>_.
     if name = ''dim_customer''
     then io_bind (write_scd2_checkpoint b ''dim_customer'' ''app_users'' None) (\<lambda>_. io_return ())
     else io_return ()))"

definition replace_or_merge :: "gold_builder \<Rightarrow> bool \<Rightarrow> string \<times> row list \<times> string list \<Rightarrow> unit io" where
  "replace_or_merge b replace job = (case job of (name, rows, keys) \<Rightarrow>
     if replace then write_table (gb_adapter b) (gold_df name rows) ''gold'' name False
     else io_bind (upsert_table (gb_adapter b) (gold_df name rows) ''gold'' name keys
            (gold_upsert\<lparr>uo_delete_not_matched_by_source := True\<rparr>)) (\<lambda>_. io_return ()))"

definition run_full :: "gold_builder \<Rightarrow> bool \<Rightarrow> string list io" where
  "run_full b replace =
     io_bind (read_sources b) (\<lambda>tables.
     io_bind (io_tables (read_silver_history b) [''app_users'', ''shops'', ''categories'', ''products'', ''product_variants''])
       (\<lambda>histories.
     io_bind (io_traverse (write_scd2_table b) (scd2_outputs b histories)) (\<lambda>_.
     io_bind (io_traverse (replace_or_merge b replace) (non_scd2_dimensions b tables)) (\<lambda>_.
     io_bind (read_fact_dimensions b) (\<lambda>fact_dimensions.
     io_bind (replace_or_merge b replace (''fact_sales'', build_fact_sales (gb_fn b) (fact_inputs_of tables fact_dimensions),
       [''source_order_id'', ''source_order_item_id''])) (\<lambda>_.
     io_bind (io_tables (read_gold b) GOLD_TABLES) (\<lambda>gold.
     io_bind (io_lift (quality_run (gb_fn b) gold (df_rows (tables ''orders'')) (df_rows (tables ''order_items'')))) (\<lambda>_.
     io_return GOLD_TABLES))))))))"

section \<open>The incremental build\<close>

definition affected_order_ids :: "gold_builder \<Rightarrow> (string \<times> df) list \<Rightarrow> val list io" where
  "affected_order_ids b changes =
     (let frames = map (\<lambda>name. case map_of changes name of Some d \<Rightarrow> [ids_of ''order_id'' (df_rows d)] | None \<Rightarrow> [])
            [''orders'', ''order_items'', ''order_vouchers'', ''payments'', ''shipments'']
      in io_bind (case map_of changes ''vouchers'' of
           None \<Rightarrow> io_return []
         | Some d \<Rightarrow> (let voucher_ids = ids_of ''voucher_id'' (df_rows d) in
             io_bind (filter_current b ''order_vouchers'' ''voucher_id'' voucher_ids) (\<lambda>current.
             io_return (map (\<lambda>r. r ''order_id'') (df_rows current) #
               (case map_of changes ''order_vouchers'' of None \<Rightarrow> []
                | Some ov \<Rightarrow> [map (\<lambda>r. r ''order_id'') (df_rows (with_ids ''voucher_id'' voucher_ids ov))]))))) (\<lambda>voucher_frames.
         let all_frames = concat frames @ voucher_frames
         in if all_frames = [] then io_bind (empty_current b ''orders'') (\<lambda>_. io_return [])
            else io_return (union_ids all_frames)))"

definition affected_product_ids :: "(string \<times> df) list \<Rightarrow> val list" where
  "affected_product_ids changes = union_ids (concat (map (\<lambda>name. case map_of changes name of
       Some d \<Rightarrow> [ids_of ''product_id'' (df_rows d)] | None \<Rightarrow> []) [''products'', ''product_variants'']))"

definition promotion_scope :: "gold_builder \<Rightarrow> val list \<Rightarrow> (df \<times> df) io" where
  "promotion_scope b order_ids =
     io_bind (filter_current b ''order_vouchers'' ''order_id'' order_ids) (\<lambda>order_vouchers.
     io_bind (filter_current b ''vouchers'' ''voucher_id'' (ids_of ''voucher_id'' (df_rows order_vouchers))) (\<lambda>vouchers.
     io_return (order_vouchers, vouchers)))"

definition fact_scope :: "gold_builder \<Rightarrow> val list \<Rightarrow> (string \<Rightarrow> df) io" where
  "fact_scope b order_ids =
     io_bind (io_tables (\<lambda>name. filter_current b name ''order_id'' order_ids)
       [''orders'', ''order_items'', ''payments'', ''shipments'']) (\<lambda>tables.
     io_bind (promotion_scope b order_ids) (\<lambda>(order_vouchers, vouchers).
     io_return (tables(''order_vouchers'' := order_vouchers, ''vouchers'' := vouchers))))"

definition fact_dimension_scope :: "gold_builder \<Rightarrow> (string \<Rightarrow> df) \<Rightarrow> (string \<Rightarrow> df) io" where
  "fact_dimension_scope b sources =
     (let customer_ids = ids_of ''customer_id'' (df_rows (sources ''orders''));
          variant_ids = ids_of ''product_variant_id'' (df_rows (sources ''order_items''));
          shop_ids = ids_of ''shop_id'' (df_rows (sources ''order_items''))
      in io_bind (filter_gold b ''dim_product'' ''source_product_variant_id'' variant_ids) (\<lambda>products.
         let category_ids = ids_of ''source_category_id'' (df_rows products) in
         io_bind (filter_gold b ''dim_customer'' ''source_customer_id'' customer_ids) (\<lambda>customers.
         io_bind (filter_gold b ''dim_shop'' ''source_shop_id'' shop_ids) (\<lambda>shops.
         io_bind (filter_gold b ''dim_category'' ''source_category_id'' category_ids) (\<lambda>categories.
         io_return (\<lambda>name. if name = ''dim_customer'' then customers else if name = ''dim_product'' then products
           else if name = ''dim_shop'' then shops else categories))))))"

text \<open>The jobs of the incremental build, in the order the code adds them.\<close>

record gold_job =
  gj_table :: string
  gj_action :: "unit io"
  gj_scd2 :: bool

definition update_customer :: "gold_builder \<Rightarrow> unit io" where
  "update_customer b =
     io_bind (read_scd2_history_increment b ''dim_customer'' ''app_users'') (\<lambda>(customer_history, has_customer_history).
     if \<not> has_customer_history then io_return ()
     else let customer_ids = ids_of ''user_id'' (df_rows customer_history) in
       io_bind (filter_history b ''app_users'' ''user_id'' customer_ids) (\<lambda>full_customer_history.
       io_bind (upsert_replayed_scd2 b ''dim_customer''
         (build_dim_customer_from_history (gb_fn b) (gb_timezone b) False full_customer_history)
         ''customer_key'' ''source_customer_id'' customer_ids) (\<lambda>_.
       io_bind (write_scd2_checkpoint b ''dim_customer'' ''app_users'' (Some True)) (\<lambda>_. io_return ()))))"

definition update_location :: "gold_builder \<Rightarrow> (string \<times> df) list \<Rightarrow> df \<Rightarrow> unit io" where
  "update_location b changes orders =
     io_bind (ids_if_changed b changes ''user_addresses'' ''address_id'') (\<lambda>address_ids.
     io_bind (filter_current b ''user_addresses'' ''address_id'' address_ids) (\<lambda>addresses.
     append_dimension_members b (build_dim_location (gb_fn b) (df_rows addresses) (df_rows orders))
       ''dim_location'' ''location_key''))"

definition update_shop :: "gold_builder \<Rightarrow> df \<Rightarrow> unit io" where
  "update_shop b change =
     (let shop_ids = ids_of ''shop_id'' (df_rows change) in
      io_bind (filter_history b ''shops'' ''shop_id'' shop_ids) (\<lambda>history.
      upsert_replayed_scd2 b ''dim_shop'' (build_dim_shop_from_history (gb_fn b) (gb_timezone b) False history)
        ''shop_key'' ''source_shop_id'' shop_ids))"

definition update_category :: "gold_builder \<Rightarrow> df \<Rightarrow> unit io" where
  "update_category b change =
     (let changed_ids = ids_of ''category_id'' (df_rows change) in
      io_bind (read_silver_history b ''categories'') (\<lambda>history.
      let children = map (\<lambda>r. r ''category_id'') (df_rows (with_ids ''parent_category_id'' changed_ids history));
          affected_ids = union_ids [changed_ids, children];
          affected_history = with_ids ''category_id'' affected_ids history;
          parent_ids = filter (\<lambda>v. v \<noteq> Null) (map (\<lambda>r. r ''parent_category_id'') (df_rows affected_history));
          scope_ids = union_ids [affected_ids, parent_ids];
          scoped_history = with_ids ''category_id'' scope_ids history
      in upsert_replayed_scd2 b ''dim_category''
           (build_dim_category_from_history (gb_fn b) (gb_timezone b) False scoped_history)
           ''category_key'' ''source_category_id'' affected_ids))"

definition update_product :: "gold_builder \<Rightarrow> (string \<times> df) list \<Rightarrow> unit io" where
  "update_product b changes =
     (let product_ids = affected_product_ids changes in
      io_bind (filter_history b ''products'' ''product_id'' product_ids) (\<lambda>product_history.
      io_bind (filter_history b ''product_variants'' ''product_id'' product_ids) (\<lambda>variant_history.
      upsert_replayed_scd2 b ''dim_product''
        (build_dim_product_from_history (gb_fn b) (gb_timezone b) False product_history variant_history)
        ''product_key'' ''source_product_id'' product_ids)))"

definition update_promotion :: "gold_builder \<Rightarrow> val list \<Rightarrow> unit io" where
  "update_promotion b order_ids =
     io_bind (promotion_scope b order_ids) (\<lambda>(order_vouchers, vouchers).
     io_bind (upsert_table (gb_adapter b) (gold_df ''dim_promotion''
         (where3 (\<lambda>r. not3 (eq3 (r ''promotion_key'') (IntV 0)))
           (build_dim_promotion (gb_fn b) (df_rows order_vouchers) (df_rows vouchers))))
       ''gold'' ''dim_promotion'' [''promotion_key''] (gold_upsert\<lparr>uo_target_exists := Some True\<rparr>)) (\<lambda>_. io_return ()))"

definition update_payment :: "gold_builder \<Rightarrow> df \<Rightarrow> unit io" where
  "update_payment b change =
     io_bind (filter_current b ''payments'' ''payment_id'' (ids_of ''payment_id'' (df_rows change))) (\<lambda>payments.
     append_dimension_members b (build_dim_payment (gb_fn b) (df_rows payments)) ''dim_payment'' ''payment_key'')"

definition update_shipping :: "gold_builder \<Rightarrow> df \<Rightarrow> unit io" where
  "update_shipping b change =
     io_bind (filter_current b ''shipments'' ''shipment_id'' (ids_of ''shipment_id'' (df_rows change))) (\<lambda>shipments.
     append_dimension_members b (build_dim_shipping (gb_fn b) (df_rows shipments)) ''dim_shipping'' ''shipping_key'')"

definition dimension_jobs :: "gold_builder \<Rightarrow> (string \<times> df) list \<Rightarrow> df \<Rightarrow> val list \<Rightarrow> gold_job list" where
  "dimension_jobs b changes orders order_ids =
     (let changed = (\<lambda>names. \<exists>n \<in> set names. n \<in> fst ` set changes);
          job = (\<lambda>name act scd2. \<lparr>gj_table = name, gj_action = act, gj_scd2 = scd2\<rparr>);
          change = (\<lambda>n. case map_of changes n of Some d \<Rightarrow> d | None \<Rightarrow> \<lparr>df_cols = [], df_rows = []\<rparr>)
      in (if changed [''app_users''] then [job ''dim_customer'' (update_customer b) True] else []) @
         (if changed [''orders''] then
            [job ''dim_date'' (append_dimension_members b (build_dim_date (gb_fn b) (df_rows orders)) ''dim_date'' ''date_key'') False,
             job ''dim_time'' (append_dimension_members b (build_dim_time (df_rows orders)) ''dim_time'' ''time_key'') False] else []) @
         (if changed [''user_addresses'', ''orders''] then [job ''dim_location'' (update_location b changes orders) False] else []) @
         (if changed [''shops''] then [job ''dim_shop'' (update_shop b (change ''shops'')) True] else []) @
         (if changed [''categories''] then [job ''dim_category'' (update_category b (change ''categories'')) True] else []) @
         (if changed [''products'', ''product_variants''] then [job ''dim_product'' (update_product b changes) True] else []) @
         (if changed [''order_vouchers'', ''vouchers''] then [job ''dim_promotion'' (update_promotion b order_ids) False] else []) @
         (if changed [''payments''] then [job ''dim_payment'' (update_payment b (change ''payments'')) False] else []) @
         (if changed [''shipments''] then [job ''dim_shipping'' (update_shipping b (change ''shipments'')) False] else []))"

text \<open>The fact rows of the affected orders replace the stored ones; items that are gone are deleted.\<close>

definition fact_keys :: "string list" where
  "fact_keys = [''source_order_id'', ''source_order_item_id'']"

definition update_facts :: "gold_builder \<Rightarrow> val list \<Rightarrow> unit io" where
  "update_facts b order_ids =
     io_bind (fact_scope b order_ids) (\<lambda>sources.
     io_bind (fact_dimension_scope b sources) (\<lambda>dimensions.
     let facts = build_fact_sales (gb_fn b) (fact_inputs_of sources dimensions) in
     io_bind (filter_gold b ''fact_sales'' ''source_order_id'' order_ids) (\<lambda>existing.
     let stale = left_anti fact_keys (map (select fact_keys) (df_rows existing)) facts in
     io_bind (io_tables (read_gold b) (filter (\<lambda>t. t \<noteq> ''fact_sales'') GOLD_TABLES)) (\<lambda>gold.
     io_bind (io_lift (quality_run_incremental (gb_fn b) gold facts (df_rows (sources ''orders''))
       (df_rows (sources ''order_items'')))) (\<lambda>_.
     io_bind (upsert_table (gb_adapter b) (gold_df ''fact_sales'' facts) ''gold'' ''fact_sales'' fact_keys
       (gold_upsert\<lparr>uo_delete_keys := Some \<lparr>df_cols = fact_keys, df_rows = stale\<rparr>\<rparr>)) (\<lambda>_. io_return ()))))))"

definition run_incremental_gold :: "gold_builder \<Rightarrow> (string \<times> df) list \<Rightarrow> string list io" where
  "run_incremental_gold b changes =
     io_bind (ids_if_changed b changes ''orders'' ''order_id'') (\<lambda>changed_order_ids.
     io_bind (affected_order_ids b changes) (\<lambda>order_ids.
     io_bind (if ''orders'' \<in> fst ` set changes then filter_current b ''orders'' ''order_id'' changed_order_ids
       else empty_current b ''orders'') (\<lambda>orders.
     let jobs = dimension_jobs b changes orders order_ids;
         scd2 = map gj_table (filter gj_scd2 jobs)
     in io_bind (io_traverse gj_action jobs) (\<lambda>_.
        io_bind (io_tables (read_gold b) scd2) (\<lambda>gold.
        io_bind (io_lift (validate_scd2 gold scd2)) (\<lambda>_.
        if (\<exists>n \<in> fst ` set changes. n \<in> set FACT_SOURCE_TABLES) \<and> order_ids \<noteq> []
        then io_bind (update_facts b order_ids) (\<lambda>_. io_return (map gj_table jobs @ [''fact_sales'']))
        else io_return (map gj_table jobs)))))))"

section \<open>Publication and the run\<close>

definition publish_gold ::
    "gold_builder \<Rightarrow> (string \<times> int) list \<Rightarrow> string \<Rightarrow> string list \<Rightarrow> gold_release option \<Rightarrow> unit io" where
  "publish_gold b silver batch_id changed previous_release =
     (let previous_versions = (case previous_release of None \<Rightarrow> [] | Some r \<Rightarrow> gr_gold_versions r);
          changed_names = sort (remdups changed)
      in io_bind (io_get (\<lambda>s. traverse (\<lambda>name. and_then (gold_reference b ''gold'' name) (\<lambda>ref.
           and_then (latest_delta_version s ref) (\<lambda>v. Inr (name, v)))) changed_names)) (\<lambda>latest.
         let gold = fold (\<lambda>(name, v) kvs. assoc_set name v kvs) latest previous_versions
         in io_bind (io_lift (raise_if (\<not> set GOLD_TABLES \<subseteq> set (map fst gold))
              (RuntimeError ''Gold candidate is missing committed versions''))) (\<lambda>_.
            io_bind (publish_release (gold_store b) \<lparr>gc_batch_id = batch_id, gc_changed_tables = changed,
              gc_committed_versions = gold, gc_silver_versions = silver, gc_quality_status = ''PASSED''\<rparr>) (\<lambda>_.
            io_return ()))))"

definition validate_scd2_schemas :: "gold_builder \<Rightarrow> lake \<Rightarrow> unit res" where
  "validate_scd2_schemas b s =
     and_then (traverse (\<lambda>(name, c). and_then (table_exists (gb_adapter b) s ''gold'' name) (\<lambda>exists.
       if \<not> exists then Inr (RuntimeError ''Gold SCD2 table is missing'', False)
       else and_then (read_table (gb_adapter b) s ''gold'' name False) (\<lambda>d.
         Inr (RuntimeError ''Gold SCD2 schema is outdated'', required_columns c \<subseteq> set (df_cols d))))) SCD2_DIMENSIONS) (\<lambda>inspections.
     case filter (\<lambda>(e, ok). \<not> ok) inspections of [] \<Rightarrow> Inr () | (e, ok) # _ \<Rightarrow> Inl e)"

definition gold_paths :: "gold_builder \<Rightarrow> string list res" where
  "gold_paths b = traverse (gold_reference b ''gold'') GOLD_TABLES"

definition run_gold :: "gold_builder \<Rightarrow> string \<Rightarrow> bool \<Rightarrow> string list io" where
  "run_gold b batch_id full_rebuild =
     io_bind (io_get (current_silver_versions b)) (\<lambda>propagated.
     io_bind (io_get (latest_release (gold_store b))) (\<lambda>previous_release.
     case (if full_rebuild then None else previous_release) of
       None \<Rightarrow>
         io_bind (run_full b full_rebuild) (\<lambda>changed_gold_tables.
         io_bind (publish_gold b propagated batch_id changed_gold_tables previous_release) (\<lambda>_.
         io_lift (gold_paths b)))
     | Some release \<Rightarrow>
         let previous = gr_silver_versions release in
         io_bind (io_get (refresh_stale_propagated_versions b previous propagated)) (\<lambda>current.
         io_bind (io_lift (validate_progress previous current)) (\<lambda>_.
         let changed_tables = filter (\<lambda>n. version_of previous n < version_of current n) (map fst current) in
         if changed_tables = [] then io_lift (gold_paths b)
         else
           io_bind (io_get (validate_scd2_schemas b)) (\<lambda>_.
           io_bind (io_get (\<lambda>s. traverse (\<lambda>n. and_then
             (read_changes b n (version_of previous n + 1) (version_of current n) s) (\<lambda>d. Inr (n, d))) changed_tables)) (\<lambda>changes.
           io_bind (io_lift (substantive_changes (gb_fn b) changes)) (\<lambda>kept.
           if kept = [] then
             io_bind (publish_gold b current batch_id [] previous_release) (\<lambda>_. io_lift (gold_paths b))
           else
             io_bind (run_incremental_gold b kept) (\<lambda>changed_gold_tables.
             io_bind (publish_gold b current batch_id changed_gold_tables previous_release) (\<lambda>_.
             io_lift (gold_paths b)))))))))) "

end
