(* ===== verification/GoldScope.thy ===== *)
theory GoldScope
  imports BuildGold ReconcileQueue QualityScd2
begin

text \<open>
  The incremental Gold build replays only the entities a change touches. This theory shows that the
  replay of a scope is the scope of the replay, that writing it back removes exactly the versions
  that are no longer derived, and so that the dimension after an incremental run is the one a full
  rebuild would write.
\<close>

section \<open>Replaying a scope\<close>

lemma keep_first_filter:
  assumes "\<And>x y. x \<in> set xs \<Longrightarrow> y \<in> set xs \<Longrightarrow> f x = f y \<Longrightarrow> P x = P y"
  shows "keep_first f (filter P xs) = filter P (keep_first f xs)"
  using assms
proof (induction xs)
  case (Cons x xs)
  have IH: "keep_first f (filter P xs) = filter P (keep_first f xs)" using Cons.prems by (intro Cons.IH) auto
  show ?case
  proof (cases "P x")
    case True
    then show ?thesis by (simp add: IH) (rule filter_cong, auto)
  next
    case False
    have "f y \<noteq> f x" if "y \<in> set (keep_first f xs)" "P y" for y
    proof -
      have "y \<in> set xs" by (rule subsetD [OF set_keep_first_subset that(1)])
      then have y: "y \<in> set (x # xs)" "x \<in> set (x # xs)" by simp_all
      show ?thesis
      proof
        assume "f y = f x"
        from Cons.prems [OF y this] that(2) False show False by simp
      qed
    qed
    then have "filter P (filter (\<lambda>y. f y \<noteq> f x) (keep_first f xs)) = filter P (keep_first f xs)"
      unfolding filter_filter by (intro filter_cong) auto
    with False IH show ?thesis by simp
  qed
qed simp

text \<open>A redelivered history event belongs to the same entity.\<close>

definition events_of_one_entity :: "scd2_spec \<Rightarrow> row list \<Rightarrow> bool" where
  "events_of_one_entity spec events \<longleftrightarrow> (\<forall>x \<in> set events. \<forall>y \<in> set events.
     x ''_history_event_id'' = y ''_history_event_id'' \<longrightarrow> x (source_key spec) = y (source_key spec))"

lemma entity_events_local:
  assumes "events_of_one_entity spec events" "k \<noteq> Null"
  shows "entity_events spec k events =
    sort_key event_order (keep_first (\<lambda>r. r ''_history_event_id'') (filter (\<lambda>r. r (source_key spec) = k) events))"
proof -
  let ?id = "\<lambda>r. r ''_history_event_id''" and ?src = "\<lambda>r. r (source_key spec)"
  have "filter (\<lambda>r. ?src r = k) (keep_first ?id (filter (\<lambda>r. ?src r \<noteq> Null) events)) =
      keep_first ?id (filter (\<lambda>r. ?src r = k) (filter (\<lambda>r. ?src r \<noteq> Null) events))"
  proof (rule keep_first_filter [symmetric])
    fix x y assume "x \<in> set (filter (\<lambda>r. ?src r \<noteq> Null) events)" "y \<in> set (filter (\<lambda>r. ?src r \<noteq> Null) events)" "?id x = ?id y"
    then have "?src x = ?src y" using assms(1) unfolding events_of_one_entity_def by simp
    then show "(?src x = k) = (?src y = k)" by simp
  qed
  also have "filter (\<lambda>r. ?src r = k) (filter (\<lambda>r. ?src r \<noteq> Null) events) = filter (\<lambda>r. ?src r = k) events"
    using assms(2) by (subst filter_filter, intro filter_cong) auto
  finally show ?thesis by (simp add: entity_events_def drop_duplicates_id)
qed

lemma events_of_one_entity_subset:
  "events_of_one_entity spec events \<Longrightarrow> set events' \<subseteq> set events \<Longrightarrow> events_of_one_entity spec events'"
  by (auto simp: events_of_one_entity_def)

lemma replay_member_iff:
  "v \<in> set (replay_single_entity_scd2 fn spec events) \<longleftrightarrow>
    v_source v \<noteq> Null \<and> v \<in> set (replay_entity fn spec (entity_events spec (v_source v) events))"
  using replay_of_entity [of "v_source v" fn spec events, symmetric] replay_sources_non_null by auto

lemma replay_scope:
  assumes "events_of_one_entity spec events"
  shows "set (replay_single_entity_scd2 fn spec (filter (\<lambda>r. r (source_key spec) \<noteq> Null \<and> r (source_key spec) \<in> K) events)) =
    {v \<in> set (replay_single_entity_scd2 fn spec events). v_source v \<in> K}"
proof -
  let ?scope = "filter (\<lambda>r. r (source_key spec) \<noteq> Null \<and> r (source_key spec) \<in> K) events"
  have one: "events_of_one_entity spec ?scope" using assms by (rule events_of_one_entity_subset) auto
  have same: "entity_events spec k ?scope = (if k \<in> K then entity_events spec k events else [])" if "k \<noteq> Null" for k
  proof -
    have "filter (\<lambda>r. r (source_key spec) = k) ?scope = (if k \<in> K then filter (\<lambda>r. r (source_key spec) = k) events else [])"
      using that by (auto simp: filter_empty_conv intro!: filter_cong)
    then show ?thesis by (simp add: entity_events_local [OF one that] entity_events_local [OF assms that])
  qed
  have "replay_entity fn spec [] = []" by (simp add: replay_entity_def typed_events_def)
  then show ?thesis by (auto simp: replay_member_iff [of _ fn spec ?scope] replay_member_iff [of _ fn spec events] same split: if_splits)
qed

lemma replay_scope_mset:
  assumes "events_of_one_entity spec events"
  shows "mset (replay_single_entity_scd2 fn spec (filter (\<lambda>r. r (source_key spec) \<noteq> Null \<and> r (source_key spec) \<in> K) events)) =
    mset (filter (\<lambda>v. v_source v \<in> K) (replay_single_entity_scd2 fn spec events))"
proof (rule mset_by_source)
  fix k
  let ?scope = "filter (\<lambda>r. r (source_key spec) \<noteq> Null \<and> r (source_key spec) \<in> K) events"
  have one: "events_of_one_entity spec ?scope" using assms by (rule events_of_one_entity_subset) auto
  show "filter (\<lambda>v. v_source v = k) (replay_single_entity_scd2 fn spec ?scope) =
    filter (\<lambda>v. v_source v = k) (filter (\<lambda>v. v_source v \<in> K) (replay_single_entity_scd2 fn spec events))"
  proof (cases "k = Null")
    case True
    then show ?thesis using replay_sources_non_null by (auto simp: filter_empty_conv intro!: filter_False [THEN trans])
  next
    case False
    have "filter (\<lambda>r. r (source_key spec) = k) ?scope = (if k \<in> K then filter (\<lambda>r. r (source_key spec) = k) events else [])"
      using False by (auto simp: filter_empty_conv intro!: filter_cong)
    then have "entity_events spec k ?scope = (if k \<in> K then entity_events spec k events else [])"
      by (simp add: entity_events_local [OF one False] entity_events_local [OF assms False])
    moreover have nil: "replay_entity fn spec [] = []" by (simp add: replay_entity_def typed_events_def)
    moreover have scoped: "filter (\<lambda>v. v_source v = k) (filter (\<lambda>v. v_source v \<in> K) vs) =
        (if k \<in> K then filter (\<lambda>v. v_source v = k) vs else [])" for vs
      by (auto simp: filter_empty_conv intro!: filter_cong)
    ultimately show ?thesis unfolding scoped replay_of_entity [OF False] by simp
  qed
qed

lemma replay_unaffected:
  assumes "events_of_one_entity spec (old @ new)"
    and "\<forall>r \<in> set new. r (source_key spec) = Null \<or> r (source_key spec) \<in> K"
  shows "{v \<in> set (replay_single_entity_scd2 fn spec (old @ new)). v_source v \<notin> K} =
    {v \<in> set (replay_single_entity_scd2 fn spec old). v_source v \<notin> K}"
proof -
  have one: "events_of_one_entity spec old" using assms(1) by (rule events_of_one_entity_subset) auto
  have "entity_events spec k (old @ new) = entity_events spec k old" if "k \<noteq> Null" "k \<notin> K" for k
  proof -
    have "filter (\<lambda>r. r (source_key spec) = k) new = []" using assms(2) that by (auto simp: filter_empty_conv)
    then show ?thesis by (simp add: entity_events_local [OF one that(1)] entity_events_local [OF assms(1) that(1)])
  qed
  then show ?thesis by (auto simp: replay_member_iff)
qed

section \<open>Writing the scope back\<close>

text \<open>A session of the Gold build: no pinned snapshot, no open transaction.\<close>

definition gold_session :: "gold_builder \<Rightarrow> lake \<Rightarrow> bool" where
  "gold_session b s \<longleftrightarrow> ad_gold_versions (gb_adapter b) = None \<and> lk_txn_app s = None"

lemma gold_upsert_plain [simp]:
  "plain_upsert (gold_upsert\<lparr>uo_delete_keys := dk, uo_target_exists := te, uo_source_is_nonempty := ne\<rparr>)"
  by (simp add: plain_upsert_def gold_upsert_def soft_upsert_def)

lemma member_by_key: "keyed keys rows \<Longrightarrow> r \<in> set rows \<longleftrightarrow> by_key keys rows (key_of keys r) = Some r"
  by (auto intro: by_key_in dest: by_key_Some)

text \<open>A column that is neither stored nor a timestamp leaves nothing of the stored row.\<close>

lemma overwrite_equal:
  assumes "set (ignored_columns layer keys) \<inter> set cols \<subseteq> set keys" "key_of keys s = key_of keys t"
    and "\<forall>c. c \<notin> set cols \<longrightarrow> s c = Null" "\<forall>c. c \<notin> set cols \<longrightarrow> t c = Null" "''created_at'' \<notin> set cols"
  shows "overwrite (ignored_columns layer keys) cols s t = s"
proof (cases "rows_equal_on (ignored_columns layer keys) cols s t")
  case True
  have "s c = t c" for c
  proof (cases "c \<in> set cols")
    case cols: True
    show ?thesis
    proof (cases "c \<in> set keys")
      case True
      then show ?thesis using assms(2) by (auto simp: key_of_def)
    next
      case False
      with assms(1) cols have "c \<notin> set (ignored_columns layer keys)" by blast
      with \<open>rows_equal_on _ _ s t\<close> cols show ?thesis by (auto simp: rows_equal_on_def list_all_iff)
    qed
  qed (use assms(3,4) in simp)
  then have "s = t" by (simp add: fun_eq_iff)
  then show ?thesis by (simp add: overwrite_def True)
next
  case False
  have "s ''created_at'' = Null" "t ''created_at'' = Null" using assms(3-5) by auto
  then show ?thesis using False by (simp add: overwrite_def fun_upd_idem)
qed

lemma upserted_set:
  assumes ok: "upsert_ok opt keys (df_cols d) (df_rows d) tgt"
    and cols: "set (ignored_columns layer keys) \<inter> set (df_cols d) \<subseteq> set keys" "''created_at'' \<notin> set (df_cols d)"
  shows "set (upserted opt layer keys d tgt) = set (df_rows d) \<union>
    {t \<in> set tgt. key_of keys t \<notin> key_of keys ` set (df_rows d) \<and>
      \<not> uo_delete_not_matched_by_source opt \<and> key_of keys t \<notin> deleted_keys opt keys}"
proof -
  note o = ok [unfolded upsert_ok_def]
  have src: "keyed keys (df_rows d)" and tgt: "keyed keys tgt" using o by simp_all
  note new = upserted_by_key [OF ok, of layer]
  have ow: "overwrite (ignored_columns layer keys) (df_cols d) s t = s"
    if "s \<in> set (df_rows d)" "t \<in> set tgt" "key_of keys s = key_of keys t" for s t
    using o that cols by (intro overwrite_equal) (auto simp: in_columns_def)
  have val: "by_key keys (upserted opt layer keys d tgt) k =
      (case by_key keys (df_rows d) k of Some s \<Rightarrow> Some s
       | None \<Rightarrow> if uo_delete_not_matched_by_source opt \<or> k \<in> deleted_keys opt keys then None else by_key keys tgt k)" for k
    unfolding new(1) using ow by (auto simp: upsert_key_def dest: by_key_Some split: option.splits)
  have "r \<in> set (upserted opt layer keys d tgt) \<longleftrightarrow> r \<in> set (df_rows d) \<union>
    {t \<in> set tgt. key_of keys t \<notin> key_of keys ` set (df_rows d) \<and>
      \<not> uo_delete_not_matched_by_source opt \<and> key_of keys t \<notin> deleted_keys opt keys}" for r
  proof (cases "by_key keys (df_rows d) (key_of keys r)")
    case None
    then have "key_of keys r \<notin> key_of keys ` set (df_rows d)" by (auto simp: by_key_None)
    with None show ?thesis unfolding member_by_key [OF new(2)] val
      by (auto simp: member_by_key [OF tgt] member_by_key [OF src])
  next
    case (Some s)
    then have "key_of keys r \<in> key_of keys ` set (df_rows d)" using by_key_Some [OF Some] by (metis imageI)
    with Some show ?thesis unfolding member_by_key [OF new(2)] val
      by (auto simp: member_by_key [OF src])
  qed
  then show ?thesis by blast
qed

lemma keyed_mset: "mset xs = mset ys \<Longrightarrow> keyed keys xs = keyed keys ys"
  unfolding keyed_def by (metis mset_eq_imp_distinct_iff mset_map mset_eq_setD)

lemma keyed_single:
  assumes "keyed [c] rows" "q \<in> set rows" "r \<in> set rows" "q c = r c"
  shows "q = r"
proof (rule inj_onD [of "key_of [c]" "set rows"])
  show "inj_on (key_of [c]) (set rows)" using assms(1) unfolding keyed_def distinct_map by blast
  show "key_of [c] q = key_of [c] r" using assms(4) by (simp add: key_of_def)
qed (use assms in simp_all)

lemma left_anti_single:
  "left_anti [c] (map (select [c]) xs) ys = map (select [c]) (filter (\<lambda>r. r c = Null \<or> r c \<notin> (\<lambda>q. q c) ` set ys) xs)"
proof -
  have "[x] \<in> key_of [c] ` set ys \<longleftrightarrow> x \<in> (\<lambda>q. q c) ` set ys" for x by (auto simp: key_of_def)
  then show ?thesis by (simp add: left_anti_def filter_map comp_def has_null_def key_of_def select_def eq_commute [of Null])
qed

lemma upsert_replayed_refines:
  assumes session: "gold_session b s"
    and ref: "table_reference (ad_lakehouse (gb_adapter b)) ''gold'' name = Inr ref" and t: "lk_tables s (tr_value ref) = Some t"
    and cols: "set (gold_columns name) = set (cm_cols (latest_commit t))"
    and cols_ok: "surrogate \<in> set (gold_columns name)" "source \<in> set (gold_columns name)"
      "set (ignored_columns ''gold'' [surrogate]) \<inter> set (gold_columns name) \<subseteq> {surrogate}"
      "''created_at'' \<notin> set (gold_columns name)" "''_delete'' \<notin> set (gold_columns name)"
    and new: "keyed [surrogate] rows" "in_columns (gold_columns name) rows"
    and old: "keyed [surrogate] (cm_rows (latest_commit t))" "in_columns (gold_columns name) (cm_rows (latest_commit t))"
  shows "\<exists>s'. upsert_replayed_scd2 b name rows surrogate source ids s = (Inr (), s') \<and> gold_session b s' \<and>
    (\<exists>t'. lk_tables s' (tr_value ref) = Some t' \<and> cm_cols (latest_commit t') = cm_cols (latest_commit t) \<and>
      keyed [surrogate] (cm_rows (latest_commit t')) \<and> set (cm_rows (latest_commit t')) = set rows \<union>
      {r \<in> set (cm_rows (latest_commit t)). r surrogate \<notin> (\<lambda>q. q surrogate) ` set rows \<and>
        (r source = Null \<or> r source \<notin> set ids)}) \<and>
    (\<forall>r. r \<noteq> tr_value ref \<longrightarrow> lk_tables s' r = lk_tables s r)"
proof -
  let ?tgt = "cm_rows (latest_commit t)"
  let ?existing = "filter (\<lambda>r. r source \<noteq> Null \<and> r source \<in> set ids) ?tgt"
  let ?stale = "left_anti [surrogate] (map (select [surrogate]) ?existing) rows"
  let ?opt = "gold_upsert\<lparr>uo_delete_keys := Some \<lparr>df_cols = [surrogate], df_rows = ?stale\<rparr>,
             uo_target_exists := Some True, uo_source_is_nonempty := True\<rparr>"
  let ?d = "gold_df name rows"
  have ad: "ad_gold_versions (gb_adapter b) = None" and txn: "lk_txn_app s = None" using session by (simp_all add: gold_session_def)
  have read: "read_gold b name s = (Inr \<lparr>df_cols = cm_cols (latest_commit t), df_rows = ?tgt\<rparr>, s)"
    by (simp add: read_gold_def io_get_def read_table_latest [OF ref t ad])
  have d: "df_rows ?d = rows" "df_cols ?d = gold_columns name" by (simp_all add: gold_df_def)
  have key: "key_of [surrogate] r = [r surrogate]" "key_of [surrogate] (select [surrogate] r) = [r surrogate]" for r
    by (simp_all add: key_of_def select_def)
  have del: "deleted_keys ?opt [surrogate] = {[r surrogate] | r. r \<in> set ?existing \<and> r surrogate \<notin> (\<lambda>q. q surrogate) ` set rows}"
  proof -
    have nn: "r surrogate \<noteq> Null" if "r \<in> set ?existing" for r
      using old(1) that by (auto simp: keyed_def key has_null_def)
    have "set ?stale = select [surrogate] ` {r \<in> set ?existing. r surrogate \<notin> (\<lambda>q. q surrogate) ` set rows}"
      unfolding left_anti_single set_map set_filter [of _ ?existing] using nn by auto
    then have "key_of [surrogate] ` set ?stale = (\<lambda>r. [r surrogate]) ` {r \<in> set ?existing. r surrogate \<notin> (\<lambda>q. q surrogate) ` set rows}"
      by (simp add: image_image key_of_def select_def)
    also have "\<dots> = {[r surrogate] | r. r \<in> set ?existing \<and> r surrogate \<notin> (\<lambda>q. q surrogate) ` set rows}" by blast
    finally have "key_of [surrogate] ` set ?stale = {[r surrogate] | r. r \<in> set ?existing \<and> r surrogate \<notin> (\<lambda>q. q surrogate) ` set rows}" .
    then show ?thesis by (simp add: deleted_keys_def)
  qed
  have ok: "upsert_ok ?opt [surrogate] (df_cols ?d) (df_rows ?d) ?tgt"
  proof -
    have "deleted_keys ?opt [surrogate] \<inter> key_of [surrogate] ` set rows = {}" unfolding del by (fastforce simp: key image_iff)
    moreover have "''created_at'' \<notin> set [surrogate]" using cols_ok(1,4) by auto
    ultimately show ?thesis unfolding upsert_ok_def d using new old cols_ok(1,5) by simp
  qed
  have run: "\<exists>s'. upsert_table (gb_adapter b) ?d ''gold'' name [surrogate] ?opt s = (Inr True, s') \<and>
      current_rows s' (tr_value ref) = upserted ?opt ''gold'' [surrogate] ?d ?tgt \<and>
      (\<exists>t'. lk_tables s' (tr_value ref) = Some t' \<and> cm_cols (latest_commit t') = cm_cols (latest_commit t)) \<and>
      (\<forall>r. r \<noteq> tr_value ref \<longrightarrow> lk_tables s' r = lk_tables s r) \<and> lk_txn_app s' = None"
    by (rule upsert_table_plain [OF ref t ad txn _ _ _ _ ok]) (simp_all add: d cols)
  then obtain s' t' where s': "upsert_table (gb_adapter b) ?d ''gold'' name [surrogate] ?opt s = (Inr True, s')"
      "lk_tables s' (tr_value ref) = Some t'" "cm_cols (latest_commit t') = cm_cols (latest_commit t)"
      "cm_rows (latest_commit t') = upserted ?opt ''gold'' [surrogate] ?d ?tgt"
      "\<forall>r. r \<noteq> tr_value ref \<longrightarrow> lk_tables s' r = lk_tables s r" "lk_txn_app s' = None" by (auto simp: current_rows_def)
  have call: "upsert_replayed_scd2 b name rows surrogate source ids s = (Inr (), s')"
    using s'(1) by (simp add: upsert_replayed_scd2_def filter_gold_def io_bind_def read with_ids_def Let_def)
  have "set (upserted ?opt ''gold'' [surrogate] ?d ?tgt) = set rows \<union>
      {r \<in> set ?tgt. [r surrogate] \<notin> (\<lambda>q. [q surrogate]) ` set rows \<and> [r surrogate] \<notin> deleted_keys ?opt [surrogate]}"
    using upserted_set [OF ok, of "''gold''"] cols_ok by (simp add: d key gold_upsert_def soft_upsert_def)
  also have "\<dots> = set rows \<union> {r \<in> set ?tgt. r surrogate \<notin> (\<lambda>q. q surrogate) ` set rows \<and>
        (r source = Null \<or> r source \<notin> set ids)}"
  proof -
    have same: "q = r" if "q \<in> set ?tgt" "r \<in> set ?tgt" "q surrogate = r surrogate" for q r
      by (rule keyed_single [OF old(1) that])
    have "[r surrogate] \<in> deleted_keys ?opt [surrogate] \<longleftrightarrow> r \<in> set ?existing \<and> r surrogate \<notin> (\<lambda>q. q surrogate) ` set rows"
      if "r \<in> set ?tgt" for r
      unfolding del using same that by auto
    then show ?thesis by (auto simp: image_iff)
  qed
  finally have set: "set (cm_rows (latest_commit t')) = set rows \<union>
      {r \<in> set ?tgt. r surrogate \<notin> (\<lambda>q. q surrogate) ` set rows \<and> (r source = Null \<or> r source \<notin> set ids)}"
    unfolding s'(4) .
  have keyed: "keyed [surrogate] (cm_rows (latest_commit t'))" unfolding s'(4) by (rule upserted_by_key(2) [OF ok])
  have session': "gold_session b s'" using ad s'(6) by (simp add: gold_session_def)
  show ?thesis
    by (rule exI [of _ s'], intro conjI call session' s'(5), rule exI [of _ t'], intro conjI s'(2,3) keyed set)
qed

section \<open>An increment equals a rebuild\<close>

definition dimension_versions :: "sparkfn \<Rightarrow> string \<Rightarrow> scd2_spec \<Rightarrow> (row \<Rightarrow> row) \<Rightarrow> df \<Rightarrow> row list" where
  "dimension_versions fn tz spec ev d =
     map (dim_row spec) (replay_single_entity_scd2 fn spec (map ev (normalize_history_event_time fn tz d)))"

lemma normalize_append:
  "normalize_history_event_time fn tz \<lparr>df_cols = c, df_rows = xs @ ys\<rparr> =
    normalize_history_event_time fn tz \<lparr>df_cols = c, df_rows = xs\<rparr> @ normalize_history_event_time fn tz \<lparr>df_cols = c, df_rows = ys\<rparr>"
  by (simp add: normalize_history_event_time_def)

lemma normalize_with_ids:
  assumes "col \<noteq> ''_event_occurred_at''"
  shows "normalize_history_event_time fn tz (with_ids col ids d) =
    filter (\<lambda>r. r col \<noteq> Null \<and> r col \<in> set ids) (normalize_history_event_time fn tz d)"
  using assms by (simp add: normalize_history_event_time_def with_ids_def filter_map comp_def)

lemma normalize_cell:
  assumes "col \<noteq> ''_event_occurred_at''" "r \<in> set (normalize_history_event_time fn tz d)"
  shows "\<exists>q \<in> set (df_rows d). r col = q col"
  using assms by (auto simp: normalize_history_event_time_def split: if_splits)

lemma dimension_scope:
  assumes ok: "spec_ok spec" and src: "\<And>r. ev r (source_key spec) = r col" and col: "col \<noteq> ''_event_occurred_at''"
    and one: "events_of_one_entity spec (map ev (normalize_history_event_time fn tz \<lparr>df_cols = c, df_rows = old @ new\<rparr>))"
    and new: "\<forall>r \<in> set new. r col = Null \<or> r col \<in> set ids"
    and keyed: "keyed [surrogate] (u # dimension_versions fn tz spec ev \<lparr>df_cols = c, df_rows = old @ new\<rparr>)"
    and u: "u (source_key spec) = Null"
  shows "set (dimension_versions fn tz spec ev (with_ids col ids \<lparr>df_cols = c, df_rows = old @ new\<rparr>)) \<union>
      {r \<in> set (u # dimension_versions fn tz spec ev \<lparr>df_cols = c, df_rows = old\<rparr>).
        r surrogate \<notin> (\<lambda>q. q surrogate) ` set (dimension_versions fn tz spec ev (with_ids col ids \<lparr>df_cols = c, df_rows = old @ new\<rparr>)) \<and>
        (r (source_key spec) = Null \<or> r (source_key spec) \<notin> set ids)} =
    set (u # dimension_versions fn tz spec ev \<lparr>df_cols = c, df_rows = old @ new\<rparr>)"
    (is "?scope \<union> ?kept = ?all")
proof -
  let ?e = "\<lambda>rows. map ev (normalize_history_event_time fn tz \<lparr>df_cols = c, df_rows = rows\<rparr>)"
  let ?src = "source_key spec"
  have events: "?e (old @ new) = ?e old @ ?e new" by (simp add: normalize_append)
  have scope: "?scope = dim_row spec ` {v \<in> set (replay_single_entity_scd2 fn spec (?e (old @ new))). v_source v \<in> set ids}"
    using replay_scope [OF one, of fn "set ids"]
    by (simp add: dimension_versions_def normalize_with_ids [OF col] filter_map comp_def src)
  have cover: "\<forall>r \<in> set (?e new). r ?src = Null \<or> r ?src \<in> set ids"
    using new normalize_cell [OF col] by (fastforce simp: src)
  have kept: "{v \<in> set (replay_single_entity_scd2 fn spec (?e (old @ new))). v_source v \<notin> set ids} =
      {v \<in> set (replay_single_entity_scd2 fn spec (?e old)). v_source v \<notin> set ids}"
    using replay_unaffected [of spec "?e old" "?e new", OF one [unfolded events] cover] by (simp only: events)
  have row: "dim_row spec v ?src = v_source v \<and> v_source v \<noteq> Null"
    if "v \<in> set (replay_single_entity_scd2 fn spec (?e rows))" for v rows
  proof -
    have "v_source v \<noteq> Null" using that by (rule replay_sources_non_null)
    moreover have "v \<in> set (replay_entity fn spec (entity_events spec (v_source v) (?e rows)))"
      using that replay_member_iff by blast
    ultimately show ?thesis using dim_row_source [OF ok] by blast
  qed
  have same: "q = r" if "q \<in> ?all" "r \<in> ?all" "q surrogate = r surrogate" for q r
    by (rule keyed_single [OF keyed that])
  have scope_all: "?scope \<subseteq> ?all" unfolding scope by (auto simp: dimension_versions_def)
  have kept_all: "?kept \<subseteq> ?all"
  proof
    fix r assume r: "r \<in> ?kept"
    show "r \<in> ?all"
    proof (cases "r = u")
      case False
      with r obtain v where v: "r = dim_row spec v" "v \<in> set (replay_single_entity_scd2 fn spec (?e old))"
        by (auto simp: dimension_versions_def)
      then have "v_source v \<notin> set ids" using r row [OF v(2)] by auto
      with v(2) kept have "v \<in> set (replay_single_entity_scd2 fn spec (?e (old @ new)))" by blast
      then show ?thesis by (simp add: dimension_versions_def v(1))
    qed simp
  qed
  have all: "r \<in> ?scope \<union> ?kept" if r: "r \<in> ?all" for r
  proof (cases "r ?src = Null \<or> r ?src \<notin> set ids")
    case True
    have "r surrogate \<notin> (\<lambda>q. q surrogate) ` ?scope"
    proof
      assume "r surrogate \<in> (\<lambda>q. q surrogate) ` ?scope"
      then obtain q where q: "q \<in> ?scope" "r surrogate = q surrogate" by blast
      then have "r = q" using same [OF r] scope_all by blast
      with q(1) True row show False unfolding scope by auto
    qed
    moreover have "r \<in> set (u # dimension_versions fn tz spec ev \<lparr>df_cols = c, df_rows = old\<rparr>)"
    proof (cases "r = u")
      case False
      with r obtain v where v: "r = dim_row spec v" "v \<in> set (replay_single_entity_scd2 fn spec (?e (old @ new)))"
        by (auto simp: dimension_versions_def)
      then have "v_source v \<notin> set ids" using True row [OF v(2)] by auto
      with v(2) kept have "v \<in> set (replay_single_entity_scd2 fn spec (?e old))" by blast
      then show ?thesis by (simp add: dimension_versions_def v(1))
    qed simp
    ultimately show ?thesis using True by blast
  next
    case False
    then have "r \<noteq> u" using u by auto
    with r obtain v where v: "r = dim_row spec v" "v \<in> set (replay_single_entity_scd2 fn spec (?e (old @ new)))"
      by (auto simp: dimension_versions_def)
    then have "v_source v \<in> set ids" using False row [OF v(2)] by auto
    with v show ?thesis unfolding scope by blast
  qed
  show ?thesis using scope_all kept_all all by blast
qed

lemma versions_in_columns: "in_columns (scd2_columns spec) (dimension_versions fn tz spec ev d)"
proof -
  have "v_attrs v c = Null" if "v \<in> set (replay_entity fn spec xs)" "c \<notin> set (dimension_columns spec)" for v xs c
    using that by (auto simp: replay_entity_def Let_def version_row_def select_def)
  then have "dim_row spec v c = Null" if "v \<in> set (replay_single_entity_scd2 fn spec es)" "c \<notin> set (scd2_columns spec)" for v es c
    using that by (auto simp: replay_single_entity_scd2_def Let_def dim_row_def scd2_columns_def)
  then show ?thesis by (auto simp: in_columns_def dimension_versions_def)
qed

text \<open>The stored dimension and the Silver history a run of the Gold build works on.\<close>

definition stored_dimension :: "gold_builder \<Rightarrow> lake \<Rightarrow> string \<Rightarrow> string \<Rightarrow> row list \<Rightarrow> bool" where
  "stored_dimension b s name surrogate rows \<longleftrightarrow> (case table_reference (ad_lakehouse (gb_adapter b)) ''gold'' name of
     Inl e \<Rightarrow> False
   | Inr ref \<Rightarrow> (case lk_tables s (tr_value ref) of None \<Rightarrow> False
     | Some t \<Rightarrow> set (cm_cols (latest_commit t)) = set (gold_columns name) \<and>
         keyed [surrogate] (cm_rows (latest_commit t)) \<and> set (cm_rows (latest_commit t)) = set rows))"

definition stored_history :: "gold_builder \<Rightarrow> lake \<Rightarrow> string \<Rightarrow> df \<Rightarrow> bool" where
  "stored_history b s name d \<longleftrightarrow> and_then (gold_reference b ''silver'' (silver_change_history_table_name name))
     (\<lambda>ref. read_delta s ref None) = Inr d"

lemma stored_dimensionE:
  assumes "stored_dimension b s name surrogate rows"
  obtains ref t where "table_reference (ad_lakehouse (gb_adapter b)) ''gold'' name = Inr ref" "lk_tables s (tr_value ref) = Some t"
    "set (cm_cols (latest_commit t)) = set (gold_columns name)" "keyed [surrogate] (cm_rows (latest_commit t))"
    "set (cm_rows (latest_commit t)) = set rows"
  using assms by (auto simp: stored_dimension_def split: sum.splits option.splits)

lemma read_history:
  assumes "stored_history b s name d"
  shows "read_silver_history b name s = (Inr d, s)"
  using assms
  by (auto simp: stored_history_def read_silver_history_def io_bind_def io_get_def and_then_Inr_iff split: sum.splits)

definition columns_ok :: "string \<Rightarrow> scd2_spec \<Rightarrow> bool" where
  "columns_ok name spec \<longleftrightarrow> gold_columns name = scd2_columns spec \<and> surrogate_key spec \<in> set (gold_columns name) \<and>
     source_key spec \<in> set (gold_columns name) \<and>
     list_all (\<lambda>c. c \<in> set (ignored_columns ''gold'' [surrogate_key spec]) \<longrightarrow> c = surrogate_key spec) (gold_columns name) \<and>
     ''created_at'' \<notin> set (gold_columns name) \<and> ''_delete'' \<notin> set (gold_columns name) \<and> spec_ok spec"

lemma scd2_columns_ok:
  "columns_ok ''dim_shop'' shop_spec" "columns_ok ''dim_customer'' customer_spec"
  "columns_ok ''dim_category'' category_spec" "columns_ok ''dim_product'' product_spec"
  by code_simp+

lemma replayed_dimension_equals_rebuild:
  assumes spec: "columns_ok name spec"
    and session: "gold_session b s"
    and dim: "stored_dimension b s name (surrogate_key spec) (u # dimension_versions fn tz spec ev \<lparr>df_cols = c, df_rows = old\<rparr>)"
    and src: "\<And>r. ev r (source_key spec) = r col" and col: "col \<noteq> ''_event_occurred_at''"
    and one: "events_of_one_entity spec (map ev (normalize_history_event_time fn tz \<lparr>df_cols = c, df_rows = old @ new\<rparr>))"
    and new: "\<forall>r \<in> set new. r col = Null \<or> r col \<in> set ids"
    and keyed: "keyed [surrogate_key spec] (u # dimension_versions fn tz spec ev \<lparr>df_cols = c, df_rows = old @ new\<rparr>)"
    and u: "u (source_key spec) = Null" "in_columns (scd2_columns spec) [u]"
  shows "\<exists>s'. upsert_replayed_scd2 b name (dimension_versions fn tz spec ev (with_ids col ids \<lparr>df_cols = c, df_rows = old @ new\<rparr>))
      (surrogate_key spec) (source_key spec) ids s = (Inr (), s') \<and> gold_session b s' \<and>
    stored_dimension b s' name (surrogate_key spec) (u # dimension_versions fn tz spec ev \<lparr>df_cols = c, df_rows = old @ new\<rparr>)"
proof -
  let ?D = "dimension_versions fn tz spec ev" and ?all = "\<lparr>df_cols = c, df_rows = old @ new\<rparr>"
  let ?scope = "?D (with_ids col ids ?all)"
  note cols = spec [unfolded columns_ok_def]
  then have ok: "spec_ok spec" by blast
  have ign: "set (ignored_columns ''gold'' [surrogate_key spec]) \<inter> set (gold_columns name) \<subseteq> {surrogate_key spec}"
    using cols by (auto simp: list_all_iff)
  obtain ref t where t: "table_reference (ad_lakehouse (gb_adapter b)) ''gold'' name = Inr ref" "lk_tables s (tr_value ref) = Some t"
    "set (cm_cols (latest_commit t)) = set (gold_columns name)" "keyed [surrogate_key spec] (cm_rows (latest_commit t))"
    "set (cm_rows (latest_commit t)) = set (u # ?D \<lparr>df_cols = c, df_rows = old\<rparr>)"
    by (rule stored_dimensionE [OF dim])
  have rebuilt: "set ?scope \<union> {r \<in> set (cm_rows (latest_commit t)). r (surrogate_key spec) \<notin> (\<lambda>q. q (surrogate_key spec)) ` set ?scope \<and>
      (r (source_key spec) = Null \<or> r (source_key spec) \<notin> set ids)} = set (u # ?D ?all)"
    unfolding t(5) by (rule dimension_scope [OF ok src col one new keyed u(1)])
  let ?e = "map ev (normalize_history_event_time fn tz ?all)"
  have "mset ?scope = mset (map (dim_row spec) (filter (\<lambda>v. v_source v \<in> set ids) (replay_single_entity_scd2 fn spec ?e)))"
    using replay_scope_mset [OF one, of fn "set ids"]
    by (simp add: dimension_versions_def normalize_with_ids [OF col] filter_map comp_def src)
  moreover have "keyed [surrogate_key spec] (map (dim_row spec) (filter P (replay_single_entity_scd2 fn spec ?e)))" for P
    using keyed by (simp add: keyed_def dimension_versions_def distinct_map_filter comp_def)
  ultimately have k: "keyed [surrogate_key spec] ?scope" using keyed_mset by metis
  have c: "surrogate_key spec \<in> set (gold_columns name)" "source_key spec \<in> set (gold_columns name)"
    "''created_at'' \<notin> set (gold_columns name)" "''_delete'' \<notin> set (gold_columns name)" using cols by blast+
  have in_scope: "in_columns (gold_columns name) ?scope" using cols versions_in_columns by metis
  have in_old: "in_columns (gold_columns name) (cm_rows (latest_commit t))"
    using t(5) u(2) versions_in_columns [of spec fn tz ev "\<lparr>df_cols = c, df_rows = old\<rparr>"] cols
    by (simp add: in_columns_def)
  note run = upsert_replayed_refines [OF session t(1,2) t(3) [symmetric] c(1,2) ign c(3,4) k in_scope t(4) in_old,
      of ids, unfolded rebuilt]
  then obtain s' t' where s': "upsert_replayed_scd2 b name ?scope (surrogate_key spec) (source_key spec) ids s = (Inr (), s')"
      "gold_session b s'" "lk_tables s' (tr_value ref) = Some t'" "cm_cols (latest_commit t') = cm_cols (latest_commit t)"
      "keyed [surrogate_key spec] (cm_rows (latest_commit t'))" "set (cm_rows (latest_commit t')) = set (u # ?D ?all)"
    by blast
  then show ?thesis using t by (auto simp: stored_dimension_def)
qed

section \<open>Shops\<close>

definition unknown_row :: "(string \<times> val) list \<Rightarrow> row" where
  "unknown_row member = row_of (member @ [(''effective_from'', TsV 0), (''effective_to'', open_end),
     (''is_current'', BoolV True), (''is_deleted'', BoolV False)])"

lemma shop_build:
  "build_dim_shop_from_history fn tz True d = unknown_row unknown_shop # dimension_versions fn tz shop_spec (shop_event fn) d"
  "build_dim_shop_from_history fn tz False d = dimension_versions fn tz shop_spec (shop_event fn) d"
  by (simp_all add: build_dim_shop_from_history_def with_unknown_def unknown_row_def dimension_versions_def)

lemma shop_event_id: "shop_event fn r ''source_shop_id'' = r ''shop_id''"
  by (simp add: shop_event_def project_def)

lemma unknown_shop_row:
  "unknown_row unknown_shop ''source_shop_id'' = Null" "in_columns (scd2_columns shop_spec) [unknown_row unknown_shop]"
  by (simp_all add: unknown_row_def unknown_shop_def row_of_def in_columns_def scd2_columns_def shop_spec_def)

text \<open>
  C10. An incremental run is a rebuild. When the stored shop dimension is the one built from the old
  history, and the ids of the changed Silver rows cover every shop with new history events, then
  the incremental job succeeds and leaves exactly the rows a full rebuild from the whole history
  would write: versions whose end or key moved are replaced, those no longer derived are deleted,
  the other shops and the unknown member stay. (The surrogate keys of the rebuilt dimension are
  distinct, and a redelivered event id belongs to one shop.)
\<close>

theorem shop_increment_equals_rebuild:
  assumes "gold_session b s"
    and "stored_history b s ''shops'' \<lparr>df_cols = c, df_rows = old @ new\<rparr>"
    and "stored_dimension b s ''dim_shop'' ''shop_key''
      (build_dim_shop_from_history (gb_fn b) (gb_timezone b) True \<lparr>df_cols = c, df_rows = old\<rparr>)"
    and "events_of_one_entity shop_spec
      (map (shop_event (gb_fn b)) (normalize_history_event_time (gb_fn b) (gb_timezone b) \<lparr>df_cols = c, df_rows = old @ new\<rparr>))"
    and "\<forall>r \<in> set new. r ''shop_id'' = Null \<or> r ''shop_id'' \<in> set (ids_of ''shop_id'' (df_rows change))"
    and "keyed [''shop_key''] (build_dim_shop_from_history (gb_fn b) (gb_timezone b) True \<lparr>df_cols = c, df_rows = old @ new\<rparr>)"
  shows "\<exists>s'. update_shop b change s = (Inr (), s') \<and>
    stored_dimension b s' ''dim_shop'' ''shop_key''
      (build_dim_shop_from_history (gb_fn b) (gb_timezone b) True \<lparr>df_cols = c, df_rows = old @ new\<rparr>)"
proof -
  have keys: "surrogate_key shop_spec = ''shop_key''" "source_key shop_spec = ''source_shop_id''" by (simp_all add: shop_spec_def)
  from replayed_dimension_equals_rebuild [OF scd2_columns_ok(1) assms(1), where ev = "shop_event (gb_fn b)" and col = "''shop_id''",
      unfolded keys, OF assms(3) [unfolded shop_build] shop_event_id _ assms(4,5) assms(6) [unfolded shop_build] unknown_shop_row]
  obtain s' where "upsert_replayed_scd2 b ''dim_shop'' (build_dim_shop_from_history (gb_fn b) (gb_timezone b) False
      (with_ids ''shop_id'' (ids_of ''shop_id'' (df_rows change)) \<lparr>df_cols = c, df_rows = old @ new\<rparr>)) ''shop_key'' ''source_shop_id''
      (ids_of ''shop_id'' (df_rows change)) s = (Inr (), s')"
      "stored_dimension b s' ''dim_shop'' ''shop_key''
      (build_dim_shop_from_history (gb_fn b) (gb_timezone b) True \<lparr>df_cols = c, df_rows = old @ new\<rparr>)"
    unfolding shop_build by auto
  then show ?thesis
    using read_history [OF assms(2)] by (auto simp: update_shop_def filter_history_def io_bind_def Let_def)
qed

definition demo_gold :: gold_builder where
  "demo_gold = \<lparr>gb_fn = example_fn, gb_timezone = ''UTC'', gb_now = 0, gb_dumps = example_dumps, gb_loads = example_loads,
     gb_adapter = demo_adapter, gb_manifest = None\<rparr>"

definition demo_shop_change :: "int \<Rightarrow> string \<Rightarrow> row" where
  "demo_shop_change t name = row_of [(''shop_id'', IntV 7), (''_history_event_id'', StrV name), (''_event_occurred_at'', TsV t),
     (''_operation'', StrV ''UPDATE''), (''shop_name'', StrV name), (''created_at'', TsV 5)]"

definition demo_shop_history :: "row list \<Rightarrow> df" where
  "demo_shop_history rows = \<lparr>df_cols = [''shop_id'', ''shop_name''], df_rows = rows\<rparr>"

definition demo_shop_lake :: lake where
  "demo_shop_lake = empty_lake\<lparr>lk_tables :=
     [''lake/gold/dim_shop'' \<mapsto> \<lparr>dt_commits = [\<lparr>cm_cols = gold_columns ''dim_shop'',
        cm_rows = build_dim_shop_from_history example_fn ''UTC'' True (demo_shop_history [demo_shop_change 10 ''ann'']),
        cm_changes = [], cm_metadata = None\<rparr>], dt_props = [], dt_txns = []\<rparr>,
      ''lake/silver/shops_change_history'' \<mapsto> \<lparr>dt_commits = [\<lparr>cm_cols = [''shop_id'', ''shop_name''],
        cm_rows = [demo_shop_change 10 ''ann'', demo_shop_change 20 ''annabel''],
        cm_changes = [], cm_metadata = None\<rparr>], dt_props = [], dt_txns = []\<rparr>]\<rparr>"

lemma demo_shop_keyed:
  "keyed [''shop_key''] (build_dim_shop_from_history example_fn ''UTC'' True (demo_shop_history [demo_shop_change 10 ''ann'']))"
  "keyed [''shop_key''] (build_dim_shop_from_history example_fn ''UTC'' True
     (demo_shop_history [demo_shop_change 10 ''ann'', demo_shop_change 20 ''annabel'']))"
  by code_simp+

lemma demo_shop_references:
  "map_sum id tr_value (table_reference (ad_lakehouse demo_adapter) ''gold'' ''dim_shop'') = Inr ''lake/gold/dim_shop''"
  "gold_reference demo_gold ''silver'' (silver_change_history_table_name ''shops'') = Inr ''lake/silver/shops_change_history''"
  by code_simp+

lemma demo_shop_state:
  "gold_session demo_gold demo_shop_lake"
  "stored_history demo_gold demo_shop_lake ''shops'' (demo_shop_history ([demo_shop_change 10 ''ann''] @ [demo_shop_change 20 ''annabel'']))"
  "stored_dimension demo_gold demo_shop_lake ''dim_shop'' ''shop_key''
    (build_dim_shop_from_history example_fn ''UTC'' True (demo_shop_history [demo_shop_change 10 ''ann'']))"
proof -
  obtain ref where "table_reference (ad_lakehouse demo_adapter) ''gold'' ''dim_shop'' = Inr ref" "tr_value ref = ''lake/gold/dim_shop''"
    using demo_shop_references(1) by (cases "table_reference (ad_lakehouse demo_adapter) ''gold'' ''dim_shop''") auto
  then show "stored_dimension demo_gold demo_shop_lake ''dim_shop'' ''shop_key''
    (build_dim_shop_from_history example_fn ''UTC'' True (demo_shop_history [demo_shop_change 10 ''ann'']))"
    using demo_shop_keyed(1) by (simp add: stored_dimension_def demo_gold_def demo_shop_lake_def latest_commit_def)
  show "stored_history demo_gold demo_shop_lake ''shops'' (demo_shop_history ([demo_shop_change 10 ''ann''] @ [demo_shop_change 20 ''annabel'']))"
    unfolding stored_history_def demo_shop_references(2)
    by (simp add: read_delta_def delta_table_at_def demo_shop_lake_def snapshot_def latest_commit_def demo_shop_history_def Let_def)
  show "gold_session demo_gold demo_shop_lake"
    by (simp add: gold_session_def demo_gold_def demo_adapter_def demo_shop_lake_def empty_lake_def)
qed

theorem shop_increment_equals_rebuild_witness:
  "\<exists>s'. update_shop demo_gold \<lparr>df_cols = [''shop_id''], df_rows = [demo_shop_change 20 ''annabel'']\<rparr> demo_shop_lake = (Inr (), s') \<and>
    stored_dimension demo_gold s' ''dim_shop'' ''shop_key'' (build_dim_shop_from_history example_fn ''UTC'' True
      (demo_shop_history [demo_shop_change 10 ''ann'', demo_shop_change 20 ''annabel'']))"
proof -
  have one: "events_of_one_entity shop_spec (map (shop_event example_fn) (normalize_history_event_time example_fn ''UTC''
      (demo_shop_history ([demo_shop_change 10 ''ann''] @ [demo_shop_change 20 ''annabel'']))))"
    by code_simp
  have cover: "\<forall>r \<in> set [demo_shop_change 20 ''annabel'']. r ''shop_id'' = Null \<or>
      r ''shop_id'' \<in> set (ids_of ''shop_id'' (df_rows \<lparr>df_cols = [''shop_id''], df_rows = [demo_shop_change 20 ''annabel'']\<rparr>))"
    by code_simp
  have fn: "gb_fn demo_gold = example_fn" "gb_timezone demo_gold = ''UTC''" by (simp_all add: demo_gold_def)
  from shop_increment_equals_rebuild [of demo_gold demo_shop_lake "[''shop_id'', ''shop_name'']" "[demo_shop_change 10 ''ann'']"
      "[demo_shop_change 20 ''annabel'']", unfolded fn, folded demo_shop_history_def,
      OF demo_shop_state one cover] demo_shop_keyed(2)
  show ?thesis by simp
qed

end
