(* ===== verification/GoldRun.thy ===== *)
theory GoldRun
  imports GoldScope
begin

text \<open>
  Runs of the Gold build: what a run may write, and that a run brings Gold up to date, so that
  running it again changes nothing.
\<close>

section \<open>What a run may write\<close>

definition keeps :: "string set \<Rightarrow> 'a io \<Rightarrow> bool" where
  "keeps R m \<longleftrightarrow> (\<forall>s. lk_txn_app (snd (m s)) = lk_txn_app s \<and> (\<forall>r \<in> R. lk_tables (snd (m s)) r = lk_tables s r))"

lemma keeps_bind: "keeps R m \<Longrightarrow> (\<And>a. keeps R (f a)) \<Longrightarrow> keeps R (io_bind m f)"
  unfolding keeps_def io_bind_def by (auto split: prod.splits sum.splits) (metis snd_conv)+

lemma keeps_pure [simp]: "keeps R (io_return a)" "keeps R (io_raise e)" "keeps R (io_lift r)" "keeps R (io_get g)"
  by (simp_all add: keeps_def io_get_def)

lemma keeps_traverse: "(\<And>x. keeps R (f x)) \<Longrightarrow> keeps R (io_traverse f xs)"
  by (induction xs) (simp_all add: keeps_bind)

lemma keeps_traverse_id: "(\<And>m. m \<in> set ms \<Longrightarrow> keeps R (f m)) \<Longrightarrow> keeps R (io_traverse f ms)"
  by (induction ms) (simp_all add: keeps_bind)

definition outside :: "string set \<Rightarrow> adapter \<Rightarrow> string \<Rightarrow> bool" where
  "outside R ad layer \<longleftrightarrow> (\<forall>name ref. table_reference (ad_lakehouse ad) layer name = Inr ref \<longrightarrow> tr_value ref \<notin> R)"

lemma keeps_write: "outside R ad layer \<Longrightarrow> keeps R (write_table ad d layer name cdf)"
  by (auto simp: keeps_def write_table_def outside_def io_bind_def commit_table_def Let_def split: sum.splits)

lemma keeps_merge: "ref \<notin> R \<Longrightarrow> keeps R (run_merge ref m src)"
  by (auto simp: keeps_def run_merge_def commit_table_def Let_def split: sum.splits)

lemma keeps_lift_bind:
  "(\<And>a. r = Inr a \<Longrightarrow> keeps R (f a)) \<Longrightarrow> keeps R (io_bind (io_lift r) f)"
  by (cases r) (simp_all add: keeps_def)

lemma keeps_if: "keeps R m \<Longrightarrow> keeps R m' \<Longrightarrow> keeps R (if b then m else m')"
  by simp

lemma keeps_option: "keeps R m \<Longrightarrow> (\<And>a. keeps R (f a)) \<Longrightarrow> keeps R (case x of None \<Rightarrow> m | Some a \<Rightarrow> f a)"
  by (cases x) simp_all

lemmas keeps_rules = keeps_pure keeps_lift_bind keeps_bind keeps_if keeps_option keeps_traverse

lemma keeps_upsert: "outside R ad layer \<Longrightarrow> keeps R (upsert_table ad d layer name keys opt)"
  unfolding upsert_table_def Let_def
  by (intro keeps_rules keeps_write keeps_merge) (auto simp: outside_def)

lemma keeps_append_new_rows: "outside R ad layer \<Longrightarrow> keeps R (append_new_rows ad d layer name keys ex)"
  unfolding append_new_rows_def Let_def
  by (intro keeps_rules keeps_write keeps_merge) (auto simp: outside_def)

lemma keeps_release: "outside R (rs_adapter rs) ''gold'' \<Longrightarrow> keeps R (publish_release rs c)"
  unfolding publish_release_def fact_reference_def
  by (intro keeps_rules) (auto simp: keeps_def outside_def delta_commit_metadata_def set_delta_table_property_def
      and_then_Inr_iff Let_def split: option.splits prod.splits)

lemma keeps_tables: "(\<And>n. keeps R (read n)) \<Longrightarrow> keeps R (io_tables read names)"
  unfolding io_tables_def by (intro keeps_rules)

lemma keeps_reads [simp]:
  "keeps R (read_silver b name)" "keeps R (read_gold b name)" "keeps R (read_silver_history b name)"
  by (simp_all add: read_silver_def read_gold_def read_silver_history_def keeps_rules)

lemma keeps_filters [simp]:
  "keeps R (filter_current b name col ids)" "keeps R (filter_history b name col ids)" "keeps R (filter_gold b name col ids)"
  "keeps R (empty_current b name)" "keeps R (ids_if_changed b changes name col)"
  by (auto simp: filter_current_def filter_history_def filter_gold_def empty_current_def ids_if_changed_def
      intro!: keeps_rules)

lemma keeps_scopes [simp]:
  "keeps R (affected_order_ids b changes)" "keeps R (promotion_scope b ids)" "keeps R (fact_scope b ids)"
  "keeps R (fact_dimension_scope b sources)" "keeps R (read_sources b)" "keeps R (read_fact_dimensions b)"
  "keeps R (read_scd2_history_increment b d t)"
  unfolding affected_order_ids_def promotion_scope_def fact_scope_def fact_dimension_scope_def read_sources_def
    read_fact_dimensions_def read_scd2_history_increment_def Let_def
  by (auto intro!: keeps_rules keeps_tables split: val.splits prod.splits)

text \<open>Every write of a Gold run goes to a Gold table.\<close>

lemma keeps_gold_writes:
  assumes "outside R (gb_adapter b) ''gold''"
  shows "keeps R (append_dimension_members b rows name key)" "keeps R (upsert_replayed_scd2 b name rows k src ids)"
    "keeps R (write_scd2_checkpoint b d t te)" "keeps R (write_scd2_table b job)" "keeps R (replace_or_merge b rep job')"
  unfolding append_dimension_members_def upsert_replayed_scd2_def write_scd2_checkpoint_def write_scd2_table_def
    replace_or_merge_def Let_def
  by (auto intro!: keeps_rules keeps_upsert keeps_append_new_rows keeps_write assms split: prod.splits)

lemma keeps_jobs:
  assumes "outside R (gb_adapter b) ''gold''" and "j \<in> set (dimension_jobs b changes orders ids)"
  shows "keeps R (gj_action j)"
proof -
  note w = keeps_gold_writes [OF assms(1)]
  have "keeps R (update_customer b)" "keeps R (update_location b changes orders)" "keeps R (update_shop b d)"
    "keeps R (update_category b d)" "keeps R (update_product b changes)" "keeps R (update_promotion b ids)"
    "keeps R (update_payment b d)" "keeps R (update_shipping b d)" for d
    unfolding update_customer_def update_location_def update_shop_def update_category_def update_product_def
      update_promotion_def update_payment_def update_shipping_def Let_def
    by (auto intro!: keeps_rules w keeps_upsert assms(1) split: prod.splits)
  then show ?thesis using assms(2) w(1) by (auto simp: dimension_jobs_def Let_def split: if_splits)
qed

lemma keeps_facts:
  assumes "outside R (gb_adapter b) ''gold''"
  shows "keeps R (update_facts b ids)"
  unfolding update_facts_def Let_def
  by (auto intro!: keeps_rules keeps_tables keeps_upsert assms)

lemma keeps_runs:
  assumes "outside R (gb_adapter b) ''gold''"
  shows "keeps R (run_incremental_gold b changes)" "keeps R (run_full b rep)" "keeps R (publish_gold b sv batch ch prev)"
proof -
  note w = keeps_gold_writes [OF assms] keeps_facts [OF assms] keeps_tables keeps_traverse
  show "keeps R (run_incremental_gold b changes)"
    unfolding run_incremental_gold_def Let_def
    by (auto intro!: keeps_bind keeps_lift_bind keeps_pure w keeps_traverse_id keeps_jobs [OF assms])
  show "keeps R (run_full b rep)"
    unfolding run_full_def by (auto intro!: keeps_bind keeps_lift_bind w)
  have "outside R (rs_adapter (gold_store b)) ''gold''" using assms by (simp add: gold_store_def)
  then show "keeps R (publish_gold b sv batch ch prev)"
    unfolding publish_gold_def Let_def by (auto intro!: keeps_bind keeps_lift_bind keeps_release)
qed

lemma keeps_run_gold:
  assumes "outside R (gb_adapter b) ''gold''"
  shows "keeps R (run_gold b batch full)"
  unfolding run_gold_def Let_def
  by (auto intro!: keeps_bind keeps_lift_bind keeps_option keeps_runs [OF assms])

section \<open>A run brings Gold up to date\<close>

definition silver_refs :: "gold_builder \<Rightarrow> string set" where
  "silver_refs b = {tr_value ref | ref t. table_reference (ad_lakehouse (gb_adapter b)) ''silver'' t = Inr ref}"

lemma delta_table_at_same: "lk_tables s' ref = lk_tables s ref \<Longrightarrow> delta_table_at s' ref = delta_table_at s ref"
  by (simp add: delta_table_at_def)

lemma traverse_cong: "(\<And>x. x \<in> set xs \<Longrightarrow> f x = g x) \<Longrightarrow> traverse f xs = traverse g xs"
  by (induction xs) auto

lemma silver_versions_same:
  assumes "\<forall>r \<in> silver_refs b. lk_tables s' r = lk_tables s r"
  shows "silver_versions b s' = silver_versions b s"
proof -
  have "and_then (gold_reference b ''silver'' t) (\<lambda>ref. and_then (latest_delta_pipeline_commit (gb_loads b) s' ref GOLD_SILVER_DATA_PIPELINES)
      (\<lambda>c. Inr (t, pc_version c))) = and_then (gold_reference b ''silver'' t) (\<lambda>ref.
      and_then (latest_delta_pipeline_commit (gb_loads b) s ref GOLD_SILVER_DATA_PIPELINES) (\<lambda>c. Inr (t, pc_version c)))" for t
  proof (cases "table_reference (ad_lakehouse (gb_adapter b)) ''silver'' t")
    case (Inr ref)
    then have "lk_tables s' (tr_value ref) = lk_tables s (tr_value ref)" using assms by (auto simp: silver_refs_def)
    then have "delta_table_at s' (tr_value ref) = delta_table_at s (tr_value ref)" by (rule delta_table_at_same)
    with Inr show ?thesis by (simp add: gold_reference_def latest_delta_pipeline_commit_def)
  qed (simp add: gold_reference_def)
  then show ?thesis unfolding silver_versions_def by (intro traverse_cong)
qed

lemma silver_versions_names:
  assumes "silver_versions b s = Inr vs"
  shows "map fst vs = map fst SILVER_TABLES"
proof -
  have "list_all2 (\<lambda>t kv. fst kv = t) (map fst SILVER_TABLES) vs"
    using assms unfolding silver_versions_def traverse_Inr_iff
    by (rule list_all2_mono) (auto simp: and_then_Inr_iff)
  then show ?thesis by (induction rule: list_all2_induct) auto
qed

lemma SILVER_TABLES_distinct: "distinct (map fst SILVER_TABLES)"
  by (simp add: SILVER_TABLES_def)

lemma map_of_sort_key: "distinct (map fst vs) \<Longrightarrow> map_of (sort_key fst vs) = map_of vs"
  by (intro map_of_eqI) (auto simp: distinct_map)

lemma gold_up_to_date:
  assumes "gb_manifest b = None" "silver_versions b s = Inr vs"
    and "latest_release (gold_store b) s = Inr (Some r)" and "map_of (gr_silver_versions r) = map_of vs"
  shows "run_gold b batch False s = (gold_paths b, s)"
proof -
  have v: "version_of (gr_silver_versions r) n = version_of vs n" for n by (simp add: version_of_def assms(4))
  have "set (map fst (gr_silver_versions r)) = dom (map_of (gr_silver_versions r))" by (simp add: dom_map_of_conv_image_fst)
  also have "\<dots> = set (map fst vs)" by (simp add: assms(4) dom_map_of_conv_image_fst)
  finally have "validate_progress (gr_silver_versions r) vs = Inr ()" by (simp add: validate_progress_def v)
  then show ?thesis
    by (simp add: run_gold_def io_bind_def io_get_def current_silver_versions_def assms refresh_stale_propagated_versions_def v Let_def)
qed

text \<open>What a publication records.\<close>

lemma publish_gold_release:
  assumes codec: "json_codec (gb_dumps b) (gb_loads b)" and batch: "batch \<noteq> []" and d: "distinct (map fst vs)"
    and run: "publish_gold b vs batch ch prev s = (Inr u, s')"
  shows "\<exists>r. latest_release (gold_store b) s' = Inr (Some r) \<and> map_of (gr_silver_versions r) = map_of vs"
proof -
  obtain c r where c: "publish_release (gold_store b) c s = (Inr r, s')" "gc_silver_versions c = vs" "gc_batch_id c = batch"
    using run by (auto simp: publish_gold_def io_bind_def io_get_def Let_def split: sum.splits prod.splits)
  have r: "r = release_of c" by (rule publish_release_Inr [OF c(1)])
  have "json_codec (rs_dumps (gold_store b)) (rs_loads (gold_store b))" using codec by (simp add: gold_store_def)
  from gold_publish_roundtrip_lemma [OF this _ c(1)] batch c(3)
  have "latest_release (gold_store b) s' = Inr (Some (canonical_release r))" by simp
  moreover have "map_of (sort_key fst vs) = map_of vs" by (rule map_of_sort_key [OF d])
  ultimately show ?thesis by (simp add: canonical_release_def r release_of_def c(2))
qed

lemma io_bind_InrE:
  assumes "io_bind m f s = (Inr a, s')"
  obtains x s1 where "m s = (Inr x, s1)" "f x s1 = (Inr a, s')"
  using assms by (auto simp: io_bind_def split: prod.splits sum.splits)

lemma io_bind_getE:
  assumes "io_bind (io_get g) f s = (Inr a, s')"
  obtains x where "g s = Inr x" "f x s = (Inr a, s')"
  using assms by (auto simp: io_bind_def io_get_def split: sum.splits)

lemma io_bind_liftE:
  assumes "io_bind (io_lift r) f s = (Inr a, s')"
  obtains x where "r = Inr x" "f x s = (Inr a, s')"
  using assms by (cases r) auto

text \<open>A successful run either published the current Silver versions or found nothing to do.\<close>

lemma run_gold_cases:
  assumes m: "gb_manifest b = None" and run: "run_gold b batch full s = (Inr paths, s')"
  shows "gold_paths b = Inr paths \<and>
    ((\<exists>vs ch prev s1 u. silver_versions b s = Inr vs \<and> publish_gold b vs batch ch prev s1 = (Inr u, s')) \<or>
     (s' = s \<and> (\<forall>batch'. run_gold b batch' False s = (Inr paths, s))))"
proof -
  note run' = run [unfolded run_gold_def current_silver_versions_def m option.case]
  from run' obtain vs where vs: "silver_versions b s = Inr vs" by (rule io_bind_getE)
  note run1 = run' [unfolded io_bind_def [of "io_get (silver_versions b)"] io_get_def [of "silver_versions b"] vs prod.case sum.case]
  from run1 obtain prev where prev: "latest_release (gold_store b) s = Inr prev" by (rule io_bind_getE)
  note run2 = run1 [unfolded io_bind_def [of "io_get (latest_release (gold_store b))"] io_get_def [of "latest_release (gold_store b)"]
      prev prod.case sum.case]
  show ?thesis
  proof (cases "if full then None else prev")
    case None
    note run3 = run2 [unfolded None option.case]
    from run3 obtain ch s1 where "io_bind (publish_gold b vs batch ch prev) (\<lambda>_. io_lift (gold_paths b)) s1 = (Inr paths, s')"
      by (rule io_bind_InrE)
    then obtain u s2 where "publish_gold b vs batch ch prev s1 = (Inr u, s2)" "io_lift (gold_paths b) s2 = (Inr paths, s')"
      by (rule io_bind_InrE)
    with vs show ?thesis by auto
  next
    case (Some release)
    let ?prev = "gr_silver_versions release"
    have refresh: "io_get (refresh_stale_propagated_versions b ?prev vs) = io_return vs"
      by (auto simp: fun_eq_iff io_get_def refresh_stale_propagated_versions_def m)
    note run3 = run2 [unfolded Some option.case Let_def refresh io_simps(1)]
    from run3 obtain u where valid: "validate_progress ?prev vs = Inr u" by (rule io_bind_liftE)
    let ?changed = "filter (\<lambda>n. version_of ?prev n < version_of vs n) (map fst vs)"
    note run4 = run3 [unfolded valid io_simps(3)]
    show ?thesis
    proof (cases "?changed = []")
      case True
      have full: "\<not> full" "prev = Some release" using Some by (auto split: if_splits)
      have "gold_paths b = Inr paths" "s' = s" using run4 [unfolded True] by auto
      moreover have "run_gold b batch' False s = (gold_paths b, s)" for batch'
        using m vs prev full valid True
        by (simp add: run_gold_def io_bind_def io_get_def current_silver_versions_def refresh_stale_propagated_versions_def Let_def)
      ultimately show ?thesis by simp
    next
      case False
      note run5 = run4 [unfolded if_not_P [OF False]]
      from run5 obtain x y z where "(if z = [] then io_bind (publish_gold b vs batch [] prev) (\<lambda>_. io_lift (gold_paths b))
           else io_bind (run_incremental_gold b z) (\<lambda>ch. io_bind (publish_gold b vs batch ch prev) (\<lambda>_. io_lift (gold_paths b)))) s =
        (Inr paths, s')"
        by (elim io_bind_getE io_bind_liftE) blast
      then have "\<exists>ch s1. io_bind (publish_gold b vs batch ch prev) (\<lambda>_. io_lift (gold_paths b)) s1 = (Inr paths, s')"
      proof (cases "z = []")
        case False
        from \<open>(if z = [] then _ else _) s = _\<close> [unfolded if_not_P [OF False]] show ?thesis by (rule io_bind_InrE) blast
      qed auto
      then obtain ch s1 u s2 where "publish_gold b vs batch ch prev s1 = (Inr u, s2)" "io_lift (gold_paths b) s2 = (Inr paths, s')"
        by (auto elim!: io_bind_InrE)
      with vs show ?thesis by auto
    qed
  qed
qed

text \<open>
  C11. A Gold run reaches a fixpoint. After a successful run (full or incremental, whatever it
  published or skipped) Gold is up to date with Silver: running it again, under any batch id,
  succeeds with the same paths and changes no table.
\<close>

theorem gold_run_reaches_fixpoint:
  assumes "json_codec (gb_dumps b) (gb_loads b)" and "gb_manifest b = None" and "batch \<noteq> []"
    and "outside (silver_refs b) (gb_adapter b) ''gold''"
    and "run_gold b batch full s = (Inr paths, s')"
  shows "run_gold b batch' False s' = (Inr paths, s')"
proof -
  note c = run_gold_cases [OF assms(2,5)]
  then have paths: "gold_paths b = Inr paths" by blast
  from c consider (published) vs ch prev s1 u where "silver_versions b s = Inr vs" "publish_gold b vs batch ch prev s1 = (Inr u, s')"
    | (idle) "run_gold b batch' False s = (Inr paths, s)" "s' = s" by blast
  then show ?thesis
  proof cases
    case published
    have "\<forall>r \<in> silver_refs b. lk_tables (snd (run_gold b batch full s)) r = lk_tables s r"
      using keeps_run_gold [OF assms(4), of batch full] by (simp add: keeps_def)
    then have "silver_versions b s' = Inr vs" using silver_versions_same [of b s' s] published(1) assms(5) by simp
    moreover have "distinct (map fst vs)" using silver_versions_names [OF published(1)] SILVER_TABLES_distinct by simp
    ultimately obtain r where "latest_release (gold_store b) s' = Inr (Some r)" "map_of (gr_silver_versions r) = map_of vs"
        "silver_versions b s' = Inr vs"
      using publish_gold_release [OF assms(1,3) _ published(2)] by blast
    then show ?thesis using gold_up_to_date [OF assms(2)] paths by simp
  qed simp
qed

text \<open>In a lakehouse of paths the Gold tables lie outside the Silver ones.\<close>

lemma path_layers_outside:
  assumes "lc_catalog (ad_lakehouse (gb_adapter b)) = None"
  shows "outside (silver_refs b) (gb_adapter b) ''gold''"
proof -
  let ?c = "ad_lakehouse (gb_adapter b)"
  have False if "table_reference ?c ''gold'' name = Inr ref" "table_reference ?c ''silver'' t = Inr ref'" "tr_value ref = tr_value ref'"
    for name ref t ref'
    using path_locations_lemma [OF assms, of "Batch ''gold'' name" ref "Batch ''silver'' t" ref'] that by simp
  then show ?thesis by (fastforce simp: outside_def silver_refs_def)
qed

section \<open>An up-to-date lake\<close>

definition demo_silver_table :: delta_table where
  "demo_silver_table = \<lparr>dt_commits = [\<lparr>cm_cols = [], cm_rows = [], cm_changes = [],
     cm_metadata = Some (example_dumps (jobj [(''pipeline'', JStr ''cdc_to_silver'')]))\<rparr>], dt_props = [], dt_txns = []\<rparr>"

text \<open>The reconcile queue holds one scope without orders.\<close>

definition demo_queue_table :: delta_table where
  "demo_queue_table = \<lparr>dt_commits = [\<lparr>cm_cols = queue_columns, cm_rows = [queue_row ''r1'' 1 False (''metadata-only'', Null)],
     cm_changes = [], cm_metadata = None\<rparr>], dt_props = [], dt_txns = []\<rparr>"

definition demo_all_silver :: lake where
  "demo_all_silver = empty_lake\<lparr>lk_tables := (\<lambda>ref.
     if ref = ''lake/gold/fact_sales'' then Some demo_fact_table
     else if ref \<in> set (map (\<lambda>t. ''lake/silver/'' @ t) (map fst SILVER_TABLES)) then Some demo_silver_table
     else if ref = ''lake/silver/gold_reconcile_queue'' then Some demo_queue_table else None)\<rparr>"

definition all_silver_candidate :: gold_candidate where
  "all_silver_candidate = demo_candidate\<lparr>gc_silver_versions := map (\<lambda>t. (t, 0)) (map fst SILVER_TABLES)\<rparr>"

lemma demo_silver_references:
  "map (gold_reference demo_gold ''silver'') (map fst SILVER_TABLES) = map (\<lambda>t. Inr (''lake/silver/'' @ t)) (map fst SILVER_TABLES)"
  "\<exists>paths. gold_paths demo_gold = Inr paths"
  by code_simp (rule exI, code_simp)

lemma demo_silver_versions:
  assumes "\<forall>r. r \<noteq> ''lake/gold/fact_sales'' \<longrightarrow> lk_tables s r = lk_tables demo_all_silver r"
  shows "silver_versions demo_gold s = Inr (map (\<lambda>t. (t, 0)) (map fst SILVER_TABLES))"
  unfolding silver_versions_def
proof (rule traverse_total)
  fix t assume t: "t \<in> set (map fst SILVER_TABLES)"
  have "\<forall>t \<in> set (map fst SILVER_TABLES). gold_reference demo_gold ''silver'' t = Inr (''lake/silver/'' @ t)"
    using demo_silver_references(1) unfolding map_eq_conv .
  then have ref: "gold_reference demo_gold ''silver'' t = Inr (''lake/silver/'' @ t)" using t by (rule bspec)
  have "lk_tables s (''lake/silver/'' @ t) = Some demo_silver_table"
    using assms t by (simp add: demo_all_silver_def del: map_map list.map)
  moreover have "gb_loads demo_gold (example_dumps j) = Some j" for j
    using example_codec by (simp add: demo_gold_def json_codec_def)
  moreover have "jobj [(''pipeline'', JStr ''cdc_to_silver'')] = JObj [(''pipeline'', JStr ''cdc_to_silver'')]" by (simp add: jobj_def)
  ultimately show "and_then (gold_reference demo_gold ''silver'' t) (\<lambda>ref. and_then
      (latest_delta_pipeline_commit (gb_loads demo_gold) s ref GOLD_SILVER_DATA_PIPELINES) (\<lambda>c. Inr (t, pc_version c))) = Inr (t, 0)"
    by (simp add: ref latest_delta_pipeline_commit_def GOLD_SILVER_DATA_PIPELINES_def delta_table_at_def history_def
        demo_silver_table_def metadata_for_pipelines_def)
qed

lemma demo_up_to_date:
  "\<exists>s paths. (\<forall>batch. run_gold demo_gold batch False s = (Inr paths, s)) \<and> lk_tables s ''lake/silver/orders'' = Some demo_silver_table \<and>
     lk_tables s ''lake/silver/gold_reconcile_queue'' = Some demo_queue_table \<and> lk_txn_app s = None"
proof -
  let ?c = all_silver_candidate
  have store: "gold_store demo_gold = demo_store"
    by (simp add: gold_store_def demo_gold_def demo_store_def demo_adapter_def)
  have t: "lk_tables demo_all_silver ''lake/gold/fact_sales'' = Some demo_fact_table" by (simp add: demo_all_silver_def)
  have valid: "validate_versions (gc_silver_versions ?c) None = Inr ()" by code_simp
  have c: "gc_committed_versions ?c = gc_committed_versions demo_candidate" "gc_changed_tables ?c = gc_changed_tables demo_candidate"
    "gc_batch_id ?c = gc_batch_id demo_candidate"
    by (simp_all add: all_silver_candidate_def)
  obtain s where s: "publish_release demo_store ?c demo_all_silver = (Inr (release_of ?c), s)"
    using t by (simp add: publish_release_def valid c demo_candidate_valid demo_fact_reference raise_if_def io_bind_def
        delta_commit_metadata_def set_delta_table_property_def)
  have latest: "latest_release (gold_store demo_gold) s = Inr (Some (canonical_release (release_of ?c)))"
    unfolding store by (rule gold_publish_roundtrip_lemma [OF demo_store_codec _ s]) (simp add: c demo_candidate_valid)
  have other: "\<forall>r. r \<noteq> ''lake/gold/fact_sales'' \<longrightarrow> lk_tables s r = lk_tables demo_all_silver r"
    using s t by (auto simp: publish_release_def valid c demo_candidate_valid demo_fact_reference raise_if_def io_bind_def
        delta_commit_metadata_def set_delta_table_property_def)
  have app: "lk_txn_app s = None"
    using s t by (auto simp: publish_release_def valid c demo_candidate_valid demo_fact_reference raise_if_def io_bind_def
        delta_commit_metadata_def set_delta_table_property_def demo_all_silver_def empty_lake_def)
  have "distinct (map fst (map (\<lambda>t. (t, 0::int)) (map fst SILVER_TABLES)))" using SILVER_TABLES_distinct by (simp add: o_def)
  from map_of_sort_key [OF this]
  have versions: "map_of (gr_silver_versions (canonical_release (release_of ?c))) = map_of (map (\<lambda>t. (t, 0)) (map fst SILVER_TABLES))"
    by (simp add: canonical_release_def release_of_def all_silver_candidate_def)
  have "gb_manifest demo_gold = None" by (simp add: demo_gold_def)
  from gold_up_to_date [OF this demo_silver_versions [OF other] latest versions] demo_silver_references(2) other app
  show ?thesis by (intro exI [of _ s]) (auto simp: demo_all_silver_def SILVER_TABLES_def)
qed

theorem gold_run_reaches_fixpoint_witness:
  "\<exists>s paths. run_gold demo_gold ''b2'' False s = (Inr paths, s) \<and> lk_tables s ''lake/silver/orders'' = Some demo_silver_table \<and>
    run_gold demo_gold ''b3'' False s = (Inr paths, s)"
proof -
  obtain s paths where s: "run_gold demo_gold ''b2'' False s = (Inr paths, s)" "lk_tables s ''lake/silver/orders'' = Some demo_silver_table"
    using demo_up_to_date by blast
  have "json_codec (gb_dumps demo_gold) (gb_loads demo_gold)" "gb_manifest demo_gold = None"
    "lc_catalog (ad_lakehouse (gb_adapter demo_gold)) = None"
    by (simp_all add: demo_gold_def example_codec demo_adapter_def)
  from gold_run_reaches_fixpoint [OF this(1,2) _ path_layers_outside [OF this(3)] s(1)] s show ?thesis by blast
qed

end
