(* ===== verification/Transactions.thy ===== *)
theory Transactions
  imports BuildSilver Merge
begin

text \<open>
  Idempotent Delta transactions. A write under an application id and a version is recorded in the
  table it goes to; the recorded version only grows, whatever is written later, and a write whose
  version is recorded is skipped. The locale \<open>redelivered\<close> states what a family of such writes
  promises and draws the conclusion for a batch of them: delivering the batch again changes nothing.
\<close>

section \<open>Recorded transactions\<close>

definition txn_recorded :: "string \<Rightarrow> string \<Rightarrow> int \<Rightarrow> lake \<Rightarrow> bool" where
  "txn_recorded ref app n s \<longleftrightarrow> (case lk_tables s ref of None \<Rightarrow> False
     | Some t \<Rightarrow> (case map_of (dt_txns t) app of None \<Rightarrow> False | Some w \<Rightarrow> n \<le> w))"

definition keeps_txns :: "'a io \<Rightarrow> bool" where
  "keeps_txns m \<longleftrightarrow> (\<forall>s ref app n. txn_recorded ref app n s \<longrightarrow> txn_recorded ref app n (snd (m s)))"

lemma txn_recorded_settings [simp]:
  "txn_recorded ref app n (s\<lparr>lk_metadata := m\<rparr>) = txn_recorded ref app n s"
  "txn_recorded ref app n (s\<lparr>lk_txn_app := a\<rparr>) = txn_recorded ref app n s"
  "txn_recorded ref app n (s\<lparr>lk_txn_version := v\<rparr>) = txn_recorded ref app n s"
  by (simp_all add: txn_recorded_def)

lemma txn_recorded_table: "txn_recorded ref app n s \<Longrightarrow> \<exists>t. lk_tables s ref = Some t"
  by (auto simp: txn_recorded_def split: option.splits)

lemma txn_recorded_props [simp]:
  "txn_recorded ref app n (s\<lparr>lk_tables := (lk_tables s)(ref' := map_option (\<lambda>t. t\<lparr>dt_props := f t\<rparr>) (lk_tables s ref'))\<rparr>) =
   txn_recorded ref app n s"
  by (auto simp: txn_recorded_def split: option.splits)

lemma commit_keeps_txns: "txn_recorded ref app n s \<Longrightarrow> txn_recorded ref app n (commit_table ref' cols rows changes s)"
  by (auto simp: txn_recorded_def commit_table_def Let_def table_or_empty_def txn_seen_def map_of_assoc_set
      split: option.splits if_splits)

lemma commit_records:
  assumes "lk_txn_app s = Some app" and "lk_txn_version s = Some n"
  shows "txn_recorded ref app n (commit_table ref cols rows changes s)"
  using assms by (auto simp: txn_recorded_def commit_table_def Let_def table_or_empty_def txn_seen_def empty_table_def
      map_of_assoc_set split: option.splits if_splits)

lemma commit_seen:
  assumes "txn_recorded ref app n s" and "lk_txn_app s = Some app" and "lk_txn_version s = Some n"
  shows "commit_table ref cols rows changes s = s"
  using assms by (auto simp: txn_recorded_def commit_table_def Let_def table_or_empty_def txn_seen_def split: option.splits)

lemma seen_recorded:
  assumes "txn_recorded ref app n s" and "lk_txn_app s = Some app" and "lk_txn_version s = Some n"
  shows "txn_seen s (table_or_empty s ref)"
  using assms by (auto simp: txn_recorded_def table_or_empty_def txn_seen_def split: option.splits)

section \<open>Every write keeps the records\<close>

lemma keeps_txns_bind: "keeps_txns m \<Longrightarrow> (\<And>a. keeps_txns (f a)) \<Longrightarrow> keeps_txns (io_bind m f)"
  unfolding keeps_txns_def io_bind_def by (auto split: prod.splits sum.splits) (metis snd_conv)+

lemma keeps_txns_pure [simp]:
  "keeps_txns (io_return a)" "keeps_txns (io_raise e)" "keeps_txns (io_lift r)" "keeps_txns (io_get g)"
  by (simp_all add: keeps_txns_def io_get_def)

lemma keeps_txns_if: "keeps_txns m \<Longrightarrow> keeps_txns m' \<Longrightarrow> keeps_txns (if b then m else m')"
  by simp

lemma keeps_txns_option: "keeps_txns m \<Longrightarrow> (\<And>a. keeps_txns (f a)) \<Longrightarrow> keeps_txns (case x of None \<Rightarrow> m | Some a \<Rightarrow> f a)"
  by (cases x) simp_all

lemma keeps_txns_traverse: "(\<And>x. keeps_txns (f x)) \<Longrightarrow> keeps_txns (io_traverse f xs)"
  by (induction xs) (simp_all add: keeps_txns_bind)

lemmas keeps_txns_rules = keeps_txns_pure keeps_txns_bind keeps_txns_if keeps_txns_option keeps_txns_traverse

lemma keeps_txns_metadata: "keeps_txns m \<Longrightarrow> keeps_txns (delta_commit_metadata dumps j m)"
  by (auto simp: keeps_txns_def delta_commit_metadata_def Let_def split_beta)

lemma keeps_txns_transaction: "keeps_txns m \<Longrightarrow> keeps_txns (delta_idempotent_transaction app n m)"
  by (auto simp: keeps_txns_def delta_idempotent_transaction_def Let_def split_beta)

lemma keeps_txns_session: "keeps_txns m \<Longrightarrow> keeps_txns (in_new_session m)"
  by (auto simp: keeps_txns_def in_new_session_def Let_def split_beta)

lemma keeps_txns_write: "keeps_txns (write_table ad d layer name cdf)"
  unfolding write_table_def
  by (rule keeps_txns_bind) (auto simp: keeps_txns_def Let_def commit_keeps_txns)

lemma keeps_txns_merge: "keeps_txns (run_merge ref m src)"
  by (auto simp: keeps_txns_def run_merge_def Let_def commit_keeps_txns split: sum.splits)

lemma keeps_txns_upsert: "keeps_txns (upsert_table ad d layer name keys opt)"
  unfolding upsert_table_def Let_def by (intro keeps_txns_rules keeps_txns_write keeps_txns_merge)

lemma append_keeps_txns: "txn_recorded ref app n s \<Longrightarrow> txn_recorded ref app n (append_delta ref' d s)"
  by (auto simp: append_delta_def Let_def commit_keeps_txns split: option.splits)

section \<open>A transactional append\<close>

lemma append_delta_records:
  assumes "lk_txn_app s = Some app" and "lk_txn_version s = Some n"
  shows "txn_recorded ref app n (append_delta ref d s)"
  using commit_records [OF assms] by (auto simp: append_delta_def Let_def split: option.splits)

lemma append_delta_again:
  assumes "txn_recorded ref app n s" and "lk_txn_app s = Some app" and "lk_txn_version s = Some n"
  shows "append_delta ref d s = s"
  using commit_seen [OF assms] txn_recorded_table [OF assms(1)] by (auto simp: append_delta_def Let_def)

section \<open>Batches of idempotent writes\<close>

locale redelivered =
  fixes act :: "'x \<Rightarrow> 'a io" and outcome :: "'x \<Rightarrow> 'a" and recorded :: "'x \<Rightarrow> lake \<Rightarrow> bool"
  assumes records: "act x s = (Inr a, s') \<Longrightarrow> a = outcome x \<and> recorded x s'"
    and again: "recorded x s \<Longrightarrow> act x s = (Inr (outcome x), s)"
    and stays: "recorded x s \<Longrightarrow> recorded x (snd (act y s))"
begin

lemma traverse_stays: "recorded x s \<Longrightarrow> recorded x (snd (io_traverse act ys s))"
proof (induction ys arbitrary: s)
  case (Cons y ys)
  obtain r s1 where y: "act y s = (r, s1)" by (cases "act y s")
  with stays [OF Cons.prems, of y] have s1: "recorded x s1" by simp
  from Cons.IH [OF s1] s1 y show ?case by (auto simp: io_bind_def split: prod.splits sum.splits)
qed simp

lemma traverse_records:
  "io_traverse act xs s = (Inr ys, s') \<Longrightarrow> ys = map outcome xs \<and> (\<forall>x \<in> set xs. recorded x s')"
proof (induction xs arbitrary: s ys)
  case (Cons x xs)
  from Cons.prems obtain a s1 zs where x: "act x s = (Inr a, s1)" "io_traverse act xs s1 = (Inr zs, s')" "ys = a # zs"
    by (auto simp: io_bind_def split: prod.splits sum.splits)
  with records [OF x(1)] traverse_stays [of x s1 xs] Cons.IH [OF x(2)] show ?case by auto
qed simp

lemma traverse_again: "\<forall>x \<in> set xs. recorded x s \<Longrightarrow> io_traverse act xs s = (Inr (map outcome xs), s)"
  by (induction xs) (simp_all add: io_bind_def again)

lemma redelivery: "io_traverse act xs s = (Inr ys, s') \<Longrightarrow> io_traverse act xs s' = (Inr ys, s')"
  using traverse_records traverse_again by metis

end

end
