(* ===== verification/CdcDecode.thy ===== *)
theory CdcDecode
  imports Contracts SilverTransform
begin

text \<open>
  Change data capture from Kafka to typed events: the normalization of a Debezium message
  (\<open>ingestion/streaming/debezium.py\<close>) and the validation and typing of its row image
  (\<open>ingestion/streaming/cdc_decoder.py\<close>). An event that passed through
  \<open>prepare_raw_cdc_events\<close> is a record of the raw row, the parsed payload map and the decode error,
  because a map is not a cell. JSON parsing, binary text, and the conversion of
  time zones are parameters (\<open>cdc_fn\<close>).
\<close>

section \<open>Functions of Spark\<close>

record cdc_fn =
  cf_spark :: sparkfn
  cf_binary_text :: "val \<Rightarrow> val"
  cf_envelope :: "val \<Rightarrow> row option"
  cf_json_map :: "val \<Rightarrow> (string \<times> val) list option"
  cf_to_utc :: "int \<Rightarrow> string \<Rightarrow> int"
  cf_to_timestamp :: "val \<Rightarrow> val"

section \<open>Normalization of Debezium messages\<close>

text \<open>
  The parsed envelope is a row whose columns are the paths of its fields, such as \<open>source.table\<close>;
  a field of a NULL struct is NULL.
\<close>

definition envelope_field :: "row option \<Rightarrow> string \<Rightarrow> val" where
  "envelope_field env path = (case env of None \<Rightarrow> Null | Some r \<Rightarrow> r path)"

definition millis :: "val \<Rightarrow> val" where
  "millis v = (case v of IntV ms \<Rightarrow> TsV (ms * 1000) | _ \<Rightarrow> Null)"

definition valid_operation :: "row option \<Rightarrow> bool3" where
  "valid_operation env = isin3 (envelope_field env ''op'') (map StrV VALID_DEBEZIUM_OPERATIONS)"

definition has_source :: "row option \<Rightarrow> bool3" where
  "has_source env = and3 (not3 (is_null3 (envelope_field env ''source.schema'')))
     (not3 (is_null3 (envelope_field env ''source.table'')))"

definition debezium_is_valid :: "val \<Rightarrow> row option \<Rightarrow> bool3" where
  "debezium_is_valid value_json env =
     and3 (and3 (and3 (not3 (is_null3 value_json)) (Some (env \<noteq> None))) (valid_operation env)) (has_source env)"

definition debezium_parse_error :: "val \<Rightarrow> row option \<Rightarrow> val" where
  "debezium_parse_error value_json env =
     case_when (is_null3 value_json) (StrV ''tombstone_or_null_value'')
     (case_when (Some (env = None)) (StrV ''invalid_json'')
     (case_when (not3 (valid_operation env)) (StrV ''unsupported_operation'')
     (case_when (not3 (has_source env)) (StrV ''missing_source_metadata'') Null)))"

definition transport_event_id :: "sparkfn \<Rightarrow> string option \<Rightarrow> row \<Rightarrow> val" where
  "transport_event_id fn source_id r = StrV (concat_ws fn '':''
     ((case source_id of None \<Rightarrow> [] | Some i \<Rightarrow> [StrV i]) @
      [r ''topic'', fn_cast fn ''string'' (r ''partition''), fn_cast fn ''string'' (r ''offset'')]))"

definition raw_event_columns ::
    "cdc_fn \<Rightarrow> int \<Rightarrow> string option \<Rightarrow> (string \<times> (row \<times> val \<times> row option \<Rightarrow> val)) list" where
  "raw_event_columns fn now source_id = [
     (''_transport_event_id'', \<lambda>(r, v, env). transport_event_id (cf_spark fn) source_id r),
     (''topic'', \<lambda>(r, v, env). r ''topic''),
     (''partition'', \<lambda>(r, v, env). r ''partition''),
     (''offset'', \<lambda>(r, v, env). r ''offset''),
     (''broker_timestamp'', \<lambda>(r, v, env). r ''timestamp''),
     (''headers'', \<lambda>(r, v, env). r ''headers''),
     (''key_json'', \<lambda>(r, v, env). cf_binary_text fn (r ''key'')),
     (''value_json'', \<lambda>(r, v, env). v),
     (''source_schema'', \<lambda>(r, v, env). envelope_field env ''source.schema''),
     (''source_table'', \<lambda>(r, v, env). envelope_field env ''source.table''),
     (''operation'', \<lambda>(r, v, env). envelope_field env ''op''),
     (''source_lsn'', \<lambda>(r, v, env). envelope_field env ''source.lsn''),
     (''source_tx_id'', \<lambda>(r, v, env). envelope_field env ''source.txId''),
     (''source_snapshot'', \<lambda>(r, v, env). envelope_field env ''source.snapshot''),
     (''source_timestamp'', \<lambda>(r, v, env). millis (envelope_field env ''source.ts_ms'')),
     (''event_timestamp'', \<lambda>(r, v, env). millis (envelope_field env ''ts_ms'')),
     (''transaction_id'', \<lambda>(r, v, env). envelope_field env ''transaction.id''),
     (''transaction_order'', \<lambda>(r, v, env). envelope_field env ''transaction.total_order''),
     (''collection_order'', \<lambda>(r, v, env). envelope_field env ''transaction.data_collection_order''),
     (''is_valid'', \<lambda>(r, v, env). val_of_bool3 (debezium_is_valid v env)),
     (''parse_error'', \<lambda>(r, v, env). debezium_parse_error v env),
     (''ingested_at'', \<lambda>(r, v, env). TsV now),
     (''schema_version'', \<lambda>(r, v, env). IntV CDC_SCHEMA_VERSION)]"

definition normalize_debezium_events :: "cdc_fn \<Rightarrow> int \<Rightarrow> string option \<Rightarrow> row list \<Rightarrow> df" where
  "normalize_debezium_events fn now source_id messages =
     \<lparr>df_cols = map fst (raw_event_columns fn now source_id),
      df_rows = map (\<lambda>r. let v = cf_binary_text fn (r ''value'')
        in project (raw_event_columns fn now source_id) (r, v, cf_envelope fn v)) messages\<rparr>"

section \<open>Typed payload values\<close>

definition TYPED_TABLES :: "(string \<times> typed_cdc_contract) list" where
  "TYPED_TABLES = (case TYPED_CDC_TABLES of Inl e \<Rightarrow> [] | Inr tables \<Rightarrow> tables)"

type_synonym payload = "(string \<times> val) list option"

record prepared_event =
  pe_row :: row
  pe_payload :: payload
  pe_error :: val

record prepared_batch =
  pb_cols :: "string list"
  pb_events :: "prepared_event list"

fun data_type_name :: "data_type \<Rightarrow> string" where
  "data_type_name (DecimalType p s) = ''decimal('' @ int_text (int p) @ '','' @ int_text (int s) @ '')''"
| "data_type_name IntegerType = ''int''"
| "data_type_name TimestampType = ''timestamp''"
| "data_type_name BooleanType = ''boolean''"
| "data_type_name StringType = ''string''"

text \<open>\<open>element_at\<close> on the payload map: NULL for a missing key.\<close>

definition payload_value :: "payload \<Rightarrow> string \<Rightarrow> val" where
  "payload_value m c = (case m of None \<Rightarrow> Null | Some kvs \<Rightarrow> (case map_of kvs c of None \<Rightarrow> Null | Some v \<Rightarrow> v))"

text \<open>The pattern \<open>^-?[0-9]+$\<close>.\<close>

definition numeric_text :: "string \<Rightarrow> bool" where
  "numeric_text s = (let ds = (case s of c # cs \<Rightarrow> if c = CHR ''-'' then cs else s | [] \<Rightarrow> [])
     in ds \<noteq> [] \<and> list_all is_ascii_digit ds)"

definition numeric3 :: "val \<Rightarrow> bool3" where
  "numeric3 v = (case v of StrV s \<Rightarrow> Some (numeric_text s) | _ \<Rightarrow> None)"

definition typed_payload_value :: "cdc_fn \<Rightarrow> string \<Rightarrow> payload \<Rightarrow> string \<Rightarrow> data_type \<Rightarrow> val" where
  "typed_payload_value fn tz m c ty =
     (let raw = payload_value m c
      in if ty = TimestampType
         then case_when (numeric3 raw)
           (case fn_cast (cf_spark fn) ''long'' raw of IntV us \<Rightarrow> TsV (cf_to_utc fn us tz) | _ \<Rightarrow> Null)
           (cf_to_timestamp fn raw)
         else fn_cast (cf_spark fn) (data_type_name ty) raw)"

section \<open>Decode errors\<close>

definition REQUIRED_RAW_COLUMNS :: "string list" where
  "REQUIRED_RAW_COLUMNS = [''_transport_event_id'', ''topic'', ''partition'', ''offset'', ''value_json'',
     ''source_schema'', ''source_table'', ''operation'', ''source_lsn'', ''source_tx_id'', ''transaction_id'',
     ''transaction_order'', ''collection_order'', ''event_timestamp'', ''is_valid'', ''parse_error'', ''ingested_at'']"

definition delete_context_columns :: "string \<Rightarrow> string list" where
  "delete_context_columns t =
     (if t \<in> {''order_items'', ''order_vouchers'', ''payments'', ''shipments''} then [''order_id''] else [])"

text \<open>A missing, non-numeric or non-positive relationship.\<close>

definition missing_payload_field :: "cdc_fn \<Rightarrow> payload \<Rightarrow> string list \<Rightarrow> bool3" where
  "missing_payload_field fn m columns = fold (\<lambda>c acc.
     let v = fn_cast (cf_spark fn) ''long'' (payload_value m c)
     in or3 (or3 acc (is_null3 v)) (ge3 (IntV 0) v)) columns (Some False)"

definition missing_key :: "cdc_fn \<Rightarrow> payload \<Rightarrow> typed_cdc_contract \<Rightarrow> bool3" where
  "missing_key fn m c = fold (\<lambda>k acc. or3 acc (is_null3 (typed_payload_value fn ''UTC'' m k
     (case map_of (tc_payload_schema c) k of Some ty \<Rightarrow> ty | None \<Rightarrow> StringType)))) (tc_primary_keys c) (Some False)"

definition unexpected_fields :: "payload \<Rightarrow> typed_cdc_contract \<Rightarrow> string list" where
  "unexpected_fields m c = (case m of None \<Rightarrow> []
     | Some kvs \<Rightarrow> sort (remdups (filter (\<lambda>k. k \<notin> set (tc_columns c)) (map fst kvs))))"

definition table_errors :: "cdc_fn \<Rightarrow> row \<Rightarrow> payload \<Rightarrow> string \<times> typed_cdc_contract \<Rightarrow> val list" where
  "table_errors fn r m tc = (case tc of (t, c) \<Rightarrow>
     let scope = eq3 (r ''source_table'') (StrV t)
     in [case_when (and3 scope (missing_key fn m c)) (StrV ''missing_or_invalid_primary_key'') Null,
         case_when (and3 (and3 scope (eq3 (r ''operation'') (StrV (debezium_value DELETE))))
           (missing_payload_field fn m (delete_context_columns t))) (StrV ''incomplete_delete_before_image'') Null,
         case_when (and3 scope (Some (m \<noteq> None \<and> unexpected_fields m c \<noteq> [])))
           (StrV (''unexpected_payload_fields:'' @ join_str '','' (unexpected_fields m c))) Null] @
        map (\<lambda>(name, ty). case_when (and3 scope (and3 (not3 (is_null3 (payload_value m name)))
             (is_null3 (typed_payload_value fn ''UTC'' m name ty))))
           (StrV (''invalid_field_type:'' @ name)) Null) (tc_payload_schema c))"

definition decode_error :: "cdc_fn \<Rightarrow> row \<Rightarrow> payload \<Rightarrow> val" where
  "decode_error fn r m = coalesce (
     [case_when (not3 (coalesce3 (bool3_of (r ''is_valid'')) False))
        (StrV (''raw:'' @ (case r ''parse_error'' of StrV e \<Rightarrow> e | _ \<Rightarrow> ''invalid_event''))) Null,
      case_when (is_null3 (r ''_transport_event_id'')) (StrV ''missing_transport_event_id'') Null,
      case_when (not3 (isin3 (r ''source_table'') (map (StrV \<circ> fst) TYPED_TABLES))) (StrV ''unknown_source_table'') Null,
      case_when (Some (m = None)) (StrV ''missing_or_invalid_payload'') Null] @
     concat (map (table_errors fn r m) TYPED_TABLES))"

definition payload_json :: "cdc_fn \<Rightarrow> row \<Rightarrow> val" where
  "payload_json fn r = case_when (eq3 (r ''operation'') (StrV (debezium_value DELETE)))
     (fn_get_json (cf_spark fn) (r ''value_json'') ''$.before'')
     (fn_get_json (cf_spark fn) (r ''value_json'') ''$.after'')"

definition prepare_raw_cdc_events :: "cdc_fn \<Rightarrow> df \<Rightarrow> prepared_batch res" where
  "prepare_raw_cdc_events fn d =
     and_then (raise_if (\<not> set REQUIRED_RAW_COLUMNS \<subseteq> set (df_cols d))
       (ValueError ''Raw CDC Bronze is missing required columns'')) (\<lambda>_.
     Inr \<lparr>pb_cols = df_cols d, pb_events = map (\<lambda>r. let m = cf_json_map fn (payload_json fn r)
        in \<lparr>pe_row = r, pe_payload = m, pe_error = decode_error fn r m\<rparr>) (df_rows d)\<rparr>)"

section \<open>Typed events\<close>

text \<open>The settings the decoded rows carry.\<close>

record decode_settings =
  ds_query_name :: string
  ds_checkpoint_version :: string
  ds_source_system :: string
  ds_timezone :: string

definition batch_key :: "decode_settings \<Rightarrow> int \<Rightarrow> string" where
  "batch_key st batch_id = ds_query_name st @ '':'' @ ds_checkpoint_version st @ '':'' @ int_text batch_id"

definition change_operation_of :: "val \<Rightarrow> val" where
  "change_operation_of op =
     case_when (isin3 op [StrV (debezium_value SNAPSHOT), StrV (debezium_value CREATE)]) (StrV ''INSERT'')
     (case_when (eq3 op (StrV (debezium_value UPDATE))) (StrV ''UPDATE'')
     (case_when (eq3 op (StrV (debezium_value DELETE))) (StrV ''DELETE'') Null))"

definition event_columns ::
    "decode_settings \<Rightarrow> int \<Rightarrow> (string \<times> (prepared_event \<Rightarrow> val)) list" where
  "event_columns st batch_id = [
     (''_event_id'', \<lambda>e. pe_row e ''_transport_event_id''),
     (''_operation'', \<lambda>e. change_operation_of (pe_row e ''operation'')),
     (''_event_occurred_at'', \<lambda>e. pe_row e ''event_timestamp''),
     (''_source_lsn'', \<lambda>e. pe_row e ''source_lsn''),
     (''_source_tx_id'', \<lambda>e. pe_row e ''source_tx_id''),
     (''_transaction_id'', \<lambda>e. pe_row e ''transaction_id''),
     (''_transaction_order'', \<lambda>e. pe_row e ''transaction_order''),
     (''_collection_order'', \<lambda>e. pe_row e ''collection_order''),
     (''_kafka_topic'', \<lambda>e. pe_row e ''topic''),
     (''_kafka_partition'', \<lambda>e. pe_row e ''partition''),
     (''_kafka_offset'', \<lambda>e. pe_row e ''offset''),
     (''_ingested_at'', \<lambda>e. pe_row e ''ingested_at''),
     (''_batch_id'', \<lambda>e. StrV (batch_key st batch_id)),
     (''_source_system'', \<lambda>e. StrV (ds_source_system st)),
     (''_source_schema'', \<lambda>e. pe_row e ''source_schema''),
     (''_source_table'', \<lambda>e. pe_row e ''source_table''),
     (''_ingestion_type'', \<lambda>e. StrV ''streaming_cdc''),
     (''_bronze_schema_version'', \<lambda>e. IntV BRONZE_SCHEMA_VERSION)]"

definition decoded_columns ::
    "cdc_fn \<Rightarrow> decode_settings \<Rightarrow> typed_cdc_contract \<Rightarrow> int \<Rightarrow> (string \<times> (prepared_event \<Rightarrow> val)) list" where
  "decoded_columns fn st c batch_id =
     (let business = map (\<lambda>(name, ty). (name, \<lambda>e. typed_payload_value fn (ds_timezone st) (pe_payload e) name ty))
            (tc_payload_schema c)
      in business @ event_columns st batch_id @
         [(''_record_hash'', \<lambda>e. StrV (fn_sha2 (cf_spark fn) (fn_to_json (cf_spark fn) (map (\<lambda>(n, f). f e) business))))])"

definition decode_table_events ::
    "cdc_fn \<Rightarrow> decode_settings \<Rightarrow> typed_cdc_contract \<Rightarrow> int \<Rightarrow> prepared_event list \<Rightarrow> df" where
  "decode_table_events fn st c batch_id events =
     \<lparr>df_cols = map fst (decoded_columns fn st c batch_id),
      df_rows = map (project (decoded_columns fn st c batch_id)) events\<rparr>"

section \<open>Statistics\<close>

record table_statistic =
  sx_record_count :: int
  sx_min_source_lsn :: val
  sx_max_source_lsn :: val

definition name_text :: "val \<Rightarrow> string" where
  "name_text v = (case v of StrV s \<Rightarrow> s | _ \<Rightarrow> ''None'')"

definition table_statistics :: "prepared_event list \<Rightarrow> (string \<times> table_statistic) list" where
  "table_statistics events =
     map (\<lambda>g. (name_text (pe_row (hd g) ''source_table''),
         \<lparr>sx_record_count = int (length g),
          sx_min_source_lsn = least (map (\<lambda>e. pe_row e ''source_lsn'') g),
          sx_max_source_lsn = greatest (map (\<lambda>e. pe_row e ''source_lsn'') g)\<rparr>))
       (groups (\<lambda>e. pe_row e ''source_table'') (filter (\<lambda>e. pe_error e = Null) events))"

section \<open>Routing\<close>

lemma coalesce_Null_iff: "coalesce vs = Null \<longleftrightarrow> list_all (\<lambda>v. v = Null) vs"
  by (induction vs) auto

lemma case_when_StrV_Null: "case_when b (StrV s) Null = Null \<longleftrightarrow> \<not> holds b"
  by (simp add: case_when_def)

lemma isin3_non_null: "v \<noteq> Null \<Longrightarrow> Null \<notin> set ws \<Longrightarrow> isin3 v ws = Some (v \<in> set ws)"
proof (induction ws)
  case (Cons w ws)
  then show ?case by (cases "v = w") (auto simp: isin3_def eq3_def)
qed (simp add: isin3_def)

lemma prepared_events:
  "prepare_raw_cdc_events fn (normalize_debezium_events fn now source_id messages) =
     Inr \<lparr>pb_cols = map fst (raw_event_columns fn now source_id),
       pb_events = map (\<lambda>r. let m = cf_json_map fn (payload_json fn r)
         in \<lparr>pe_row = r, pe_payload = m, pe_error = decode_error fn r m\<rparr>)
         (df_rows (normalize_debezium_events fn now source_id messages))\<rparr>"
  by (simp add: prepare_raw_cdc_events_def normalize_debezium_events_def raw_event_columns_def REQUIRED_RAW_COLUMNS_def raise_if_def)

text \<open>The invariant of normalized rows: a valid event names its table and one of the four operations.\<close>

definition well_sourced :: "row \<Rightarrow> bool" where
  "well_sourced r \<longleftrightarrow> (r ''is_valid'' = BoolV True \<longrightarrow>
     r ''source_table'' \<noteq> Null \<and> r ''operation'' \<in> set (map StrV VALID_DEBEZIUM_OPERATIONS))"

lemma normalized_well_sourced:
  assumes "r \<in> set (df_rows (normalize_debezium_events fn now source_id messages))"
  shows "well_sourced r"
proof -
  from assms obtain m where r: "r = project (raw_event_columns fn now source_id)
      (m, cf_binary_text fn (m ''value''), cf_envelope fn (cf_binary_text fn (m ''value'')))"
    by (auto simp: normalize_debezium_events_def Let_def)
  let ?v = "cf_binary_text fn (m ''value'')" and ?env = "cf_envelope fn (cf_binary_text fn (m ''value''))"
  have cells: "r ''is_valid'' = val_of_bool3 (debezium_is_valid ?v ?env)" "r ''source_table'' = envelope_field ?env ''source.table''"
    "r ''operation'' = envelope_field ?env ''op''"
    by (simp_all add: r project_def raw_event_columns_def)
  have "holds (debezium_is_valid ?v ?env)" if "r ''is_valid'' = BoolV True"
    using that by (simp add: cells val_of_bool3_def holds_def split: option.splits)
  then show ?thesis
    by (auto simp: well_sourced_def cells debezium_is_valid_def valid_operation_def has_source_def is_null3_def)
qed

text \<open>What a row without a decode error satisfies.\<close>

lemma decode_error_Null:
  assumes "decode_error fn r m = Null"
  shows "r ''is_valid'' = BoolV True" "r ''_transport_event_id'' \<noteq> Null" "m \<noteq> None"
    and "r ''source_table'' \<noteq> Null \<Longrightarrow> r ''source_table'' \<in> StrV ` fst ` set TYPED_TABLES"
    and "(t, c) \<in> set TYPED_TABLES \<Longrightarrow> list_all (\<lambda>v. v = Null) (table_errors fn r m (t, c))"
proof -
  note errors = assms [unfolded decode_error_def coalesce_Null_iff list_all_append list.pred_inject case_when_StrV_Null]
  from errors show "r ''is_valid'' = BoolV True"
    by (auto simp: bool3_of_def coalesce3_def split: val.splits option.splits)
  from errors show "r ''_transport_event_id'' \<noteq> Null" "m \<noteq> None" by (auto simp: is_null3_def)
  show "r ''source_table'' \<in> StrV ` fst ` set TYPED_TABLES" if "r ''source_table'' \<noteq> Null"
  proof -
    have "isin3 (r ''source_table'') (map (StrV \<circ> fst) TYPED_TABLES) =
        Some (r ''source_table'' \<in> set (map (StrV \<circ> fst) TYPED_TABLES))"
      using that by (intro isin3_non_null) auto
    with errors show ?thesis by (auto simp: image_comp)
  qed
  show "list_all (\<lambda>v. v = Null) (table_errors fn r m (t, c))" if "(t, c) \<in> set TYPED_TABLES"
    using errors that by (auto simp: list_all_iff)
qed

lemma sum_group_lengths: "sum_list (map (\<lambda>g. int (length g)) (groups f xs)) = int (length xs)"
proof -
  have "length (concat (groups f xs)) = length xs" using arg_cong [OF mset_groups, of size] by simp
  moreover have "sum_list (map (\<lambda>g. int (length g)) gs) = int (length (concat gs))" for gs :: "'a list list"
    by (induction gs) simp_all
  ultimately show ?thesis by simp
qed

lemma statistics_name:
  assumes "g \<in> set (groups (\<lambda>e. pe_row e ''source_table'') events)"
    and "\<And>e. e \<in> set events \<Longrightarrow> pe_row e ''source_table'' \<in> StrV ` T"
  shows "\<exists>t \<in> T. pe_row (hd g) ''source_table'' = StrV t \<and> g = filter (\<lambda>e. pe_row e ''source_table'' = StrV t) events"
proof -
  from groups_non_empty [OF assms(1)] have hd: "hd g \<in> set g" by simp
  with assms(1) have "hd g \<in> set events" by (auto simp: groups_def)
  with assms(2) obtain t where "t \<in> T" "pe_row (hd g) ''source_table'' = StrV t" by blast
  moreover have "g = filter (\<lambda>e. pe_row e ''source_table'' = pe_row (hd g) ''source_table'') events"
    using groups_full [OF assms(1) hd] .
  ultimately show ?thesis by auto
qed

lemma map_of_statistics:
  assumes "\<And>e. e \<in> set events \<Longrightarrow> pe_error e = Null \<Longrightarrow> pe_row e ''source_table'' \<in> range StrV"
  shows "distinct (map fst (table_statistics events))"
    and "t \<in> fst ` set (table_statistics events) \<longleftrightarrow> (\<exists>e \<in> set events. pe_error e = Null \<and> pe_row e ''source_table'' = StrV t)"
proof -
  let ?valid = "filter (\<lambda>e. pe_error e = Null) events" and ?f = "\<lambda>e. pe_row e ''source_table''"
  have names: "map fst (table_statistics events) = map name_text (remdups (map ?f ?valid))"
  proof -
    have "map (\<lambda>g. ?f (hd g)) (groups ?f ?valid) = remdups (map ?f ?valid)"
    proof -
      have "?f (hd (filter (\<lambda>e. ?f e = k) ?valid)) = k" if "k \<in> set (map ?f ?valid)" for k
      proof -
        have "filter (\<lambda>e. ?f e = k) ?valid \<noteq> []" using that by (auto simp: filter_empty_conv)
        from hd_in_set [OF this] show ?thesis by simp
      qed
      then show ?thesis unfolding groups_def map_map by (intro map_idI) auto
    qed
    from arg_cong [OF this, of "map name_text"] show ?thesis by (simp add: table_statistics_def o_def)
  qed
  obtain ks where ks: "ks = map ?f ?valid" by simp
  have strs: "set ks \<subseteq> range StrV" using assms by (auto simp: ks)
  have "inj_on name_text (range StrV)" by (auto simp: inj_on_def name_text_def)
  then have "inj_on name_text (set ks)" using strs by (rule inj_on_subset)
  then show "distinct (map fst (table_statistics events))" unfolding names ks [symmetric] by (simp add: distinct_map)
  have "t \<in> fst ` set (table_statistics events) \<longleftrightarrow> t \<in> set (map fst (table_statistics events))" by simp
  also have "\<dots> \<longleftrightarrow> t \<in> name_text ` set ks" unfolding names ks [symmetric] by simp
  also have "\<dots> \<longleftrightarrow> StrV t \<in> set ks"
  proof
    assume "t \<in> name_text ` set ks"
    then obtain v where v: "v \<in> set ks" "t = name_text v" by blast
    with strs obtain s where "v = StrV s" by blast
    with v show "StrV t \<in> set ks" by (simp add: name_text_def)
  next
    assume "StrV t \<in> set ks"
    then have "name_text (StrV t) \<in> name_text ` set ks" by (rule imageI)
    then show "t \<in> name_text ` set ks" by (simp add: name_text_def)
  qed
  also have "\<dots> \<longleftrightarrow> (\<exists>e \<in> set events. pe_error e = Null \<and> pe_row e ''source_table'' = StrV t)"
    by (auto simp: ks intro: image_eqI [OF sym])
  finally show "t \<in> fst ` set (table_statistics events) \<longleftrightarrow>
      (\<exists>e \<in> set events. pe_error e = Null \<and> pe_row e ''source_table'' = StrV t)" .
qed

text \<open>
  C15. No event of the stream is lost or read twice. A batch of messages, once normalized, is always
  accepted by the decoder, and the quarantined events together with the events counted in
  the statistics of the typed tables are all its messages. Every table of the statistics is a contract table, once.
\<close>

theorem every_event_routed_once:
  "\<exists>pb. prepare_raw_cdc_events fn (normalize_debezium_events fn now source_id messages) = Inr pb \<and>
     int (length (filter (\<lambda>e. pe_error e \<noteq> Null) (pb_events pb))) +
       sum_list (map (\<lambda>(t, st). sx_record_count st) (table_statistics (pb_events pb))) = int (length messages) \<and>
     distinct (map fst (table_statistics (pb_events pb))) \<and>
     set (map fst (table_statistics (pb_events pb))) \<subseteq> set (map fst TYPED_TABLES)"
proof -
  obtain pb where pb: "prepare_raw_cdc_events fn (normalize_debezium_events fn now source_id messages) = Inr pb"
    and events: "pb_events pb = map (\<lambda>r. let m = cf_json_map fn (payload_json fn r)
         in \<lparr>pe_row = r, pe_payload = m, pe_error = decode_error fn r m\<rparr>)
         (df_rows (normalize_debezium_events fn now source_id messages))"
    by (simp add: prepared_events)
  let ?valid = "filter (\<lambda>e. pe_error e = Null) (pb_events pb)"
  have in_tables: "pe_row e ''source_table'' \<in> StrV ` fst ` set TYPED_TABLES"
    if "e \<in> set (pb_events pb)" "pe_error e = Null" for e
  proof -
    from that(1) obtain r m where e: "e = \<lparr>pe_row = r, pe_payload = m, pe_error = decode_error fn r m\<rparr>"
        "r \<in> set (df_rows (normalize_debezium_events fn now source_id messages))"
      by (auto simp: events Let_def)
    with that(2) have ok: "decode_error fn r m = Null" by simp
    from normalized_well_sourced [OF e(2)] decode_error_Null(1) [OF ok] have "r ''source_table'' \<noteq> Null"
      by (simp add: well_sourced_def)
    with decode_error_Null(4) [OF ok] e show ?thesis by simp
  qed
  have strs: "pe_row e ''source_table'' \<in> range StrV" if "e \<in> set (pb_events pb)" "pe_error e = Null" for e
    using in_tables [OF that] by auto
  have "sum_list (map (\<lambda>(t, st). sx_record_count st) (table_statistics (pb_events pb))) = int (length ?valid)"
    using sum_group_lengths [of "\<lambda>e. pe_row e ''source_table''" ?valid] by (simp add: table_statistics_def o_def)
  moreover have "int (length (filter (\<lambda>e. pe_error e \<noteq> Null) (pb_events pb))) + int (length ?valid) = int (length (pb_events pb))"
    using sum_length_filter_compl [of "\<lambda>e. pe_error e \<noteq> Null" "pb_events pb"] by simp
  moreover have "length (pb_events pb) = length messages" by (simp add: events normalize_debezium_events_def)
  moreover have "set (map fst (table_statistics (pb_events pb))) \<subseteq> set (map fst TYPED_TABLES)"
  proof
    fix t assume "t \<in> set (map fst (table_statistics (pb_events pb)))"
    then have "t \<in> fst ` set (table_statistics (pb_events pb))" by simp
    with map_of_statistics(2) [of "pb_events pb" t] strs
    obtain e where "e \<in> set (pb_events pb)" "pe_error e = Null" "pe_row e ''source_table'' = StrV t" by blast
    with in_tables [of e] show "t \<in> set (map fst TYPED_TABLES)" by auto
  qed
  ultimately show ?thesis using pb map_of_statistics(1) [OF strs] by (intro exI [of _ pb]) simp
qed

section \<open>Typed rows\<close>

lemma event_column_names: "map fst (event_columns st batch_id) = map fst (event_columns st' batch_id')"
  by (simp add: event_columns_def)

definition typed_tables_ok :: "(string \<times> typed_cdc_contract) list \<Rightarrow> bool" where
  "typed_tables_ok tables \<longleftrightarrow> map fst tables = map fst BRONZE_TABLES \<and>
     list_all (\<lambda>(t, c). tc_table_name c = t \<and> distinct (tc_columns c) \<and>
       list_all (\<lambda>k. map_of (tc_payload_schema c) k = Some IntegerType) (tc_primary_keys c) \<and>
       list_all (\<lambda>k. \<not> starts_with ''_'' k) (tc_columns c) \<and>
       (case get_silver_contract t of Inl e \<Rightarrow> False | Inr sc \<Rightarrow> set (sc_columns sc) \<subseteq> set (tc_columns c))) tables"

lemma TYPED_TABLES_ok: "typed_tables_ok TYPED_TABLES"
  by code_simp

lemma TYPED_TABLES_names: "map fst TYPED_TABLES = map fst BRONZE_TABLES"
  using TYPED_TABLES_ok by (simp add: typed_tables_ok_def)

lemma TYPED_TABLES_distinct: "distinct (map fst TYPED_TABLES)"
  unfolding TYPED_TABLES_names by code_simp

lemma get_typed_contract_iff: "get_typed_cdc_contract t = Inr c \<longleftrightarrow> map_of TYPED_TABLES t = Some c"
proof (cases TYPED_CDC_TABLES)
  case (Inl e)
  then have "TYPED_TABLES = []" unfolding TYPED_TABLES_def by (rule ssubst) simp
  with TYPED_TABLES_names show ?thesis by (simp add: BRONZE_TABLES_def)
next
  case (Inr tables)
  then have "TYPED_TABLES = tables" unfolding TYPED_TABLES_def by (rule ssubst) simp
  moreover have "get_typed_cdc_contract t = (case map_of tables t of
      None \<Rightarrow> Inl (ValueError ''Unknown typed CDC table'') | Some c \<Rightarrow> Inr c)"
    unfolding get_typed_cdc_contract_def by (subst Inr) simp
  ultimately show ?thesis by (auto split: option.splits)
qed

lemma typed_table_facts:
  assumes "(t, c) \<in> set TYPED_TABLES"
  shows "tc_table_name c = t" "distinct (map fst (tc_payload_schema c))"
    and "k \<in> set (tc_primary_keys c) \<Longrightarrow> map_of (tc_payload_schema c) k = Some IntegerType"
    and "map_of (tc_payload_schema c) (CHR ''_'' # k) = None"
proof -
  from TYPED_TABLES_ok assms have c: "tc_table_name c = t" "distinct (tc_columns c)"
    "list_all (\<lambda>k. map_of (tc_payload_schema c) k = Some IntegerType) (tc_primary_keys c)"
    "list_all (\<lambda>k. \<not> starts_with ''_'' k) (tc_columns c)"
    by (auto simp: typed_tables_ok_def list_all_iff)
  then show "tc_table_name c = t" "distinct (map fst (tc_payload_schema c))"
    "k \<in> set (tc_primary_keys c) \<Longrightarrow> map_of (tc_payload_schema c) k = Some IntegerType"
    by (simp_all add: tc_columns_def list_all_iff)
  from c(4) have "(CHR ''_'' # k) \<notin> set (tc_columns c)" by (auto simp: list_all_iff starts_with_def)
  then show "map_of (tc_payload_schema c) (CHR ''_'' # k) = None"
    by (simp add: tc_columns_def map_of_eq_None_iff)
qed

lemma map_of_map_pair: "map_of (map (\<lambda>p. (fst p, F p)) kvs) k = map_option (\<lambda>v. F (k, v)) (map_of kvs k)"
  by (induction kvs) auto

lemma decoded_cell:
  "project (decoded_columns fn st c b) e n = (case map_of (tc_payload_schema c) n of
     Some ty \<Rightarrow> typed_payload_value fn (ds_timezone st) (pe_payload e) n ty
   | None \<Rightarrow> project (event_columns st b @ [(''_record_hash'', \<lambda>e. StrV (fn_sha2 (cf_spark fn) (fn_to_json (cf_spark fn)
       (map (\<lambda>(n, ty). typed_payload_value fn (ds_timezone st) (pe_payload e) n ty) (tc_payload_schema c)))))]) e n)"
  by (cases "map_of (tc_payload_schema c) n")
    (simp_all add: project_def decoded_columns_def Let_def map_add_def map_of_map_pair case_prod_unfold o_def split: option.split)

lemma typed_value_zone: "typed_payload_value fn tz m n ty = Null \<longleftrightarrow> typed_payload_value fn tz' m n ty = Null"
  by (simp add: typed_payload_value_def Let_def case_when_def split: val.splits)

text \<open>
  What the decoding of a valid event promises: the typed row has the transport id of the event, the
  operation the code of Debezium stands for, the event's own time and position in the source and in
  Kafka, every field of the contract typed from the payload, and no field of the payload is lost.
\<close>

definition typed_operations :: "(val \<times> val) list" where
  "typed_operations = [(StrV ''r'', StrV ''INSERT''), (StrV ''c'', StrV ''INSERT''), (StrV ''u'', StrV ''UPDATE''),
     (StrV ''d'', StrV ''DELETE'')]"

definition kept_metadata :: "(string \<times> string) list" where
  "kept_metadata = [(''_event_id'', ''_transport_event_id''), (''_event_occurred_at'', ''event_timestamp''),
     (''_source_lsn'', ''source_lsn''), (''_source_tx_id'', ''source_tx_id''), (''_transaction_id'', ''transaction_id''),
     (''_transaction_order'', ''transaction_order''), (''_collection_order'', ''collection_order''),
     (''_kafka_topic'', ''topic''), (''_kafka_partition'', ''partition''), (''_kafka_offset'', ''offset''),
     (''_source_schema'', ''source_schema''), (''_source_table'', ''source_table'')]"

definition decoded_ok :: "cdc_fn \<Rightarrow> decode_settings \<Rightarrow> string \<Rightarrow> typed_cdc_contract \<Rightarrow> int \<Rightarrow> prepared_event \<Rightarrow> bool" where
  "decoded_ok fn st t c batch_id e \<longleftrightarrow> (let r = project (decoded_columns fn st c batch_id) e in
     list_all (\<lambda>(n, source). r n = pe_row e source) kept_metadata \<and>
     (pe_row e ''operation'', r ''_operation'') \<in> set typed_operations \<and>
     list_all (\<lambda>(n, ty). r n = typed_payload_value fn (ds_timezone st) (pe_payload e) n ty) (tc_payload_schema c) \<and>
     list_all (\<lambda>k. r k \<noteq> Null) (''_event_id'' # tc_primary_keys c) \<and>
     list_all (\<lambda>(n, ty). payload_value (pe_payload e) n = Null \<or> r n \<noteq> Null) (tc_payload_schema c) \<and>
     unexpected_fields (pe_payload e) c = [] \<and>
     (r ''_operation'' = StrV ''DELETE'' \<longrightarrow> list_all (\<lambda>n. holds (gt3
        (fn_cast (cf_spark fn) ''long'' (payload_value (pe_payload e) n)) (IntV 0))) (delete_context_columns t)))"

lemma fold_or3: "holds (fold (\<lambda>x acc. or3 acc (f x)) xs a) \<longleftrightarrow> holds a \<or> (\<exists>x \<in> set xs. holds (f x))"
  by (induction xs arbitrary: a) auto

lemma fold_or3_or3:
  "holds (fold (\<lambda>x acc. or3 (or3 acc (f x)) (g x)) xs a) \<longleftrightarrow> holds a \<or> (\<exists>x \<in> set xs. holds (f x) \<or> holds (g x))"
  by (induction xs arbitrary: a) auto

lemma decoded_event:
  assumes tc: "(t, c) \<in> set TYPED_TABLES" and src: "pe_row e ''source_table'' = StrV t" and ws: "well_sourced (pe_row e)"
    and ok: "decode_error fn (pe_row e) (pe_payload e) = Null"
  shows "decoded_ok fn st t c b e"
proof -
  let ?r = "project (decoded_columns fn st c b) e" and ?m = "pe_payload e"
  note errors = decode_error_Null(5) [OF ok tc, unfolded table_errors_def prod.case Let_def src list_all_append
      list.pred_inject list.pred_map o_def case_when_StrV_Null]
  note cell = decoded_cell [of fn st c b e]
  have keys: "?r k \<noteq> Null" if "k \<in> set (tc_primary_keys c)" for k
    using errors that typed_table_facts(3) [OF tc that] typed_value_zone [of fn "ds_timezone st" ?m k IntegerType "''UTC''"]
    by (auto simp: cell missing_key_def fold_or3 is_null3_def)
  have fields: "payload_value ?m n = Null \<or> ?r n \<noteq> Null" if "(n, ty) \<in> set (tc_payload_schema c)" for n ty
  proof -
    from that typed_table_facts(2) [OF tc] have "map_of (tc_payload_schema c) n = Some ty" by simp
    with errors that typed_value_zone [of fn "ds_timezone st" ?m n ty "''UTC''"] show ?thesis
      by (auto simp: cell list_all_iff is_null3_def case_when_StrV_Null dest!: bspec)
  qed
  have typed: "?r n = typed_payload_value fn (ds_timezone st) ?m n ty" if "(n, ty) \<in> set (tc_payload_schema c)" for n ty
    using that typed_table_facts(2) [OF tc] by (simp add: cell)
  have kept: "list_all (\<lambda>(n, source). ?r n = pe_row e source) kept_metadata"
    by (simp add: kept_metadata_def cell typed_table_facts(4) [OF tc]) (simp add: project_def event_columns_def)
  have meta: "?r ''_event_id'' = pe_row e ''_transport_event_id''"
    "?r ''_operation'' = change_operation_of (pe_row e ''operation'')"
    by (simp_all add: cell typed_table_facts(4) [OF tc]) (simp_all add: project_def event_columns_def)
  have "pe_row e ''operation'' \<in> set (map StrV VALID_DEBEZIUM_OPERATIONS)"
    using ws decode_error_Null(1) [OF ok] by (simp add: well_sourced_def)
  then have op: "(pe_row e ''operation'', ?r ''_operation'') \<in> set typed_operations"
    by (auto simp: meta(2) VALID_DEBEZIUM_OPERATIONS_def typed_operations_def change_operation_of_def case_when_def)
  show ?thesis
    unfolding decoded_ok_def Let_def
  proof (intro conjI kept op)
    show "list_all (\<lambda>(n, ty). ?r n = typed_payload_value fn (ds_timezone st) ?m n ty) (tc_payload_schema c)"
      using typed by (simp add: list_all_iff split_paired_all)
    show "list_all (\<lambda>(n, ty). payload_value ?m n = Null \<or> ?r n \<noteq> Null) (tc_payload_schema c)"
      unfolding list_all_iff using fields by blast
    show "list_all (\<lambda>k. ?r k \<noteq> Null) (''_event_id'' # tc_primary_keys c)"
      using keys decode_error_Null(2,3) [OF ok] by (simp add: list_all_iff meta)
    show "unexpected_fields ?m c = []" using errors decode_error_Null(3) [OF ok] by simp
    show "?r ''_operation'' = StrV ''DELETE'' \<longrightarrow> list_all (\<lambda>n. holds (gt3
        (fn_cast (cf_spark fn) ''long'' (payload_value ?m n)) (IntV 0))) (delete_context_columns t)"
      using op errors
      by (auto simp: list_all_iff typed_operations_def missing_payload_field_def fold_or3_or3 Let_def is_null3_def)
  qed
qed

text \<open>
  C16. Decoding loses nothing of a valid event. An event without a decode error belongs to a contract table.
  Its typed row keeps the event's transport id as event id (and it is not NULL), its time, its place in the
  transaction log, in its transaction and in Kafka, and its table; the operation is INSERT exactly for a
  snapshot read or a create, UPDATE for an update and DELETE for a delete; every field of the contract is the
  typed value of that field of the payload, NULL only when the payload has none, and no primary key is NULL;
  the payload has no field outside the contract; a delete of an order's child carries a positive order id.
\<close>

theorem valid_events_decode_completely:
  assumes "prepare_raw_cdc_events fn (normalize_debezium_events fn now source_id messages) = Inr pb"
    and "e \<in> set (pb_events pb)" and "pe_error e = Null"
  shows "\<exists>t c. (t, c) \<in> set TYPED_TABLES \<and> pe_row e ''source_table'' = StrV t \<and> decoded_ok fn st t c batch_id e"
proof -
  from assms(2) have "e \<in> set (map (\<lambda>r. let m = cf_json_map fn (payload_json fn r)
         in \<lparr>pe_row = r, pe_payload = m, pe_error = decode_error fn r m\<rparr>)
         (df_rows (normalize_debezium_events fn now source_id messages)))"
    using assms(1) by (auto simp: prepared_events)
  then obtain r m where e: "e = \<lparr>pe_row = r, pe_payload = m, pe_error = decode_error fn r m\<rparr>"
      "r \<in> set (df_rows (normalize_debezium_events fn now source_id messages))"
    by (auto simp: Let_def)
  with assms(3) have ok: "decode_error fn r m = Null" by simp
  have ws: "well_sourced r" by (rule normalized_well_sourced [OF e(2)])
  with decode_error_Null(1) [OF ok] have "r ''source_table'' \<noteq> Null" by (simp add: well_sourced_def)
  from decode_error_Null(4) [OF ok this] obtain t c where tc: "(t, c) \<in> set TYPED_TABLES" "r ''source_table'' = StrV t" by auto
  with decoded_event [OF tc(1), of e fn st batch_id] ok ws e(1) show ?thesis by (intro exI [of _ t] exI [of _ c]) simp
qed

lemma typed_table_feeds_silver:
  assumes "(t, c) \<in> set TYPED_TABLES" and "df_cols d = df_cols (decode_table_events fn st c batch_id events)"
  shows "\<exists>sc. get_silver_contract t = Inr sc \<and> validate_bronze_columns d sc = Inr ()"
proof -
  have cols: "df_cols (decode_table_events fn st c batch_id events) =
      tc_columns c @ map fst (event_columns st batch_id) @ [''_record_hash'']" for c
    by (simp add: decode_table_events_def decoded_columns_def Let_def tc_columns_def o_def case_prod_unfold)
  have names: "map fst (event_columns st batch_id) = [''_event_id'', ''_operation'', ''_event_occurred_at'', ''_source_lsn'',
      ''_source_tx_id'', ''_transaction_id'', ''_transaction_order'', ''_collection_order'', ''_kafka_topic'', ''_kafka_partition'',
      ''_kafka_offset'', ''_ingested_at'', ''_batch_id'', ''_source_system'', ''_source_schema'', ''_source_table'',
      ''_ingestion_type'', ''_bronze_schema_version'']"
    by (simp add: event_columns_def)
  have "list_all (\<lambda>(t, c). case get_silver_contract t of Inl e \<Rightarrow> False
     | Inr sc \<Rightarrow> set (sc_columns sc) \<subseteq> set (tc_columns c)) TYPED_TABLES"
    using TYPED_TABLES_ok unfolding typed_tables_ok_def by (auto simp: list_all_iff)
  with assms(1) obtain sc where "get_silver_contract t = Inr sc" "set (sc_columns sc) \<subseteq> set (tc_columns c)"
    by (cases "get_silver_contract t") (auto simp: list_all_iff)
  with assms(2) show ?thesis
    by (auto simp: validate_bronze_columns_def raise_if_def cols names silver_required_columns_def)
qed

text \<open>
  C18. The typed CDC tables feed Silver: for every table the decoded columns contain what the Silver
  transformation of the same table requires, so the validation of its input never fails.
\<close>

theorem typed_tables_feed_silver:
  "list_all (\<lambda>(t, c). case get_silver_contract t of Inl e \<Rightarrow> False
     | Inr sc \<Rightarrow> validate_bronze_columns (decode_table_events fn st c batch_id events) sc = Inr ()) TYPED_TABLES"
  using typed_table_feeds_silver by (fastforce simp: list_all_iff)

section \<open>One message\<close>

definition demo_cdc :: cdc_fn where
  "demo_cdc = \<lparr>cf_spark = example_fn, cf_binary_text = id,
     cf_envelope = (\<lambda>v. Some (row_of [(''op'', StrV ''d''), (''ts_ms'', IntV 5), (''source.schema'', StrV ''public''),
       (''source.table'', StrV ''payments''), (''source.lsn'', IntV 7)])),
     cf_json_map = (\<lambda>v. Some [(''payment_id'', IntV 3), (''order_id'', IntV 9)]),
     cf_to_utc = (\<lambda>t tz. t), cf_to_timestamp = id\<rparr>"

definition demo_message :: row where
  "demo_message = row_of [(''value'', StrV ''{}''), (''topic'', StrV ''payments''), (''partition'', IntV 0), (''offset'', IntV 4)]"

theorem valid_events_decode_completely_witness:
  "\<exists>pb e. prepare_raw_cdc_events demo_cdc (normalize_debezium_events demo_cdc 1 None [demo_message]) = Inr pb \<and>
     pb_events pb = [e] \<and> pe_row e ''source_table'' = StrV ''payments'' \<and>
     (\<exists>c. decoded_ok demo_cdc \<lparr>ds_query_name = ''q'', ds_checkpoint_version = ''v1'', ds_source_system = ''s'', ds_timezone = ''UTC''\<rparr>
        ''payments'' c 0 e)"
proof -
  let ?st = "\<lparr>ds_query_name = ''q'', ds_checkpoint_version = ''v1'', ds_source_system = ''s'', ds_timezone = ''UTC''\<rparr>"
  note prepared = prepared_events [of demo_cdc 1 None "[demo_message]"]
  obtain pb e where pb: "prepare_raw_cdc_events demo_cdc (normalize_debezium_events demo_cdc 1 None [demo_message]) = Inr pb"
    and e: "pb_events pb = [e]" "e = (let r = hd (df_rows (normalize_debezium_events demo_cdc 1 None [demo_message]));
        m = cf_json_map demo_cdc (payload_json demo_cdc r) in \<lparr>pe_row = r, pe_payload = m, pe_error = decode_error demo_cdc r m\<rparr>)"
    unfolding prepared by (simp add: normalize_debezium_events_def Let_def)
  have src: "pe_row e ''source_table'' = StrV ''payments''"
    by (simp add: e(2) Let_def normalize_debezium_events_def project_def raw_event_columns_def demo_cdc_def envelope_field_def row_of_def)
  have "pe_error e = Null" unfolding e(2) by code_simp
  from valid_events_decode_completely [OF pb _ this, of ?st 0] e(1) src
  obtain t c where "StrV ''payments'' = StrV t" "decoded_ok demo_cdc ?st t c 0 e" by auto
  with pb e(1) src show ?thesis by auto
qed

end
