(* ===== verification/TypedBronze.thy ===== *)
theory TypedBronze
  imports CdcDecode Transactions
begin

text \<open>
  Typed Bronze (\<open>ingestion/streaming/typed_bronze.py\<close>): the validated events of a micro-batch are appended
  to one table per source table and the rejected ones to the quarantine, each append under an idempotent
  transaction; the batch is read back by its batch key. The flag that the physical tables exist is
  passed along with the lake. Worker threads write different tables; they run in the order of the tables.
\<close>

section \<open>The materializer\<close>

definition TYPED_BRONZE_PIPELINE_NAME :: string where
  "TYPED_BRONZE_PIPELINE_NAME = ''cdc_to_typed_bronze''"

definition QUARANTINE_TABLE_NAME :: string where
  "QUARANTINE_TABLE_NAME = ''quarantine''"

record materialized_batch =
  mb_tables :: "(string \<times> df) list"
  mb_statistics :: "(string \<times> table_statistic) list"
  mb_quarantined_count :: int

record typed_bronze =
  tb_fn :: cdc_fn
  tb_now :: int
  tb_dumps :: "json \<Rightarrow> string"
  tb_lakehouse :: lakehouse_config
  tb_settings :: decode_settings

definition typed_reference :: "typed_bronze \<Rightarrow> string \<Rightarrow> string res" where
  "typed_reference m name = and_then (streaming_typed_bronze_reference (tb_lakehouse m) name) (\<lambda>ref. Inr (tr_value ref))"

definition typed_application_id :: "typed_bronze \<Rightarrow> string \<Rightarrow> string" where
  "typed_application_id m suffix =
     ds_query_name (tb_settings m) @ ''-'' @ ds_checkpoint_version (tb_settings m) @ ''-typed-'' @ suffix"

definition bootstrap_metadata :: "int \<Rightarrow> json" where
  "bootstrap_metadata batch_id = jobj [(''pipeline'', JStr TYPED_BRONZE_PIPELINE_NAME),
     (''stream_batch_id'', JInt batch_id), (''record_count'', JInt 0), (''output'', JStr ''bootstrap'')]"

text \<open>
  An append without \<open>mergeSchema\<close>: a transaction that is recorded is skipped before anything else, a column the
  target does not have is an error.
\<close>

definition append_strict :: "string \<Rightarrow> df \<Rightarrow> unit io" where
  "append_strict ref d s =
     (if \<not> txn_seen s (table_or_empty s ref) \<and>
         (case lk_tables s ref of None \<Rightarrow> False | Some t \<Rightarrow> \<not> set (df_cols d) \<subseteq> set (cm_cols (latest_commit t)))
      then (Inl (DeltaError ''DELTA_SCHEMA_MISMATCH''), s)
      else (Inr (), append_delta ref d s))"

definition append_typed_delta :: "typed_bronze \<Rightarrow> df \<Rightarrow> string \<Rightarrow> string \<Rightarrow> int \<Rightarrow> json option \<Rightarrow> unit io" where
  "append_typed_delta m d ref application_suffix batch_id metadata =
     delta_idempotent_transaction (typed_application_id m application_suffix) batch_id
       (delta_commit_metadata (tb_dumps m)
         (case metadata of None \<Rightarrow> bootstrap_metadata batch_id | Some j \<Rightarrow> j) (append_strict ref d))"

section \<open>Quarantine\<close>

definition quarantine_rows :: "typed_bronze \<Rightarrow> prepared_batch \<Rightarrow> int \<Rightarrow> df" where
  "quarantine_rows m pb batch_id =
     \<lparr>df_cols = pb_cols pb @ [''_quarantine_reason'', ''_quarantined_at'', ''_batch_id''],
      df_rows = map (\<lambda>e. (select (pb_cols pb) (pe_row e))(''_quarantine_reason'' := pe_error e,
          ''_quarantined_at'' := TsV (tb_now m), ''_batch_id'' := StrV (batch_key (tb_settings m) batch_id)))
        (filter (\<lambda>e. pe_error e \<noteq> Null) (pb_events pb))\<rparr>"

definition write_quarantine :: "typed_bronze \<Rightarrow> prepared_batch \<Rightarrow> int \<Rightarrow> int io" where
  "write_quarantine m pb batch_id =
     (let rows = quarantine_rows m pb batch_id; n = int (length (df_rows rows))
      in if n = 0 then io_return 0
         else io_bind (io_lift (typed_reference m QUARANTINE_TABLE_NAME)) (\<lambda>ref.
           io_bind (append_typed_delta m rows ref ''quarantine'' batch_id
             (Some (jobj [(''pipeline'', JStr TYPED_BRONZE_PIPELINE_NAME), (''stream_batch_id'', JInt batch_id),
               (''record_count'', JInt n), (''output'', JStr ''quarantine'')]))) (\<lambda>_. io_return n)))"

section \<open>Typed tables\<close>

definition json_of_lsn :: "val \<Rightarrow> json" where
  "json_of_lsn v = (case v of IntV i \<Rightarrow> JInt i | _ \<Rightarrow> JNull)"

definition append_typed :: "typed_bronze \<Rightarrow> df \<Rightarrow> string \<Rightarrow> int \<Rightarrow> table_statistic \<Rightarrow> unit io" where
  "append_typed m d t batch_id st =
     io_bind (io_lift (typed_reference m t)) (\<lambda>ref.
     append_typed_delta m d ref t batch_id (Some (jobj [(''pipeline'', JStr TYPED_BRONZE_PIPELINE_NAME),
       (''source_table'', JStr t), (''stream_batch_id'', JInt batch_id), (''record_count'', JInt (sx_record_count st)),
       (''min_source_lsn'', json_of_lsn (sx_min_source_lsn st)), (''max_source_lsn'', json_of_lsn (sx_max_source_lsn st))])))"

text \<open>The valid events of a source table.\<close>

definition valid_events :: "prepared_batch \<Rightarrow> string \<Rightarrow> prepared_event list" where
  "valid_events pb t = filter (\<lambda>e. holds (eq3 (pe_row e ''source_table'') (StrV t)) \<and> pe_error e = Null) (pb_events pb)"

definition append_table :: "typed_bronze \<Rightarrow> prepared_batch \<Rightarrow> int \<Rightarrow> string \<times> table_statistic \<Rightarrow> unit io" where
  "append_table m pb batch_id job = (case job of (t, st) \<Rightarrow>
     io_bind (io_lift (get_typed_cdc_contract t)) (\<lambda>c.
     append_typed m (decode_table_events (tb_fn m) (tb_settings m) c batch_id (valid_events pb t)) t batch_id st))"

definition ensure_table :: "typed_bronze \<Rightarrow> string \<times> typed_cdc_contract \<Rightarrow> unit io" where
  "ensure_table m tc = (case tc of (t, c) \<Rightarrow>
     io_bind (io_lift (typed_reference m t)) (\<lambda>ref s.
     if lk_tables s ref \<noteq> None then (Inr (), s)
     else append_typed_delta m (decode_table_events (tb_fn m) (tb_settings m) c (- 1) []) ref
       (''bootstrap-'' @ t) 0 None s))"

definition ensure_quarantine :: "typed_bronze \<Rightarrow> prepared_batch \<Rightarrow> unit io" where
  "ensure_quarantine m pb =
     io_bind (io_lift (typed_reference m QUARANTINE_TABLE_NAME)) (\<lambda>ref s.
     if lk_tables s ref \<noteq> None then (Inr (), s)
     else append_typed_delta m (quarantine_rows m (pb\<lparr>pb_events := []\<rparr>) (- 1)) ref ''bootstrap-quarantine'' 0 None s)"

definition ensure_physical_tables :: "typed_bronze \<Rightarrow> bool \<Rightarrow> prepared_batch \<Rightarrow> unit io" where
  "ensure_physical_tables m initialized pb =
     (if initialized then io_return ()
      else io_bind (io_traverse (ensure_table m) TYPED_TABLES) (\<lambda>_. ensure_quarantine m pb))"

definition changed_typed_tables :: "(string \<times> table_statistic) list \<Rightarrow> (string \<times> table_statistic) list" where
  "changed_typed_tables statistics = concat (map (\<lambda>(t, c). case map_of statistics t of
     None \<Rightarrow> [] | Some st \<Rightarrow> [(t, st)]) TYPED_TABLES)"

definition read_batch :: "typed_bronze \<Rightarrow> int \<Rightarrow> string list \<Rightarrow> lake \<Rightarrow> (string \<times> df) list res" where
  "read_batch m batch_id tables s = traverse (\<lambda>t. and_then (typed_reference m t) (\<lambda>ref.
     and_then (read_delta s ref None) (\<lambda>d. Inr (t, d\<lparr>df_rows := where3 (\<lambda>r. eq3 (r ''_batch_id'')
       (StrV (batch_key (tb_settings m) batch_id))) (df_rows d)\<rparr>)))) tables"

definition materialize :: "typed_bronze \<Rightarrow> bool \<Rightarrow> prepared_batch \<Rightarrow> int \<Rightarrow> materialized_batch io" where
  "materialize m initialized pb batch_id =
     io_bind (ensure_physical_tables m initialized pb) (\<lambda>_.
     io_bind (write_quarantine m pb batch_id) (\<lambda>quarantined_count.
     let statistics = table_statistics (pb_events pb); changed = changed_typed_tables statistics
     in io_bind (io_traverse (append_table m pb batch_id) changed) (\<lambda>_.
        io_bind (io_get (read_batch m batch_id (map fst changed))) (\<lambda>tables.
        io_return \<lparr>mb_tables = tables, mb_statistics = statistics, mb_quarantined_count = quarantined_count\<rparr>))))"

section \<open>Redelivery\<close>

definition table_present :: "string \<Rightarrow> lake \<Rightarrow> bool" where
  "table_present ref s \<longleftrightarrow> lk_tables s ref \<noteq> None"

lemma table_present_settings [simp]:
  "table_present ref (s\<lparr>lk_metadata := m\<rparr>) = table_present ref s"
  "table_present ref (s\<lparr>lk_txn_app := a\<rparr>) = table_present ref s"
  "table_present ref (s\<lparr>lk_txn_version := v\<rparr>) = table_present ref s"
  by (simp_all add: table_present_def)

lemma commit_present: "table_present ref s \<Longrightarrow> table_present ref (commit_table ref' cols rows changes s)"
  by (auto simp: table_present_def commit_table_def Let_def)

lemma append_delta_present:
  "table_present ref s \<Longrightarrow> table_present ref (append_delta ref' d s)"
  "table_present ref (append_delta ref d s)"
  by (auto simp: append_delta_def Let_def commit_present table_present_def commit_table_def table_or_empty_def
      txn_seen_def empty_table_def split: option.splits)

lemma append_typed_delta_keeps:
  "table_present ref s \<Longrightarrow> table_present ref (snd (append_typed_delta m d ref' sfx n md s))"
  "keeps_txns (append_typed_delta m d ref' sfx n md)"
proof -
  show "table_present ref s \<Longrightarrow> table_present ref (snd (append_typed_delta m d ref' sfx n md s))"
    by (simp add: append_typed_delta_def delta_idempotent_transaction_def delta_commit_metadata_def append_strict_def
        Let_def append_delta_present)
  have "keeps_txns (append_strict ref' d)" by (simp add: keeps_txns_def append_strict_def append_keeps_txns)
  then show "keeps_txns (append_typed_delta m d ref' sfx n md)"
    by (simp add: append_typed_delta_def keeps_txns_transaction keeps_txns_metadata)
qed

lemma append_typed_delta_Inr:
  assumes "append_typed_delta m d ref sfx n md s = (Inr a, s')"
  shows "txn_recorded ref (typed_application_id m sfx) n s'" "table_present ref s'"
proof -
  let ?s = "s\<lparr>lk_txn_app := Some (typed_application_id m sfx), lk_txn_version := Some n,
      lk_metadata := Some (tb_dumps m (case md of None \<Rightarrow> bootstrap_metadata n | Some j \<Rightarrow> j))\<rparr>"
  have "append_delta ref d ?s = s'\<lparr>lk_txn_app := lk_txn_app (append_delta ref d ?s),
      lk_txn_version := lk_txn_version (append_delta ref d ?s), lk_metadata := lk_metadata (append_delta ref d ?s)\<rparr>"
    using assms by (auto simp: append_typed_delta_def delta_idempotent_transaction_def delta_commit_metadata_def
        append_strict_def Let_def split: if_splits)
  moreover have "txn_recorded ref (typed_application_id m sfx) n (append_delta ref d ?s)"
    by (rule append_delta_records) simp_all
  moreover have "table_present ref (append_delta ref d ?s)" by (rule append_delta_present)
  ultimately show "txn_recorded ref (typed_application_id m sfx) n s'" "table_present ref s'"
    by (metis txn_recorded_settings, metis table_present_settings)
qed

lemma append_typed_delta_again:
  assumes "txn_recorded ref (typed_application_id m sfx) n s"
  shows "append_typed_delta m d ref sfx n md s = (Inr (), s)"
proof -
  let ?s = "s\<lparr>lk_txn_app := Some (typed_application_id m sfx), lk_txn_version := Some n,
      lk_metadata := Some (tb_dumps m (case md of None \<Rightarrow> bootstrap_metadata n | Some j \<Rightarrow> j))\<rparr>"
  have r: "txn_recorded ref (typed_application_id m sfx) n ?s" using assms by simp
  have "append_strict ref d ?s = (Inr (), ?s)"
    using append_delta_again [OF r] seen_recorded [OF r] by (simp add: append_strict_def)
  then show ?thesis
    by (simp add: append_typed_delta_def delta_idempotent_transaction_def delta_commit_metadata_def Let_def)
qed

text \<open>The appends of a batch, and the creation of the tables, are families of idempotent writes.\<close>

definition append_recorded :: "typed_bronze \<Rightarrow> int \<Rightarrow> string \<times> table_statistic \<Rightarrow> lake \<Rightarrow> bool" where
  "append_recorded m n job s \<longleftrightarrow> (case (get_typed_cdc_contract (fst job), typed_reference m (fst job)) of
     (Inr c, Inr ref) \<Rightarrow> txn_recorded ref (typed_application_id m (fst job)) n s | _ \<Rightarrow> False)"

definition table_ensured :: "typed_bronze \<Rightarrow> string \<times> typed_cdc_contract \<Rightarrow> lake \<Rightarrow> bool" where
  "table_ensured m tc s \<longleftrightarrow> (case typed_reference m (fst tc) of Inr ref \<Rightarrow> table_present ref s | _ \<Rightarrow> False)"

lemma keeps_txns_append_table: "keeps_txns (append_table m pb n job)"
  by (auto simp: append_table_def append_typed_def split: prod.split
      intro!: keeps_txns_bind append_typed_delta_keeps(2))

lemma append_recorded_keeps: "keeps_txns act \<Longrightarrow> append_recorded m n job s \<Longrightarrow> append_recorded m n job (snd (act s))"
  by (auto simp: append_recorded_def keeps_txns_def split: sum.splits)

interpretation typed_appends: redelivered "append_table m pb n" "\<lambda>_. ()" "append_recorded m n" for m pb n
proof
  fix x s a s' assume "append_table m pb n x s = (Inr a, s')"
  then show "a = () \<and> append_recorded m n x s'"
    by (auto simp: append_table_def append_typed_def append_recorded_def io_bind_def append_typed_delta_Inr
        split: prod.splits sum.splits)
next
  fix x s assume "append_recorded m n x s"
  then show "append_table m pb n x s = (Inr (), s)"
    by (auto simp: append_table_def append_typed_def append_recorded_def append_typed_delta_again
        split: prod.splits sum.splits)
next
  fix x s y assume "append_recorded m n x s"
  then show "append_recorded m n x (snd (append_table m pb n y s))"
    by (rule append_recorded_keeps [OF keeps_txns_append_table])
qed

interpretation physical_tables: redelivered "ensure_table m" "\<lambda>_. ()" "table_ensured m" for m
proof
  fix x s a s' assume "ensure_table m x s = (Inr a, s')"
  then show "a = () \<and> table_ensured m x s'"
    by (auto simp: ensure_table_def table_ensured_def io_bind_def append_typed_delta_Inr
        split: prod.splits sum.splits if_splits) (auto simp: table_present_def)
next
  fix x s assume "table_ensured m x s"
  then show "ensure_table m x s = (Inr (), s)"
    by (auto simp: ensure_table_def table_ensured_def table_present_def split: prod.splits sum.splits)
next
  fix x s y assume "table_ensured m x s"
  then show "table_ensured m x (snd (ensure_table m y s))"
    by (auto simp: ensure_table_def table_ensured_def io_bind_def append_typed_delta_keeps split: prod.splits sum.splits)
qed

definition keeps_present :: "'a io \<Rightarrow> bool" where
  "keeps_present act \<longleftrightarrow> (\<forall>s ref. table_present ref s \<longrightarrow> table_present ref (snd (act s)))"

lemma keeps_present_rules:
  "keeps_present (io_return a)" "keeps_present (io_raise e)" "keeps_present (io_lift r)" "keeps_present (io_get g)"
  "keeps_present act \<Longrightarrow> (\<And>a. keeps_present (f a)) \<Longrightarrow> keeps_present (io_bind act f)"
  by (auto simp: keeps_present_def io_get_def io_bind_def split: prod.splits sum.splits) (metis snd_conv)+

lemma keeps_present_traverse: "(\<And>x. keeps_present (f x)) \<Longrightarrow> keeps_present (io_traverse f xs)"
  by (induction xs) (simp_all add: keeps_present_rules)

lemma keeps_present_appends:
  "keeps_present (append_typed_delta m d ref sfx n md)" "keeps_present (append_table m pb n job)"
  "keeps_present (write_quarantine m pb n)"
proof -
  show a: "keeps_present (append_typed_delta m d ref sfx n md)" for d ref sfx n md
    by (simp add: keeps_present_def append_typed_delta_keeps(1))
  show "keeps_present (append_table m pb n job)" "keeps_present (write_quarantine m pb n)"
    by (auto simp: append_table_def append_typed_def write_quarantine_def Let_def split: prod.split
        intro!: keeps_present_rules a)
qed

text \<open>What a batch leaves behind.\<close>

definition quarantine_recorded :: "typed_bronze \<Rightarrow> prepared_batch \<Rightarrow> int \<Rightarrow> lake \<Rightarrow> bool" where
  "quarantine_recorded m pb n s \<longleftrightarrow> df_rows (quarantine_rows m pb n) = [] \<or>
     (case typed_reference m QUARANTINE_TABLE_NAME of
        Inr ref \<Rightarrow> txn_recorded ref (typed_application_id m ''quarantine'') n s | _ \<Rightarrow> False)"

definition quarantine_ensured :: "typed_bronze \<Rightarrow> lake \<Rightarrow> bool" where
  "quarantine_ensured m s \<longleftrightarrow> (case typed_reference m QUARANTINE_TABLE_NAME of
     Inr ref \<Rightarrow> table_present ref s | _ \<Rightarrow> False)"

lemma ensure_quarantine_records:
  "ensure_quarantine m pb s = (Inr a, s') \<Longrightarrow> quarantine_ensured m s'"
  by (auto simp: ensure_quarantine_def quarantine_ensured_def io_bind_def append_typed_delta_Inr table_present_def
      split: prod.splits sum.splits if_splits dest!: append_typed_delta_Inr(2))

lemma ensure_quarantine_again: "quarantine_ensured m s \<Longrightarrow> ensure_quarantine m pb s = (Inr (), s)"
  by (auto simp: ensure_quarantine_def quarantine_ensured_def table_present_def split: sum.splits)

lemma write_quarantine_records:
  "write_quarantine m pb n s = (Inr q, s') \<Longrightarrow> quarantine_recorded m pb n s' \<and> q = int (length (df_rows (quarantine_rows m pb n)))"
  by (auto simp: write_quarantine_def quarantine_recorded_def Let_def io_bind_def append_typed_delta_Inr
      split: prod.splits sum.splits if_splits)

lemma write_quarantine_again:
  "quarantine_recorded m pb n s \<Longrightarrow> write_quarantine m pb n s = (Inr (int (length (df_rows (quarantine_rows m pb n)))), s)"
  by (auto simp: write_quarantine_def quarantine_recorded_def Let_def io_bind_def append_typed_delta_again
      split: sum.splits)

text \<open>
  The state after a batch: its tables exist, and its appends are recorded. A process that claims to have looked
  for the tables has found them.
\<close>

definition tables_known :: "typed_bronze \<Rightarrow> bool \<Rightarrow> lake \<Rightarrow> bool" where
  "tables_known m initialized s \<longleftrightarrow>
     (initialized \<longrightarrow> list_all (\<lambda>x. table_ensured m x s) TYPED_TABLES \<and> quarantine_ensured m s)"

definition batch_recorded :: "typed_bronze \<Rightarrow> prepared_batch \<Rightarrow> int \<Rightarrow> lake \<Rightarrow> bool" where
  "batch_recorded m pb n s \<longleftrightarrow> tables_known m True s \<and> quarantine_recorded m pb n s \<and>
     list_all (\<lambda>job. append_recorded m n job s) (changed_typed_tables (table_statistics (pb_events pb)))"

lemma keeps_presentD: "keeps_present act \<Longrightarrow> act s = (r, s') \<Longrightarrow> table_present ref s \<Longrightarrow> table_present ref s'"
  unfolding keeps_present_def by (metis snd_conv)

lemma keeps_txnsD: "keeps_txns act \<Longrightarrow> act s = (r, s') \<Longrightarrow> txn_recorded ref app n s \<Longrightarrow> txn_recorded ref app n s'"
  unfolding keeps_txns_def by (metis snd_conv)

lemma tables_known_keeps:
  "keeps_present act \<Longrightarrow> act s = (r, s') \<Longrightarrow> tables_known m b s \<Longrightarrow> tables_known m b s'"
  by (auto simp: tables_known_def table_ensured_def quarantine_ensured_def list_all_iff keeps_presentD split: sum.splits)

lemma batch_recorded_keeps:
  assumes "keeps_present act" and "keeps_txns act" and "act s = (r, s')" and "batch_recorded m pb n s"
  shows "batch_recorded m pb n s'"
  using assms(4) tables_known_keeps [OF assms(1,3)] keeps_txnsD [OF assms(2,3)]
  unfolding batch_recorded_def list_all_iff quarantine_recorded_def append_recorded_def
  by (fastforce split: sum.splits)

lemma ensure_physical_tables_known:
  assumes "ensure_physical_tables m initialized pb s = (Inr a, s')" and "tables_known m initialized s"
  shows "tables_known m True s'"
proof (cases initialized)
  case True
  with assms show ?thesis by (simp add: ensure_physical_tables_def)
next
  case False
  with assms(1) obtain us s0 u where tables: "io_traverse (ensure_table m) TYPED_TABLES s = (Inr us, s0)"
      and quarantine: "ensure_quarantine m pb s0 = (Inr u, s')"
    by (auto simp: ensure_physical_tables_def io_bind_def split: prod.splits sum.splits)
  have "keeps_present (ensure_quarantine m pb)"
    by (auto simp: ensure_quarantine_def keeps_present_def io_bind_def append_typed_delta_keeps split: prod.splits sum.splits)
  note step = keeps_presentD [OF this quarantine]
  have "table_ensured m x s'" if "x \<in> set TYPED_TABLES" for x
    using physical_tables.traverse_records [OF tables] that step by (fastforce simp: table_ensured_def split: sum.splits)
  with ensure_quarantine_records [OF quarantine] show ?thesis by (simp add: tables_known_def list_all_iff)
qed

lemma ensure_physical_tables_again: "tables_known m True s \<Longrightarrow> ensure_physical_tables m initialized pb s = (Inr (), s)"
  using physical_tables.traverse_again [of TYPED_TABLES m s]
  by (simp add: ensure_physical_tables_def tables_known_def list_all_iff io_bind_def ensure_quarantine_again)

lemma materialize_again:
  assumes "batch_recorded m pb n s"
  shows "materialize m initialized pb n s =
    (and_then (read_batch m n (map fst (changed_typed_tables (table_statistics (pb_events pb)))) s) (\<lambda>tables.
       Inr \<lparr>mb_tables = tables, mb_statistics = table_statistics (pb_events pb),
         mb_quarantined_count = int (length (df_rows (quarantine_rows m pb n)))\<rparr>), s)"
  using assms typed_appends.traverse_again [of "changed_typed_tables (table_statistics (pb_events pb))" m n s pb]
  by (auto simp: batch_recorded_def materialize_def ensure_physical_tables_again write_quarantine_again Let_def io_bind_def io_get_def
      list_all_iff split: sum.splits)

lemma materialize_records:
  assumes "materialize m initialized pb n s = (Inr mb, s')" and "tables_known m initialized s"
  shows "batch_recorded m pb n s'" "materialize m initialized' pb n s' = (Inr mb, s')"
    "mb_statistics mb = table_statistics (pb_events pb)"
proof -
  let ?changed = "changed_typed_tables (table_statistics (pb_events pb))"
  from assms(1) obtain a s1 q s2 vs tables where
      ensure: "ensure_physical_tables m initialized pb s = (Inr a, s1)" and
      quarantine: "write_quarantine m pb n s1 = (Inr q, s2)" and
      appends: "io_traverse (append_table m pb n) ?changed s2 = (Inr vs, s')" and
      read: "read_batch m n (map fst ?changed) s' = Inr tables" and
      mb: "mb = \<lparr>mb_tables = tables, mb_statistics = table_statistics (pb_events pb), mb_quarantined_count = q\<rparr>"
    by (auto simp: materialize_def Let_def io_bind_def io_get_def split: prod.splits sum.splits)
  have known: "tables_known m True s'"
    by (intro tables_known_keeps [OF keeps_present_traverse [OF keeps_present_appends(2)] appends]
        tables_known_keeps [OF keeps_present_appends(3) quarantine] ensure_physical_tables_known [OF ensure assms(2)])
  have "keeps_txns (io_traverse (append_table m pb n) ?changed)"
    by (intro keeps_txns_traverse keeps_txns_append_table)
  from keeps_txnsD [OF this appends] write_quarantine_records [OF quarantine]
  have "quarantine_recorded m pb n s'" by (auto simp: quarantine_recorded_def split: sum.splits)
  with known typed_appends.traverse_records [OF appends] show recorded: "batch_recorded m pb n s'"
    by (simp add: batch_recorded_def list_all_iff)
  show "materialize m initialized' pb n s' = (Inr mb, s')"
    using materialize_again [OF recorded, of initialized'] write_quarantine_records [OF quarantine] read mb by simp
  show "mb_statistics mb = table_statistics (pb_events pb)" by (simp add: mb)
qed

text \<open>
  C6. A micro-batch reaches typed Bronze exactly once. After a batch was materialized, delivering it
  again (by the same process, or by one that starts anew and looks for its tables again) appends nothing
  anywhere and hands the same tables, statistics and quarantine count to Silver.
\<close>

theorem typed_batch_exactly_once:
  assumes "materialize m False pb n s = (Inr mb, s')"
  shows "materialize m initialized pb n s' = (Inr mb, s')"
  by (rule materialize_records(2) [OF assms]) (simp add: tables_known_def)

section \<open>What Silver receives\<close>

lemma typed_application_id_inj: "typed_application_id m a = typed_application_id m b \<longleftrightarrow> a = b"
  by (simp add: typed_application_id_def)

lemma typed_reference_inj:
  assumes "typed_reference m t = Inr ref" and "typed_reference m t' = Inr ref"
  shows "t = t'"
proof (cases "lc_catalog (tb_lakehouse m)")
  case None
  let ?root = "rstrip_slash (case lc_base_path (tb_lakehouse m) of Some b \<Rightarrow> b | None \<Rightarrow> [])"
  have "join_str ''/'' [?root, ''bronze'', ''streaming'', t] = join_str ''/'' [?root, ''bronze'', ''streaming'', t']"
    using assms None by (auto simp: typed_reference_def streaming_typed_bronze_reference_def located_def path_join_def
        raise_if_def and_then_Inr_iff split: if_splits)
  then show ?thesis by simp
next
  case (Some cat)
  then show ?thesis
    using assms by (auto simp: typed_reference_def streaming_typed_bronze_reference_def located_def catalog_name_def
        raise_if_def and_then_Inr_iff split: if_splits)
qed

text \<open>A table that has neither the transaction nor rows of the batch.\<close>

definition fresh_table :: "typed_bronze \<Rightarrow> int \<Rightarrow> string \<Rightarrow> lake \<Rightarrow> bool" where
  "fresh_table m n t s \<longleftrightarrow> (case typed_reference m t of Inl e \<Rightarrow> True | Inr ref \<Rightarrow>
     (case lk_tables s ref of None \<Rightarrow> True | Some tb \<Rightarrow>
        (case map_of (dt_txns tb) (typed_application_id m t) of None \<Rightarrow> True | Some w \<Rightarrow> w < n) \<and>
        (\<forall>r \<in> set (cm_rows (latest_commit tb)). r ''_batch_id'' \<noteq> StrV (batch_key (tb_settings m) n))))"

lemma append_delta_other: "ref' \<noteq> ref \<Longrightarrow> lk_tables (append_delta ref d s) ref' = lk_tables s ref'"
  by (auto simp: append_delta_def commit_table_def Let_def split: option.splits)

lemma append_typed_delta_other:
  "ref' \<noteq> ref \<Longrightarrow> lk_tables (snd (append_typed_delta m d ref sfx n md s)) ref' = lk_tables s ref'"
  by (simp add: append_typed_delta_def delta_idempotent_transaction_def delta_commit_metadata_def append_strict_def
      Let_def append_delta_other)

lemma append_typed_delta_tables:
  assumes "append_typed_delta m d ref sfx n md s = (Inr a, s')"
  shows "lk_tables s' = lk_tables (append_delta ref d (s\<lparr>lk_txn_app := Some (typed_application_id m sfx), lk_txn_version := Some n,
      lk_metadata := Some (tb_dumps m (case md of None \<Rightarrow> bootstrap_metadata n | Some j \<Rightarrow> j))\<rparr>))"
  using assms by (auto simp: append_typed_delta_def delta_idempotent_transaction_def delta_commit_metadata_def
      append_strict_def Let_def split: if_splits)

text \<open>A bootstrapped table is empty and records the bootstrap only.\<close>

lemma bootstrap_fresh:
  assumes "append_typed_delta m d ref (''bootstrap-'' @ t) 0 None s = (Inr a, s')" and "lk_tables s ref = None"
    and "typed_reference m t = Inr ref" and "df_rows d = []"
  shows "fresh_table m n t s'"
  using append_typed_delta_tables [OF assms(1)] assms(2-4)
  by (auto simp: fresh_table_def append_delta_def Let_def commit_table_def table_or_empty_def empty_table_def txn_seen_def
      latest_commit_def typed_application_id_inj)

lemma ensure_table_fresh:
  assumes "ensure_table m (t', c) s = (Inr a, s')" and "fresh_table m n t s"
  shows "fresh_table m n t s'"
proof -
  from assms(1) obtain ref' where ref': "typed_reference m t' = Inr ref'"
      "(if lk_tables s ref' \<noteq> None then (Inr (), s)
        else append_typed_delta m (decode_table_events (tb_fn m) (tb_settings m) c (- 1) []) ref' (''bootstrap-'' @ t') 0 None s) = (Inr a, s')"
    by (auto simp: ensure_table_def io_bind_def split: prod.splits sum.splits)
  show ?thesis
  proof (cases "lk_tables s ref' \<noteq> None")
    case True
    with ref'(2) assms(2) show ?thesis by simp
  next
    case False
    with ref'(2) have append: "append_typed_delta m (decode_table_events (tb_fn m) (tb_settings m) c (- 1) []) ref'
        (''bootstrap-'' @ t') 0 None s = (Inr a, s')" by simp
    show ?thesis
    proof (cases "t = t'")
      case True
      with bootstrap_fresh [OF append] False ref'(1) show ?thesis by (simp add: decode_table_events_def)
    next
      case neq: False
      have "lk_tables s' ref = lk_tables s ref" if "typed_reference m t = Inr ref" for ref
        using append_typed_delta_other [of ref ref'] append typed_reference_inj [OF that, of t'] ref'(1) neq by (metis snd_conv)
      with assms(2) show ?thesis by (auto simp: fresh_table_def split: sum.splits)
    qed
  qed
qed

lemma ensure_tables_fresh:
  "io_traverse (ensure_table m) tcs s = (Inr us, s') \<Longrightarrow> fresh_table m n t s \<Longrightarrow> fresh_table m n t s'"
proof (induction tcs arbitrary: s us)
  case (Cons tc tcs)
  obtain t' c where tc: "tc = (t', c)" by (cases tc)
  from Cons.prems(1) obtain a s1 vs where "ensure_table m (t', c) s = (Inr a, s1)" "io_traverse (ensure_table m) tcs s1 = (Inr vs, s')"
    by (auto simp: tc io_bind_def split: prod.splits sum.splits)
  with Cons.IH ensure_table_fresh [OF _ Cons.prems(2)] show ?case by blast
qed simp

lemma append_table_cases:
  assumes "append_table m pb n (t, st) s = (Inr a, s')"
  obtains c ref md where "get_typed_cdc_contract t = Inr c" "typed_reference m t = Inr ref"
    "append_typed_delta m (decode_table_events (tb_fn m) (tb_settings m) c n (valid_events pb t)) ref t n md s = (Inr a, s')"
  using assms by (auto simp: append_table_def append_typed_def io_bind_def split: prod.splits sum.splits)

lemma append_table_other:
  assumes "append_table m pb n (t', st) s = (Inr a, s')" and "typed_reference m t = Inr ref" and "t \<noteq> t'"
  shows "lk_tables s' ref = lk_tables s ref"
  using assms(1)
proof (rule append_table_cases)
  fix c ref' md assume "typed_reference m t' = Inr ref'"
    "append_typed_delta m (decode_table_events (tb_fn m) (tb_settings m) c n (valid_events pb t')) ref' t' n md s = (Inr a, s')"
  with append_typed_delta_other [of ref ref'] typed_reference_inj [OF assms(2), of t'] assms(3) show ?thesis by (metis snd_conv)
qed

lemma append_tables_other:
  "io_traverse (append_table m pb n) jobs s = (Inr vs, s') \<Longrightarrow> typed_reference m t = Inr ref \<Longrightarrow> t \<notin> fst ` set jobs \<Longrightarrow>
   lk_tables s' ref = lk_tables s ref"
proof (induction jobs arbitrary: s vs)
  case (Cons job jobs)
  obtain t' st where job: "job = (t', st)" by (cases job)
  from Cons.prems(1) obtain a s1 ws where "append_table m pb n (t', st) s = (Inr a, s1)" "io_traverse (append_table m pb n) jobs s1 = (Inr ws, s')"
    by (auto simp: job io_bind_def split: prod.splits sum.splits)
  with Cons.IH [OF _ Cons.prems(2)] append_table_other [OF _ Cons.prems(2)] Cons.prems(3) job show ?case by auto
qed simp

definition batch_rows :: "typed_bronze \<Rightarrow> int \<Rightarrow> row list \<Rightarrow> row list" where
  "batch_rows m n rows = where3 (\<lambda>r. eq3 (r ''_batch_id'') (StrV (batch_key (tb_settings m) n))) rows"

lemma decoded_batch_id:
  assumes "get_typed_cdc_contract t = Inr c" and "r \<in> set (df_rows (decode_table_events fn st c n events))"
  shows "r ''_batch_id'' = StrV (batch_key st n)"
proof -
  have "(t, c) \<in> set TYPED_TABLES" using assms(1) by (simp add: get_typed_contract_iff map_of_SomeD)
  from typed_table_facts(4) [OF this] have "project (decoded_columns fn st c n) e ''_batch_id'' = StrV (batch_key st n)" for e
    by (simp add: decoded_cell) (simp add: project_def event_columns_def)
  with assms(2) show ?thesis by (auto simp: decode_table_events_def)
qed

text \<open>An append to a fresh table adds the decoded rows, and they are the rows of the batch.\<close>

lemma append_fresh_table:
  assumes "append_table m pb n (t, st) s = (Inr a, s')" and "fresh_table m n t s"
  shows "\<exists>c ref. get_typed_cdc_contract t = Inr c \<and> typed_reference m t = Inr ref \<and>
    batch_rows m n (current_rows s' ref) = df_rows (decode_table_events (tb_fn m) (tb_settings m) c n (valid_events pb t))"
  using assms(1)
proof (rule append_table_cases)
  fix c ref md assume c: "get_typed_cdc_contract t = Inr c" and ref: "typed_reference m t = Inr ref"
    and app: "append_typed_delta m (decode_table_events (tb_fn m) (tb_settings m) c n (valid_events pb t)) ref t n md s = (Inr a, s')"
  let ?rows = "df_rows (decode_table_events (tb_fn m) (tb_settings m) c n (valid_events pb t))"
  have old: "batch_rows m n (current_rows s ref) = []"
    using assms(2) ref by (auto simp: fresh_table_def batch_rows_def where3_def filter_empty_conv current_rows_def split: option.splits)
  have rows: "batch_rows m n ?rows = ?rows"
    unfolding batch_rows_def where3_def by (rule filter_True) (simp add: decoded_batch_id [OF c])
  have "current_rows s' ref = current_rows s ref @ ?rows"
    using assms(2) ref append_typed_delta_tables [OF app]
    by (auto simp: fresh_table_def current_rows_def append_delta_def Let_def commit_table_def table_or_empty_def txn_seen_def
        empty_table_def latest_commit_def split: option.splits)
  with old rows c ref show ?thesis by (simp add: batch_rows_def where3_def)
qed

lemma append_fresh_tables:
  "io_traverse (append_table m pb n) jobs s = (Inr vs, s') \<Longrightarrow> distinct (map fst jobs) \<Longrightarrow>
   \<forall>t \<in> fst ` set jobs. fresh_table m n t s \<Longrightarrow> t \<in> fst ` set jobs \<Longrightarrow>
   \<exists>c ref. get_typed_cdc_contract t = Inr c \<and> typed_reference m t = Inr ref \<and>
     batch_rows m n (current_rows s' ref) = df_rows (decode_table_events (tb_fn m) (tb_settings m) c n (valid_events pb t))"
proof (induction jobs arbitrary: s vs)
  case (Cons job jobs)
  obtain t' st where job: "job = (t', st)" by (cases job)
  from Cons.prems(1) obtain a s1 ws where app: "append_table m pb n (t', st) s = (Inr a, s1)"
    and rest: "io_traverse (append_table m pb n) jobs s1 = (Inr ws, s')"
    by (auto simp: job io_bind_def split: prod.splits sum.splits)
  show ?case
  proof (cases "t = t'")
    case True
    with Cons.prems(3) job have "fresh_table m n t' s" by simp
    from append_fresh_table [OF app this] obtain c ref where c: "get_typed_cdc_contract t = Inr c" "typed_reference m t = Inr ref"
      "batch_rows m n (current_rows s1 ref) = df_rows (decode_table_events (tb_fn m) (tb_settings m) c n (valid_events pb t))"
      using True by blast
    moreover have "lk_tables s' ref = lk_tables s1 ref"
      using append_tables_other [OF rest c(2)] Cons.prems(2) job True by auto
    ultimately show ?thesis by (auto simp: current_rows_def)
  next
    case False
    have "fresh_table m n u s1" if "u \<in> fst ` set jobs" for u
    proof -
      from that Cons.prems(2) job have "u \<noteq> t'" by auto
      with append_table_other [OF app] Cons.prems(3) that job show ?thesis
        by (auto simp: fresh_table_def split: sum.splits)
    qed
    with Cons.IH [OF rest] Cons.prems(2,4) False job show ?thesis by auto
  qed
qed simp

lemma changed_typed_tables_names:
  "map fst (changed_typed_tables sts) = filter (\<lambda>t. map_of sts t \<noteq> None) (map fst TYPED_TABLES)"
  "distinct (map fst (changed_typed_tables sts))" "fst ` set (changed_typed_tables sts) \<subseteq> fst ` set TYPED_TABLES"
proof -
  have names: "map fst (concat (map (\<lambda>(t, c). case map_of sts t of None \<Rightarrow> [] | Some st \<Rightarrow> [(t, st)]) tcs)) =
      filter (\<lambda>t. map_of sts t \<noteq> None) (map fst tcs)" for tcs :: "(string \<times> typed_cdc_contract) list"
    by (induction tcs) (auto split: option.splits)
  then show "map fst (changed_typed_tables sts) = filter (\<lambda>t. map_of sts t \<noteq> None) (map fst TYPED_TABLES)"
    unfolding changed_typed_tables_def .
  show "distinct (map fst (changed_typed_tables sts))"
    unfolding changed_typed_tables_def names using TYPED_TABLES_distinct by (rule distinct_filter)
  have "set (map fst (changed_typed_tables sts)) \<subseteq> set (map fst TYPED_TABLES)"
    unfolding changed_typed_tables_def names by auto
  then show "fst ` set (changed_typed_tables sts) \<subseteq> fst ` set TYPED_TABLES" by simp
qed

lemma snd_io_bind_return: "snd (io_bind act (\<lambda>_. io_return v) s) = snd (act s)"
  by (auto simp: io_bind_def split: prod.splits sum.splits)

lemma quarantine_writes_other:
  assumes "typed_reference m t = Inr ref" and "t \<noteq> QUARANTINE_TABLE_NAME"
  shows "lk_tables (snd (write_quarantine m pb n s)) ref = lk_tables s ref"
    and "lk_tables (snd (ensure_quarantine m pb s)) ref = lk_tables s ref"
proof -
  have "lk_tables (snd (write_quarantine m pb n s)) ref = lk_tables s ref \<and> lk_tables (snd (ensure_quarantine m pb s)) ref = lk_tables s ref"
  proof (cases "typed_reference m QUARANTINE_TABLE_NAME")
    case (Inr ref')
    then have "ref \<noteq> ref'" using typed_reference_inj [OF assms(1)] assms(2) by blast
    then show ?thesis
      by (simp add: write_quarantine_def ensure_quarantine_def Inr Let_def snd_io_bind_return append_typed_delta_other)
  qed (simp add: write_quarantine_def ensure_quarantine_def Let_def)
  then show "lk_tables (snd (write_quarantine m pb n s)) ref = lk_tables s ref"
    "lk_tables (snd (ensure_quarantine m pb s)) ref = lk_tables s ref" by blast+
qed

lemma quarantine_not_typed: "t \<in> fst ` set TYPED_TABLES \<Longrightarrow> t \<noteq> QUARANTINE_TABLE_NAME"
proof -
  have "QUARANTINE_TABLE_NAME \<notin> set (map fst TYPED_TABLES)" unfolding TYPED_TABLES_names by code_simp
  then show "t \<in> fst ` set TYPED_TABLES \<Longrightarrow> t \<noteq> QUARANTINE_TABLE_NAME" by (metis list.set_map)
qed

lemma fresh_table_same:
  "(\<And>ref. typed_reference m t = Inr ref \<Longrightarrow> lk_tables s' ref = lk_tables s ref) \<Longrightarrow> fresh_table m n t s' = fresh_table m n t s"
  by (auto simp: fresh_table_def split: sum.split)

text \<open>
  C17. Silver receives exactly the valid events of the batch. When the typed tables do not
  hold the batch yet, the tables that \<open>materialize\<close> reads back are those with a valid event, and the
  rows of each are the decoded valid events of its source table, in order, whatever the table held before.
\<close>

theorem materialized_rows_are_decoded:
  assumes "materialize m initialized pb n s = (Inr mb, s')"
    and "list_all (\<lambda>(t, c). fresh_table m n t s) TYPED_TABLES"
  shows "list_all2 (\<lambda>(t, d) (t', st). t = t' \<and> (\<exists>c. get_typed_cdc_contract t = Inr c \<and>
      df_rows d = df_rows (decode_table_events (tb_fn m) (tb_settings m) c n (valid_events pb t))))
    (mb_tables mb) (changed_typed_tables (table_statistics (pb_events pb)))"
proof -
  let ?changed = "changed_typed_tables (table_statistics (pb_events pb))"
  from assms(1) obtain a s1 q s2 vs tables where ensure: "ensure_physical_tables m initialized pb s = (Inr a, s1)"
    and quarantine: "write_quarantine m pb n s1 = (Inr q, s2)"
    and appends: "io_traverse (append_table m pb n) ?changed s2 = (Inr vs, s')"
    and read: "read_batch m n (map fst ?changed) s' = Inr tables" and mb: "mb_tables mb = tables"
    by (auto simp: materialize_def Let_def io_bind_def io_get_def split: prod.splits sum.splits)
  have fresh: "fresh_table m n t s2" if t: "t \<in> fst ` set TYPED_TABLES" for t
  proof -
    have s: "fresh_table m n t s" using assms(2) t by (auto simp: list_all_iff)
    have "fresh_table m n t s1"
    proof (cases initialized)
      case True
      with ensure s show ?thesis by (simp add: ensure_physical_tables_def)
    next
      case False
      with ensure obtain us s0 u where e: "io_traverse (ensure_table m) TYPED_TABLES s = (Inr us, s0)"
          "ensure_quarantine m pb s0 = (Inr u, s1)"
        by (auto simp: ensure_physical_tables_def io_bind_def split: prod.splits sum.splits)
      have "fresh_table m n t s1 = fresh_table m n t s0"
        using quarantine_writes_other(2) [OF _ quarantine_not_typed [OF t], of m _ pb s0] e(2) by (intro fresh_table_same) simp
      with ensure_tables_fresh [OF e(1) s] show ?thesis by simp
    qed
    moreover have "fresh_table m n t s2 = fresh_table m n t s1"
      using quarantine_writes_other(1) [OF _ quarantine_not_typed [OF t], of m _ pb n s1] quarantine by (intro fresh_table_same) simp
    ultimately show ?thesis by simp
  qed
  have rows: "\<exists>c ref. get_typed_cdc_contract t = Inr c \<and> typed_reference m t = Inr ref \<and>
      batch_rows m n (current_rows s' ref) = df_rows (decode_table_events (tb_fn m) (tb_settings m) c n (valid_events pb t))"
    if "t \<in> fst ` set ?changed" for t
    using append_fresh_tables [OF appends changed_typed_tables_names(2) _ that] fresh changed_typed_tables_names(3) by blast
  have one: "t' = t \<and> (\<exists>c. get_typed_cdc_contract t = Inr c \<and>
      df_rows d = df_rows (decode_table_events (tb_fn m) (tb_settings m) c n (valid_events pb t)))"
    if "t \<in> fst ` set ?changed" and "and_then (typed_reference m t) (\<lambda>ref. and_then (read_delta s' ref None) (\<lambda>d.
        Inr (t, d\<lparr>df_rows := where3 (\<lambda>r. eq3 (r ''_batch_id'') (StrV (batch_key (tb_settings m) n))) (df_rows d)\<rparr>))) = Inr (t', d)" for t t' d
  proof -
    from that(2) obtain ref d0 where d0: "typed_reference m t = Inr ref" "read_delta s' ref None = Inr d0" "t' = t"
        "df_rows d = batch_rows m n (df_rows d0)"
      by (cases "typed_reference m t"; cases "read_delta s' (projr (typed_reference m t)) None") (auto simp: batch_rows_def)
    have "current_rows s' ref = df_rows d0"
      using d0(2) by (auto simp: read_delta_def delta_table_at_def snapshot_def current_rows_def Let_def split: option.splits)
    with rows [OF that(1)] d0(1,3,4) show ?thesis by auto
  qed
  have len: "length tables = length ?changed" using read traverse_length by (fastforce simp: read_batch_def)
  have "fst (tables ! i) = fst (?changed ! i) \<and> (\<exists>c. get_typed_cdc_contract (fst (tables ! i)) = Inr c \<and>
      df_rows (snd (tables ! i)) = df_rows (decode_table_events (tb_fn m) (tb_settings m) c n (valid_events pb (fst (tables ! i)))))"
    if i: "i < length ?changed" for i
  proof -
    have "fst (?changed ! i) \<in> fst ` set ?changed" using i by (intro imageI nth_mem)
    moreover have "and_then (typed_reference m (fst (?changed ! i))) (\<lambda>ref. and_then (read_delta s' ref None) (\<lambda>d.
        Inr (fst (?changed ! i), d\<lparr>df_rows := where3 (\<lambda>r. eq3 (r ''_batch_id'') (StrV (batch_key (tb_settings m) n))) (df_rows d)\<rparr>))) =
        Inr (fst (tables ! i), snd (tables ! i))"
      using read i unfolding read_batch_def traverse_Inr_iff list_all2_conv_all_nth by (simp del: and_then_Inr_iff)
    ultimately show ?thesis using one [of "fst (?changed ! i)" "fst (tables ! i)" "snd (tables ! i)"] by simp
  qed
  then show ?thesis unfolding mb list_all2_conv_all_nth case_prod_unfold len by blast
qed

section \<open>One batch\<close>

definition demo_typed_bronze :: typed_bronze where
  "demo_typed_bronze = \<lparr>tb_fn = demo_cdc, tb_now = 1, tb_dumps = (\<lambda>j. []), tb_lakehouse = path_config,
     tb_settings = \<lparr>ds_query_name = ''q'', ds_checkpoint_version = ''v1'', ds_source_system = ''s'', ds_timezone = ''UTC''\<rparr>\<rparr>"

definition demo_prepared_batch :: prepared_batch where
  "demo_prepared_batch = \<lparr>pb_cols = REQUIRED_RAW_COLUMNS,
     pb_events = [\<lparr>pe_row = row_of [(''source_table'', StrV ''payments''), (''operation'', StrV ''c''), (''source_lsn'', IntV 7),
         (''is_valid'', BoolV True), (''_transport_event_id'', StrV ''e1'')],
       pe_payload = Some [(''payment_id'', IntV 3), (''order_id'', IntV 9)], pe_error = Null\<rparr>]\<rparr>"

text \<open>A lake in which the tables of the stream exist already, all with the columns of one of them.\<close>

definition demo_typed_columns :: "string list" where
  "demo_typed_columns = (case get_typed_cdc_contract ''payments'' of Inl e \<Rightarrow> []
     | Inr c \<Rightarrow> df_cols (decode_table_events demo_cdc (tb_settings demo_typed_bronze) c 0 []))"

definition demo_typed_table :: delta_table where
  "demo_typed_table = \<lparr>dt_commits = [\<lparr>cm_cols = demo_typed_columns, cm_rows = [], cm_changes = [], cm_metadata = None\<rparr>],
     dt_props = [], dt_txns = []\<rparr>"

definition demo_typed_lake :: lake where
  "demo_typed_lake = \<lparr>lk_tables = (\<lambda>r. Some demo_typed_table), lk_metadata = None, lk_txn_app = None, lk_txn_version = None\<rparr>"

lemma demo_changed: "map fst (changed_typed_tables (table_statistics (pb_events demo_prepared_batch))) = [''payments'']"
proof -
  have "map fst (table_statistics (pb_events demo_prepared_batch)) = [''payments'']"
    by (simp add: table_statistics_def demo_prepared_batch_def groups_def row_of_def name_text_def)
  then have "(\<lambda>t. map_of (table_statistics (pb_events demo_prepared_batch)) t \<noteq> None) = (\<lambda>t. t = ''payments'')"
    by (auto simp: map_of_eq_None_iff simp flip: set_map)
  then show ?thesis unfolding changed_typed_tables_names(1) TYPED_TABLES_names by (rule ssubst) code_simp
qed

lemma append_typed_delta_succeeds:
  assumes "case lk_tables s ref of None \<Rightarrow> True | Some t \<Rightarrow> set (df_cols d) \<subseteq> set (cm_cols (latest_commit t))"
  shows "\<exists>s'. append_typed_delta m d ref sfx n md s = (Inr (), s')"
  using assms by (auto simp: append_typed_delta_def delta_idempotent_transaction_def delta_commit_metadata_def append_strict_def
      Let_def split: option.splits)

lemma decoded_names: "df_cols (decode_table_events fn st c n events) = df_cols (decode_table_events fn st c n' events')"
  by (simp add: decode_table_events_def decoded_columns_def Let_def event_columns_def)

lemma demo_materialize_in:
  assumes typed: "\<forall>t ref. typed_reference demo_typed_bronze t = Inr ref \<longrightarrow> lk_tables s ref = Some demo_typed_table"
  shows "\<exists>d s'. materialize demo_typed_bronze False demo_prepared_batch 0 s =
      (Inr \<lparr>mb_tables = [(''payments'', d)], mb_statistics = table_statistics (pb_events demo_prepared_batch), mb_quarantined_count = 0\<rparr>, s') \<and>
    df_cols d = demo_typed_columns \<and>
    (\<forall>ref. typed_reference demo_typed_bronze ''payments'' \<noteq> Inr ref \<longrightarrow> lk_tables s' ref = lk_tables s ref)"
proof -
  let ?m = demo_typed_bronze and ?pb = demo_prepared_batch
  have all_refs: "list_all (\<lambda>t. case typed_reference ?m t of Inl e \<Rightarrow> False | Inr ref \<Rightarrow> True) (QUARANTINE_TABLE_NAME # map fst BRONZE_TABLES)"
    by code_simp
  have refs: "\<exists>ref. typed_reference ?m t = Inr ref \<and> table_present ref s" if "t \<in> set (QUARANTINE_TABLE_NAME # map fst TYPED_TABLES)" for t
  proof -
    from all_refs that have "case typed_reference ?m t of Inl e \<Rightarrow> False | Inr ref \<Rightarrow> True"
      unfolding TYPED_TABLES_names list_all_iff by (rule bspec)
    with typed [rule_format, of t] show ?thesis by (cases "typed_reference ?m t") (simp_all add: table_present_def)
  qed
  have "table_ensured ?m x s" if x: "x \<in> set TYPED_TABLES" for x
  proof -
    from x have "fst x \<in> set (QUARANTINE_TABLE_NAME # map fst TYPED_TABLES)" by simp
    with refs obtain ref where "typed_reference ?m (fst x) = Inr ref" "table_present ref s" by blast
    then show ?thesis by (simp add: table_ensured_def)
  qed
  moreover obtain qref where "typed_reference ?m QUARANTINE_TABLE_NAME = Inr qref" "table_present qref s"
    using refs [of QUARANTINE_TABLE_NAME] by auto
  ultimately have known: "tables_known ?m True s" by (simp add: tables_known_def list_all_iff quarantine_ensured_def)
  have none: "write_quarantine ?m ?pb 0 s = (Inr 0, s)"
    by (simp add: write_quarantine_def quarantine_rows_def demo_prepared_batch_def)
  obtain st where changed: "changed_typed_tables (table_statistics (pb_events ?pb)) = [(''payments'', st)]"
    using demo_changed by (cases "changed_typed_tables (table_statistics (pb_events ?pb))") auto
  have "''payments'' \<in> set (map fst BRONZE_TABLES)" by code_simp
  then have payments: "''payments'' \<in> set (map fst TYPED_TABLES)" unfolding TYPED_TABLES_names .
  then obtain c where "map_of TYPED_TABLES ''payments'' = Some c"
    by (cases "map_of TYPED_TABLES ''payments''") (simp_all add: map_of_eq_None_iff)
  then have c: "get_typed_cdc_contract ''payments'' = Inr c" by (simp only: get_typed_contract_iff)
  from payments obtain ref where ref: "typed_reference ?m ''payments'' = Inr ref" using refs [of "''payments''"] by auto
  note table = typed [rule_format, OF ref]
  have cols: "df_cols (decode_table_events (tb_fn ?m) (tb_settings ?m) c 0 (valid_events ?pb ''payments'')) = demo_typed_columns"
    using decoded_names [of demo_cdc "tb_settings ?m" c 0 "valid_events ?pb ''payments''" 0 "[]"]
    by (simp add: demo_typed_columns_def c) (simp add: demo_typed_bronze_def)
  have "\<exists>s'. append_table ?m ?pb 0 (''payments'', st) s = (Inr (), s')"
    by (simp add: append_table_def append_typed_def c ref)
      (rule append_typed_delta_succeeds, simp add: table demo_typed_table_def latest_commit_def cols)
  then obtain s' where s': "append_table ?m ?pb 0 (''payments'', st) s = (Inr (), s')" by blast
  from s' obtain t' where t': "lk_tables s' ref = Some t'" "cm_cols (latest_commit t') = demo_typed_columns"
  proof (rule append_table_cases)
    fix c' ref' md assume "get_typed_cdc_contract ''payments'' = Inr c'" "typed_reference ?m ''payments'' = Inr ref'"
      and app: "append_typed_delta ?m (decode_table_events (tb_fn ?m) (tb_settings ?m) c' 0 (valid_events ?pb ''payments'')) ref'
        ''payments'' 0 md s = (Inr (), s')"
    with c ref have "c' = c" "ref' = ref" by simp_all
    with append_typed_delta_tables [OF app] that show thesis
      by (simp add: append_delta_def table Let_def commit_table_def table_or_empty_def txn_seen_def demo_typed_table_def latest_commit_def cols)
  qed
  obtain d where d: "read_batch ?m 0 [''payments''] s' = Inr [(''payments'', d)]" "df_cols d = demo_typed_columns"
    using t' by (simp add: read_batch_def ref read_delta_def delta_table_at_def snapshot_def Let_def)
  have "lk_tables s' r = lk_tables s r" if "ref \<noteq> r" for r
    using s' by (rule append_table_cases) (metis append_typed_delta_other ref sum.inject(2) snd_conv that)
  moreover have "materialize ?m False ?pb 0 s = (Inr \<lparr>mb_tables = [(''payments'', d)],
      mb_statistics = table_statistics (pb_events ?pb), mb_quarantined_count = 0\<rparr>, s')"
    by (simp add: materialize_def ensure_physical_tables_again [OF known] io_bind_def io_get_def Let_def none changed s' d(1))
  ultimately show ?thesis using d(2) ref by auto
qed

lemma demo_materialize:
  "\<exists>mb s'. materialize demo_typed_bronze False demo_prepared_batch 0 demo_typed_lake = (Inr mb, s') \<and>
     map fst (mb_tables mb) = [''payments'']"
  using demo_materialize_in [of demo_typed_lake] by (force simp: demo_typed_lake_def)

theorem typed_batch_exactly_once_witness:
  "\<exists>mb s'. materialize demo_typed_bronze False demo_prepared_batch 0 demo_typed_lake = (Inr mb, s') \<and>
     map fst (mb_tables mb) = [''payments''] \<and>
     materialize demo_typed_bronze False demo_prepared_batch 0 s' = (Inr mb, s')"
proof -
  obtain mb s' where m: "materialize demo_typed_bronze False demo_prepared_batch 0 demo_typed_lake = (Inr mb, s')"
      "map fst (mb_tables mb) = [''payments'']"
    using demo_materialize by (elim exE conjE)
  show ?thesis by (rule exI, rule exI, intro conjI, rule m(1), rule m(2), rule typed_batch_exactly_once [OF m(1)])
qed

theorem materialized_rows_are_decoded_witness:
  "\<exists>d s' mb c. materialize demo_typed_bronze False demo_prepared_batch 0 demo_typed_lake = (Inr mb, s') \<and>
     mb_tables mb = [(''payments'', d)] \<and> get_typed_cdc_contract ''payments'' = Inr c \<and>
     df_rows d = df_rows (decode_table_events demo_cdc (tb_settings demo_typed_bronze) c 0 (pb_events demo_prepared_batch))"
proof -
  obtain mb s' where m: "materialize demo_typed_bronze False demo_prepared_batch 0 demo_typed_lake = (Inr mb, s')"
      "map fst (mb_tables mb) = [''payments'']"
    using demo_materialize by (elim exE conjE)
  then obtain d where d: "mb_tables mb = [(''payments'', d)]" by (cases "mb_tables mb") auto
  have "fresh_table demo_typed_bronze 0 t demo_typed_lake" for t
    by (auto simp: fresh_table_def demo_typed_lake_def demo_typed_table_def latest_commit_def split: sum.split)
  then have "list_all (\<lambda>(t, c). fresh_table demo_typed_bronze 0 t demo_typed_lake) TYPED_TABLES" by (simp add: list_all_iff)
  from materialized_rows_are_decoded [OF m(1) this] obtain c where "get_typed_cdc_contract ''payments'' = Inr c"
      "df_rows d = df_rows (decode_table_events demo_cdc (tb_settings demo_typed_bronze) c 0 (valid_events demo_prepared_batch ''payments''))"
    by (auto simp: d list_all2_Cons1 demo_typed_bronze_def)
  moreover have "valid_events demo_prepared_batch ''payments'' = pb_events demo_prepared_batch"
    by (simp add: valid_events_def demo_prepared_batch_def row_of_def)
  ultimately show ?thesis using m(1) d by auto
qed

end
