(* ===== verification/UnifiedSilver.thy ===== *)
theory UnifiedSilver
  imports TypedBronze GoldRun ReconcileQueue
begin

text \<open>
  The CDC stream (\<open>ingestion/streaming/unified_silver.py\<close>): a micro-batch is materialized in typed Bronze, merged
  into Unified Silver and handed to the Gold reconcile queue; the control thread publishes
  one pending scope at a time. The writer locks around both are modelled in their own theory; here an operation runs
  as the holder of the lock. Worker threads run in the order of the tables; progress lines and timings
  are left out. The flags that typed tables exist and that the targets were validated are passed along.
\<close>

section \<open>The materializer\<close>

definition CDC_SILVER_PIPELINE_NAME :: string where
  "CDC_SILVER_PIPELINE_NAME = ''cdc_to_silver''"

definition REQUIRED_UNIFIED_METADATA :: "string list" where
  "REQUIRED_UNIFIED_METADATA = [''_is_deleted'', ''_event_occurred_at'', ''_ingestion_mode'', ''_ingestion_priority'',
     ''_source_event_sequence'', ''_source_event_subsequence'']"

definition ORDER_SCOPED_GOLD_TABLES :: "string list" where
  "ORDER_SCOPED_GOLD_TABLES = [''orders'', ''order_items'', ''order_vouchers'', ''payments'', ''shipments'']"

record unified =
  us_table_names :: "string list"
  us_typed :: typed_bronze
  us_silver :: silver_builder
  us_gold :: gold_builder
  us_max_order_ids :: nat

definition make_unified ::
    "string list option \<Rightarrow> typed_bronze \<Rightarrow> silver_builder \<Rightarrow> gold_builder \<Rightarrow> nat \<Rightarrow> unified res" where
  "make_unified table_names typed silver gold max_ids =
     (let names = (case table_names of None \<Rightarrow> map fst TYPED_TABLES | Some ts \<Rightarrow> ts)
      in and_then (raise_if (\<not> set names \<subseteq> set (map fst TYPED_TABLES)) (ValueError ''Unknown CDC Silver tables'')) (\<lambda>_.
         Inr \<lparr>us_table_names = names, us_typed = typed, us_silver = silver, us_gold = gold, us_max_order_ids = max_ids\<rparr>))"

definition us_query_name :: "unified \<Rightarrow> string" where
  "us_query_name u = ds_query_name (tb_settings (us_typed u))"

definition us_checkpoint_version :: "unified \<Rightarrow> string" where
  "us_checkpoint_version u = ds_checkpoint_version (tb_settings (us_typed u))"

section \<open>Targets\<close>

type_synonym transformed = "(string \<times> df) list"

text \<open>Per Silver table, whether it exists and its columns.\<close>

definition inspect_target :: "unified \<Rightarrow> lake \<Rightarrow> string \<Rightarrow> (string \<times> bool \<times> string list) res" where
  "inspect_target u s t = and_then (table_exists (sb_adapter (us_silver u)) s ''silver'' t) (\<lambda>exists.
     if exists then and_then (read_table (sb_adapter (us_silver u)) s ''silver'' t False) (\<lambda>d. Inr (t, True, df_cols d))
     else Inr (t, False, []))"

definition check_target :: "transformed \<Rightarrow> string \<times> bool \<times> string list \<Rightarrow> unit res" where
  "check_target transformed target = (case target of (t, exists, columns) \<Rightarrow>
     if \<not> exists then Inr ()
     else and_then (raise_if (\<not> set REQUIRED_UNIFIED_METADATA \<subseteq> set columns) (RuntimeError ''Silver schema is outdated'')) (\<lambda>_.
       case map_of transformed t of None \<Rightarrow> Inr ()
       | Some d \<Rightarrow> raise_if (set (df_cols d) \<noteq> set columns) (RuntimeError ''Unified Silver schema mismatch'')))"

definition preflight_targets :: "unified \<Rightarrow> bool \<Rightarrow> transformed \<Rightarrow> lake \<Rightarrow> (string \<times> bool) list res" where
  "preflight_targets u validated transformed s =
     (if validated then Inr (map (\<lambda>(t, c). (t, True)) SILVER_TABLES)
      else and_then (traverse (inspect_target u s) (map fst SILVER_TABLES)) (\<lambda>targets.
        and_then (raise_if (\<exists>(t, exists, cols) \<in> set targets. \<not> exists \<and> t \<notin> set (map fst transformed))
          (RuntimeError ''Unified Silver bootstrap is incomplete'')) (\<lambda>_.
        and_then (traverse (check_target transformed) targets) (\<lambda>_.
        Inr (map (\<lambda>(t, exists, cols). (t, exists)) targets)))))"

section \<open>Merging one table\<close>

definition cdc_application_id :: "unified \<Rightarrow> string \<Rightarrow> string" where
  "cdc_application_id u t = us_query_name u @ ''-'' @ us_checkpoint_version u @ ''-'' @ t"

definition cdc_metadata :: "string \<Rightarrow> int \<Rightarrow> table_statistic \<Rightarrow> json" where
  "cdc_metadata t batch_id st = jobj [(''pipeline'', JStr CDC_SILVER_PIPELINE_NAME), (''source_table'', JStr t),
     (''stream_batch_id'', JInt batch_id), (''record_count'', JInt (sx_record_count st)),
     (''min_source_lsn'', json_of_lsn (sx_min_source_lsn st)), (''max_source_lsn'', json_of_lsn (sx_max_source_lsn st)),
     (''silver_schema_version'', JInt SILVER_SCHEMA_VERSION)]"

text \<open>A new table is written by the session of the stream, an existing one is merged in a session of its own.\<close>

definition merge_table_body :: "unified \<Rightarrow> df \<Rightarrow> silver_contract \<Rightarrow> bool \<Rightarrow> unit io" where
  "merge_table_body u d c target_exists =
     (if \<not> target_exists then write_table (sb_adapter (us_silver u)) d ''silver'' (sc_table_name c) True
      else io_bind (upsert_table (sb_adapter (us_silver u)) d ''silver'' (sc_table_name c) (sc_primary_keys c)
        (cdc_upsert SILVER_SEQUENCE_COLUMNS)) (\<lambda>_. io_return ()))"

definition merge_table :: "unified \<Rightarrow> df \<Rightarrow> string \<Rightarrow> int \<Rightarrow> table_statistic \<Rightarrow> bool \<Rightarrow> unit io" where
  "merge_table u d t batch_id st target_exists =
     io_bind (io_lift (get_silver_contract t)) (\<lambda>c.
     (if target_exists then in_new_session else id)
       (delta_idempotent_transaction (cdc_application_id u t) batch_id
         (delta_commit_metadata (sb_dumps (us_silver u)) (cdc_metadata t batch_id st)
           (merge_table_body u d c target_exists))))"

definition history_application_id :: "unified \<Rightarrow> string \<Rightarrow> string" where
  "history_application_id u t = SILVER_CHANGE_HISTORY_PIPELINE_NAME @ '':'' @ us_query_name u @ '':'' @
     us_checkpoint_version u @ '':'' @ t"

text \<open>The change history of a table, when the contract materializes it, and the table itself.\<close>

record merge_job =
  mj_table :: string
  mj_rows :: df
  mj_history :: "df option"
  mj_statistic :: table_statistic
  mj_target_exists :: bool

definition run_merge_job :: "unified \<Rightarrow> int \<Rightarrow> merge_job \<Rightarrow> unit io" where
  "run_merge_job u batch_id j =
     io_bind (case mj_history j of None \<Rightarrow> io_return True
       | Some h \<Rightarrow> io_bind (io_lift (get_silver_contract (mj_table j))) (\<lambda>c.
           append_change_history (us_silver u) c h (''cdc-stream-'' @ int_text batch_id) batch_id None batch_id
             SILVER_CHANGE_HISTORY_PIPELINE_NAME (Some (history_application_id u (mj_table j))))) (\<lambda>_.
     merge_table u (mj_rows j) (mj_table j) batch_id (mj_statistic j) (mj_target_exists j))"

section \<open>The scope of a batch\<close>

definition order_ids_of :: "row list \<Rightarrow> int list" where
  "order_ids_of rows = remdups (concat (map (\<lambda>r. case r ''order_id'' of IntV i \<Rightarrow> [i] | _ \<Rightarrow> []) rows))"

text \<open>\<open>limit(remaining)\<close> takes a prefix of the distinct ids, in the order Spark delivers them.\<close>

fun collect_order_ids :: "nat \<Rightarrow> int list \<Rightarrow> df list \<Rightarrow> int list option" where
  "collect_order_ids max_ids affected [] = Some affected"
| "collect_order_ids max_ids affected (d # ds) =
     (if ''order_id'' \<notin> set (df_cols d) then collect_order_ids max_ids affected ds
      else let rows = take (max_ids + 1 - length affected) (order_ids_of (df_rows d));
               affected' = affected @ filter (\<lambda>i. i \<notin> set affected) rows
           in if length affected' > max_ids then None else collect_order_ids max_ids affected' ds)"

definition gold_scope :: "unified \<Rightarrow> transformed \<Rightarrow> int list option \<times> bool" where
  "gold_scope u transformed =
     (let order_scoped = filter (\<lambda>(t, d). t \<in> set ORDER_SCOPED_GOLD_TABLES) transformed
      in if order_scoped = [] then (Some [], False)
         else (collect_order_ids (us_max_order_ids u) [] (map snd order_scoped), True))"

section \<open>A micro-batch\<close>

definition transform_tables :: "unified \<Rightarrow> materialized_batch \<Rightarrow> string list \<Rightarrow> transformed res" where
  "transform_tables u mb tables = traverse (\<lambda>t. and_then (get_silver_contract t) (\<lambda>c.
     and_then (case map_of (mb_tables mb) t of None \<Rightarrow> Inl (KeyError t) | Some d \<Rightarrow> silver_transform (us_silver u) c d) (\<lambda>d.
     Inr (t, d)))) tables"

definition transform_histories :: "unified \<Rightarrow> materialized_batch \<Rightarrow> string list \<Rightarrow> (string \<times> df option) list res" where
  "transform_histories u mb tables = traverse (\<lambda>t. and_then (get_silver_contract t) (\<lambda>c.
     if \<not> sc_materialize_change_history c then Inr (t, None)
     else and_then (case map_of (mb_tables mb) t of None \<Rightarrow> Inl (KeyError t)
         | Some d \<Rightarrow> silver_transform_history (us_silver u) c d) (\<lambda>d. Inr (t, Some d)))) tables"

definition merge_jobs ::
    "materialized_batch \<Rightarrow> transformed \<Rightarrow> (string \<times> df option) list \<Rightarrow> (string \<times> bool) list \<Rightarrow> merge_job list" where
  "merge_jobs mb transformed histories exists = map (\<lambda>(t, d).
     \<lparr>mj_table = t, mj_rows = d,
      mj_history = (case map_of histories t of Some h \<Rightarrow> h | None \<Rightarrow> None),
      mj_statistic = (case map_of (mb_statistics mb) t of Some st \<Rightarrow> st
        | None \<Rightarrow> \<lparr>sx_record_count = 0, sx_min_source_lsn = Null, sx_max_source_lsn = Null\<rparr>),
      mj_target_exists = (map_of exists t = Some True)\<rparr>) transformed"

definition request_id :: "unified \<Rightarrow> int \<Rightarrow> string" where
  "request_id u batch_id = us_query_name u @ '':'' @ us_checkpoint_version u @ '':'' @ int_text batch_id"

text \<open>The result is the flag that the targets are validated.\<close>

definition process_batch :: "unified \<Rightarrow> bool \<Rightarrow> bool \<Rightarrow> df \<Rightarrow> int \<Rightarrow> bool io" where
  "process_batch u initialized validated raw_batch batch_id =
     io_bind (io_lift (prepare_raw_cdc_events (tb_fn (us_typed u)) raw_batch)) (\<lambda>prepared.
     io_bind (materialize (us_typed u) initialized prepared batch_id) (\<lambda>mb.
     let changed = filter (\<lambda>t. t \<in> set (map fst (mb_statistics mb))) (us_table_names u)
     in if changed = [] then io_return validated
        else io_bind (io_lift (transform_tables u mb changed)) (\<lambda>transformed.
          io_bind (io_lift (transform_histories u mb changed)) (\<lambda>histories.
          io_bind (io_get (preflight_targets u validated transformed)) (\<lambda>exists.
          io_bind (io_traverse (run_merge_job u batch_id) (merge_jobs mb transformed histories exists)) (\<lambda>_.
          case gold_scope u transformed of (affected, ready) \<Rightarrow>
          io_bind (enqueue (sb_adapter (us_silver u)) (sb_now (us_silver u)) (request_id u batch_id) affected ready) (\<lambda>_.
          io_return True)))))))"

section \<open>Readiness of the facts\<close>

text \<open>
  Gross and tax totals of the live items of an order, as decimals of two places; the totals of an order without
  live items are NULL.
\<close>

definition item_totals :: "row list \<Rightarrow> row list" where
  "item_totals items = map (\<lambda>g. row_of [(''order_id'', hd g ''order_id''),
       (''actual_gross'', cast_decimal 18 (sum_v (map (\<lambda>r. mul_int_dec (r ''quantity'') (r ''unit_price'')) g))),
       (''actual_tax'', cast_decimal 18 (sum_v (map (\<lambda>r. r ''tax_amount'') g)))])
     (groups (\<lambda>r. r ''order_id'') (where3 (\<lambda>r. not3 (bool3_of (r ''_is_deleted''))) items))"

definition abs_v :: "val \<Rightarrow> val" where
  "abs_v v = (case v of DecV a \<Rightarrow> DecV \<bar>a\<bar> | IntV a \<Rightarrow> IntV \<bar>a\<bar> | _ \<Rightarrow> Null)"

text \<open>The tolerance is one cent.\<close>

definition order_incomplete :: "row \<times> row \<Rightarrow> bool3" where
  "order_incomplete p = (case p of (ord, totals) \<Rightarrow>
     let deleted = bool3_of (ord ''_is_deleted'');
         active = or3 (is_null3 (ord ''_is_deleted'')) (and3 (not3 deleted)
           (or3 (or3 (is_null3 (totals ''actual_gross''))
              (gt3 (abs_v (sub_v (ord ''subtotal_amount'') (totals ''actual_gross''))) (DecV 1)))
              (gt3 (abs_v (sub_v (ord ''tax_amount'') (totals ''actual_tax''))) (DecV 1))))
     in or3 active (and3 deleted (not3 (is_null3 (totals ''actual_gross'')))))"

definition order_join :: "row \<Rightarrow> row \<Rightarrow> bool3" where
  "order_join l r = eq3 (l ''order_id'') (r ''order_id'')"

definition with_order_id :: "row \<times> row \<Rightarrow> row" where
  "with_order_id p = (snd p)(''order_id'' := fst p ''order_id'')"

definition source_fact_ready :: "row list \<Rightarrow> row list \<Rightarrow> int list option \<Rightarrow> bool" where
  "source_fact_ready orders items affected =
     (let orders = map (select [''order_id'', ''_is_deleted'', ''subtotal_amount'', ''tax_amount'']) orders;
          scoped = (case affected of None \<Rightarrow> [] | Some ids \<Rightarrow> map (\<lambda>i. row_of [(''order_id'', IntV i)]) (sort (remdups ids)));
          orders' = (if affected = None then where3 (\<lambda>r. not3 (bool3_of (r ''_is_deleted''))) orders
                     else map with_order_id (left_join order_join scoped orders));
          totals = item_totals items;
          totals' = (if affected = None then totals else map with_order_id (left_join order_join scoped totals))
      in filter (\<lambda>p. holds (order_incomplete p)) (left_join order_join orders' totals') = [])"

definition source_fact_ready_for_gold :: "unified \<Rightarrow> int list option \<Rightarrow> bool io" where
  "source_fact_ready_for_gold u affected =
     (if affected = Some [] then io_return True
      else io_bind (io_get (\<lambda>s. read_table (sb_adapter (us_silver u)) s ''silver'' ''orders'' True)) (\<lambda>orders.
        io_bind (io_get (\<lambda>s. read_table (sb_adapter (us_silver u)) s ''silver'' ''order_items'' True)) (\<lambda>items.
        io_return (source_fact_ready (df_rows orders) (df_rows items) affected))))"

section \<open>Publishing Gold\<close>

definition run_gold_locked :: "unified \<Rightarrow> string \<Rightarrow> bool \<Rightarrow> bool \<Rightarrow> string io" where
  "run_gold_locked u batch_id raise_on_quality_error rebuild_on_quality_error s =
     (case run_gold (us_gold u) batch_id False s of
        (Inr paths, s') \<Rightarrow> (Inr ''published'', s')
      | (Inl e, s') \<Rightarrow> (case e of
          GoldQualityError m \<Rightarrow>
            if \<not> rebuild_on_quality_error
            then (if raise_on_quality_error then (Inl e, s') else (Inr ''quality_skipped'', s'))
            else (case run_gold (us_gold u) (batch_id @ ''-rebuild'') True s' of
                (Inr paths, s'') \<Rightarrow> (Inr ''published'', s'')
              | (Inl e', s'') \<Rightarrow> (case e' of
                  GoldQualityError m' \<Rightarrow> if raise_on_quality_error then (Inl e', s'') else (Inr ''quality_skipped'', s'')
                | _ \<Rightarrow> (Inl e', s'')))
        | _ \<Rightarrow> (Inl e, s')))"

definition pending_scope_of :: "unified \<Rightarrow> lake \<Rightarrow> pending_scope option res" where
  "pending_scope_of u s = pending (sb_adapter (us_silver u)) (us_max_order_ids u) s"

definition reconcile_pending_gold_if_ready :: "unified \<Rightarrow> string \<Rightarrow> string io" where
  "reconcile_pending_gold_if_ready u batch_id =
     io_bind (io_get (pending_scope_of u)) (\<lambda>first.
     if first = None then io_return ''not_pending''
     else io_bind (io_get (pending_scope_of u)) (\<lambda>scope.
       case scope of None \<Rightarrow> io_return ''not_pending''
       | Some p \<Rightarrow>
         io_bind (if ps_requires_fact_readiness p then source_fact_ready_for_gold u (ps_affected_order_ids p)
           else io_return True) (\<lambda>ready.
         if \<not> ready then io_return ''deferred_source_incomplete''
         else io_bind (run_gold_locked u batch_id False False) (\<lambda>status.
           io_bind (if status = ''published'' then complete (sb_adapter (us_silver u)) (sb_now (us_silver u)) (ps_keys p)
             else io_return ()) (\<lambda>_. io_return status)))))"

definition reconcile_gold :: "unified \<Rightarrow> string \<Rightarrow> bool \<Rightarrow> bool \<Rightarrow> bool \<Rightarrow> int list option \<Rightarrow> string io" where
  "reconcile_gold u batch_id raise_on_quality_error rebuild_on_quality_error defer_if_source_incomplete affected =
     io_bind (if defer_if_source_incomplete then source_fact_ready_for_gold u affected else io_return True) (\<lambda>ready.
     if \<not> ready then io_return ''deferred_source_incomplete''
     else run_gold_locked u batch_id raise_on_quality_error rebuild_on_quality_error)"

section \<open>Publishing drains the queue\<close>

lemma run_gold_locked_keeps:
  assumes "outside R (gb_adapter (us_gold u)) ''gold''"
  shows "keeps R (run_gold_locked u batch_id raise_q rebuild_q)"
  unfolding keeps_def
proof
  fix s :: lake
  let ?kept = "\<lambda>s'. lk_txn_app s' = lk_txn_app s \<and> (\<forall>r \<in> R. lk_tables s' r = lk_tables s r)"
  obtain r s1 where one: "run_gold (us_gold u) batch_id False s = (r, s1)" by (cases "run_gold (us_gold u) batch_id False s")
  obtain r' s2 where two: "run_gold (us_gold u) (batch_id @ ''-rebuild'') True s1 = (r', s2)"
    by (cases "run_gold (us_gold u) (batch_id @ ''-rebuild'') True s1")
  have "?kept s1" using keeps_run_gold [OF assms, of batch_id False] one by (simp add: keeps_def) (metis snd_conv)
  moreover from this have "?kept s2"
    using keeps_run_gold [OF assms, of "batch_id @ ''-rebuild''" True] two by (simp add: keeps_def) (metis snd_conv)
  ultimately show "?kept (snd (run_gold_locked u batch_id raise_q rebuild_q s))"
    by (auto simp: run_gold_locked_def one two split: sum.split exn.split)
qed

lemma queue_same:
  assumes "queue_ready ad s" and "lk_txn_app s' = lk_txn_app s" and "lk_tables s' (queue_reference ad) = lk_tables s (queue_reference ad)"
  shows "queue_ready ad s'" "pending_keys ad s' = pending_keys ad s" "pending ad m s' = pending ad m s"
proof -
  have rows: "queue_rows ad s' = queue_rows ad s" using assms(3) by (simp add: queue_rows_def current_rows_def)
  show ready: "queue_ready ad s'" using assms rows by (simp add: queue_ready_def)
  show "pending_keys ad s' = pending_keys ad s" by (simp add: pending_keys_def rows)
  have "taken_rows ad m s' = taken_rows ad m s" by (simp add: taken_rows_def rows)
  then show "pending ad m s' = pending ad m s" by (simp add: pending_refines assms(1) ready)
qed

text \<open>
  C26. The control thread completes a scope exactly when Gold was published for it. Whatever the Gold run
  does, a reconciliation that returns \<open>published\<close> removes a non-empty set of pending keys from the
  queue, the keys it took; one that defers, skips or raises leaves every pending key pending.
\<close>

theorem reconcile_publishes_scope:
  assumes "queue_ready (sb_adapter (us_silver u)) s"
    and "outside {queue_reference (sb_adapter (us_silver u))} (gb_adapter (us_gold u)) ''gold''"
    and "reconcile_pending_gold_if_ready u batch_id s = (r, s')"
  shows "queue_ready (sb_adapter (us_silver u)) s' \<and>
    (if r = Inr ''published''
     then \<exists>p. pending_scope_of u s = Inr (Some p) \<and> ps_keys p \<noteq> [] \<and> set (ps_keys p) \<subseteq> pending_keys (sb_adapter (us_silver u)) s \<and>
       pending_keys (sb_adapter (us_silver u)) s' = pending_keys (sb_adapter (us_silver u)) s - set (ps_keys p)
     else pending_keys (sb_adapter (us_silver u)) s' = pending_keys (sb_adapter (us_silver u)) s)"
proof -
  let ?ad = "sb_adapter (us_silver u)"
  have idle: ?thesis if "s' = s" "r \<noteq> Inr ''published''" using that assms(1) by simp
  show ?thesis
  proof (cases "pending_scope_of u s")
    case (Inl e)
    with assms(3) have "s' = s" "r = Inl e" by (simp_all add: reconcile_pending_gold_if_ready_def io_bind_def io_get_def)
    with idle show ?thesis by simp
  next
    case (Inr scope)
    show ?thesis
    proof (cases scope)
      case None
      with Inr assms(3) have "s' = s" "r = Inr ''not_pending''"
        by (simp_all add: reconcile_pending_gold_if_ready_def io_bind_def io_get_def)
      with idle show ?thesis by simp
    next
      case (Some p)
      note scope = Inr [unfolded Some]
      have keys: "next_keys ?ad (us_max_order_ids u) s = Some (ps_keys p)"
        using scope by (simp add: next_keys_def pending_scope_of_def)
      note taken = gold_queue.take_Some [OF assms(1) keys]
      let ?gate = "if ps_requires_fact_readiness p then source_fact_ready_for_gold u (ps_affected_order_ids p) else io_return True"
      have gate: "snd (?gate s) = s"
        by (auto simp: source_fact_ready_for_gold_def io_bind_def io_get_def split: sum.split prod.split)
      obtain g where g: "?gate s = (g, s)" using gate by (cases "?gate s") simp
      have run: "reconcile_pending_gold_if_ready u batch_id s = (case g of Inl e \<Rightarrow> (Inl e, s) | Inr ready \<Rightarrow>
          if \<not> ready then (Inr ''deferred_source_incomplete'', s)
          else io_bind (run_gold_locked u batch_id False False) (\<lambda>status.
            io_bind (if status = ''published'' then complete ?ad (sb_now (us_silver u)) (ps_keys p) else io_return ()) (\<lambda>_. io_return status)) s)"
        using g by (auto simp: reconcile_pending_gold_if_ready_def io_bind_def io_get_def scope split: sum.split)
      obtain q s1 where q: "run_gold_locked u batch_id False False s = (q, s1)" by (cases "run_gold_locked u batch_id False False s")
      have same: "lk_txn_app s1 = lk_txn_app s" "lk_tables s1 (queue_reference ?ad) = lk_tables s (queue_reference ?ad)"
        using run_gold_locked_keeps [OF assms(2), of batch_id False False] q by (simp_all add: keeps_def) (metis snd_conv)+
      note s1 = queue_same [OF assms(1) same]
      show ?thesis
      proof (cases "g = Inr True \<and> q = Inr ''published''")
        case True
        have sub: "set (ps_keys p) \<subseteq> pending_keys ?ad s1" using taken s1(2) by simp
        then have "set (ps_keys p) \<subseteq> queue_row_key ` set (queue_rows ?ad s1)" by (auto simp: pending_keys_def)
        with complete_refines [OF s1(1), of "ps_keys p" "sb_now (us_silver u)"] taken
        have "fst (complete ?ad (sb_now (us_silver u)) (ps_keys p) s1) = Inr ()" by force
        then have "r = Inr ''published''" "s' = snd (complete ?ad (sb_now (us_silver u)) (ps_keys p) s1)"
          using assms(3) run True q by (auto simp: io_bind_def split: prod.splits sum.splits)
        then show ?thesis
          using gold_queue.finish_invar [OF s1(1) _ sub] gold_queue.finish_open [OF s1(1) _ sub] taken scope s1(2) by simp
      next
        case False
        then have "s' = s \<or> s' = s1" "r \<noteq> Inr ''published''"
          using assms(3) run q by (auto simp: io_bind_def split: sum.splits if_splits)
        then show ?thesis using s1 assms(1) by auto
      qed
    qed
  qed
qed

definition demo_unified :: unified where
  "demo_unified = \<lparr>us_table_names = [''orders''], us_typed = demo_typed_bronze, us_silver = demo_builder,
     us_gold = demo_gold, us_max_order_ids = 5\<rparr>"

lemma demo_unified_fields:
  "sb_adapter (us_silver demo_unified) = demo_adapter" "us_gold demo_unified = demo_gold"
  "gb_adapter demo_gold = demo_adapter" "us_max_order_ids demo_unified = 5"
  by (simp_all add: demo_unified_def demo_builder_def demo_adapter_def demo_gold_def)

lemma queue_outside_gold: "outside {queue_reference demo_adapter} demo_adapter ''gold''"
proof -
  let ?c = "ad_lakehouse demo_adapter"
  have c: "lc_catalog ?c = None" by (simp add: demo_adapter_def)
  obtain q where q: "table_reference ?c ''silver'' GOLD_RECONCILE_QUEUE_TABLE = Inr q" "queue_reference demo_adapter = tr_value q"
    by (rule queue_ready_reference [OF demo_queue_ready(1)])
  have False if "table_reference ?c ''gold'' name = Inr ref" "tr_value ref = tr_value q" for name ref
    using path_locations_lemma [OF c, of "Batch ''gold'' name" ref "Batch ''silver'' GOLD_RECONCILE_QUEUE_TABLE" q] that q(1) by simp
  then show ?thesis by (auto simp: outside_def q(2))
qed

lemma demo_queue_table_ready:
  assumes "lk_tables s ''lake/silver/gold_reconcile_queue'' = Some demo_queue_table" "lk_txn_app s = None"
  shows "queue_ready demo_adapter s" "pending_keys demo_adapter s = {(''r1'', ''metadata-only'')}"
    "\<exists>p. pending demo_adapter 5 s = Inr (Some p) \<and> \<not> ps_requires_fact_readiness p"
proof -
  obtain q where q: "table_reference (ad_lakehouse demo_adapter) ''silver'' GOLD_RECONCILE_QUEUE_TABLE = Inr q"
      "queue_reference demo_adapter = tr_value q"
    by (rule queue_ready_reference [OF demo_queue_ready(1)])
  have ref: "queue_reference demo_adapter = ''lake/silver/gold_reconcile_queue''"
    using demo_queue_reference q by simp
  let ?r = "queue_row ''r1'' 1 False (''metadata-only'', Null)"
  have rows: "queue_rows demo_adapter s = [?r]"
    by (simp add: queue_rows_def ref current_rows_def assms demo_queue_table_def latest_commit_def)
  have "queue_ok [?r]" by (simp add: queue_ok_def queue_ok_keys)
  then show ready: "queue_ready demo_adapter s"
    unfolding queue_ready_def rows ref assms q(1) by (simp add: demo_queue_table_def latest_commit_def) (simp add: demo_adapter_def)
  show "pending_keys demo_adapter s = {(''r1'', ''metadata-only'')}" by (auto simp: pending_keys_def rows)
  show "\<exists>p. pending demo_adapter 5 s = Inr (Some p) \<and> \<not> ps_requires_fact_readiness p"
    using is_pending_def [of ?r] by (simp add: pending_refines [OF ready] taken_rows_def rows queue_row_def row_of_def where3_def)
qed

theorem reconcile_publishes_scope_witness:
  "\<exists>s s'. reconcile_pending_gold_if_ready demo_unified ''b2'' s = (Inr ''published'', s') \<and>
    pending_keys demo_adapter s = {(''r1'', ''metadata-only'')} \<and> pending_keys demo_adapter s' = {}"
proof -
  obtain s paths where s: "\<forall>batch. run_gold demo_gold batch False s = (Inr paths, s)"
      "lk_tables s ''lake/silver/gold_reconcile_queue'' = Some demo_queue_table" "lk_txn_app s = None"
    using demo_up_to_date by (elim exE conjE) (rule that)
  note ready = demo_queue_table_ready [OF s(2,3)]
  obtain p where p: "pending demo_adapter 5 s = Inr (Some p)" "\<not> ps_requires_fact_readiness p" using ready(3) by blast
  have published: "run_gold_locked demo_unified ''b2'' False False s = (Inr ''published'', s)"
    by (simp add: run_gold_locked_def demo_unified_fields s(1))
  have scope: "pending_scope_of demo_unified s = Inr (Some p)" by (simp add: pending_scope_of_def demo_unified_fields p)
  have "next_keys demo_adapter 5 s = Some (ps_keys p)" by (simp add: next_keys_def p)
  note taken = gold_queue.take_Some [OF ready(1) this]
  have "set (ps_keys p) \<subseteq> queue_row_key ` set (queue_rows demo_adapter s)" using taken by (auto simp: pending_keys_def)
  with complete_refines [OF ready(1), of "ps_keys p" "sb_now (us_silver demo_unified)"] taken
  obtain s' where s': "complete demo_adapter (sb_now (us_silver demo_unified)) (ps_keys p) s = (Inr (), s')" by metis
  have run: "reconcile_pending_gold_if_ready demo_unified ''b2'' s = (Inr ''published'', s')"
    by (simp add: reconcile_pending_gold_if_ready_def io_bind_def io_get_def scope p(2) published demo_unified_fields s')
  have "ps_keys p \<noteq> []" and "set (ps_keys p) \<subseteq> {(''r1'', ''metadata-only'')}" using taken ready(2) by auto
  then have "set (ps_keys p) = {(''r1'', ''metadata-only'')}" by (cases "ps_keys p") auto
  then have "pending_keys demo_adapter s' = {}"
    using reconcile_publishes_scope [of demo_unified s "''b2''" "Inr ''published''" s', unfolded demo_unified_fields, OF ready(1) queue_outside_gold run]
    by (auto simp: scope ready(2))
  with run ready(2) show ?thesis by blast
qed

end
