(* ===== verification/StreamRedelivery.thy ===== *)
theory StreamRedelivery
  imports UnifiedSilver
begin

text \<open>
  Redelivery of a micro-batch. Structured Streaming may hand a batch to the sink again, after the sink committed
  any part of it. The writes of the batch, to typed Bronze, to Silver and to the change histories, carry the number
  of the batch as the version of their transaction, so the tables they went to do not change again.
\<close>

section \<open>Writes whose transaction is recorded\<close>

definition idle :: "lake \<Rightarrow> 'a io \<Rightarrow> bool" where
  "idle s m \<longleftrightarrow> snd (m s) = s"

lemma idle_rules:
  "idle s (io_return a)" "idle s (io_raise e)" "idle s (io_lift r)" "idle s (io_get g)"
  "idle s m \<Longrightarrow> (\<And>a. idle s (f a)) \<Longrightarrow> idle s (io_bind m f)"
  "(b \<Longrightarrow> idle s m) \<Longrightarrow> (\<not> b \<Longrightarrow> idle s m') \<Longrightarrow> idle s (if b then m else m')"
  by (simp_all add: idle_def io_get_def) (cases "m s"; auto simp: io_bind_def split: sum.splits)

lemma idle_option: "idle s m \<Longrightarrow> (\<And>a. idle s (f a)) \<Longrightarrow> idle s (case x of None \<Rightarrow> m | Some a \<Rightarrow> f a)"
  by (cases x) simp_all

lemma idle_lift: "(\<And>a. r = Inr a \<Longrightarrow> idle s (f a)) \<Longrightarrow> idle s (io_bind (io_lift r) f)"
  by (cases r) (simp_all add: idle_rules)

lemma idle_traverse: "(\<And>x. x \<in> set xs \<Longrightarrow> idle s (f x)) \<Longrightarrow> idle s (io_traverse f xs)"
  by (induction xs) (simp_all add: idle_rules)

lemma run_merge_recorded:
  assumes "txn_recorded ref app n s" "lk_txn_app s = Some app" "lk_txn_version s = Some n"
  shows "idle s (run_merge ref m src)"
  using commit_seen [OF assms] by (auto simp: idle_def run_merge_def Let_def split: sum.splits)

lemma write_table_recorded:
  assumes "table_reference (ad_lakehouse ad) layer name = Inr ref"
    and "txn_recorded (tr_value ref) app n s" "lk_txn_app s = Some app" "lk_txn_version s = Some n"
  shows "idle s (write_table ad d layer name cdf)"
  using commit_seen [OF assms(2-4)] seen_recorded [OF assms(2-4)] by (simp add: idle_def write_table_def assms(1) Let_def)

lemma upsert_table_recorded:
  assumes ref: "table_reference (ad_lakehouse ad) layer name = Inr ref"
    and r: "txn_recorded (tr_value ref) app n s" "lk_txn_app s = Some app" "lk_txn_version s = Some n"
  shows "idle s (upsert_table ad d layer name keys opt)"
  unfolding upsert_table_def Let_def
  by (intro idle_rules(1-4,6) idle_lift idle_option idle_rules(5) [OF idle_option] idle_rules(5) [OF idle_rules(4)]
      idle_rules(5) [OF write_table_recorded [OF assms]])
    (auto simp: ref intro!: idle_rules run_merge_recorded [OF r])

lemma idle_settings:
  "idle (s\<lparr>lk_txn_app := Some app, lk_txn_version := Some n\<rparr>) m \<Longrightarrow> idle s (delta_idempotent_transaction app n m)"
  "idle (s\<lparr>lk_metadata := Some (dumps j)\<rparr>) m \<Longrightarrow> idle s (delta_commit_metadata dumps j m)"
  "idle (s\<lparr>lk_metadata := None, lk_txn_app := None, lk_txn_version := None\<rparr>) m \<Longrightarrow> idle s (in_new_session m)"
  by (simp_all add: idle_def delta_idempotent_transaction_def delta_commit_metadata_def in_new_session_def Let_def split_beta)

section \<open>The writes of a table\<close>

text \<open>The transaction of a batch is recorded in a Silver table.\<close>

definition silver_recorded :: "unified \<Rightarrow> string \<Rightarrow> string \<Rightarrow> int \<Rightarrow> lake \<Rightarrow> bool" where
  "silver_recorded u name app n s \<longleftrightarrow>
     (case table_reference (ad_lakehouse (sb_adapter (us_silver u))) ''silver'' name of
        Inl e \<Rightarrow> False | Inr ref \<Rightarrow> txn_recorded (tr_value ref) app n s)"

lemma silver_recorded_settings [simp]:
  "silver_recorded u name app n (s\<lparr>lk_metadata := m\<rparr>) = silver_recorded u name app n s"
  "silver_recorded u name app n (s\<lparr>lk_txn_app := a\<rparr>) = silver_recorded u name app n s"
  "silver_recorded u name app n (s\<lparr>lk_txn_version := v\<rparr>) = silver_recorded u name app n s"
  by (simp_all add: silver_recorded_def split: sum.split)

lemma silver_recorded_keeps: "keeps_txns m \<Longrightarrow> m s = (r, s') \<Longrightarrow> silver_recorded u name app n s \<Longrightarrow> silver_recorded u name app n s'"
  by (auto simp: silver_recorded_def keeps_txnsD split: sum.splits)

lemma merge_table_body_recorded:
  assumes "silver_recorded u (sc_table_name c) app n s" "lk_txn_app s = Some app" "lk_txn_version s = Some n"
  shows "idle s (merge_table_body u d c ex)"
proof -
  from assms(1) obtain ref where ref: "table_reference (ad_lakehouse (sb_adapter (us_silver u))) ''silver'' (sc_table_name c) = Inr ref"
      "txn_recorded (tr_value ref) app n s"
    by (auto simp: silver_recorded_def split: sum.splits)
  show ?thesis unfolding merge_table_body_def
    by (intro idle_rules write_table_recorded [OF ref assms(2,3)] upsert_table_recorded [OF ref assms(2,3)])
qed

lemma merge_table_recorded:
  assumes "silver_recorded u t (cdc_application_id u t) n s"
  shows "idle s (merge_table u d t n st ex)"
proof -
  have "idle s (delta_idempotent_transaction (cdc_application_id u t) n (delta_commit_metadata (sb_dumps (us_silver u))
      (cdc_metadata t n st) (merge_table_body u d c ex)))" if "get_silver_contract t = Inr c" and r: "silver_recorded u t (cdc_application_id u t) n s" for c s
  proof (intro idle_settings)
    have "sc_table_name c = t" using get_silver_contract_in [OF that(1)] by (rule conjunct2)
    with r show "idle (s\<lparr>lk_txn_app := Some (cdc_application_id u t), lk_txn_version := Some n,
        lk_metadata := Some (sb_dumps (us_silver u) (cdc_metadata t n st))\<rparr>) (merge_table_body u d c ex)"
      by (intro merge_table_body_recorded) simp_all
  qed
  then show ?thesis unfolding merge_table_def using assms
    by (intro idle_lift) (auto intro!: idle_settings(3))
qed

lemma run_merge_records:
  assumes "run_merge ref m src s = (Inr a, s')" "lk_txn_app s = Some app" "lk_txn_version s = Some n"
  shows "txn_recorded ref app n s'"
  using assms commit_records [OF assms(2,3)]
  by (auto simp: run_merge_def Let_def in_transaction_def split: sum.splits)

lemma write_table_records:
  assumes "table_reference (ad_lakehouse ad) layer name = Inr ref" "write_table ad d layer name cdf s = (Inr a, s')"
    and "lk_txn_app s = Some app" "lk_txn_version s = Some n"
  shows "txn_recorded (tr_value ref) app n s'"
  using assms(2) commit_records [OF assms(3,4)] by (auto simp: write_table_def assms(1) Let_def split: if_splits)

lemma upsert_table_records:
  assumes ref: "table_reference (ad_lakehouse ad) layer name = Inr ref" and opt: "uo_target_exists opt = Some True" "uo_source_is_nonempty opt"
    and run: "upsert_table ad d layer name keys opt s = (Inr a, s')"
    and txn: "lk_txn_app s = Some app" "lk_txn_version s = Some n"
  shows "txn_recorded (tr_value ref) app n s'"
proof -
  from run obtain b where "run_merge (tr_value ref) (merge_statement opt layer keys (df_cols d)) (merge_changes opt keys d) s = (Inr b, s')"
    by (auto simp: upsert_table_def Let_def io_bind_def io_get_def ref opt split: prod.splits sum.splits if_splits)
  from run_merge_records [OF this txn] show ?thesis .
qed

lemma merge_table_body_records:
  assumes "merge_table_body u d c ex s = (Inr a, s')" "lk_txn_app s = Some app" "lk_txn_version s = Some n"
  shows "silver_recorded u (sc_table_name c) app n s'"
proof (cases "table_reference (ad_lakehouse (sb_adapter (us_silver u))) ''silver'' (sc_table_name c)")
  case (Inl e)
  with assms(1) show ?thesis
    by (auto simp: merge_table_body_def write_table_def upsert_table_def io_bind_def split: if_splits prod.splits sum.splits)
next
  case (Inr ref)
  have opt: "uo_target_exists (cdc_upsert SILVER_SEQUENCE_COLUMNS) = Some True" "uo_source_is_nonempty (cdc_upsert SILVER_SEQUENCE_COLUMNS)"
    by (simp_all add: cdc_upsert_def)
  show ?thesis
  proof (cases ex)
    case True
    with assms(1) obtain b where "upsert_table (sb_adapter (us_silver u)) d ''silver'' (sc_table_name c) (sc_primary_keys c)
        (cdc_upsert SILVER_SEQUENCE_COLUMNS) s = (Inr b, s')"
      by (auto simp: merge_table_body_def io_bind_def split: prod.splits sum.splits)
    from upsert_table_records [OF Inr opt this assms(2,3)] show ?thesis by (simp add: silver_recorded_def Inr)
  next
    case False
    with assms(1) write_table_records [OF Inr _ assms(2,3)] show ?thesis by (auto simp: merge_table_body_def silver_recorded_def Inr)
  qed
qed

lemma merge_table_records:
  assumes "merge_table u d t n st ex s = (Inr a, s')"
  shows "silver_recorded u t (cdc_application_id u t) n s'"
proof -
  from assms obtain c where c: "get_silver_contract t = Inr c" by (cases "get_silver_contract t") (simp_all add: merge_table_def)
  then have name: "sc_table_name c = t" using get_silver_contract_in by blast
  have *: "silver_recorded u t (cdc_application_id u t) n s'" if "delta_idempotent_transaction (cdc_application_id u t) n
      (delta_commit_metadata (sb_dumps (us_silver u)) (cdc_metadata t n st) (merge_table_body u d c ex)) s = (Inr b, s')" for b s s'
    using that merge_table_body_records [of u d c ex _ _ _ "cdc_application_id u t" n]
    by (auto simp: delta_idempotent_transaction_def delta_commit_metadata_def Let_def name split: prod.splits)
  show ?thesis
  proof (cases ex)
    case True
    with assms * show ?thesis by (auto simp: merge_table_def c in_new_session_def Let_def split: prod.splits)
  next
    case False
    with assms * show ?thesis by (auto simp: merge_table_def c)
  qed
qed

lemma merge_table_keeps:
  "keeps_txns (merge_table u d t n st ex)"
  unfolding merge_table_def merge_table_body_def
  by (auto intro!: keeps_txns_rules keeps_txns_session keeps_txns_transaction keeps_txns_metadata keeps_txns_write keeps_txns_upsert)

section \<open>The writes of a job\<close>

definition job_history :: "unified \<Rightarrow> int \<Rightarrow> string \<Rightarrow> df \<Rightarrow> bool io" where
  "job_history u n t h = io_bind (io_lift (get_silver_contract t)) (\<lambda>c.
     append_change_history (us_silver u) c h (''cdc-stream-'' @ int_text n) n None n
       SILVER_CHANGE_HISTORY_PIPELINE_NAME (Some (history_application_id u t)))"

lemma io_bind_Pair: "io_bind (Pair (Inr a)) f = f a"
  by (simp add: io_bind_def fun_eq_iff)

lemma history_application_id_nonempty: "history_application_id u t \<noteq> []"
  by (simp add: history_application_id_def)

lemma job_history_recorded:
  assumes "silver_recorded u (silver_change_history_table_name t) (history_application_id u t) n s"
  shows "idle s (job_history u n t h)"
  unfolding job_history_def
proof (rule idle_lift)
  fix c assume "get_silver_contract t = Inr c"
  then have name: "sc_table_name c = t" using get_silver_contract_in by blast
  from assms obtain ref where ref: "table_reference (ad_lakehouse (sb_adapter (us_silver u))) ''silver'' (silver_change_history_table_name t) = Inr ref"
      "txn_recorded (tr_value ref) (history_application_id u t) n s"
    by (auto simp: silver_recorded_def split: sum.splits)
  have "idle s (delta_idempotent_transaction (history_application_id u t) n (delta_commit_metadata (sb_dumps (us_silver u)) j
      (\<lambda>s. (Inr True, append_delta (tr_value ref) h s))))" for j
    by (intro idle_settings) (simp add: idle_def append_delta_again [of _ "history_application_id u t" n] ref(2))
  then show "idle s (append_change_history (us_silver u) c h (''cdc-stream-'' @ int_text n) n None n
      SILVER_CHANGE_HISTORY_PIPELINE_NAME (Some (history_application_id u t)))"
    by (simp add: append_change_history_def reference_io_def io_bind_Pair name ref(1) history_application_id_nonempty)
qed

lemma job_history_records:
  assumes "job_history u n t h s = (Inr a, s')"
  shows "silver_recorded u (silver_change_history_table_name t) (history_application_id u t) n s'"
proof -
  from assms obtain c where c: "get_silver_contract t = Inr c" by (cases "get_silver_contract t") (simp_all add: job_history_def)
  then have name: "sc_table_name c = t" using get_silver_contract_in by blast
  with assms c obtain ref where ref: "table_reference (ad_lakehouse (sb_adapter (us_silver u))) ''silver'' (silver_change_history_table_name t) = Inr ref"
    by (cases "table_reference (ad_lakehouse (sb_adapter (us_silver u))) ''silver'' (silver_change_history_table_name t)")
      (simp_all add: job_history_def append_change_history_def reference_io_def)
  have "txn_recorded (tr_value ref) (history_application_id u t) n (append_delta (tr_value ref) h
      (s\<lparr>lk_txn_app := Some (history_application_id u t), lk_txn_version := Some n, lk_metadata := Some j\<rparr>))" for j
    by (rule append_delta_records) simp_all
  with assms c show ?thesis
    by (auto simp: job_history_def append_change_history_def reference_io_def io_bind_Pair name ref history_application_id_nonempty
        delta_idempotent_transaction_def delta_commit_metadata_def Let_def silver_recorded_def)
qed

lemma job_history_keeps: "keeps_txns (job_history u n t h)"
proof -
  have "keeps_txns (\<lambda>s. (Inr True :: bool res, append_delta ref h s))" for ref
    by (simp add: keeps_txns_def append_keeps_txns)
  then show ?thesis unfolding job_history_def append_change_history_def reference_io_def Let_def
    by (intro keeps_txns_rules keeps_txns_transaction keeps_txns_metadata)
qed

lemma run_merge_job_history:
  "run_merge_job u n j = io_bind (case mj_history j of None \<Rightarrow> io_return True | Some h \<Rightarrow> job_history u n (mj_table j) h) (\<lambda>_.
     merge_table u (mj_rows j) (mj_table j) n (mj_statistic j) (mj_target_exists j))"
  by (simp add: run_merge_job_def job_history_def cong: option.case_cong)

text \<open>A job is recorded with its history, when the table has one, and its table.\<close>

definition job_recorded :: "unified \<Rightarrow> int \<Rightarrow> string \<times> bool \<Rightarrow> lake \<Rightarrow> bool" where
  "job_recorded u n job s \<longleftrightarrow> silver_recorded u (fst job) (cdc_application_id u (fst job)) n s \<and>
     (snd job \<longrightarrow> silver_recorded u (silver_change_history_table_name (fst job)) (history_application_id u (fst job)) n s)"

definition job_key :: "merge_job \<Rightarrow> string \<times> bool" where
  "job_key j = (mj_table j, mj_history j \<noteq> None)"

lemma job_recorded_idle: "job_recorded u n (job_key j) s \<Longrightarrow> idle s (run_merge_job u n j)"
  unfolding run_merge_job_history job_recorded_def job_key_def
  by (auto intro!: idle_rules(1,5) merge_table_recorded job_history_recorded split: option.split)

lemma run_merge_job_keeps: "keeps_txns (run_merge_job u n j)"
  unfolding run_merge_job_history by (intro keeps_txns_rules job_history_keeps merge_table_keeps)

lemma job_recorded_keeps: "keeps_txns m \<Longrightarrow> m s = (r, s') \<Longrightarrow> job_recorded u n k s \<Longrightarrow> job_recorded u n k s'"
  by (auto simp: job_recorded_def silver_recorded_keeps)

lemma run_merge_job_records:
  assumes "run_merge_job u n j s = (Inr a, s')"
  shows "job_recorded u n (job_key j) s'"
proof -
  from assms obtain b s1 where h: "(case mj_history j of None \<Rightarrow> io_return True | Some h \<Rightarrow> job_history u n (mj_table j) h) s = (Inr b, s1)"
      and m: "merge_table u (mj_rows j) (mj_table j) n (mj_statistic j) (mj_target_exists j) s1 = (Inr a, s')"
    by (auto simp: run_merge_job_history io_bind_def split: prod.splits sum.splits)
  have "silver_recorded u (silver_change_history_table_name (mj_table j)) (history_application_id u (mj_table j)) n s1"
    if "mj_history j \<noteq> None"
    using h that by (auto intro: job_history_records)
  with silver_recorded_keeps [OF merge_table_keeps m] merge_table_records [OF m] show ?thesis
    by (simp add: job_recorded_def job_key_def)
qed

lemma merge_jobs_record:
  "io_traverse (run_merge_job u n) js s = (Inr bs, s') \<Longrightarrow> j \<in> set js \<Longrightarrow> job_recorded u n (job_key j) s'"
proof (induction js arbitrary: s bs)
  case (Cons i js)
  from Cons.prems(1) obtain a s1 cs where i: "run_merge_job u n i s = (Inr a, s1)" "io_traverse (run_merge_job u n) js s1 = (Inr cs, s')"
    by (auto simp: io_bind_def split: prod.splits sum.splits)
  have "keeps_txns (io_traverse (run_merge_job u n) js)" by (intro keeps_txns_traverse run_merge_job_keeps)
  from job_recorded_keeps [OF this i(2) run_merge_job_records [OF i(1)]] Cons.IH [OF i(2)] Cons.prems(2) show ?case by auto
qed simp

section \<open>The jobs of a batch\<close>

definition materializes :: "string \<Rightarrow> bool" where
  "materializes t \<longleftrightarrow> (case get_silver_contract t of Inl e \<Rightarrow> False | Inr c \<Rightarrow> sc_materialize_change_history c)"

lemma transform_tables_names: "transform_tables u mb tables = Inr tr \<Longrightarrow> map fst tr = tables"
  unfolding transform_tables_def traverse_Inr_iff
  by (induction tables arbitrary: tr) (auto simp: list_all2_Cons1)

lemma transform_histories_names:
  "transform_histories u mb tables = Inr hs \<Longrightarrow> map fst hs = tables \<and> (\<forall>(t, h) \<in> set hs. h \<noteq> None \<longleftrightarrow> materializes t)"
proof -
  assume "transform_histories u mb tables = Inr hs"
  then have "list_all2 (\<lambda>t p. fst p = t \<and> (snd p \<noteq> None \<longleftrightarrow> materializes t)) tables hs"
    unfolding transform_histories_def traverse_Inr_iff
    by (rule list_all2_mono) (auto simp: materializes_def split: if_splits)
  then show ?thesis by (induction rule: list_all2_induct) auto
qed

lemma merge_jobs_keys:
  assumes "transform_tables u mb tables = Inr tr" and "transform_histories u mb tables = Inr hs"
  shows "map job_key (merge_jobs mb tr hs ex) = map (\<lambda>t. (t, materializes t)) tables"
proof -
  note names = transform_tables_names [OF assms(1)] transform_histories_names [OF assms(2)]
  let ?key = "\<lambda>t. (t, (case map_of hs t of None \<Rightarrow> None | Some h \<Rightarrow> h) \<noteq> None)"
  have key: "?key t = (t, materializes t)" if t: "t \<in> set tables" for t
  proof -
    obtain h where h: "map_of hs t = Some h"
      using t names(2) by (cases "map_of hs t") (auto simp: map_of_eq_None_iff)
    with map_of_SomeD [OF h] names(2) show ?thesis by auto
  qed
  have "map job_key (merge_jobs mb tr hs ex) = map ?key (map fst tr)"
    by (simp add: merge_jobs_def job_key_def o_def case_prod_unfold)
  also have "\<dots> = map (\<lambda>t. (t, materializes t)) tables" using names(1) key by (intro map_cong)
  finally show ?thesis .
qed

section \<open>The queue\<close>

lemma keeps_write_at:
  "(\<And>ref. table_reference (ad_lakehouse ad) layer name = Inr ref \<Longrightarrow> tr_value ref \<notin> R) \<Longrightarrow> keeps R (write_table ad d layer name cdf)"
  by (auto simp: keeps_def write_table_def io_bind_def commit_table_def Let_def split: sum.splits)

lemma keeps_upsert_at:
  "(\<And>ref. table_reference (ad_lakehouse ad) layer name = Inr ref \<Longrightarrow> tr_value ref \<notin> R) \<Longrightarrow> keeps R (upsert_table ad d layer name keys opt)"
  unfolding upsert_table_def Let_def
  by (intro keeps_rules keeps_write_at keeps_merge) auto

lemma enqueue_keeps: "keeps (- {queue_reference ad}) (enqueue ad now rid affected ready)"
proof -
  have at: "table_reference (ad_lakehouse ad) ''silver'' GOLD_RECONCILE_QUEUE_TABLE = Inr ref \<Longrightarrow> tr_value ref \<notin> - {queue_reference ad}" for ref
    by (simp add: queue_reference_def)
  show ?thesis unfolding enqueue_def Let_def
    by (intro keeps_rules keeps_write_at keeps_upsert_at at)
qed

lemma enqueue_keeps_txns: "keeps_txns (enqueue ad now rid affected ready)"
  unfolding enqueue_def Let_def by (intro keeps_txns_rules keeps_txns_write keeps_txns_upsert)

section \<open>Tables stay\<close>

lemma keeps_present_settings:
  "keeps_present m \<Longrightarrow> keeps_present (delta_idempotent_transaction app n m)"
  "keeps_present m \<Longrightarrow> keeps_present (delta_commit_metadata dumps j m)"
  "keeps_present m \<Longrightarrow> keeps_present (in_new_session m)"
  by (auto simp: keeps_present_def delta_idempotent_transaction_def delta_commit_metadata_def in_new_session_def Let_def split_beta)

lemma table_present_props [simp]:
  "table_present ref (s\<lparr>lk_tables := (lk_tables s)(ref' := map_option f (lk_tables s ref'))\<rparr>) = table_present ref s"
  by (simp add: table_present_def)

lemma keeps_present_write: "keeps_present (write_table ad d layer name cdf)"
  unfolding write_table_def
  by (rule keeps_present_rules(5)) (auto simp: keeps_present_rules keeps_present_def Let_def commit_present)

lemma keeps_present_merge: "keeps_present (run_merge ref m src)"
  by (auto simp: keeps_present_def run_merge_def Let_def commit_present split: sum.splits)

lemma keeps_present_cases:
  "keeps_present m \<Longrightarrow> keeps_present m' \<Longrightarrow> keeps_present (if b then m else m')"
  "keeps_present m \<Longrightarrow> (\<And>a. keeps_present (f a)) \<Longrightarrow> keeps_present (case x of None \<Rightarrow> m | Some a \<Rightarrow> f a)"
  by (simp_all split: option.split)

lemma keeps_present_upsert: "keeps_present (upsert_table ad d layer name keys opt)"
  unfolding upsert_table_def Let_def
  by (intro keeps_present_rules keeps_present_cases keeps_present_write keeps_present_merge)

lemma keeps_present_enqueue: "keeps_present (enqueue ad now rid affected ready)"
  unfolding enqueue_def Let_def by (intro keeps_present_rules keeps_present_cases keeps_present_write keeps_present_upsert)

lemma keeps_present_merge_table: "keeps_present (merge_table u d t n st ex)"
  unfolding merge_table_def merge_table_body_def
  by (auto intro!: keeps_present_rules keeps_present_cases keeps_present_settings keeps_present_write keeps_present_upsert)

lemma keeps_present_run_merge_job: "keeps_present (run_merge_job u n j)"
proof -
  have "keeps_present (\<lambda>s. (Inr True :: bool res, append_delta ref h s))" for ref h
    by (simp add: keeps_present_def append_delta_present)
  then show ?thesis
    unfolding run_merge_job_history job_history_def append_change_history_def reference_io_def Let_def
    by (intro keeps_present_rules keeps_present_cases keeps_present_settings keeps_present_merge_table)
qed

section \<open>Redelivery\<close>

definition changed_tables :: "unified \<Rightarrow> prepared_batch \<Rightarrow> string list" where
  "changed_tables u pb = filter (\<lambda>t. t \<in> set (map fst (table_statistics (pb_events pb)))) (us_table_names u)"

lemma process_batch_cases:
  assumes "process_batch u initialized validated raw n s = (Inr b, s')" and "tables_known (us_typed u) initialized s"
    and pb: "prepare_raw_cdc_events (tb_fn (us_typed u)) raw = Inr pb"
  obtains mb s1 where "materialize (us_typed u) initialized pb n s = (Inr mb, s1)" "changed_tables u pb = []" "s' = s1"
  | mb s1 tr hs ex bs s2 affected ready where "materialize (us_typed u) initialized pb n s = (Inr mb, s1)"
      "transform_tables u mb (changed_tables u pb) = Inr tr" "transform_histories u mb (changed_tables u pb) = Inr hs"
      "io_traverse (run_merge_job u n) (merge_jobs mb tr hs ex) s1 = (Inr bs, s2)"
      "enqueue (sb_adapter (us_silver u)) (sb_now (us_silver u)) (request_id u n) affected ready s2 = (Inr (), s')"
proof -
  from assms(1) obtain mb s1 where m: "materialize (us_typed u) initialized pb n s = (Inr mb, s1)" and
      rest: "(let changed = filter (\<lambda>t. t \<in> set (map fst (mb_statistics mb))) (us_table_names u)
         in if changed = [] then io_return validated
        else io_bind (io_lift (transform_tables u mb changed)) (\<lambda>transformed.
          io_bind (io_lift (transform_histories u mb changed)) (\<lambda>histories.
          io_bind (io_get (preflight_targets u validated transformed)) (\<lambda>exists.
          io_bind (io_traverse (run_merge_job u n) (merge_jobs mb transformed histories exists)) (\<lambda>_.
          case gold_scope u transformed of (affected, ready) \<Rightarrow>
          io_bind (enqueue (sb_adapter (us_silver u)) (sb_now (us_silver u)) (request_id u n) affected ready) (\<lambda>_.
          io_return True)))))) s1 = (Inr b, s')"
    unfolding process_batch_def pb by (elim io_bind_liftE io_bind_InrE) simp
  note rest = rest [unfolded Let_def materialize_records(3) [OF m assms(2)], folded changed_tables_def]
  show thesis
  proof (cases "changed_tables u pb = []")
    case True
    with rest m that(1) show thesis by simp
  next
    case False
    note rest = rest [unfolded if_not_P [OF False] case_prod_unfold]
    from rest obtain tr where tr: "transform_tables u mb (changed_tables u pb) = Inr tr" by (rule io_bind_liftE)
    note rest = rest [unfolded tr io_simps(3)]
    from rest obtain hs where hs: "transform_histories u mb (changed_tables u pb) = Inr hs" by (rule io_bind_liftE)
    note rest = rest [unfolded hs io_simps(3)]
    from rest show thesis by (elim io_bind_InrE) (rule that(2) [OF m tr hs]; simp add: io_get_def)
  qed
qed

lemma process_batch_records:
  assumes "process_batch u initialized validated raw n s = (Inr b, s')" and "tables_known (us_typed u) initialized s"
    and "prepare_raw_cdc_events (tb_fn (us_typed u)) raw = Inr pb"
  shows "batch_recorded (us_typed u) pb n s' \<and> (\<forall>t \<in> set (changed_tables u pb). job_recorded u n (t, materializes t) s')"
  using assms
proof (cases rule: process_batch_cases [OF assms])
  case (1 mb s1)
  from materialize_records(1) [OF 1(1) assms(2)] 1(2,3) show ?thesis by simp
next
  case (2 mb s1 tr hs ex bs s2 affected ready)
  let ?jobs = "merge_jobs mb tr hs ex"
  have "keeps_txns (io_traverse (run_merge_job u n) ?jobs)" "keeps_present (io_traverse (run_merge_job u n) ?jobs)"
    by (intro keeps_txns_traverse keeps_present_traverse run_merge_job_keeps keeps_present_run_merge_job)+
  from batch_recorded_keeps [OF this(2,1) 2(4) materialize_records(1) [OF 2(1) assms(2)]]
  have "batch_recorded (us_typed u) pb n s'" by (rule batch_recorded_keeps [OF keeps_present_enqueue enqueue_keeps_txns 2(5)])
  moreover have "job_recorded u n (t, materializes t) s'" if "t \<in> set (changed_tables u pb)" for t
  proof -
    have "(t, materializes t) \<in> job_key ` set ?jobs"
      using that merge_jobs_keys [OF 2(2,3)] by (metis (no_types, lifting) image_eqI list.set_map)
    with merge_jobs_record [OF 2(4)] have "job_recorded u n (t, materializes t) s2" by force
    then show ?thesis by (rule job_recorded_keeps [OF enqueue_keeps_txns 2(5)])
  qed
  ultimately show ?thesis by blast
qed

definition same_tables :: "string set \<Rightarrow> lake \<Rightarrow> 'a io \<Rightarrow> bool" where
  "same_tables R s m \<longleftrightarrow> (\<forall>r \<in> R. lk_tables (snd (m s)) r = lk_tables s r)"

lemma same_tables_bind: "idle s m \<Longrightarrow> (\<And>a. m s = (Inr a, s) \<Longrightarrow> same_tables R s (f a)) \<Longrightarrow> same_tables R s (io_bind m f)"
  by (cases "m s") (auto simp: same_tables_def idle_def io_bind_def split: sum.splits)

lemma same_tables_lift: "(\<And>a. r = Inr a \<Longrightarrow> same_tables R s (f a)) \<Longrightarrow> same_tables R s (io_bind (io_lift r) f)"
  by (rule same_tables_bind) (simp_all add: idle_def)

lemma same_tables_keeps: "keeps R m \<Longrightarrow> same_tables R s (io_bind m (\<lambda>_. io_return b))"
  by (auto simp: same_tables_def keeps_def io_bind_def split: prod.splits sum.splits) (metis snd_conv)+

lemma recorded_batch_same:
  assumes "batch_recorded (us_typed u) pb n s" and jobs: "\<forall>t \<in> set (changed_tables u pb). job_recorded u n (t, materializes t) s"
    and "prepare_raw_cdc_events (tb_fn (us_typed u)) raw = Inr pb"
  shows "same_tables (- {queue_reference (sb_adapter (us_silver u))}) s (process_batch u initialized validated raw n)"
  unfolding process_batch_def assms(3) io_simps(3)
proof (rule same_tables_bind)
  note again = materialize_again [OF assms(1), of initialized]
  show "idle s (materialize (us_typed u) initialized pb n)" by (simp add: idle_def again)
  fix mb assume "materialize (us_typed u) initialized pb n s = (Inr mb, s)"
  then have mb: "mb_statistics mb = table_statistics (pb_events pb)" by (auto simp: again)
  have idle: "idle s (io_traverse (run_merge_job u n) (merge_jobs mb tr hs ex))"
    if "transform_tables u mb (changed_tables u pb) = Inr tr" "transform_histories u mb (changed_tables u pb) = Inr hs" for tr hs ex
  proof (rule idle_traverse)
    fix j assume "j \<in> set (merge_jobs mb tr hs ex)"
    then have "job_key j \<in> set (map job_key (merge_jobs mb tr hs ex))" by simp
    then have "job_recorded u n (job_key j) s" using jobs by (auto simp: merge_jobs_keys [OF that])
    then show "idle s (run_merge_job u n j)" by (rule job_recorded_idle)
  qed
  show "same_tables (- {queue_reference (sb_adapter (us_silver u))}) s
    (let changed = filter (\<lambda>t. t \<in> set (map fst (mb_statistics mb))) (us_table_names u)
     in if changed = [] then io_return validated
        else io_bind (io_lift (transform_tables u mb changed)) (\<lambda>transformed.
          io_bind (io_lift (transform_histories u mb changed)) (\<lambda>histories.
          io_bind (io_get (preflight_targets u validated transformed)) (\<lambda>exists.
          io_bind (io_traverse (run_merge_job u n) (merge_jobs mb transformed histories exists)) (\<lambda>_.
          case gold_scope u transformed of (affected, ready) \<Rightarrow>
          io_bind (enqueue (sb_adapter (us_silver u)) (sb_now (us_silver u)) (request_id u n) affected ready) (\<lambda>_.
          io_return True))))))"
    unfolding mb Let_def changed_tables_def [symmetric]
    by (auto simp: idle_rules case_prod_unfold intro!: same_tables_lift same_tables_bind [OF idle_rules(4)] same_tables_bind [OF idle]
        same_tables_keeps enqueue_keeps)
      (simp add: same_tables_def)
qed

text \<open>
  C7. Redelivering a micro-batch changes nothing but the reconcile queue. After a batch was processed, processing it again,
  by the same process or by one that starts anew, leaves every typed Bronze table, quarantine, Silver table, change
  history and Gold table as it is, whether the second run succeeds or raises; only the request of
  the batch in the reconcile queue may be written again.
\<close>

theorem redelivered_batch_only_requeues:
  assumes "process_batch u initialized validated raw n s = (Inr b, s')" and "tables_known (us_typed u) initialized s"
    and "ref \<noteq> queue_reference (sb_adapter (us_silver u))"
  shows "lk_tables (snd (process_batch u initialized' validated' raw n s')) ref = lk_tables s' ref"
proof -
  from assms(1) obtain pb where pb: "prepare_raw_cdc_events (tb_fn (us_typed u)) raw = Inr pb"
    unfolding process_batch_def by (rule io_bind_liftE)
  from process_batch_records [OF assms(1,2) pb] assms(3) show ?thesis
    using recorded_batch_same [OF _ _ pb] by (auto simp: same_tables_def)
qed

section \<open>One batch\<close>

definition demo_raw :: df where
  "demo_raw = \<lparr>df_cols = REQUIRED_RAW_COLUMNS, df_rows = map pe_row (pb_events demo_prepared_batch)\<rparr>"

lemma demo_prepare: "prepare_raw_cdc_events demo_cdc demo_raw = Inr \<lparr>pb_cols = REQUIRED_RAW_COLUMNS, pb_events = pb_events demo_prepared_batch\<rparr>"
proof -
  have "decode_error demo_cdc (pe_row e) (pe_payload e) = pe_error e \<and> cf_json_map demo_cdc (payload_json demo_cdc (pe_row e)) = pe_payload e"
    if "e \<in> set (pb_events demo_prepared_batch)" for e
  proof -
    have "list_all (\<lambda>e. decode_error demo_cdc (pe_row e) (pe_payload e) = pe_error e) (pb_events demo_prepared_batch)" by code_simp
    with that show ?thesis by (simp add: list_all_iff) (simp add: demo_cdc_def demo_prepared_batch_def)
  qed
  then have "map (\<lambda>e. \<lparr>pe_row = pe_row e, pe_payload = cf_json_map demo_cdc (payload_json demo_cdc (pe_row e)),
      pe_error = decode_error demo_cdc (pe_row e) (cf_json_map demo_cdc (payload_json demo_cdc (pe_row e)))\<rparr>)
    (pb_events demo_prepared_batch) = pb_events demo_prepared_batch"
    by (intro map_idI) simp
  then show ?thesis by (simp add: prepare_raw_cdc_events_def demo_raw_def Let_def o_def)
qed

text \<open>The Silver table of the payments exists and is empty; the queue does not exist yet.\<close>

definition demo_payments_columns :: "string list" where
  "demo_payments_columns = (case get_silver_contract ''payments'' of Inl e \<Rightarrow> []
     | Inr c \<Rightarrow> map fst (current_state_columns example_fn 7 demo_typed_columns c))"

definition demo_stream_lake :: lake where
  "demo_stream_lake = demo_typed_lake\<lparr>lk_tables := (\<lambda>ref.
     if ref = ''lake/silver/payments'' then Some \<lparr>dt_commits = [\<lparr>cm_cols = demo_payments_columns, cm_rows = [], cm_changes = [],
       cm_metadata = None\<rparr>], dt_props = [], dt_txns = []\<rparr>
     else if ref = ''lake/silver/gold_reconcile_queue'' then None else Some demo_typed_table)\<rparr>"

definition demo_stream :: unified where
  "demo_stream = demo_unified\<lparr>us_table_names := [''payments'']\<rparr>"

lemma demo_typed_path:
  assumes "typed_reference demo_typed_bronze t = Inr ref"
  shows "hd ref = CHR ''/''"
proof -
  have "rstrip_slash ''/data'' = ''/data''" by code_simp
  with assms show ?thesis
    by (auto simp: typed_reference_def streaming_typed_bronze_reference_def located_def path_join_def
      demo_typed_bronze_def path_config_def and_then_Inr_iff raise_if_def split: if_splits)
qed

lemma demo_stream_materialize:
  "\<exists>d s'. materialize demo_typed_bronze False demo_prepared_batch 0 demo_stream_lake =
      (Inr \<lparr>mb_tables = [(''payments'', d)], mb_statistics = table_statistics (pb_events demo_prepared_batch), mb_quarantined_count = 0\<rparr>, s') \<and>
    df_cols d = demo_typed_columns \<and> lk_tables s' ''lake/silver/payments'' = lk_tables demo_stream_lake ''lake/silver/payments'' \<and>
    lk_tables s' ''lake/silver/gold_reconcile_queue'' = None"
proof -
  have "\<forall>t ref. typed_reference demo_typed_bronze t = Inr ref \<longrightarrow> lk_tables demo_stream_lake ref = Some demo_typed_table"
    using demo_typed_path by (fastforce simp: demo_stream_lake_def)
  from demo_materialize_in [OF this] obtain d s' where m: "materialize demo_typed_bronze False demo_prepared_batch 0 demo_stream_lake =
      (Inr \<lparr>mb_tables = [(''payments'', d)], mb_statistics = table_statistics (pb_events demo_prepared_batch), mb_quarantined_count = 0\<rparr>, s')"
      "df_cols d = demo_typed_columns" and same: "\<And>ref. typed_reference demo_typed_bronze ''payments'' \<noteq> Inr ref \<Longrightarrow> lk_tables s' ref = lk_tables demo_stream_lake ref"
    by (elim exE conjE) simp
  have "typed_reference demo_typed_bronze ''payments'' \<noteq> Inr (''lake/silver/'' @ name)" for name
    using demo_typed_path [of "''payments''"] by fastforce
  from same [OF this] have same: "lk_tables s' (''lake/silver/'' @ name) = lk_tables demo_stream_lake (''lake/silver/'' @ name)" for name .
  show ?thesis
    by (rule exI, rule exI, intro conjI, rule m(1), rule m(2))
      (use same [of "''payments''"] same [of "''gold_reconcile_queue''"] in \<open>simp_all add: demo_stream_lake_def\<close>)
qed
lemma demo_payments_contract:
  obtains c where "get_silver_contract ''payments'' = Inr c" "sc_table_name c = ''payments''" "sc_primary_keys c = [''payment_id'']"
    "\<not> sc_materialize_change_history c"
    "validate_upsert \<lparr>df_cols = demo_payments_columns, df_rows = rows\<rparr> (sc_primary_keys c) (cdc_upsert SILVER_SEQUENCE_COLUMNS) = Inr ()"
  "\<exists>c'. (''payments'', c') \<in> set TYPED_TABLES \<and> get_typed_cdc_contract ''payments'' = Inr c'"
proof -
  have names: "(case get_silver_contract ''payments'' of Inl e \<Rightarrow> False | Inr c \<Rightarrow> sc_table_name c = ''payments'' \<and>
      sc_primary_keys c = [''payment_id''] \<and> \<not> sc_materialize_change_history c)" by code_simp
  then obtain c where c: "get_silver_contract ''payments'' = Inr c" "sc_table_name c = ''payments''" "sc_primary_keys c = [''payment_id'']"
    "\<not> sc_materialize_change_history c" by (cases "get_silver_contract ''payments''") simp_all
  have "set SILVER_SEQUENCE_COLUMNS \<subseteq> set demo_payments_columns"
    by (simp add: demo_payments_columns_def c current_state_columns_def current_state_metadata_def event_metadata_def
        SILVER_SEQUENCE_COLUMNS_def column_def)
  then have v: "validate_upsert \<lparr>df_cols = demo_payments_columns, df_rows = rows\<rparr> (sc_primary_keys c) (cdc_upsert SILVER_SEQUENCE_COLUMNS) = Inr ()"
    by (simp add: validate_upsert_def cdc_upsert_def c raise_if_def)
  have "''payments'' \<in> set (map fst BRONZE_TABLES)" by code_simp
  then have payments: "''payments'' \<in> set (map fst TYPED_TABLES)" unfolding TYPED_TABLES_names .
  then obtain c' where c': "map_of TYPED_TABLES ''payments'' = Some c'"
    by (cases "map_of TYPED_TABLES ''payments''") (simp_all add: map_of_eq_None_iff)
  then have "get_typed_cdc_contract ''payments'' = Inr c'" by (simp only: get_typed_contract_iff)
  with map_of_SomeD [OF c'] that [OF c v] show thesis by blast
qed

lemma demo_payments_transform:
  assumes "df_cols d = demo_typed_columns" and "get_silver_contract ''payments'' = Inr c" and "sc_table_name c = ''payments''"
  shows "\<exists>r. silver_transform demo_builder c d = Inr r \<and> df_cols r = demo_payments_columns"
proof -
  obtain c' where c': "(''payments'', c') \<in> set TYPED_TABLES" "get_typed_cdc_contract ''payments'' = Inr c'"
    by (rule demo_payments_contract) blast
  have cols: "df_cols d = df_cols (decode_table_events demo_cdc (tb_settings demo_typed_bronze) c' 0 [])"
    using assms(1) by (simp add: demo_typed_columns_def c')
  from typed_table_feeds_silver [OF c'(1) cols] assms(2) have valid: "validate_bronze_columns d c = Inr ()" by simp
  have sales: "''payments'' \<in> set SALES_TABLES" "''payments'' \<notin> set CUSTOMER_TABLES" by code_simp+
  have "df_cols (on_columns f cs x) = df_cols x" for f cs x
    by (induction cs arbitrary: x) (simp_all add: on_columns_def)
  then have clean: "df_cols (clean_sales fn x) = df_cols x" for fn x
    by (simp add: clean_sales_def Let_def clean_text_def normalize_lower_def normalize_upper_def)
  show ?thesis
    using sales valid assms
    by (simp add: silver_transform_def transform_sales_table_def current_state_def Let_def raise_if_def clean demo_payments_columns_def
        demo_builder_def)
qed

lemma demo_payments_merge:
  assumes s: "lk_tables s ''lake/silver/payments'' = lk_tables demo_stream_lake ''lake/silver/payments''"
    and c: "get_silver_contract ''payments'' = Inr c" "sc_table_name c = ''payments''"
    and r: "df_cols r = demo_payments_columns"
  shows "\<exists>s'. merge_table demo_stream r ''payments'' n st True s = (Inr (), s') \<and>
    lk_tables s' ''lake/silver/gold_reconcile_queue'' = lk_tables s ''lake/silver/gold_reconcile_queue''"
proof -
  let ?ad = "sb_adapter demo_builder"
  obtain c' where "get_silver_contract ''payments'' = Inr c'"
    "validate_upsert \<lparr>df_cols = demo_payments_columns, df_rows = []\<rparr> (sc_primary_keys c') (cdc_upsert SILVER_SEQUENCE_COLUMNS) = Inr ()"
    by (rule demo_payments_contract) blast
  then have valid: "validate_upsert r (sc_primary_keys c) (cdc_upsert SILVER_SEQUENCE_COLUMNS) = Inr ()"
    using c(1) r by (simp add: validate_upsert_def)
  have "map_sum id tr_value (table_reference (ad_lakehouse ?ad) ''silver'' ''payments'') = Inr ''lake/silver/payments''" by code_simp
  then obtain ref where ref: "table_reference (ad_lakehouse ?ad) ''silver'' ''payments'' = Inr ref" "tr_value ref = ''lake/silver/payments''"
    by (cases "table_reference (ad_lakehouse ?ad) ''silver'' ''payments''") simp_all
  have gold: "ad_gold_versions ?ad = None" by (simp add: demo_builder_def)
  have read: "\<exists>d. read_table ?ad s ''silver'' ''payments'' False = Inr d \<and> df_cols d = demo_payments_columns"
    if "lk_tables s ''lake/silver/payments'' = lk_tables demo_stream_lake ''lake/silver/payments''" for s
    using that gold by (simp add: read_table_def ref read_delta_def delta_table_at_def demo_stream_lake_def snapshot_def Let_def
        latest_commit_def hide_deleted_def)
  have merge: "\<exists>s'. upsert_table ?ad r ''silver'' ''payments'' (sc_primary_keys c) (cdc_upsert SILVER_SEQUENCE_COLUMNS) s = (Inr True, s') \<and>
      (\<forall>ref'. ref' \<noteq> ''lake/silver/payments'' \<longrightarrow> lk_tables s' ref' = lk_tables s ref')"
    if t: "lk_tables s ''lake/silver/payments'' = lk_tables demo_stream_lake ''lake/silver/payments''" for s
  proof -
    have opt: "uo_target_exists (cdc_upsert SILVER_SEQUENCE_COLUMNS) = Some True" "uo_source_is_nonempty (cdc_upsert SILVER_SEQUENCE_COLUMNS)"
      by (simp_all add: cdc_upsert_def)
    obtain d where d: "read_table ?ad s ''silver'' ''payments'' False = Inr d" "df_cols d = demo_payments_columns" using read [OF t] by blast
    have run: "\<exists>s'. run_merge ''lake/silver/payments'' m src s = (Inr (), s') \<and>
        (\<forall>ref'. ref' \<noteq> ''lake/silver/payments'' \<longrightarrow> lk_tables s' ref' = lk_tables s ref')" for m src
      using t by (simp add: run_merge_def delta_table_at_def demo_stream_lake_def latest_commit_def merge_exec_def commit_table_def Let_def)
    obtain s' where s': "run_merge ''lake/silver/payments'' (merge_statement (cdc_upsert SILVER_SEQUENCE_COLUMNS) ''silver''
        (sc_primary_keys c) (df_cols r)) (merge_changes (cdc_upsert SILVER_SEQUENCE_COLUMNS) (sc_primary_keys c) r) s = (Inr (), s')"
        "\<forall>ref'. ref' \<noteq> ''lake/silver/payments'' \<longrightarrow> lk_tables s' ref' = lk_tables s ref'"
      using run by blast
    have match: "validate_schema_match (df_cols r) (df_cols d) = Inr ()" by (simp add: validate_schema_match_def raise_if_def r d(2))
    have "upsert_table ?ad r ''silver'' ''payments'' (sc_primary_keys c) (cdc_upsert SILVER_SEQUENCE_COLUMNS) s = (Inr True, s')"
      unfolding upsert_table_def valid io_simps(3) ref(1) opt option.case
      by (simp add: io_bind_def io_get_def d(1) match opt(2) ref(2) s'(1) Let_def)
    then show ?thesis using s'(2) by blast
  qed
  let ?s = "s\<lparr>lk_txn_app := Some (cdc_application_id demo_stream ''payments''), lk_txn_version := Some n,
      lk_metadata := Some (sb_dumps demo_builder (cdc_metadata ''payments'' n st))\<rparr>"
  have silver: "us_silver demo_stream = demo_builder" by (simp add: demo_stream_def demo_unified_def)
  obtain s' where "upsert_table ?ad r ''silver'' ''payments'' (sc_primary_keys c) (cdc_upsert SILVER_SEQUENCE_COLUMNS) ?s = (Inr True, s')"
      "\<And>ref'. ref' \<noteq> ''lake/silver/payments'' \<Longrightarrow> lk_tables s' ref' = lk_tables s ref'"
  proof -
    have "lk_tables ?s ''lake/silver/payments'' = lk_tables demo_stream_lake ''lake/silver/payments''" by (simp add: s)
    from merge [OF this] that show thesis by (elim exE conjE) simp
  qed
  then show ?thesis
    by (simp add: merge_table_def c merge_table_body_def silver in_new_session_def delta_idempotent_transaction_def
        delta_commit_metadata_def io_bind_def Let_def)
qed

lemma demo_stream_fields:
  "us_typed demo_stream = demo_typed_bronze" "us_silver demo_stream = demo_builder" "us_table_names demo_stream = [''payments'']"
  "tb_fn demo_typed_bronze = demo_cdc" "sb_adapter demo_builder = demo_adapter"
  by (simp_all add: demo_stream_def demo_unified_def demo_typed_bronze_def demo_builder_def demo_adapter_def)

lemma demo_enqueue:
  assumes "lk_tables s ''lake/silver/gold_reconcile_queue'' = None"
  shows "\<exists>s'. enqueue demo_adapter now rid affected ready s = (Inr (), s')"
proof -
  obtain ref where "table_reference (ad_lakehouse demo_adapter) ''silver'' GOLD_RECONCILE_QUEUE_TABLE = Inr ref"
      "tr_value ref = ''lake/silver/gold_reconcile_queue''"
    using demo_queue_reference by (cases "table_reference (ad_lakehouse demo_adapter) ''silver'' GOLD_RECONCILE_QUEUE_TABLE") simp_all
  then show ?thesis
    by (simp add: enqueue_def Let_def io_bind_def io_get_def table_exists_def assms write_table_def)
qed

lemma demo_stream_runs: "\<exists>s'. process_batch demo_stream False True demo_raw 0 demo_stream_lake = (Inr True, s')"
proof -
  obtain d s1 where m: "materialize demo_typed_bronze False demo_prepared_batch 0 demo_stream_lake =
      (Inr \<lparr>mb_tables = [(''payments'', d)], mb_statistics = table_statistics (pb_events demo_prepared_batch), mb_quarantined_count = 0\<rparr>, s1)"
      and d: "df_cols d = demo_typed_columns" and s1: "lk_tables s1 ''lake/silver/payments'' = lk_tables demo_stream_lake ''lake/silver/payments''"
      "lk_tables s1 ''lake/silver/gold_reconcile_queue'' = None"
    using demo_stream_materialize by (elim exE conjE) simp
  let ?mb = "\<lparr>mb_tables = [(''payments'', d)], mb_statistics = table_statistics (pb_events demo_prepared_batch), mb_quarantined_count = 0\<rparr>"
  obtain c where c: "get_silver_contract ''payments'' = Inr c" "sc_table_name c = ''payments''" "\<not> sc_materialize_change_history c"
    by (rule demo_payments_contract) blast
  obtain r where r: "silver_transform demo_builder c d = Inr r" "df_cols r = demo_payments_columns"
    using demo_payments_transform [OF d c(1,2)] by blast
  have tr: "transform_tables demo_stream ?mb [''payments''] = Inr [(''payments'', r)]"
    by (simp add: transform_tables_def c r demo_stream_fields)
  have hs: "transform_histories demo_stream ?mb [''payments''] = Inr [(''payments'', None)]"
    by (simp add: transform_histories_def c)
  have exists: "map_of (map (\<lambda>(t, c). (t, True)) SILVER_TABLES) ''payments'' = Some True" by code_simp
  have names: "map fst (table_statistics (pb_events demo_prepared_batch)) = [''payments'']"
    by (simp add: table_statistics_def demo_prepared_batch_def groups_def row_of_def name_text_def)
  have prepared: "prepare_raw_cdc_events demo_cdc demo_raw = Inr demo_prepared_batch"
    unfolding demo_prepare by (simp add: demo_prepared_batch_def)
  have changed: "filter (\<lambda>t. t \<in> set (map fst (table_statistics (pb_events demo_prepared_batch)))) [''payments''] = [''payments'']"
    by (simp only: names) simp
  let ?st = "case map_of (table_statistics (pb_events demo_prepared_batch)) ''payments'' of Some st \<Rightarrow> st
      | None \<Rightarrow> \<lparr>sx_record_count = 0, sx_min_source_lsn = Null, sx_max_source_lsn = Null\<rparr>"
  obtain s2 where s2: "merge_table demo_stream r ''payments'' 0 ?st True s1 = (Inr (), s2)"
      "lk_tables s2 ''lake/silver/gold_reconcile_queue'' = None"
    using demo_payments_merge [OF s1(1) c(1,2) r(2), of 0 ?st] s1(2) by (elim exE conjE) simp
  let ?j = "\<lparr>mj_table = ''payments'', mj_rows = r, mj_history = None, mj_statistic = ?st, mj_target_exists = True\<rparr>"
  have jobs: "merge_jobs ?mb [(''payments'', r)] [(''payments'', None)] (map (\<lambda>(t, c). (t, True)) SILVER_TABLES) = [?j]"
    by (simp only: merge_jobs_def list.map prod.case exists) simp
  have job: "run_merge_job demo_stream 0 ?j s1 = (Inr (), s2)" by (simp add: run_merge_job_def s2)
  obtain affected ready where scope: "gold_scope demo_stream [(''payments'', r)] = (affected, ready)" by fastforce
  obtain s3 where s3: "enqueue demo_adapter (sb_now demo_builder) (request_id demo_stream 0) affected ready s2 = (Inr (), s3)"
    using demo_enqueue [OF s2(2)] by blast
  have "process_batch demo_stream False True demo_raw 0 demo_stream_lake = (Inr True, s3)"
    unfolding process_batch_def demo_stream_fields prepared io_simps(3)
    by (simp only: io_bind_def m prod.case sum.case materialized_batch.simps changed Let_def if_False list.distinct refl simp_thms
        tr hs io_lift_def io_get_def preflight_targets_def if_True jobs io_traverse.simps job io_return_def scope s3)
  then show ?thesis by blast
qed

theorem redelivered_batch_only_requeues_witness:
  "\<exists>s'. process_batch demo_stream False True demo_raw 0 demo_stream_lake = (Inr True, s') \<and>
    lk_tables (snd (process_batch demo_stream True True demo_raw 0 s')) ''lake/silver/payments'' = lk_tables s' ''lake/silver/payments''"
proof -
  obtain s' where s': "process_batch demo_stream False True demo_raw 0 demo_stream_lake = (Inr True, s')"
    using demo_stream_runs by (elim exE)
  have "queue_reference demo_adapter = ''lake/silver/gold_reconcile_queue''"
    using demo_queue_reference by (cases "table_reference (ad_lakehouse demo_adapter) ''silver'' GOLD_RECONCILE_QUEUE_TABLE")
      (simp_all add: queue_reference_def)
  then have "''lake/silver/payments'' \<noteq> queue_reference (sb_adapter (us_silver demo_stream))" by (simp add: demo_stream_fields)
  from redelivered_batch_only_requeues [OF s' _ this, of True True] show ?thesis
    by (intro exI [of _ s'] conjI s') (simp add: tables_known_def)
qed

end
