(* ===== verification/OrderScope.thy ===== *)
theory OrderScope
  imports UnifiedSilver
begin

text \<open>
  The scope a micro-batch hands to the Gold reconciliation, and the check that the orders of a scope are complete in Silver
  before Gold is published for them (\<open>_collect_affected_order_ids\<close> and \<open>_source_fact_ready_for_gold\<close> of
  \<open>ingestion/streaming/unified_silver.py\<close>).
\<close>

section \<open>The orders of a batch\<close>

definition scope_ids :: "df \<Rightarrow> int list" where
  "scope_ids d = (if ''order_id'' \<in> set (df_cols d) then order_ids_of (df_rows d) else [])"

definition batch_order_ids :: "df list \<Rightarrow> int set" where
  "batch_order_ids ds = (\<Union>d \<in> set ds. set (scope_ids d))"

lemma collect_small:
  assumes "distinct affected" "length affected \<le> m" "length affected + sum_list (map (\<lambda>d. length (scope_ids d)) ds) \<le> m + 1"
  shows "case collect_order_ids m affected ds of None \<Rightarrow> m < card (set affected \<union> batch_order_ids ds)
    | Some ids \<Rightarrow> distinct ids \<and> length ids \<le> m \<and> set ids = set affected \<union> batch_order_ids ds"
  using assms
proof (induction ds arbitrary: affected)
  case Nil
  then show ?case by (simp add: batch_order_ids_def)
next
  case (Cons d ds)
  show ?case
  proof (cases "''order_id'' \<in> set (df_cols d)")
    case False
    then have ids: "scope_ids d = []" by (simp add: scope_ids_def)
    then have same: "batch_order_ids (d # ds) = batch_order_ids ds" by (simp add: batch_order_ids_def)
    have "length affected + sum_list (map (\<lambda>d. length (scope_ids d)) ds) \<le> m + 1" using Cons.prems(3) ids by simp
    from Cons.IH [OF Cons.prems(1,2) this] show ?thesis unfolding same collect_order_ids.simps if_P [OF False] .
  next
    case True
    let ?rows = "order_ids_of (df_rows d)"
    let ?affected = "affected @ filter (\<lambda>i. i \<notin> set affected) ?rows"
    have ids: "scope_ids d = ?rows" using True by (simp add: scope_ids_def)
    have all: "take (m + 1 - length affected) ?rows = ?rows" using Cons.prems(3) by (simp add: ids)
    have "distinct ?rows" by (simp add: order_ids_of_def)
    with Cons.prems(1) have dist: "distinct ?affected" by auto
    have set: "set ?affected = set affected \<union> set ?rows" by auto
    have union: "set affected \<union> batch_order_ids (d # ds) = set ?affected \<union> batch_order_ids ds"
      by (auto simp: batch_order_ids_def ids)
    show ?thesis
    proof (cases "length ?affected > m")
      case True
      have "length ?affected = card (set ?affected)" using dist by (rule distinct_card [symmetric])
      also have "\<dots> \<le> card (set ?affected \<union> batch_order_ids ds)" by (intro card_mono) (auto simp: batch_order_ids_def)
      finally show ?thesis
        using True \<open>''order_id'' \<in> set (df_cols d)\<close> unfolding union collect_order_ids.simps all Let_def by simp
    next
      case False
      have "length (filter (\<lambda>i. i \<notin> set affected) ?rows) \<le> length (scope_ids d)" unfolding ids by (rule length_filter_le)
      with Cons.prems(3) have "length ?affected + sum_list (map (\<lambda>d. length (scope_ids d)) ds) \<le> m + 1" by simp
      from Cons.IH [OF dist _ this] False show ?thesis
        using \<open>''order_id'' \<in> set (df_cols d)\<close> unfolding union collect_order_ids.simps all Let_def by simp
    qed
  qed
qed

definition ids_table :: "int list \<Rightarrow> df" where
  "ids_table ids = \<lparr>df_cols = [''order_id''], df_rows = map (\<lambda>i. row_of [(''order_id'', IntV i)]) ids\<rparr>"

text \<open>
  C29. A batch that names few enough orders is scoped exactly. When the distinct orders of its tables, counted for each
  table, are at most one more than the maximum, the scope is the set of all orders of the batch, and it is left open only
  if these are more than the maximum.
\<close>

theorem small_batch_scoped_exactly:
  assumes "sum_list (map (\<lambda>d. length (scope_ids d)) ds) \<le> m + 1"
  shows "case collect_order_ids m [] ds of None \<Rightarrow> m < card (batch_order_ids ds)
    | Some ids \<Rightarrow> distinct ids \<and> length ids \<le> m \<and> set ids = batch_order_ids ds"
  using collect_small [of "[]" m ds, unfolded list.set(1) Un_empty_left] assms by simp

theorem small_batch_scoped_exactly_witness:
  "collect_order_ids 5 [] [ids_table [1, 2], ids_table [2, 3]] = Some [1, 2, 3] \<and> {1, 2, 3} = batch_order_ids [ids_table [1, 2], ids_table [2, 3]]"
proof -
  have small: "sum_list (map (\<lambda>d. length (scope_ids d)) [ids_table [1, 2], ids_table [2, 3]]) \<le> 5 + 1" by code_simp
  have run: "collect_order_ids 5 [] [ids_table [1, 2], ids_table [2, 3]] = Some [1, 2, 3]" by code_simp
  from small_batch_scoped_exactly [OF small] show ?thesis unfolding run by simp
qed

lemma collect_bound: "collect_order_ids m affected ds = Some ids \<Longrightarrow> length affected \<le> m \<Longrightarrow> length ids \<le> m"
  by (induction ds arbitrary: affected) (auto simp: Let_def split: if_splits)

lemma collect_append:
  "collect_order_ids m affected (ds @ ds') = (case collect_order_ids m affected ds of None \<Rightarrow> None
     | Some ids \<Rightarrow> collect_order_ids m ids ds')"
  by (induction ds arbitrary: affected) (simp_all add: Let_def)

text \<open>
  C32. A larger batch can lose orders. Each table is read up to the room that is left, also when the ids
  it delivers are known already. Whenever the tables so far fill more than half of the allowed scope, and
  the next table of a batch first delivers these orders again and then any others, the others are never read: the
  scope stays what it was and is reported as complete, although it names none of the other orders.
\<close>

theorem batch_scope_can_miss_orders:
  assumes "gold_scope u ts = (Some ids, True)" and "us_max_order_ids u < 2 * length ids"
    and "t \<in> set ORDER_SCOPED_GOLD_TABLES" and "scope_ids d = ids @ others"
  shows "gold_scope u (ts @ [(t, d)]) = (Some ids, True) \<and>
    set others \<subseteq> batch_order_ids (map snd (ts @ [(t, d)])) \<and> set ids \<inter> set others = {}"
proof -
  let ?m = "us_max_order_ids u"
  have "ids \<noteq> []" using assms(2) by auto
  then have col: "''order_id'' \<in> set (df_cols d)" and ids: "order_ids_of (df_rows d) = ids @ others"
    using assms(4) by (auto simp: scope_ids_def split: if_splits)
  have "distinct (order_ids_of (df_rows d))" by (simp add: order_ids_of_def)
  then have disj: "set ids \<inter> set others = {}" by (simp add: ids)
  let ?ts = "map snd (filter (\<lambda>(t, d). t \<in> set ORDER_SCOPED_GOLD_TABLES) ts)"
  have old: "collect_order_ids ?m [] ?ts = Some ids"
    using assms(1) by (auto simp: gold_scope_def Let_def split: if_splits)
  have "take (?m + 1 - length ids) (order_ids_of (df_rows d)) = take (?m + 1 - length ids) ids"
    unfolding ids using assms(2) by simp
  moreover have "filter (\<lambda>i. i \<notin> set ids) (take n ids) = []" for n
    using set_take_subset [of n ids] by (auto simp: filter_empty_conv)
  moreover have "length ids \<le> ?m" by (rule collect_bound [OF old]) simp
  ultimately have "collect_order_ids ?m ids [d] = Some ids"
    using col by (simp del: One_nat_def add_Suc_right add: Let_def)
  with old assms(3) have "gold_scope u (ts @ [(t, d)]) = (Some ids, True)"
    by (simp add: gold_scope_def Let_def collect_append)
  moreover have "set others \<subseteq> batch_order_ids (map snd (ts @ [(t, d)]))"
    using assms(4) by (auto simp: batch_order_ids_def)
  ultimately show ?thesis using disj by blast
qed

theorem batch_scope_can_miss_orders_witness:
  "gold_scope demo_unified ([(''orders'', ids_table [1, 2, 3])] @ [(''payments'', ids_table [1, 2, 3, 4, 5, 6])]) = (Some [1, 2, 3], True) \<and>
    set [4, 5, 6] \<subseteq> batch_order_ids (map snd ([(''orders'', ids_table [1, 2, 3])] @ [(''payments'', ids_table [1, 2, 3, 4, 5, 6])])) \<and>
    set [1, 2, 3] \<inter> set [4, 5, 6 :: int] = {}"
proof -
  have "collect_order_ids 5 [] [ids_table [1, 2, 3]] = Some [1, 2, 3]" by code_simp
  then have scope: "gold_scope demo_unified [(''orders'', ids_table [1, 2, 3])] = (Some [1, 2, 3], True)"
    by (simp add: gold_scope_def demo_unified_fields ORDER_SCOPED_GOLD_TABLES_def)
  have known: "scope_ids (ids_table [1, 2, 3, 4, 5, 6]) = [1, 2, 3] @ [4, 5, 6]" by code_simp
  show ?thesis
    by (rule batch_scope_can_miss_orders [OF scope _ _ known])
      (simp_all add: demo_unified_fields ORDER_SCOPED_GOLD_TABLES_def)
qed

section \<open>Complete orders\<close>

definition cents :: "val \<Rightarrow> int" where
  "cents v = (case v of DecV a \<Rightarrow> a | _ \<Rightarrow> 0)"

definition units :: "val \<Rightarrow> int" where
  "units v = (case v of IntV a \<Rightarrow> a | _ \<Rightarrow> 0)"

definition order_row_ok :: "row \<Rightarrow> bool" where
  "order_row_ok r \<longleftrightarrow> (\<exists>i b s t. r ''order_id'' = IntV i \<and> r ''_is_deleted'' = BoolV b \<and> r ''subtotal_amount'' = DecV s \<and> r ''tax_amount'' = DecV t)"

definition item_row_ok :: "row \<Rightarrow> bool" where
  "item_row_ok r \<longleftrightarrow> (\<exists>i b q p t. r ''order_id'' = IntV i \<and> r ''_is_deleted'' = BoolV b \<and> r ''quantity'' = IntV q \<and>
     r ''unit_price'' = DecV p \<and> r ''tax_amount'' = DecV t)"

text \<open>The live items of an order, and their totals in cents.\<close>

definition live_items :: "row list \<Rightarrow> val \<Rightarrow> row list" where
  "live_items items i = filter (\<lambda>r. r ''order_id'' = i \<and> r ''_is_deleted'' = BoolV False) items"

definition live_gross :: "row list \<Rightarrow> val \<Rightarrow> int" where
  "live_gross items i = (\<Sum>r\<leftarrow>live_items items i. units (r ''quantity'') * cents (r ''unit_price''))"

definition live_tax :: "row list \<Rightarrow> val \<Rightarrow> int" where
  "live_tax items i = (\<Sum>r\<leftarrow>live_items items i. cents (r ''tax_amount''))"

text \<open>\<open>decimal(18,2)\<close> holds fewer than \<open>10 ^ 18\<close> cents; a total that does not fit is NULL.\<close>

definition fits :: "int \<Rightarrow> bool" where
  "fits n \<longleftrightarrow> \<bar>n\<bar> < 10 ^ 18"

definition order_settled :: "row list \<Rightarrow> row \<Rightarrow> bool" where
  "order_settled items r \<longleftrightarrow> (let i = r ''order_id''; present = (live_items items i \<noteq> [] \<and> fits (live_gross items i)) in
     if r ''_is_deleted'' = BoolV True then \<not> present
     else present \<and> \<bar>cents (r ''subtotal_amount'') - live_gross items i\<bar> \<le> 1 \<and>
       (if fits (live_tax items i) then \<bar>cents (r ''tax_amount'') - live_tax items i\<bar> \<le> 1 else True))"

definition order_totals :: "row list \<Rightarrow> val \<Rightarrow> row" where
  "order_totals items i = row_of [(''order_id'', i),
     (''actual_gross'', cast_decimal 18 (DecV (live_gross items i))), (''actual_tax'', cast_decimal 18 (DecV (live_tax items i)))]"

lemma cast_fits: "cast_decimal 18 (DecV a) = (if fits a then DecV a else Null)"
  by (auto simp: cast_decimal_def fits_def abs_less_iff)

lemma item_totals_select:
  assumes "list_all item_row_ok items"
  shows "filter (\<lambda>r. r ''order_id'' = i) (item_totals items) = (if live_items items i = [] then [] else [order_totals items i])"
proof -
  let ?live = "where3 (\<lambda>r. not3 (bool3_of (r ''_is_deleted''))) items"
  let ?total = "\<lambda>g. row_of [(''order_id'', hd g ''order_id''),
       (''actual_gross'', cast_decimal 18 (sum_v (map (\<lambda>r. mul_int_dec (r ''quantity'') (r ''unit_price'')) g))),
       (''actual_tax'', cast_decimal 18 (sum_v (map (\<lambda>r. r ''tax_amount'') g)))]"
  have "?live = filter (\<lambda>r. r ''_is_deleted'' = BoolV False) items"
    unfolding where3_def using assms by (intro filter_cong) (auto simp: list_all_iff item_row_ok_def bool3_of_def)
  then have live: "filter (\<lambda>r. r ''order_id'' = i) ?live = live_items items i" by (simp add: live_items_def conj_commute)
  have total: "?total (live_items items i) = order_totals items i" if ne: "live_items items i \<noteq> []"
  proof -
    have row: "mul_int_dec (r ''quantity'') (r ''unit_price'') = DecV (units (r ''quantity'') * cents (r ''unit_price''))"
      "r ''tax_amount'' = DecV (cents (r ''tax_amount''))" "r ''order_id'' = i" if "r \<in> set (live_items items i)" for r
      using that assms by (auto simp: live_items_def list_all_iff item_row_ok_def units_def cents_def)
    have "map (\<lambda>r. mul_int_dec (r ''quantity'') (r ''unit_price'')) (live_items items i) =
        map (\<lambda>r. DecV (units (r ''quantity'') * cents (r ''unit_price''))) (live_items items i)"
      "map (\<lambda>r. r ''tax_amount'') (live_items items i) = map (\<lambda>r. DecV (cents (r ''tax_amount''))) (live_items items i)"
      using row(1,2) by (auto intro!: map_cong)
    then have "sum_v (map (\<lambda>r. mul_int_dec (r ''quantity'') (r ''unit_price'')) (live_items items i)) = DecV (live_gross items i)"
      "sum_v (map (\<lambda>r. r ''tax_amount'') (live_items items i)) = DecV (live_tax items i)"
      by (simp_all only: sum_v_dec_map [OF ne] live_gross_def live_tax_def)
    moreover have "hd (live_items items i) ''order_id'' = i" using row(3) ne by simp
    ultimately show ?thesis by (simp only: order_totals_def)
  qed
  have "filter (\<lambda>r. r ''order_id'' = i) (item_totals items) = map ?total (filter (\<lambda>g. hd g ''order_id'' = i) (groups (\<lambda>r. r ''order_id'') ?live))"
    by (simp add: item_totals_def filter_map o_def row_of_def)
  also have "\<dots> = (if i \<in> (\<lambda>r. r ''order_id'') ` set ?live then [?total (live_items items i)] else [])"
    unfolding groups_select [where f = "\<lambda>r. r ''order_id''"] live by simp
  also have "i \<in> (\<lambda>r. r ''order_id'') ` set ?live \<longleftrightarrow> live_items items i \<noteq> []"
    unfolding live [symmetric] by (auto simp: filter_empty_conv)
  finally show ?thesis using total by simp
qed

text \<open>A join on a key that is unique on the right gives one pair for each row on the left.\<close>

definition joined_row :: "(row \<Rightarrow> row \<Rightarrow> bool3) \<Rightarrow> row list \<Rightarrow> row \<Rightarrow> row" where
  "joined_row on rs l = (case filter (\<lambda>r. holds (on l r)) rs of [] \<Rightarrow> null_row | r # _ \<Rightarrow> r)"

lemma left_join_map:
  assumes "\<And>l. l \<in> set ls \<Longrightarrow> length (filter (\<lambda>r. holds (on l r)) rs) \<le> 1"
  shows "left_join on ls rs = map (\<lambda>l. (l, joined_row on rs l)) ls"
  using assms
proof (induction ls)
  case (Cons l ls)
  from Cons.prems [of l] have "(case filter (\<lambda>r. holds (on l r)) rs of [] \<Rightarrow> [(l, null_row)] | ms \<Rightarrow> map (Pair l) ms) = [(l, joined_row on rs l)]"
    by (auto simp: joined_row_def le_Suc_eq split: list.splits)
  with Cons show ?case by (simp add: left_join_def)
qed (simp add: left_join_def)

lemma holds_order_join: "l ''order_id'' \<noteq> Null \<Longrightarrow> holds (order_join l r) \<longleftrightarrow> r ''order_id'' = l ''order_id''"
  by (auto simp: order_join_def eq3_def)

text \<open>The totals an order is compared with: those of its live items, or none.\<close>

definition totals_or_null :: "row list \<Rightarrow> val \<Rightarrow> row" where
  "totals_or_null items i = (if live_items items i = [] then null_row else order_totals items i)"

lemma joined_totals:
  assumes "list_all item_row_ok items" and "l ''order_id'' = i" "i \<noteq> Null"
  shows "length (filter (\<lambda>r. holds (order_join l r)) (item_totals items)) \<le> 1"
    and "joined_row order_join (item_totals items) l = totals_or_null items i"
  using assms by (simp_all add: holds_order_join joined_row_def item_totals_select totals_or_null_def)

lemma incomplete_iff:
  assumes "order_row_ok r" and "t ''actual_gross'' = totals_or_null items (r ''order_id'') ''actual_gross''"
    and "t ''actual_tax'' = totals_or_null items (r ''order_id'') ''actual_tax''"
  shows "holds (order_incomplete (r, t)) \<longleftrightarrow> \<not> order_settled items r"
proof -
  from assms(1) obtain b s x where r: "r ''_is_deleted'' = BoolV b" "r ''subtotal_amount'' = DecV s" "r ''tax_amount'' = DecV x"
    by (auto simp: order_row_ok_def)
  let ?i = "r ''order_id''"
  have totals: "t ''actual_gross'' = (if live_items items ?i \<noteq> [] \<and> fits (live_gross items ?i) then DecV (live_gross items ?i) else Null)"
    "t ''actual_tax'' = (if live_items items ?i \<noteq> [] \<and> fits (live_tax items ?i) then DecV (live_tax items ?i) else Null)"
    by (auto simp: assms(2,3) totals_or_null_def order_totals_def row_of_def null_row_def cast_fits)
  show ?thesis
  proof (cases b)
    case True
    then show ?thesis
      by (cases "live_items items ?i \<noteq> [] \<and> fits (live_gross items ?i)")
        (simp_all add: order_incomplete_def order_settled_def Let_def r totals bool3_of_def is_null3_def)
  next
    case False
    show ?thesis
    proof (cases "live_items items ?i \<noteq> [] \<and> fits (live_gross items ?i)")
      case present: True
      then show ?thesis using False
        by (cases "fits (live_tax items ?i)")
          (auto simp: order_incomplete_def order_settled_def Let_def r totals bool3_of_def is_null3_def abs_v_def gt3_def cents_def not_le)
    next
      case absent: False
      then have "t ''actual_gross'' = Null" "\<not> order_settled items r"
        using False by (auto simp: totals order_settled_def Let_def r)
      with False show ?thesis by (simp add: order_incomplete_def Let_def r bool3_of_def is_null3_def)
    qed
  qed
qed

definition orders_ok :: "row list \<Rightarrow> bool" where
  "orders_ok orders \<longleftrightarrow> list_all order_row_ok orders \<and> distinct (map (\<lambda>r. r ''order_id'') orders)"

definition readiness_columns :: "string list" where
  "readiness_columns = [''order_id'', ''_is_deleted'', ''subtotal_amount'', ''tax_amount'']"

lemma select_order:
  "select readiness_columns r ''order_id'' = r ''order_id''" "order_row_ok (select readiness_columns r) = order_row_ok r"
  "order_settled items (select readiness_columns r) = order_settled items r"
  "select readiness_columns r ''_is_deleted'' = r ''_is_deleted''"
  by (simp_all add: select_def readiness_columns_def order_row_ok_def order_settled_def)

lemma open_scope_ready:
  assumes "orders_ok orders" and "list_all item_row_ok items"
  shows "source_fact_ready orders items None \<longleftrightarrow>
    list_all (order_settled items) (filter (\<lambda>r. r ''_is_deleted'' = BoolV False) orders)"
proof -
  let ?live = "where3 (\<lambda>r. not3 (bool3_of (r ''_is_deleted''))) (map (select readiness_columns) orders)"
  have live: "set ?live = select readiness_columns ` set (filter (\<lambda>r. r ''_is_deleted'' = BoolV False) orders)"
    using assms(1) by (auto simp: where3_def orders_ok_def list_all_iff order_row_ok_def bool3_of_def select_order)
  have row: "order_row_ok r" "r ''order_id'' \<noteq> Null" if "r \<in> set ?live" for r
  proof -
    from that obtain q where q: "r = select readiness_columns q" "q \<in> set orders" unfolding live by auto
    with assms(1) have "order_row_ok q" by (simp add: orders_ok_def list_all_iff)
    then show "order_row_ok r" "r ''order_id'' \<noteq> Null" unfolding q(1) select_order by (auto simp: order_row_ok_def)
  qed
  have pairs: "left_join order_join ?live (item_totals items) = map (\<lambda>r. (r, totals_or_null items (r ''order_id''))) ?live"
    using left_join_map [of ?live order_join "item_totals items"] joined_totals [OF assms(2) refl] row(2) by (auto cong: map_cong)
  have "source_fact_ready orders items None \<longleftrightarrow> (\<forall>r \<in> set ?live. \<not> holds (order_incomplete (r, totals_or_null items (r ''order_id''))))"
    unfolding source_fact_ready_def Let_def readiness_columns_def [symmetric]
    by (simp add: pairs filter_empty_conv)
  also have "\<dots> \<longleftrightarrow> (\<forall>r \<in> set ?live. order_settled items r)" using incomplete_iff row(1) by auto
  finally show ?thesis unfolding live by (simp add: list_all_iff select_order)
qed

lemma filter_image_single:
  "distinct ks \<Longrightarrow> k \<in> set ks \<Longrightarrow> (\<And>i. i \<in> set ks \<Longrightarrow> P (f i) \<longleftrightarrow> i = k) \<Longrightarrow> filter P (map f ks) = [f k]"
proof (induction ks)
  case (Cons i ks)
  show ?case
  proof (cases "i = k")
    case True
    with Cons.prems have "filter P (map f ks) = []" by (auto simp: filter_empty_conv)
    with True Cons.prems(3) show ?thesis by simp
  next
    case False
    with Cons show ?thesis by simp
  qed
qed simp

lemma length_filter_key: "distinct (map f xs) \<Longrightarrow> length (filter (\<lambda>x. f x = k) xs) \<le> 1"
proof (induction xs)
  case (Cons x xs)
  show ?case
  proof (cases "f x = k")
    case True
    with Cons.prems have "filter (\<lambda>x. f x = k) xs = []" by (auto simp: filter_empty_conv) (metis imageI)
    with True show ?thesis by simp
  qed (use Cons in simp)
qed simp

lemma scoped_ready:
  assumes "orders_ok orders" and "list_all item_row_ok items"
  shows "source_fact_ready orders items (Some ids) \<longleftrightarrow>
    list_all (\<lambda>i. list_ex (\<lambda>r. r ''order_id'' = IntV i \<and> order_settled items r) orders) ids"
proof -
  let ?ks = "sort (remdups ids)" and ?key = "\<lambda>i. row_of [(''order_id'', IntV i)]"
  let ?orders = "map (select readiness_columns) orders"
  have key: "?key i ''order_id'' = IntV i" for i by (simp add: row_of_def)
  have select: "filter (\<lambda>r. holds (order_join (?key i) r)) ?orders = map (select readiness_columns) (filter (\<lambda>r. r ''order_id'' = IntV i) orders)" for i
    by (simp add: holds_order_join key filter_map o_def select_order)
  have single: "length (filter (\<lambda>r. r ''order_id'' = IntV i) orders) \<le> 1" for i
    using assms(1) by (intro length_filter_key) (simp add: orders_ok_def)
  have "left_join order_join (map ?key ?ks) ?orders = map (\<lambda>l. (l, joined_row order_join ?orders l)) (map ?key ?ks)"
  proof (rule left_join_map)
    fix l assume "l \<in> set (map ?key ?ks)"
    then obtain i where l: "l = ?key i" by auto
    show "length (filter (\<lambda>r. holds (order_join l r)) ?orders) \<le> 1" unfolding l select length_map by (rule single)
  qed
  then have orders': "map with_order_id (left_join order_join (map ?key ?ks) ?orders) =
      map (\<lambda>i. (joined_row order_join ?orders (?key i))(''order_id'' := IntV i)) ?ks"
    by (simp add: with_order_id_def key)
  let ?ord = "\<lambda>i. (joined_row order_join ?orders (?key i))(''order_id'' := IntV i)"
  let ?tot = "\<lambda>i. (totals_or_null items (IntV i))(''order_id'' := IntV i)"
  have totals': "map with_order_id (left_join order_join (map ?key ?ks) (item_totals items)) = map ?tot ?ks"
  proof -
    have one: "length (filter (\<lambda>r. holds (order_join l r)) (item_totals items)) \<le> 1" if "l \<in> set (map ?key ?ks)" for l
    proof -
      from that obtain i where "l ''order_id'' = IntV i" using key by auto
      from joined_totals(1) [where l = l and i = "IntV i", OF assms(2) this] show ?thesis by simp
    qed
    have "joined_row order_join (item_totals items) (?key i) = totals_or_null items (IntV i)" for i
      by (rule joined_totals(2) [where i = "IntV i", OF assms(2)]) (simp_all add: key)
    then show ?thesis using left_join_map [of "map ?key ?ks", OF one] by (simp add: with_order_id_def key)
  qed
  have tot: "filter (\<lambda>r. holds (order_join (?ord i) r)) (map ?tot ?ks) = [?tot i]" if "i \<in> set ?ks" for i
    using that by (intro filter_image_single) (auto simp: holds_order_join)
  have pairs: "left_join order_join (map ?ord ?ks) (map ?tot ?ks) = map (\<lambda>i. (?ord i, ?tot i)) ?ks"
  proof -
    have join: "left_join order_join (map ?ord ?ks) (map ?tot ?ks) = map (\<lambda>l. (l, joined_row order_join (map ?tot ?ks) l)) (map ?ord ?ks)"
    proof (rule left_join_map)
      fix l assume "l \<in> set (map ?ord ?ks)"
      then obtain i where i: "l = ?ord i" "i \<in> set ?ks" unfolding set_map by (rule imageE)
      show "length (filter (\<lambda>r. holds (order_join l r)) (map ?tot ?ks)) \<le> 1" unfolding i(1) tot [OF i(2)] by simp
    qed
    have "joined_row order_join (map ?tot ?ks) (?ord i) = ?tot i" if "i \<in> set ?ks" for i
      by (simp only: joined_row_def [of order_join "map ?tot ?ks"] tot [OF that] list.case)
    then show ?thesis unfolding join map_map by (intro map_cong refl) (simp only: comp_apply)
  qed
  have one: "holds (order_incomplete (?ord i, ?tot i)) \<longleftrightarrow> \<not> list_ex (\<lambda>r. r ''order_id'' = IntV i \<and> order_settled items r) orders" for i
  proof (cases "filter (\<lambda>r. r ''order_id'' = IntV i) orders")
    case Nil
    then have "?ord i ''_is_deleted'' = Null" by (simp add: joined_row_def select null_row_def)
    then have "holds (order_incomplete (?ord i, ?tot i))" by (simp add: order_incomplete_def Let_def is_null3_def)
    moreover have "\<not> list_ex (\<lambda>r. r ''order_id'' = IntV i \<and> order_settled items r) orders"
      using Nil by (auto simp: list_ex_iff filter_empty_conv)
    ultimately show ?thesis by simp
  next
    case (Cons r rs)
    then have "r \<in> set (filter (\<lambda>r. r ''order_id'' = IntV i) orders)" by simp
    then have r: "r \<in> set orders" "r ''order_id'' = IntV i" by simp_all
    have uniq: "q = r" if "q \<in> set orders" "q ''order_id'' = IntV i" for q
      using assms(1) that r by (auto simp: orders_ok_def distinct_map inj_on_def)
    have ord: "?ord i = select readiness_columns r"
      by (rule ext) (simp add: joined_row_def select Cons select_order(1) r(2))
    have "order_row_ok (?ord i)" using assms(1) r(1) by (simp add: ord select_order orders_ok_def list_all_iff)
    then have "holds (order_incomplete (?ord i, ?tot i)) \<longleftrightarrow> \<not> order_settled items (?ord i)"
      by (rule incomplete_iff) (simp_all only: fun_upd_apply, simp_all)
    moreover have "order_settled items (?ord i) = order_settled items r" unfolding ord by (rule select_order)
    moreover have "list_ex (\<lambda>r. r ''order_id'' = IntV i \<and> order_settled items r) orders \<longleftrightarrow> order_settled items r"
      unfolding list_ex_iff using r uniq by blast
    ultimately show ?thesis by (simp only:)
  qed
  have "source_fact_ready orders items (Some ids) \<longleftrightarrow> filter (\<lambda>p. holds (order_incomplete p)) (map (\<lambda>i. (?ord i, ?tot i)) ?ks) = []"
    unfolding source_fact_ready_def Let_def readiness_columns_def [symmetric] option.case if_not_P [OF option.distinct(2)] orders' totals' pairs ..
  also have "\<dots> \<longleftrightarrow> (\<forall>i \<in> set ids. list_ex (\<lambda>r. r ''order_id'' = IntV i \<and> order_settled items r) orders)"
    using one by (auto simp: filter_empty_conv)
  finally show ?thesis by (simp add: list_all_iff)
qed

text \<open>
  C28. Gold is published for complete orders only. A scope passes the check before publication exactly when every order of
  it is in Silver and settled: a live order has live items whose gross and tax totals agree with its header within
  a cent, a deleted order has no live items left. The open scope passes exactly when every live order is settled.
\<close>

theorem fact_readiness_exact:
  assumes "orders_ok orders" and "list_all item_row_ok items"
  shows "source_fact_ready orders items affected \<longleftrightarrow> (case affected of
      Some ids \<Rightarrow> list_all (\<lambda>i. list_ex (\<lambda>r. r ''order_id'' = IntV i \<and> order_settled items r) orders) ids
    | None \<Rightarrow> list_all (order_settled items) (filter (\<lambda>r. r ''_is_deleted'' = BoolV False) orders))"
  using scoped_ready [OF assms] open_scope_ready [OF assms] by (cases affected) simp_all

definition demo_order :: "int \<Rightarrow> bool \<Rightarrow> int \<Rightarrow> row" where
  "demo_order i deleted subtotal = row_of [(''order_id'', IntV i), (''_is_deleted'', BoolV deleted), (''subtotal_amount'', DecV subtotal),
     (''tax_amount'', DecV 0)]"

definition demo_item :: "int \<Rightarrow> int \<Rightarrow> int \<Rightarrow> row" where
  "demo_item i quantity price = row_of [(''order_id'', IntV i), (''_is_deleted'', BoolV False), (''quantity'', IntV quantity),
     (''unit_price'', DecV price), (''tax_amount'', DecV 0)]"

theorem fact_readiness_exact_witness:
  "source_fact_ready [demo_order 1 False 3001, demo_order 2 True 0, demo_order 3 False 50] [demo_item 1 3 1000, demo_item 3 1 40] (Some [2, 1]) \<and>
    \<not> source_fact_ready [demo_order 1 False 3001, demo_order 2 True 0, demo_order 3 False 50] [demo_item 1 3 1000, demo_item 3 1 40] (Some [1, 3])"
proof -
  let ?orders = "[demo_order 1 False 3001, demo_order 2 True 0, demo_order 3 False 50]" and ?items = "[demo_item 1 3 1000, demo_item 3 1 40]"
  have ok: "orders_ok ?orders" "list_all item_row_ok ?items"
    by (auto simp: orders_ok_def order_row_ok_def item_row_ok_def demo_order_def demo_item_def row_of_def)
  have "list_all (\<lambda>i. list_ex (\<lambda>r. r ''order_id'' = IntV i \<and> order_settled ?items r) ?orders) [2, 1]"
    "\<not> list_all (\<lambda>i. list_ex (\<lambda>r. r ''order_id'' = IntV i \<and> order_settled ?items r) ?orders) [1, 3]"
    by code_simp+
  then show ?thesis using fact_readiness_exact [OF ok, of "Some [2, 1]"] fact_readiness_exact [OF ok, of "Some [1, 3]"] by simp
qed

end
