(* ===== verification/Locks.thy ===== *)
theory Locks
  imports Merge
begin

text \<open>
  The writer locks (\<open>control/cloud_lock.py\<close>, \<open>local_pipeline_lock\<close> of \<open>control/batch_runs.py\<close>): a
  Delta table with one row for each held lock, taken by a conditional MERGE and good for a lease, and a file
  the kernel locks. Both are polled until a deadline. The timestamps of one MERGE are those of its start, and the
  clocks of the contending drivers agree.
\<close>

section \<open>Names of batches\<close>

definition safe_name_start :: "char \<Rightarrow> bool" where
  "safe_name_start c \<longleftrightarrow> (CHR ''A'' \<le> c \<and> c \<le> CHR ''Z'') \<or> (CHR ''a'' \<le> c \<and> c \<le> CHR ''z'') \<or> (CHR ''0'' \<le> c \<and> c \<le> CHR ''9'')"

text \<open>\<open>[A-Za-z0-9][A-Za-z0-9._-]{0,127}\<close>\<close>

definition safe_batch_name :: "string \<Rightarrow> bool" where
  "safe_batch_name s = (case s of [] \<Rightarrow> False | c # cs \<Rightarrow> safe_name_start c \<and> length cs \<le> 127 \<and>
     list_all (\<lambda>c. safe_name_start c \<or> c \<in> set ''._-'') cs)"

definition validate_safe_name :: "string \<Rightarrow> unit res" where
  "validate_safe_name value = raise_if (\<not> safe_batch_name value) (ValueError ''Unsafe name'')"

section \<open>The lock table\<close>

definition lock_columns :: "string list" where
  "lock_columns = [''lock_name'', ''owner_id'', ''acquired_at'', ''expires_at'']"

text \<open>Timestamps are microseconds.\<close>

definition lease_micros :: "coordination_config \<Rightarrow> int" where
  "lease_micros st = co_cloud_lock_ttl_seconds st * 1000000"

definition lock_contender :: "coordination_config \<Rightarrow> string \<Rightarrow> int \<Rightarrow> row" where
  "lock_contender st owner_id now = row_of [(''lock_name'', StrV (co_cloud_lock_name st)), (''owner_id'', StrV owner_id),
     (''acquired_at'', TsV now), (''expires_at'', TsV (now + lease_micros st))]"

definition lock_merge :: "int \<Rightarrow> merge_stmt" where
  "lock_merge now = \<lparr>ms_on = (\<lambda>s t. eq3 (t ''lock_name'') (s ''lock_name'')),
     ms_matched = [MatchedUpdate (\<lambda>s t. ge3 (TsV now) (t ''expires_at'')) [''owner_id'', ''acquired_at'', ''expires_at'']],
     ms_insert_cond = (\<lambda>s. Some True), ms_insert_cols = lock_columns, ms_delete_not_matched_by_source = False\<rparr>"

definition lock_table_ref :: "lakehouse_config \<Rightarrow> string" where
  "lock_table_ref lh = tr_value (coordination_reference lh)"

text \<open>
  The empty table is created by an append of no rows, after a dangling catalog registration is dropped. When
  the creation fails (\<open>race\<close> is the error of a writer that lost against another), the table must
  exist by then.
\<close>

definition ensure_lock_table :: "lakehouse_config \<Rightarrow> (lake \<Rightarrow> exn option \<times> lake) \<Rightarrow> unit io" where
  "ensure_lock_table lh race s =
     (let ref = lock_table_ref lh in
      if lk_tables s ref \<noteq> None then (Inr (), s)
      else (case race s of
          (None, s') \<Rightarrow> (Inr (), commit_table ref lock_columns (current_rows s' ref) [] s')
        | (Some e, s') \<Rightarrow> if lk_tables s' ref = None then (Inl e, s') else (Inr (), s')))"

text \<open>The row of the lock that \<open>first()\<close> returns: who holds it, until when.\<close>

definition lock_row :: "coordination_config \<Rightarrow> row list \<Rightarrow> (string \<times> int) option" where
  "lock_row st rows = (case where3 (\<lambda>r. eq3 (r ''lock_name'') (StrV (co_cloud_lock_name st))) rows of [] \<Rightarrow> None
     | r # rs \<Rightarrow> (case (r ''owner_id'', r ''expires_at'') of (StrV a, TsV e) \<Rightarrow> Some (a, e) | _ \<Rightarrow> None))"

definition lock_release :: "coordination_config \<Rightarrow> string \<Rightarrow> row list \<Rightarrow> row list" where
  "lock_release st owner_id rows = where3 (\<lambda>r. not3 (coalesce3 (and3 (eq3 (r ''lock_name'') (StrV (co_cloud_lock_name st)))
     (eq3 (r ''owner_id'') (StrV owner_id))) False)) rows"

definition release_lock :: "lakehouse_config \<Rightarrow> coordination_config \<Rightarrow> string \<Rightarrow> lake \<Rightarrow> lake" where
  "release_lock lh st owner_id s =
     (let ref = lock_table_ref lh; rows = current_rows s ref; kept = lock_release st owner_id rows
      in if kept = rows then s else commit_table ref lock_columns kept [] s)"

section \<open>Polling\<close>

datatype attempt = Acquired | Retry | Broken exn

text \<open>
  Both locks poll: an attempt, then the deadline, then a pause. \<open>delay k\<close> is the time that attempt \<open>k\<close> takes;
  the times are seconds of the monotonic clock.
\<close>

partial_function (option) poll ::
    "nat \<Rightarrow> (nat \<Rightarrow> nat) \<Rightarrow> (nat \<Rightarrow> 's \<Rightarrow> attempt \<times> 's) \<Rightarrow> exn \<Rightarrow> nat \<Rightarrow> nat \<Rightarrow> nat \<Rightarrow> 's \<Rightarrow> (unit res \<times> 's) option" where
  "poll pause delay act timeout deadline k clock s =
     (case act k s of (outcome, s') \<Rightarrow>
       (case outcome of
          Acquired \<Rightarrow> Some (Inr (), s')
        | Broken e \<Rightarrow> Some (Inl e, s')
        | Retry \<Rightarrow> if deadline \<le> clock + delay k then Some (Inl timeout, s')
            else poll pause delay act timeout deadline (Suc k) (clock + delay k + pause) s'))"

section \<open>The cloud lock\<close>

text \<open>
  What happens around the attempts of one contender: what others commit before its MERGE and before its read of
  attempt \<open>k\<close>, the start of its MERGE, the errors of both (exception name and message), and the time they take.
\<close>

record contention =
  ct_before_merge :: "nat \<Rightarrow> lake \<Rightarrow> lake"
  ct_before_read :: "nat \<Rightarrow> lake \<Rightarrow> lake"
  ct_now :: "nat \<Rightarrow> int"
  ct_merge_error :: "nat \<Rightarrow> (string \<times> string) option"
  ct_read_error :: "nat \<Rightarrow> (string \<times> string) option"
  ct_delay :: "nat \<Rightarrow> nat"

definition contains_text :: "string \<Rightarrow> string \<Rightarrow> bool" where
  "contains_text needle s \<longleftrightarrow> list_ex (\<lambda>i. take (length needle) (drop i s) = needle) [0..<Suc (length s)]"

text \<open>\<open>lower\<close> of ASCII text.\<close>

definition lower_char :: "char \<Rightarrow> char" where
  "lower_char c = (if CHR ''A'' \<le> c \<and> c \<le> CHR ''Z'' then char_of (of_char c + (32 :: nat)) else c)"

definition is_concurrent_delta_error :: "string \<times> string \<Rightarrow> bool" where
  "is_concurrent_delta_error err = (case err of (name, message) \<Rightarrow> contains_text ''Concurrent'' name \<or>
     contains_text ''DELTA_CONCURRENT'' message \<or> contains_text ''concurrent'' (map lower_char message))"

definition failed_attempt :: "string \<times> string \<Rightarrow> attempt" where
  "failed_attempt err = (if is_concurrent_delta_error err then Retry
     else Broken (PipelineLockUnavailable ''Could not acquire cloud pipeline lock''))"

definition cloud_attempt ::
    "lakehouse_config \<Rightarrow> coordination_config \<Rightarrow> string \<Rightarrow> contention \<Rightarrow> nat \<Rightarrow> lake \<Rightarrow> attempt \<times> lake" where
  "cloud_attempt lh st owner_id ct k s =
     (let ref = lock_table_ref lh; s1 = ct_before_merge ct k s in
      case ct_merge_error ct k of
        Some err \<Rightarrow> (failed_attempt err, s1)
      | None \<Rightarrow> (case run_merge ref (lock_merge (ct_now ct k)) [lock_contender st owner_id (ct_now ct k)] s1 of
          (Inl e, s2) \<Rightarrow> (Broken (PipelineLockUnavailable ''Could not acquire cloud pipeline lock''), s2)
        | (Inr _, s2) \<Rightarrow> (let s3 = ct_before_read ct k s2 in
            case ct_read_error ct k of
              Some err \<Rightarrow> (failed_attempt err, s3)
            | None \<Rightarrow> (if map_option fst (lock_row st (current_rows s3 ref)) = Some owner_id then Acquired else Retry, s3))))"

definition cloud_pipeline_lock :: "lakehouse_config \<Rightarrow> coordination_config \<Rightarrow> string \<Rightarrow>
    (lake \<Rightarrow> exn option \<times> lake) \<Rightarrow> contention \<Rightarrow> 'a io \<Rightarrow> lake \<Rightarrow> ('a res \<times> lake) option" where
  "cloud_pipeline_lock lh st owner_id race ct body s =
     (case ensure_lock_table lh race s of (Inl e, s1) \<Rightarrow> Some (Inl e, s1)
      | (Inr _, s1) \<Rightarrow> (case poll 5 (ct_delay ct) (cloud_attempt lh st owner_id ct)
            (PipelineLockUnavailable ''Timed out waiting for cloud pipeline lock'') (nat (co_lock_wait_seconds st)) 0 0 s1 of
          None \<Rightarrow> None
        | Some (Inl e, s2) \<Rightarrow> Some (Inl e, s2)
        | Some (Inr _, s2) \<Rightarrow> (case body s2 of (r, s3) \<Rightarrow> Some (r, release_lock lh st owner_id s3))))"

section \<open>The local lock\<close>

text \<open>The lock file: who holds the kernel lock, and the text, which names the last owner.\<close>

record lock_file =
  lf_locked_by :: "string option"
  lf_text :: string

definition flock_attempt :: "string \<Rightarrow> lock_file \<Rightarrow> lock_file" where
  "flock_attempt owner f = (if lf_locked_by f = None then f\<lparr>lf_locked_by := Some owner\<rparr> else f)"

definition flock_release :: "string \<Rightarrow> lock_file \<Rightarrow> lock_file" where
  "flock_release owner f = (if lf_locked_by f = Some owner then f\<lparr>lf_locked_by := None\<rparr> else f)"

definition local_attempt :: "string \<Rightarrow> (nat \<Rightarrow> lock_file \<Rightarrow> lock_file) \<Rightarrow> nat \<Rightarrow> lock_file \<Rightarrow> attempt \<times> lock_file" where
  "local_attempt owner others k f = (let f' = flock_attempt owner (others k f) in
     (if lf_locked_by f' = Some owner then Acquired else Retry, f'))"

definition local_pipeline_lock :: "string \<Rightarrow> nat \<Rightarrow> (nat \<Rightarrow> lock_file \<Rightarrow> lock_file) \<Rightarrow> (nat \<Rightarrow> nat) \<Rightarrow>
    (lock_file \<Rightarrow> 'a res \<times> lock_file) \<Rightarrow> lock_file \<Rightarrow> ('a res \<times> lock_file) option" where
  "local_pipeline_lock batch_id wait_timeout_seconds others delay body f =
     (case poll 1 delay (local_attempt batch_id others) (RuntimeError ''Another local pipeline run is active'')
         wait_timeout_seconds 0 0 f of
        None \<Rightarrow> None
      | Some (Inl e, f1) \<Rightarrow> Some (Inl e, f1)
      | Some (Inr _, f1) \<Rightarrow> (case body (f1\<lparr>lf_text := batch_id\<rparr>) of (r, f2) \<Rightarrow> Some (r, flock_release batch_id f2)))"

section \<open>Polling ends\<close>

text \<open>The state before attempt \<open>k + j\<close>, when the ones before it were made.\<close>

primrec polled :: "(nat \<Rightarrow> 's \<Rightarrow> attempt \<times> 's) \<Rightarrow> nat \<Rightarrow> 's \<Rightarrow> nat \<Rightarrow> 's" where
  "polled act k s 0 = s"
| "polled act k s (Suc j) = polled act (Suc k) (snd (act k s)) j"

definition attempt_result :: "exn \<Rightarrow> attempt \<times> 's \<Rightarrow> unit res \<times> 's" where
  "attempt_result timeout p = (case fst p of Acquired \<Rightarrow> Inr () | Broken e \<Rightarrow> Inl e | Retry \<Rightarrow> Inl timeout, snd p)"

text \<open>The time after attempt \<open>k + j\<close>.\<close>

definition waited :: "nat \<Rightarrow> (nat \<Rightarrow> nat) \<Rightarrow> nat \<Rightarrow> nat \<Rightarrow> nat" where
  "waited pause delay k j = sum_list (map (\<lambda>i. delay (k + i)) [0..<Suc j]) + pause * j"

definition polls_until ::
    "nat \<Rightarrow> (nat \<Rightarrow> nat) \<Rightarrow> (nat \<Rightarrow> 's \<Rightarrow> attempt \<times> 's) \<Rightarrow> nat \<Rightarrow> nat \<Rightarrow> nat \<Rightarrow> 's \<Rightarrow> nat \<Rightarrow> bool" where
  "polls_until pause delay act deadline k clock s j \<longleftrightarrow>
     list_all (\<lambda>i. fst (act (k + i) (polled act k s i)) = Retry \<and> clock + waited pause delay k i < deadline) [0..<j] \<and>
     (fst (act (k + j) (polled act k s j)) = Retry \<longrightarrow> deadline \<le> clock + waited pause delay k j)"

lemma waited_Suc: "waited pause delay k (Suc j) = delay k + pause + waited pause delay (Suc k) j"
proof -
  have "[0..<Suc (Suc j)] = 0 # map Suc [0..<Suc j]" by (simp add: map_Suc_upt upt_conv_Cons del: upt_Suc)
  then show ?thesis unfolding waited_def by (simp add: o_def del: upt_Suc)
qed

lemma list_all_upt_Suc: "list_all P [0..<Suc j] \<longleftrightarrow> P 0 \<and> list_all (\<lambda>i. P (Suc i)) [0..<j]"
proof -
  have "[0..<Suc j] = 0 # map Suc [0..<j]" by (simp add: map_Suc_upt upt_conv_Cons del: upt_Suc)
  then show ?thesis by (simp add: list.pred_map o_def del: upt_Suc)
qed

lemma poll_ends:
  assumes "0 < pause"
  shows "\<exists>j. polls_until pause delay act deadline k clock s j \<and>
    poll pause delay act timeout deadline k clock s = Some (attempt_result timeout (act (k + j) (polled act k s j)))"
  using assms
proof (induction "deadline - clock" arbitrary: k clock s rule: less_induct)
  case less
  obtain outcome s' where act: "act k s = (outcome, s')" by (cases "act k s")
  show ?case
  proof (cases "outcome = Retry \<and> clock + delay k < deadline")
    case False
    then have "polls_until pause delay act deadline k clock s 0"
      by (simp add: polls_until_def act waited_def) linarith
    moreover have "poll pause delay act timeout deadline k clock s = Some (attempt_result timeout (act (k + 0) (polled act k s 0)))"
      using False by (subst poll.simps) (cases outcome; simp add: act attempt_result_def)
    ultimately show ?thesis by blast
  next
    case True
    then have "deadline - (clock + delay k + pause) < deadline - clock" using less.prems by linarith
    from less.hyps [OF this less.prems, of "Suc k" s'] obtain j where
        j: "polls_until pause delay act deadline (Suc k) (clock + delay k + pause) s' j"
        "poll pause delay act timeout deadline (Suc k) (clock + delay k + pause) s' =
          Some (attempt_result timeout (act (Suc k + j) (polled act (Suc k) s' j)))" by blast
    have "poll pause delay act timeout deadline k clock s = poll pause delay act timeout deadline (Suc k) (clock + delay k + pause) s'"
      using True by (subst poll.simps) (simp add: act)
    moreover have "polls_until pause delay act deadline k clock s (Suc j)"
    proof -
      have *: "clock + waited pause delay k (Suc i) = clock + delay k + pause + waited pause delay (Suc k) i" for i
        by (simp add: waited_Suc)
      show ?thesis
        using j(1) True unfolding polls_until_def list_all_upt_Suc * by (simp add: act waited_def)
    qed
    ultimately show ?thesis using j(2) by (intro exI [of _ "Suc j"]) (simp add: act)
  qed
qed

lemma polls_bounded:
  assumes "polls_until pause delay act deadline k clock s j"
  shows "j = 0 \<or> clock + pause * (j - 1) < deadline"
proof (cases j)
  case (Suc i)
  with assms have "clock + waited pause delay k i < deadline" by (simp add: polls_until_def list_all_iff)
  then show ?thesis by (simp add: Suc waited_def)
qed simp

text \<open>
  C19. Waiting for a writer lock ends. Whatever the other writers commit, whatever the attempts raise
  and however long they take, \<open>cloud_pipeline_lock\<close> makes at most one attempt at the start and one for every
  five seconds of the configured wait, and then returns: the result is that of the last attempt, and it times out
  only after the configured wait.
\<close>

theorem cloud_lock_wait_bounded:
  "\<exists>j. j \<le> (nat (co_lock_wait_seconds st) + 4) div 5 \<and>
    polls_until 5 (ct_delay ct) (cloud_attempt lh st owner_id ct) (nat (co_lock_wait_seconds st)) 0 0 s j \<and>
    poll 5 (ct_delay ct) (cloud_attempt lh st owner_id ct) timeout (nat (co_lock_wait_seconds st)) 0 0 s =
      Some (attempt_result timeout (cloud_attempt lh st owner_id ct j (polled (cloud_attempt lh st owner_id ct) 0 s j))) \<and>
    cloud_pipeline_lock lh st owner_id race ct body s0 \<noteq> None"
proof -
  let ?act = "cloud_attempt lh st owner_id ct" and ?wait = "nat (co_lock_wait_seconds st)"
  have ends: "\<exists>j. polls_until 5 (ct_delay ct) ?act ?wait 0 0 s j \<and> poll 5 (ct_delay ct) ?act timeout ?wait 0 0 s =
      Some (attempt_result timeout (?act j (polled ?act 0 s j)))" for s timeout
    using poll_ends [of 5 "ct_delay ct" ?act ?wait 0 0 s timeout] by simp
  have returns: "poll 5 (ct_delay ct) ?act e ?wait 0 0 s' \<noteq> None" for s' e
    using ends [of s' e] by auto
  have "cloud_pipeline_lock lh st owner_id race ct body s0 \<noteq> None"
    by (simp add: cloud_pipeline_lock_def returns split: prod.split sum.split option.split)
  moreover have "j \<le> (?wait + 4) div 5" if "polls_until 5 (ct_delay ct) ?act ?wait 0 0 s j" for j
    using polls_bounded [OF that] by auto
  ultimately show ?thesis using ends [of s timeout] by blast
qed

section \<open>What one MERGE does to the lock\<close>

definition acquire_rows :: "coordination_config \<Rightarrow> string \<Rightarrow> int \<Rightarrow> row list \<Rightarrow> row list" where
  "acquire_rows st owner_id now rows = (case merge_exec (lock_merge now) [lock_contender st owner_id now] rows of
     Inl e \<Rightarrow> rows | Inr (rows', touched) \<Rightarrow> rows')"

text \<open>At most one row of the lock, with an owner and an expiry.\<close>

definition is_lock :: "coordination_config \<Rightarrow> row \<Rightarrow> bool" where
  "is_lock st r \<longleftrightarrow> r ''lock_name'' = StrV (co_cloud_lock_name st)"

definition lock_rows_ok :: "coordination_config \<Rightarrow> row list \<Rightarrow> bool" where
  "lock_rows_ok st rows \<longleftrightarrow> length (filter (is_lock st) rows) \<le> 1 \<and>
     list_all (\<lambda>r. is_lock st r \<longrightarrow> (\<exists>a e. r ''owner_id'' = StrV a \<and> r ''expires_at'' = TsV e)) rows"

lemma lock_row_filter: "lock_row st rows = (case filter (is_lock st) rows of [] \<Rightarrow> None
     | r # rs \<Rightarrow> (case (r ''owner_id'', r ''expires_at'') of (StrV a, TsV e) \<Rightarrow> Some (a, e) | _ \<Rightarrow> None))"
proof -
  have "(\<lambda>r. holds (eq3 (r ''lock_name'') (StrV (co_cloud_lock_name st)))) = is_lock st"
    by (auto simp: fun_eq_iff is_lock_def holds_def eq3_def)
  then show ?thesis by (simp add: lock_row_def where3_def)
qed

definition granted_row :: "coordination_config \<Rightarrow> string \<Rightarrow> int \<Rightarrow> row \<Rightarrow> row" where
  "granted_row st owner_id now = update_from [''owner_id'', ''acquired_at'', ''expires_at''] (lock_contender st owner_id now)"

definition expired_row :: "int \<Rightarrow> row \<Rightarrow> bool" where
  "expired_row now r \<longleftrightarrow> holds (ge3 (TsV now) (r ''expires_at''))"

lemma contender_matches: "matches (lock_merge now) [lock_contender st owner_id now] r = (if is_lock st r then [lock_contender st owner_id now] else [])"
  by (auto simp: matches_def lock_merge_def lock_contender_def row_of_def is_lock_def eq3_def holds_def)

definition grant_expired :: "coordination_config \<Rightarrow> string \<Rightarrow> int \<Rightarrow> row list \<Rightarrow> row list" where
  "grant_expired st owner_id now = map (\<lambda>r. if is_lock st r \<and> expired_row now r then granted_row st owner_id now r else r)"

lemma lock_merge_rows:
  "concat (map (merge_target_row (lock_merge now) [lock_contender st owner_id now]) rows) = grant_expired st owner_id now rows"
  "merge_inserts (lock_merge now) [lock_contender st owner_id now] rows =
    (if filter (is_lock st) rows = [] then [select lock_columns (lock_contender st owner_id now)] else [])"
proof -
  let ?m = "lock_merge now" and ?c = "lock_contender st owner_id now"
  have target: "merge_target_row ?m [?c] r = [if is_lock st r \<and> expired_row now r then granted_row st owner_id now r else r]" for r
    unfolding merge_target_row_def contender_matches
    by (simp add: lock_merge_def expired_row_def granted_row_def)
  then show "concat (map (merge_target_row ?m [?c]) rows) = grant_expired st owner_id now rows"
    by (induction rows) (simp_all add: grant_expired_def)
  have on: "holds (ms_on ?m ?c r) \<longleftrightarrow> is_lock st r" for r
    by (auto simp: lock_merge_def lock_contender_def row_of_def is_lock_def eq3_def holds_def)
  have "holds (ms_insert_cond ?m ?c)" "ms_insert_cols ?m = lock_columns" by (simp_all add: lock_merge_def holds_def)
  then show "merge_inserts ?m [?c] rows = (if filter (is_lock st) rows = [] then [select lock_columns ?c] else [])"
    by (simp add: merge_inserts_def on filter_empty_conv)
qed

lemma lock_clause: "clause_fires (ms_matched (lock_merge now)) s r = expired_row now r" "\<not> ms_delete_not_matched_by_source (lock_merge now)"
  "ms_matched (lock_merge now) \<noteq> []" "merge_rewrites (lock_merge now) s r"
  by (simp_all add: lock_merge_def expired_row_def merge_rewrites_def lock_columns_def)

lemma lock_merge_exec:
  "\<exists>touched. merge_exec (lock_merge now) [lock_contender st owner_id now] rows = Inr (acquire_rows st owner_id now rows, touched) \<and>
    (touched \<or> acquire_rows st owner_id now rows = rows)"
  and acquire_rows_eq: "acquire_rows st owner_id now rows = grant_expired st owner_id now rows @
    (if filter (is_lock st) rows = [] then [select lock_columns (lock_contender st owner_id now)] else [])"
proof -
  let ?m = "lock_merge now" and ?c = "lock_contender st owner_id now"
  let ?touched = "merge_inserts ?m [?c] rows \<noteq> [] \<or> (\<exists>t \<in> set rows. is_lock st t)"
  have exec: "merge_exec ?m [?c] rows = Inr (grant_expired st owner_id now rows @ merge_inserts ?m [?c] rows, ?touched)"
    by (simp add: merge_exec_def contender_matches lock_merge_rows(1) lock_clause if_distrib [where f = "case_list _ _"] cong: if_cong)
  then have rows: "acquire_rows st owner_id now rows = grant_expired st owner_id now rows @ merge_inserts ?m [?c] rows"
    by (simp add: acquire_rows_def)
  then show "acquire_rows st owner_id now rows = grant_expired st owner_id now rows @
    (if filter (is_lock st) rows = [] then [select lock_columns ?c] else [])" by (simp only: lock_merge_rows(2))
  have "acquire_rows st owner_id now rows = rows" if "\<not> ?touched"
  proof -
    have "grant_expired st owner_id now rows = rows" unfolding grant_expired_def using that by (intro map_idI) auto
    with that show ?thesis by (simp add: rows)
  qed
  then show "\<exists>touched. merge_exec ?m [?c] rows = Inr (acquire_rows st owner_id now rows, touched) \<and>
      (touched \<or> acquire_rows st owner_id now rows = rows)"
    using exec rows by auto
qed

lemma granted_row_fields:
  "is_lock st (granted_row st owner_id now r) = is_lock st r"
  "granted_row st owner_id now r ''owner_id'' = StrV owner_id" "granted_row st owner_id now r ''expires_at'' = TsV (now + lease_micros st)"
  by (simp_all add: granted_row_def update_from_def is_lock_def lock_contender_def row_of_def)

lemma contender_fields:
  "is_lock st (select lock_columns (lock_contender st owner_id now))"
  "select lock_columns (lock_contender st owner_id now) ''owner_id'' = StrV owner_id"
  "select lock_columns (lock_contender st owner_id now) ''expires_at'' = TsV (now + lease_micros st)"
  by (simp_all add: is_lock_def select_def lock_columns_def lock_contender_def row_of_def)

lemma lock_rows_cases:
  assumes "lock_rows_ok st rows"
  obtains "filter (is_lock st) rows = []" "lock_row st rows = None"
  | r a e where "filter (is_lock st) rows = [r]" "r ''owner_id'' = StrV a" "r ''expires_at'' = TsV e" "lock_row st rows = Some (a, e)"
proof (cases "filter (is_lock st) rows")
  case Nil
  with that(1) show thesis by (simp add: lock_row_filter)
next
  case (Cons r rs)
  with assms have rs: "rs = []" by (simp add: lock_rows_ok_def)
  have "r \<in> set (filter (is_lock st) rows)" by (simp add: Cons)
  with assms obtain a e where "r ''owner_id'' = StrV a" "r ''expires_at'' = TsV e" by (auto simp: lock_rows_ok_def list_all_iff)
  with Cons rs that(2) [of r a e] show thesis by (simp add: lock_row_filter)
qed

lemma acquire_lock_row:
  assumes "lock_rows_ok st rows"
  shows "lock_row st (acquire_rows st owner_id now rows) = (case lock_row st rows of
      None \<Rightarrow> Some (owner_id, now + lease_micros st)
    | Some (a, e) \<Rightarrow> if e \<le> now then Some (owner_id, now + lease_micros st) else Some (a, e))"
    and "lock_rows_ok st (acquire_rows st owner_id now rows)"
    and "\<And>a e. lock_row st rows = Some (a, e) \<Longrightarrow> now < e \<Longrightarrow> acquire_rows st owner_id now rows = rows"
proof -
  let ?f = "\<lambda>r. if is_lock st r \<and> expired_row now r then granted_row st owner_id now r else r"
  have keep: "is_lock st (?f r) = is_lock st r" for r by (simp add: granted_row_fields)
  have locks: "filter (is_lock st) (map ?f rows) = map ?f (filter (is_lock st) rows)"
    by (simp add: filter_map o_def keep)
  have "(lock_row st (acquire_rows st owner_id now rows) = (case lock_row st rows of
      None \<Rightarrow> Some (owner_id, now + lease_micros st)
    | Some (a, e) \<Rightarrow> if e \<le> now then Some (owner_id, now + lease_micros st) else Some (a, e))) \<and>
    lock_rows_ok st (acquire_rows st owner_id now rows) \<and>
    (\<forall>a e. lock_row st rows = Some (a, e) \<longrightarrow> now < e \<longrightarrow> acquire_rows st owner_id now rows = rows)"
    using assms
  proof (cases rule: lock_rows_cases)
    case 1
    have other: "\<not> is_lock st r" if "r \<in> set rows" for r using 1(1) that by (auto simp: filter_empty_conv)
    then have "grant_expired st owner_id now rows = rows" unfolding grant_expired_def by (intro map_idI) simp
    then have rows: "acquire_rows st owner_id now rows = rows @ [select lock_columns (lock_contender st owner_id now)]"
      by (simp add: acquire_rows_eq 1(1))
    show ?thesis unfolding rows using 1 other
      by (auto simp: lock_row_filter lock_rows_ok_def contender_fields list_all_iff)
  next
    case (2 r a e)
    have ex: "expired_row now r \<longleftrightarrow> e \<le> now" by (auto simp: expired_row_def 2(3) ge3_def holds_def)
    have rows: "acquire_rows st owner_id now rows = map ?f rows" by (simp add: acquire_rows_eq grant_expired_def 2(1))
    have lock: "filter (is_lock st) (map ?f rows) = [?f r]" unfolding locks 2(1) by simp
    have r: "is_lock st r" using 2(1) by (metis filter_eq_Cons_iff)
    have in_lock: "q = r" if "q \<in> set rows" "is_lock st q" for q
    proof -
      have "q \<in> set (filter (is_lock st) rows)" using that by simp
      then show ?thesis unfolding 2(1) by simp
    qed
    have "lock_row st (map ?f rows) = (if e \<le> now then Some (owner_id, now + lease_micros st) else Some (a, e))"
      unfolding lock_row_filter lock by (simp add: r ex granted_row_fields 2)
    moreover have "lock_rows_ok st (map ?f rows)"
      using assms lock by (auto simp: lock_rows_ok_def list_all_iff granted_row_fields)
    moreover have "map ?f rows = rows" if "now < e"
    proof (rule map_idI)
      fix q assume q: "q \<in> set rows"
      have "q = r" if "is_lock st q" using q that in_lock by blast
      with that ex show "?f q = q" by auto
    qed
    ultimately show ?thesis unfolding rows by (simp add: 2(4))
  qed
  then show "lock_row st (acquire_rows st owner_id now rows) = (case lock_row st rows of
      None \<Rightarrow> Some (owner_id, now + lease_micros st)
    | Some (a, e) \<Rightarrow> if e \<le> now then Some (owner_id, now + lease_micros st) else Some (a, e))"
    "lock_rows_ok st (acquire_rows st owner_id now rows)"
    "\<And>a e. lock_row st rows = Some (a, e) \<Longrightarrow> now < e \<Longrightarrow> acquire_rows st owner_id now rows = rows" by blast+
qed

lemma and3_None: "and3 None (Some a) = (if a then None else Some False)" "and3 (Some a) None = (if a then None else Some False)"
  "and3 (Some a) (Some b) = Some (a \<and> b)"
  by (cases a; cases b; simp)+

lemma release_lock_row:
  assumes "lock_rows_ok st rows"
  shows "lock_row st (lock_release st owner_id rows) = (case lock_row st rows of None \<Rightarrow> None
      | Some (a, e) \<Rightarrow> if a = owner_id then None else Some (a, e))"
    and "lock_rows_ok st (lock_release st owner_id rows)"
    and "map_option fst (lock_row st rows) \<noteq> Some owner_id \<Longrightarrow> lock_release st owner_id rows = rows"
proof -
  let ?keep = "\<lambda>r. \<not> (is_lock st r \<and> r ''owner_id'' = StrV owner_id)"
  have rel: "lock_release st owner_id rows = filter ?keep rows"
    unfolding lock_release_def where3_def
    by (rule filter_cong [OF refl]) (auto simp: is_lock_def eq3_def holds_def coalesce3_def and3_None)
  have locks: "filter (is_lock st) (filter ?keep rows) = filter ?keep (filter (is_lock st) rows)"
    by (simp add: conj_commute)
  have ok: "lock_rows_ok st (filter ?keep rows)"
    using assms length_filter_le [of ?keep "filter (is_lock st) rows"]
    unfolding lock_rows_ok_def locks by (auto simp: list_all_iff)
  have "(lock_row st (filter ?keep rows) = (case lock_row st rows of None \<Rightarrow> None
      | Some (a, e) \<Rightarrow> if a = owner_id then None else Some (a, e))) \<and>
    (map_option fst (lock_row st rows) \<noteq> Some owner_id \<longrightarrow> filter ?keep rows = rows)"
    using assms
  proof (cases rule: lock_rows_cases)
    case 1
    then have "filter ?keep rows = rows" by (intro filter_True) (auto simp: filter_empty_conv)
    with 1 show ?thesis by (simp add: lock_row_filter locks)
  next
    case (2 r a e)
    have r: "is_lock st r" using 2(1) by (metis filter_eq_Cons_iff)
    have in_lock: "q = r" if "q \<in> set rows" "is_lock st q" for q
    proof -
      have "q \<in> set (filter (is_lock st) rows)" using that by simp
      then show ?thesis unfolding 2(1) by simp
    qed
    have "filter ?keep rows = rows" if "a \<noteq> owner_id"
    proof (rule filter_True, rule ballI)
      fix q assume q: "q \<in> set rows"
      have "q = r" if "is_lock st q" using q that in_lock by blast
      with 2(2) that show "?keep q" by auto
    qed
    moreover have "filter (is_lock st) (filter ?keep rows) = (if a = owner_id then [] else [r])"
      unfolding locks 2(1) using 2(2) r by simp
    then have "lock_row st (filter ?keep rows) = (if a = owner_id then None else Some (a, e))"
      unfolding lock_row_filter by (simp add: 2 del: filter_filter)
    ultimately show ?thesis using 2(4) by simp
  qed
  with ok show "lock_row st (lock_release st owner_id rows) = (case lock_row st rows of None \<Rightarrow> None
      | Some (a, e) \<Rightarrow> if a = owner_id then None else Some (a, e))"
    "lock_rows_ok st (lock_release st owner_id rows)"
    "map_option fst (lock_row st rows) \<noteq> Some owner_id \<Longrightarrow> lock_release st owner_id rows = rows" unfolding rel by blast+
qed

section \<open>The contract of a writer lock\<close>

text \<open>
  What both locks promise to the writers: a free or stale lock goes to the first that tries, a held one stays with its
  holder whoever tries, and releasing takes it only from its holder.
\<close>

locale advisory_lock =
  fixes grab :: "string \<Rightarrow> 's \<Rightarrow> 's" and release :: "string \<Rightarrow> 's \<Rightarrow> 's"
    and holder :: "'s \<Rightarrow> string option" and stale :: "'s \<Rightarrow> bool" and invar :: "'s \<Rightarrow> bool"
  assumes grab_takes: "invar s \<Longrightarrow> holder s = None \<or> stale s \<Longrightarrow> holder (grab a s) = Some a \<and> \<not> stale (grab a s)"
    and grab_respects: "invar s \<Longrightarrow> holder s = Some b \<Longrightarrow> \<not> stale s \<Longrightarrow> grab a s = s"
    and grab_invar: "invar s \<Longrightarrow> invar (grab a s)"
    and release_frees: "invar s \<Longrightarrow> holder s = Some a \<Longrightarrow> holder (release a s) = None"
    and release_other: "invar s \<Longrightarrow> holder s \<noteq> Some a \<Longrightarrow> release a s = s"
    and release_invar: "invar s \<Longrightarrow> invar (release a s)"
begin

lemma grabs_respect: "invar s \<Longrightarrow> holder s = Some b \<Longrightarrow> \<not> stale s \<Longrightarrow> fold grab others s = s"
  by (induction others) (simp_all add: grab_respects)

lemma first_takes: "invar s \<Longrightarrow> holder s = None \<or> stale s \<Longrightarrow> fold grab (a # others) s = grab a s"
  using grabs_respect [of "grab a s" a others] grab_takes [of s a] by (simp add: grab_invar)

lemma handover:
  assumes "invar s" and "holder s = Some b"
  shows "holder (fold grab (a # others) (release b s)) = Some a"
  using first_takes [of "release b s" a others] grab_takes [of "release b s" a] release_frees [OF assms] release_invar [OF assms(1)]
  by simp

lemma foreign_releases: "invar s \<Longrightarrow> holder s = Some b \<Longrightarrow> b \<notin> set others \<Longrightarrow> fold release others s = s"
  by (induction others) (simp_all add: release_other)

end

definition lock_owner :: "coordination_config \<Rightarrow> row list \<Rightarrow> string option" where
  "lock_owner st rows = map_option fst (lock_row st rows)"

definition lock_stale :: "coordination_config \<Rightarrow> int \<Rightarrow> row list \<Rightarrow> bool" where
  "lock_stale st now rows \<longleftrightarrow> (case lock_row st rows of None \<Rightarrow> False | Some (a, e) \<Rightarrow> e \<le> now)"

interpretation cloud_lock: advisory_lock "\<lambda>a. acquire_rows st a now" "lock_release st" "lock_owner st" "lock_stale st now"
    "\<lambda>rows. lock_rows_ok st rows \<and> 0 < lease_micros st" for st now
proof
  fix rows a assume ok: "lock_rows_ok st rows \<and> 0 < lease_micros st"
  note acq = acquire_lock_row [OF conjunct1 [OF ok], where owner_id = a and now = now]
    and rel = release_lock_row [OF conjunct1 [OF ok], where owner_id = a]
  show "lock_owner st (acquire_rows st a now rows) = Some a \<and> \<not> lock_stale st now (acquire_rows st a now rows)"
    if "lock_owner st rows = None \<or> lock_stale st now rows"
    using that ok by (auto simp: lock_owner_def lock_stale_def acq(1) split: option.splits)
  show "lock_rows_ok st (acquire_rows st a now rows) \<and> 0 < lease_micros st" using ok acq(2) by simp
  show "lock_rows_ok st (lock_release st a rows) \<and> 0 < lease_micros st" using ok rel(2) by simp
  show "lock_owner st (lock_release st a rows) = None" if "lock_owner st rows = Some a"
    using that by (auto simp: lock_owner_def rel(1))
  show "lock_release st a rows = rows" if "lock_owner st rows \<noteq> Some a"
    using that rel(3) by (simp add: lock_owner_def)
  show "acquire_rows st a now rows = rows" if "lock_owner st rows = Some b" "\<not> lock_stale st now rows" for b
  proof -
    from that obtain e where "lock_row st rows = Some (b, e)" "now < e" by (auto simp: lock_owner_def lock_stale_def)
    then show ?thesis by (rule acq(3))
  qed
qed

interpretation local_lock: advisory_lock flock_attempt flock_release lf_locked_by "\<lambda>f. False" "\<lambda>f. True"
  by unfold_locales (auto simp: flock_attempt_def flock_release_def)

section \<open>Contending writers\<close>

text \<open>
  The rows of the lock table, the common clock, the writers inside their critical section with the expiry
  they read, and the ones that are done.
\<close>

record lock_system =
  ls_rows :: "row list"
  ls_clock :: int
  ls_inside :: "string \<Rightarrow> int option"
  ls_done :: "string set"

inductive lock_step :: "coordination_config \<Rightarrow> lock_system \<Rightarrow> lock_system \<Rightarrow> bool" for st :: coordination_config where
  tick: "ls_clock s \<le> t \<Longrightarrow> lock_step st s (s\<lparr>ls_clock := t\<rparr>)"
| contend: "a \<notin> ls_done s \<Longrightarrow> lock_step st s (s\<lparr>ls_rows := acquire_rows st a (ls_clock s) (ls_rows s)\<rparr>)"
| enter: "lock_row st (ls_rows s) = Some (a, e) \<Longrightarrow> a \<notin> ls_done s \<Longrightarrow> lock_step st s (s\<lparr>ls_inside := (ls_inside s)(a \<mapsto> e)\<rparr>)"
| leave: "ls_inside s a = Some e \<Longrightarrow> lock_step st s (s\<lparr>ls_rows := lock_release st a (ls_rows s),
     ls_inside := (ls_inside s)(a := None), ls_done := insert a (ls_done s)\<rparr>)"
| vanish: "lock_step st s (s\<lparr>ls_inside := (ls_inside s)(a := None), ls_done := insert a (ls_done s)\<rparr>)"

definition lock_start :: "int \<Rightarrow> lock_system" where
  "lock_start now = \<lparr>ls_rows = [], ls_clock = now, ls_inside = (\<lambda>a. None), ls_done = {}\<rparr>"

inductive lock_reachable :: "coordination_config \<Rightarrow> lock_system \<Rightarrow> bool" for st :: coordination_config where
  start: "lock_reachable st (lock_start now)"
| step: "lock_reachable st s \<Longrightarrow> lock_step st s s' \<Longrightarrow> lock_reachable st s'"

definition lease_invar :: "coordination_config \<Rightarrow> lock_system \<Rightarrow> bool" where
  "lease_invar st s \<longleftrightarrow> lock_rows_ok st (ls_rows s) \<and>
     (\<forall>a e. ls_inside s a = Some e \<longrightarrow> ls_clock s < e \<longrightarrow> lock_row st (ls_rows s) = Some (a, e))"

lemma lease_step: "lock_step st s s' \<Longrightarrow> lease_invar st s \<Longrightarrow> lease_invar st s'"
proof (induction rule: lock_step.induct)
  case (contend a s)
  then show ?case by (auto simp: lease_invar_def acquire_lock_row)
next
  case (leave s a e)
  then show ?case by (auto simp: lease_invar_def release_lock_row)
qed (auto simp: lease_invar_def)

lemma lease_reachable: "lock_reachable st s \<Longrightarrow> lease_invar st s"
proof (induction rule: lock_reachable.induct)
  case (start now)
  then show ?case by (simp add: lease_invar_def lock_start_def lock_rows_ok_def)
qed (rule lease_step)

text \<open>
  C20. Two writers never hold the cloud lock at once while their leases last. However the MERGEs, reads, releases,
  crashes and time-outs of any number of writers interleave, a writer inside its critical section whose lease has not
  expired is the one the lock table names, so it is the only one.
\<close>

theorem lock_mutual_exclusion:
  assumes "lock_reachable st s"
    and "ls_inside s a = Some e" "ls_clock s < e" and "ls_inside s b = Some e'" "ls_clock s < e'"
  shows "a = b \<and> lock_owner st (ls_rows s) = Some a"
proof -
  have row: "lock_row st (ls_rows s) = Some (c, x)" if "ls_inside s c = Some x" "ls_clock s < x" for c x
    using lease_reachable [OF assms(1)] that by (simp add: lease_invar_def)
  from row [OF assms(2,3)] row [OF assms(4,5)] show ?thesis by (simp add: lock_owner_def)
qed

definition demo_coordination :: coordination_config where
  "demo_coordination = \<lparr>co_local_lock_path = ''data/runtime'', co_cloud_lock_name = ''writer'', co_cloud_lock_ttl_seconds = 300,
     co_lock_wait_seconds = 600\<rparr>"

text \<open>A writer takes the free lock and enters; a second one finds it taken, and takes it once the lease expired.\<close>

lemma first_writer_enters:
  "\<exists>s. lock_reachable st s \<and> ls_clock s = 0 \<and> ls_inside s = [a \<mapsto> lease_micros st] \<and> ls_done s = {} \<and> lock_rows_ok st (ls_rows s) \<and>
     lock_row st (ls_rows s) = Some (a, lease_micros st)"
proof -
  let ?s0 = "lock_start 0"
  have ok: "lock_rows_ok st []" "lock_row st [] = None" by (simp_all add: lock_rows_ok_def lock_row_filter)
  note acq = acquire_lock_row(1,2) [OF ok(1), of a 0, unfolded ok(2) option.case]
  let ?s1 = "?s0\<lparr>ls_rows := acquire_rows st a 0 []\<rparr>"
  have "lock_step st ?s0 ?s1" using lock_step.contend [of a ?s0 st] by (simp add: lock_start_def)
  then have one: "lock_reachable st ?s1" by (rule lock_reachable.step [OF lock_reachable.start])
  have "lock_step st ?s1 (?s1\<lparr>ls_inside := (ls_inside ?s1)(a \<mapsto> lease_micros st)\<rparr>)"
    by (rule lock_step.enter) (simp_all add: acq lock_start_def)
  from lock_reachable.step [OF one this] show ?thesis
    by (intro exI [of _ "?s1\<lparr>ls_inside := (ls_inside ?s1)(a \<mapsto> lease_micros st)\<rparr>"] conjI) (simp_all add: lock_start_def acq)
qed

theorem lock_mutual_exclusion_witness:
  "\<exists>s. lock_reachable demo_coordination s \<and> ls_inside s ''batch-1'' = Some 300000000 \<and> ls_clock s < 300000000 \<and>
     lock_owner demo_coordination (ls_rows s) = Some ''batch-1''"
proof -
  obtain s where s: "lock_reachable demo_coordination s" "ls_clock s = 0" "ls_inside s = [''batch-1'' \<mapsto> lease_micros demo_coordination]"
    using first_writer_enters by blast
  then have i: "ls_inside s ''batch-1'' = Some 300000000" "ls_clock s < 300000000"
    by (simp_all add: lease_micros_def demo_coordination_def)
  from lock_mutual_exclusion [OF s(1) i i] s(1) i show ?thesis by blast
qed

text \<open>
  C22. The cloud lock is a lease, and nothing renews it: a writer that is still inside its critical section when the
  configured time is over no longer excludes the others. There is a run in which, at the very expiry, a second writer
  takes the lock and is inside at the same time.
\<close>

theorem expired_lease_admits_second_writer:
  "\<exists>s. lock_reachable demo_coordination s \<and> ls_clock s = lease_micros demo_coordination \<and>
    ls_inside s ''batch-1'' = Some (lease_micros demo_coordination) \<and> ls_inside s ''stream-2'' \<noteq> None \<and>
    lock_owner demo_coordination (ls_rows s) = Some ''stream-2''"
proof -
  let ?st = demo_coordination and ?t = "lease_micros demo_coordination"
  obtain s where s: "lock_reachable ?st s" "ls_clock s = 0" "ls_inside s = [''batch-1'' \<mapsto> ?t]" "ls_done s = {}"
      "lock_rows_ok ?st (ls_rows s)" "lock_row ?st (ls_rows s) = Some (''batch-1'', ?t)"
    using first_writer_enters by blast
  have "0 \<le> ?t" by (simp add: lease_micros_def demo_coordination_def)
  let ?s1 = "s\<lparr>ls_clock := ?t\<rparr>"
  have one: "lock_reachable ?st ?s1"
    by (rule lock_reachable.step [OF s(1)], rule lock_step.tick) (use \<open>0 \<le> ?t\<close> s(2) in simp)
  let ?s2 = "?s1\<lparr>ls_rows := acquire_rows ?st ''stream-2'' ?t (ls_rows s)\<rparr>"
  have two: "lock_reachable ?st ?s2"
    using lock_reachable.step [OF one lock_step.contend [of "''stream-2''" ?s1]] s(4) by simp
  have row: "lock_row ?st (ls_rows ?s2) = Some (''stream-2'', ?t + ?t)" using acquire_lock_row(1) [OF s(5)] s(6) by simp
  have "lock_reachable ?st (?s2\<lparr>ls_inside := (ls_inside ?s2)(''stream-2'' \<mapsto> ?t + ?t)\<rparr>)"
    by (rule lock_reachable.step [OF two], rule lock_step.enter [OF row]) (simp add: s(4))
  then show ?thesis using row s(3)
    by (intro exI [of _ "?s2\<lparr>ls_inside := (ls_inside ?s2)(''stream-2'' \<mapsto> ?t + ?t)\<rparr>"] conjI) (simp_all add: lock_owner_def)
qed

section \<open>The attempts of a driver are these steps\<close>

lemma run_merge_rows:
  assumes "lk_tables s ref = Some t" "lk_txn_app s = None"
  shows "\<exists>s'. run_merge ref (lock_merge now) [lock_contender st a now] s = (Inr (), s') \<and>
    current_rows s' ref = acquire_rows st a now (current_rows s ref)"
proof -
  obtain touched where "merge_exec (lock_merge now) [lock_contender st a now] (cm_rows (latest_commit t)) =
      Inr (acquire_rows st a now (cm_rows (latest_commit t)), touched)"
      "touched \<or> acquire_rows st a now (cm_rows (latest_commit t)) = cm_rows (latest_commit t)"
    using lock_merge_exec by blast
  with assms show ?thesis
    by (auto simp: run_merge_def delta_table_at_def Let_def in_transaction_def commit_table_def table_or_empty_def txn_seen_def
        current_rows_def latest_commit_def)
qed

text \<open>An attempt that nobody disturbs is a contention, and an entry when the contender got the lock.\<close>

lemma cloud_attempt_undisturbed:
  assumes "lk_tables s (lock_table_ref lh) = Some t" "lk_txn_app s = None"
    and "ct_before_merge ct k s = s" "ct_merge_error ct k = None" "ct_read_error ct k = None" "\<And>s. ct_before_read ct k s = s"
  shows "\<exists>s'. cloud_attempt lh st a ct k s =
      (if lock_owner st (acquire_rows st a (ct_now ct k) (current_rows s (lock_table_ref lh))) = Some a then Acquired else Retry, s') \<and>
    current_rows s' (lock_table_ref lh) = acquire_rows st a (ct_now ct k) (current_rows s (lock_table_ref lh))"
proof -
  obtain s' where s': "run_merge (lock_table_ref lh) (lock_merge (ct_now ct k)) [lock_contender st a (ct_now ct k)] s = (Inr (), s')"
      "current_rows s' (lock_table_ref lh) = acquire_rows st a (ct_now ct k) (current_rows s (lock_table_ref lh))"
    using run_merge_rows [OF assms(1,2)] by blast
  show ?thesis
    by (rule exI [of _ s']) (simp add: cloud_attempt_def assms(3-6) s' lock_owner_def Let_def)
qed

lemma release_lock_rows:
  assumes "lk_tables s (lock_table_ref lh) = Some t" "lk_txn_app s = None"
  shows "current_rows (release_lock lh st a s) (lock_table_ref lh) = lock_release st a (current_rows s (lock_table_ref lh))"
  using assms by (simp add: release_lock_def Let_def commit_table_def table_or_empty_def txn_seen_def current_rows_def latest_commit_def)

text \<open>
  The cloud lock is handed over. When its holder leaves, the first of the other writers that tries gets it, and keeps it
  whoever tries after it; while it is held and its lease lasts, no attempt and no foreign release changes the table.
\<close>

theorem cloud_lock_handover:
  assumes "lock_rows_ok st rows" and "0 < lease_micros st" and "lock_owner st rows = Some b" and "\<not> lock_stale st now rows"
  shows "lock_owner st (fold (\<lambda>a. acquire_rows st a now) (a # others) (lock_release st b rows)) = Some a \<and>
    fold (\<lambda>a. acquire_rows st a now) others rows = rows"
proof -
  have ok: "lock_rows_ok st rows \<and> 0 < lease_micros st" using assms(1,2) by simp
  show ?thesis by (intro conjI cloud_lock.handover [OF ok assms(3)] cloud_lock.grabs_respect [OF ok assms(3,4)])
qed

theorem cloud_lock_handover_witness:
  "\<exists>rows. lock_owner demo_coordination rows = Some ''batch-1'' \<and>
    lock_owner demo_coordination (acquire_rows demo_coordination ''stream-2'' 5 (lock_release demo_coordination ''batch-1'' rows)) = Some ''stream-2''"
proof -
  let ?st = demo_coordination
  obtain s :: lock_system where s: "lock_rows_ok ?st (ls_rows s)" "lock_row ?st (ls_rows s) = Some (''batch-1'', lease_micros ?st)"
    using first_writer_enters [of ?st "''batch-1''"] by blast
  have lease: "0 < lease_micros ?st" "5 < lease_micros ?st" by (simp_all add: lease_micros_def demo_coordination_def)
  have own: "lock_owner ?st (ls_rows s) = Some ''batch-1''" "\<not> lock_stale ?st 5 (ls_rows s)"
    using s(2) lease by (simp_all add: lock_owner_def lock_stale_def)
  from cloud_lock_handover [OF s(1) lease(1) own, of "''stream-2''" "[]"] own(1) show ?thesis by auto
qed

end
