(* ===== verification/Validation.thy ===== *)
theory Validation
  imports UnifiedSilver
begin

text \<open>
  The validations (\<open>validation/batch.py\<close>, \<open>validation/cdc.py\<close>, \<open>validation/cloud_cdc.py\<close>,
  \<open>validation/preflight.py\<close>): read-only checks of the lake, and of what PostgreSQL answers to a fixed list
  of catalog queries, which is a record here. Ages are microseconds; that reports round them is left out.
\<close>

section \<open>The published release\<close>

record release_report =
  rp_batch_id :: string
  rp_silver_table_count :: nat
  rp_gold_table_count :: nat
  rp_superseded :: bool
  rp_validation_source :: string

text \<open>Two dicts of versions are equal.\<close>

definition same_versions :: "(string \<times> int) list \<Rightarrow> (string \<times> int) list \<Rightarrow> bool" where
  "same_versions a b \<longleftrightarrow> set (map fst a) = set (map fst b) \<and> list_all (\<lambda>n. map_of a n = map_of b n) (map fst a)"

definition validate_gold_release :: "gold_builder \<Rightarrow> silver_manifest option \<Rightarrow> lake \<Rightarrow> release_report res" where
  "validate_gold_release b manifest s =
     and_then (latest_release (gold_store b) s) (\<lambda>latest. case latest of
       None \<Rightarrow> Inl (RuntimeError ''Gold has no published release'')
     | Some release \<Rightarrow>
       and_then (raise_if (set (map fst (gr_silver_versions release)) \<noteq> set (map fst SILVER_TABLES))
         (ValueError ''Gold release does not contain every contracted Silver table'')) (\<lambda>_.
       let expected = (case manifest of None \<Rightarrow> gr_silver_versions release | Some m \<Rightarrow> committed_versions m) in
       and_then (raise_if (set (map fst expected) \<noteq> set (map fst SILVER_TABLES))
         (ValueError ''Silver manifest does not contain every contracted table'')) (\<lambda>_.
       and_then (raise_if (list_ex (\<lambda>n. version_of (gr_silver_versions release) n < version_of expected n) (map fst expected))
         (ValueError ''Gold progress is behind the orchestrated Silver output'')) (\<lambda>_.
       Inr \<lparr>rp_batch_id = gr_batch_id release, rp_silver_table_count = length (gr_silver_versions release),
            rp_gold_table_count = length (gr_gold_versions release),
            rp_superseded = (\<not> same_versions (gr_silver_versions release) expected),
            rp_validation_source = (if manifest = None then ''gold_release'' else ''silver_manifest'')\<rparr>))))"

section \<open>The batch lakehouse\<close>

record layer_table_report =
  lt_table_name :: string
  lt_bronze_versions :: nat
  lt_silver_rows :: nat

record batch_validation_report =
  bv_tables :: "layer_table_report list"
  bv_gold :: quality_report

text \<open>Valid events of the raw CDC table for each source table, none when the table is missing.\<close>

definition streaming_event_counts :: "lakehouse_config \<Rightarrow> string \<Rightarrow> lake \<Rightarrow> (string \<times> nat) list res" where
  "streaming_event_counts lh raw_table s =
     and_then (raw_cdc_bronze_reference lh raw_table) (\<lambda>ref.
     if lk_tables s (tr_value ref) = None then Inr []
     else and_then (read_delta s (tr_value ref) None) (\<lambda>d.
       Inr (map (\<lambda>g. (case hd g ''source_table'' of StrV t \<Rightarrow> t | _ \<Rightarrow> '''', length g))
         (groups (\<lambda>r. r ''source_table'') (where3 (\<lambda>r. and3 (bool3_of (r ''is_valid''))
           (isin3 (r ''source_table'') (map StrV (map fst SILVER_TABLES)))) (df_rows d))))))"

definition has_duplicates :: "string list \<Rightarrow> row list \<Rightarrow> bool" where
  "has_duplicates keys rows \<longleftrightarrow> list_ex (\<lambda>g. length g > 1) (groups (key_of keys) rows)"

definition any_null :: "string list \<Rightarrow> row \<Rightarrow> bool3" where
  "any_null columns r = fold (\<lambda>c b. or3 b (is_null3 (r c))) columns (Some False)"

definition REQUIRED_BRONZE_METADATA :: "string list" where
  "REQUIRED_BRONZE_METADATA = [''_record_hash'', ''_ingested_at'', ''_batch_id'', ''_source_system'', ''_source_schema'',
     ''_source_table'', ''_ingestion_type'', ''_operation'', ''_event_id'', ''_event_occurred_at'']"

definition validate_progress_alignment :: "table_state \<Rightarrow> table_state \<Rightarrow> int res" where
  "validate_progress_alignment bronze silver =
     (let bronze_version = (case ts_progress_version bronze of None \<Rightarrow> ts_version bronze | Some v \<Rightarrow> v) in
      and_then (raise_if ((case ts_progress silver of None \<Rightarrow> None | Some m \<Rightarrow> jget m ''last_processed_bronze_version'') \<noteq>
          Some (JInt bronze_version)) (ValueError ''Silver progress is not aligned with Bronze'')) (\<lambda>_.
      case (case ts_progress bronze of None \<Rightarrow> None | Some m \<Rightarrow> jget m ''last_event_id'') of
        Some (JInt n) \<Rightarrow> Inr n | _ \<Rightarrow> Inl (ValueError ''Bronze Delta progress metadata is invalid'')))"

definition validate_bronze_rows :: "df \<Rightarrow> unit res" where
  "validate_bronze_rows d =
     and_then (raise_if (\<not> set REQUIRED_BRONZE_METADATA \<subseteq> set (df_cols d)) (ValueError ''Missing Bronze metadata'')) (\<lambda>_.
     and_then (raise_if (has_duplicates [''_event_id''] (df_rows d)) (ValueError ''Duplicate source version'')) (\<lambda>_.
     raise_if (where3 (any_null REQUIRED_BRONZE_METADATA) (df_rows d) \<noteq> []) (ValueError ''Null ingestion metadata'')))"

definition validate_silver_rows :: "silver_contract \<Rightarrow> string list \<Rightarrow> row list \<Rightarrow> int \<Rightarrow> unit res" where
  "validate_silver_rows c columns rows last_id =
     and_then (raise_if (has_duplicates (sc_primary_keys c) rows) (ValueError ''Duplicate key'')) (\<lambda>_.
     and_then (raise_if (where3 (any_null (sc_primary_keys c)) rows \<noteq> []) (ValueError ''Null primary key'')) (\<lambda>_.
     and_then (raise_if (''_source_event_sequence'' \<notin> set columns \<or> ''_ingestion_mode'' \<notin> set columns)
       (ValueError ''Missing unified lineage'')) (\<lambda>_.
     raise_if (where3 (\<lambda>r. and3 (eq3 (r ''_ingestion_mode'') (StrV ''batch'')) (gt3 (r ''_source_event_sequence'') (IntV last_id))) rows \<noteq> [])
       (ValueError ''Silver contains an event beyond Bronze progress''))))"

text \<open>One table: its report, and the version of its last Silver data commit.\<close>

definition validate_table :: "gold_builder \<Rightarrow> (string \<times> nat) list \<Rightarrow> lake \<Rightarrow> string \<times> silver_contract \<Rightarrow>
    (layer_table_report \<times> string \<times> int) res" where
  "validate_table b streaming s tc = (case tc of (t, c) \<Rightarrow>
     and_then (gold_reference b ''bronze'' t) (\<lambda>bronze_path.
     and_then (gold_reference b ''silver'' t) (\<lambda>silver_path.
     and_then (read_delta s bronze_path None) (\<lambda>bronze.
     and_then (read_table (gb_adapter b) s ''silver'' t False) (\<lambda>silver.
     and_then (read_delta s silver_path None) (\<lambda>physical.
     and_then (delta_table_state (gb_loads b) s bronze_path ''postgres_to_bronze'') (\<lambda>bronze_state.
     and_then (delta_table_state (gb_loads b) s silver_path SILVER_PIPELINE_NAME) (\<lambda>silver_state.
     and_then (validate_progress_alignment bronze_state silver_state) (\<lambda>last_id.
     and_then (validate_bronze_rows bronze) (\<lambda>_.
     and_then (validate_silver_rows c (df_cols silver) (df_rows physical) last_id) (\<lambda>_.
     and_then (raise_if (length (df_rows physical) > length (df_rows bronze) +
         (case map_of streaming t of None \<Rightarrow> 0 | Some n \<Rightarrow> n))
       (ValueError ''Silver row count exceeds combined Bronze source versions'')) (\<lambda>_.
     and_then (latest_delta_pipeline_commit (gb_loads b) s silver_path SILVER_DATA_PIPELINES) (\<lambda>commit.
     Inr (\<lparr>lt_table_name = t, lt_bronze_versions = length (df_rows bronze), lt_silver_rows = length (df_rows silver)\<rparr>,
          t, pc_version commit))))))))))))))"

definition validate_batch_lakehouse :: "gold_builder \<Rightarrow> string \<Rightarrow> lake \<Rightarrow> batch_validation_report res" where
  "validate_batch_lakehouse b raw_table s =
     and_then (streaming_event_counts (ad_lakehouse (gb_adapter b)) raw_table s) (\<lambda>streaming.
     and_then (traverse (validate_table b streaming s) SILVER_TABLES) (\<lambda>tables.
     and_then (latest_release (gold_store b) s) (\<lambda>latest.
     and_then (raise_if (case latest of None \<Rightarrow> True | Some r \<Rightarrow> \<not> same_versions (gr_silver_versions r) (map snd tables))
       (ValueError ''Gold progress is not aligned with Silver'')) (\<lambda>_.
     case latest of None \<Rightarrow> Inl (RuntimeError ''Gold has no published release'')
     | Some r \<Rightarrow>
       let ad = with_gold_versions (gr_gold_versions r) (gb_adapter b) in
       and_then (traverse (\<lambda>n. and_then (read_table ad s ''gold'' n False) (\<lambda>d. Inr (n, d))) GOLD_TABLES) (\<lambda>gold.
       and_then (read_table ad s ''silver'' ''orders'' False) (\<lambda>orders.
       and_then (read_table ad s ''silver'' ''order_items'' False) (\<lambda>items.
       and_then (quality_run (gb_fn b) (\<lambda>n. case map_of gold n of Some d \<Rightarrow> d | None \<Rightarrow> \<lparr>df_cols = [], df_rows = []\<rparr>) (df_rows orders) (df_rows items)) (\<lambda>report.
       Inr \<lparr>bv_tables = map fst tables, bv_gold = report\<rparr>))))))))"

section \<open>The source\<close>

definition CHANGE_EVENT_COLUMNS :: "string list" where
  "CHANGE_EVENT_COLUMNS = [''event_id'', ''source_table'', ''operation'', ''occurred_at'', ''row_data'']"

text \<open>What the two preflight queries return: the first row (if any) and the columns of the outbox.\<close>

record outbox_probe =
  op_row :: "(string \<times> string \<times> bool \<times> bool \<times> bool) option"
  op_columns :: "string list"

record source_report =
  pr_database :: string
  pr_user :: string
  pr_outbox :: string
  pr_required_columns :: "string list"

definition check_postgres_source :: "postgres_config \<Rightarrow> outbox_probe \<Rightarrow> source_report res" where
  "check_postgres_source pg probe = (case op_row probe of
     None \<Rightarrow> Inl (RuntimeError ''PostgreSQL CDC outbox does not exist'')
   | Some (database, user, outbox_exists, schema_usage, table_select) \<Rightarrow>
       and_then (raise_if (\<not> outbox_exists) (RuntimeError ''PostgreSQL CDC outbox does not exist'')) (\<lambda>_.
       and_then (raise_if (\<not> schema_usage \<or> \<not> table_select)
         (OtherError ''PermissionError: PostgreSQL user lacks USAGE/SELECT for CDC outbox'')) (\<lambda>_.
       and_then (raise_if (\<not> set CHANGE_EVENT_COLUMNS \<subseteq> set (op_columns probe))
         (RuntimeError ''PostgreSQL CDC outbox is missing columns'')) (\<lambda>_.
       Inr \<lparr>pr_database = database, pr_user = user, pr_outbox = pg_source_schema pg @ ''.change_events'',
            pr_required_columns = sort CHANGE_EVENT_COLUMNS\<rparr>))))"

text \<open>The answers to the catalog queries of the CDC validation, and whether the CDC role can read.\<close>

record cdc_probe =
  cq_role_replicates :: "bool option"
  cq_published :: "string list"
  cq_heartbeat_published :: bool
  cq_full_identity :: "string list"
  cq_slot :: "(bool \<times> int) option"
  cq_sibling_slots :: "string list"
  cq_heartbeat_age :: "int option"
  cq_role_reads :: "unit res"

record cdc_report =
  cr_publication_tables :: nat
  cr_replica_identity_full_tables :: nat
  cr_heartbeat_age :: int
  cr_wal_retained_bytes :: int

definition cdc_tables :: "string list" where
  "cdc_tables = concat (map snd CDC_DOMAIN_TABLES)"

definition validate_postgres_cdc :: "int \<Rightarrow> int \<Rightarrow> cdc_probe \<Rightarrow> cdc_report res" where
  "validate_postgres_cdc max_heartbeat_age max_wal_retained_bytes q =
     and_then (raise_if (cq_role_replicates q \<noteq> Some True) (RuntimeError ''CDC role is missing or cannot replicate'')) (\<lambda>_.
     and_then (raise_if (set (cq_published q) \<noteq> set cdc_tables) (RuntimeError ''CDC publication mismatch'')) (\<lambda>_.
     and_then (raise_if (\<not> cq_heartbeat_published q) (RuntimeError ''CDC publication is missing cdc_control.debezium_heartbeat'')) (\<lambda>_.
     and_then (raise_if (set (cq_full_identity q) \<noteq> set cdc_tables) (RuntimeError ''CDC tables missing REPLICA IDENTITY FULL'')) (\<lambda>_.
     and_then (case cq_slot q of Some (True, retained) \<Rightarrow> Inr retained
       | _ \<Rightarrow> Inl (RuntimeError ''CDC replication slot is missing or inactive'')) (\<lambda>retained.
     and_then (raise_if (cq_sibling_slots q \<noteq> []) (RuntimeError ''Unexpected CDC sibling replication slots retain WAL'')) (\<lambda>_.
     and_then (raise_if (retained > max_wal_retained_bytes) (RuntimeError ''CDC WAL retention exceeds threshold'')) (\<lambda>_.
     and_then (case cq_heartbeat_age q of None \<Rightarrow> Inl (RuntimeError ''Debezium heartbeat control row is missing'')
       | Some a \<Rightarrow> Inr (max 0 a)) (\<lambda>age.
     and_then (raise_if (age > max_heartbeat_age) (RuntimeError ''Debezium heartbeat is stale'')) (\<lambda>_.
     and_then (cq_role_reads q) (\<lambda>_.
     Inr \<lparr>cr_publication_tables = length (remdups (cq_published q)),
          cr_replica_identity_full_tables = length (remdups (cq_full_identity q)), cr_heartbeat_age = age,
          cr_wal_retained_bytes = retained\<rparr>))))))))))"

section \<open>The cloud CDC lakehouse\<close>

record cloud_cdc_report =
  cc_raw_rows :: nat
  cc_raw_freshness :: "int option"
  cc_typed_rows :: nat
  cc_typed_freshness :: "int option"
  cc_silver_rows :: nat
  cc_silver_freshness :: "int option"
  cc_gold_freshness :: int
  cc_quarantine_count :: nat
  cc_pending_gold_count :: nat
  cc_pending_gold_oldest_age :: "int option"
  cc_gold_release_batch_id :: string

definition require_table :: "lake \<Rightarrow> string \<Rightarrow> unit res" where
  "require_table s ref = raise_if (lk_tables s ref = None) (RuntimeError ''Missing table'')"

definition assert_unique :: "row list \<Rightarrow> string list \<Rightarrow> unit res" where
  "assert_unique rows keys = raise_if (has_duplicates keys rows) (RuntimeError ''Duplicate key'')"

definition rows_and_latest :: "row list \<Rightarrow> string \<Rightarrow> nat \<times> val" where
  "rows_and_latest rows c = (length rows, greatest (map (\<lambda>r. r c) rows))"

definition age_of :: "int \<Rightarrow> val \<Rightarrow> int option" where
  "age_of now v = (case v of TsV t \<Rightarrow> Some (max 0 (now - t)) | _ \<Rightarrow> None)"

text \<open>A table that must exist and have unique keys: its rows and the newest of its timestamps.\<close>

definition checked_rows :: "lake \<Rightarrow> string \<Rightarrow> string list \<Rightarrow> string \<Rightarrow> (nat \<times> val) res" where
  "checked_rows s ref keys timestamp = and_then (require_table s ref) (\<lambda>_. and_then (read_delta s ref None) (\<lambda>d.
     and_then (assert_unique (df_rows d) keys) (\<lambda>_. Inr (rows_and_latest (df_rows d) timestamp))))"

definition total_rows :: "(nat \<times> val) list \<Rightarrow> nat \<times> val" where
  "total_rows xs = (sum_list (map fst xs), greatest (map snd xs))"

definition pending_gold_metrics :: "lakehouse_config \<Rightarrow> int \<Rightarrow> lake \<Rightarrow> (nat \<times> int option) res" where
  "pending_gold_metrics lh now s = and_then (table_reference lh ''silver'' GOLD_RECONCILE_QUEUE_TABLE) (\<lambda>ref.
     if lk_tables s (tr_value ref) = None then Inr (0, None)
     else and_then (read_delta s (tr_value ref) None) (\<lambda>d.
       let waiting = where3 (\<lambda>r. eq3 (r ''status'') (StrV ''pending'')) (df_rows d) in
       Inr (length waiting, age_of now (least (map (\<lambda>r. r ''created_at'') waiting)))))"

text \<open>\<open>fact_time\<close> is the timestamp of the last commit of the fact, which the lake does not record.\<close>

definition validate_cloud_cdc_lakehouse ::
    "release_store \<Rightarrow> string \<Rightarrow> int \<Rightarrow> int option \<Rightarrow> lake \<Rightarrow> cloud_cdc_report res" where
  "validate_cloud_cdc_lakehouse rs raw_table now fact_time s = (let lh = ad_lakehouse (rs_adapter rs) in
     and_then (raw_cdc_bronze_reference lh raw_table) (\<lambda>raw_ref.
     and_then (checked_rows s (tr_value raw_ref) [''_transport_event_id''] ''ingested_at'') (\<lambda>raw.
     and_then (traverse (\<lambda>t. and_then (streaming_typed_bronze_reference lh t) (\<lambda>ref.
       checked_rows s (tr_value ref) [''_event_id''] ''_ingested_at'')) (map fst TYPED_TABLES)) (\<lambda>typed.
     and_then (traverse (\<lambda>(t, c). and_then (table_reference lh ''silver'' t) (\<lambda>ref.
       checked_rows s (tr_value ref) (sc_primary_keys c) ''_silver_updated_at'')) SILVER_TABLES) (\<lambda>silver.
     and_then (streaming_typed_bronze_reference lh QUARANTINE_TABLE_NAME) (\<lambda>quarantine_ref.
     and_then (require_table s (tr_value quarantine_ref)) (\<lambda>_.
     and_then (read_delta s (tr_value quarantine_ref) None) (\<lambda>quarantine.
     and_then (pending_gold_metrics lh now s) (\<lambda>(pending_count, pending_age).
     and_then (latest_release rs s) (\<lambda>latest. case latest of
       None \<Rightarrow> Inl (RuntimeError ''Gold has no published release after the CDC canary'')
     | Some release \<Rightarrow>
       and_then (raise_if (set (map fst (gr_gold_versions release)) \<noteq> set GOLD_TABLES)
         (RuntimeError ''Gold release is missing contracted tables'')) (\<lambda>_.
       and_then (raise_if (set (map fst (gr_silver_versions release)) \<noteq> set (map fst SILVER_TABLES))
         (RuntimeError ''Gold release is missing contracted Silver progress'')) (\<lambda>_.
       and_then (traverse (\<lambda>t. and_then (table_reference lh ''gold'' t) (\<lambda>ref. require_table s (tr_value ref))) GOLD_TABLES) (\<lambda>_.
       case fact_time of None \<Rightarrow> Inl (RuntimeError ''Gold fact_sales has no Delta history timestamp'')
       | Some t \<Rightarrow> Inr \<lparr>cc_raw_rows = fst raw, cc_raw_freshness = age_of now (snd raw),
           cc_typed_rows = fst (total_rows typed), cc_typed_freshness = age_of now (snd (total_rows typed)),
           cc_silver_rows = fst (total_rows silver), cc_silver_freshness = age_of now (snd (total_rows silver)),
           cc_gold_freshness = max 0 (now - t), cc_quarantine_count = length (df_rows quarantine),
           cc_pending_gold_count = pending_count, cc_pending_gold_oldest_age = pending_age,
           cc_gold_release_batch_id = gr_batch_id release\<rparr>)))))))))))))"

end
