(* ===== verification/BronzeIngest.thy ===== *)
theory BronzeIngest
  imports BuildSilver
begin

text \<open>
  Batch ingestion (\<open>adapters/postgres.py\<close>, \<open>ingestion/batch/bronze_operations.py\<close>,
  \<open>ingestion/batch/extract_to_bronze.py\<close>): PostgreSQL's outbox \<open>change_events\<close> is read from the cursor of
  each Bronze table up to a bounded high-water mark and appended; the cursor is part of the
  commit. The two SQL queries are modelled by what they select. PostgreSQL answers each attempt with a snapshot of
  the outbox or with an error; the columns of a table and \<open>jsonb_populate_record\<close> belong to the snapshot.
  Worker threads run in table order; the pauses between attempts and the timings are left out.
\<close>

section \<open>The outbox\<close>

record source =
  so_events :: "row list"
  so_columns :: "string \<Rightarrow> string list"
  so_populate :: "string \<Rightarrow> val \<Rightarrow> row"

definition table_events :: "source \<Rightarrow> string \<Rightarrow> row list" where
  "table_events src t = where3 (\<lambda>e. eq3 (e ''source_table'') (StrV t)) (so_events src)"

text \<open>The attempts of one run: those of the control query, and those of the extraction of each table.\<close>

record jdbc =
  jd_control :: "nat \<Rightarrow> source res"
  jd_extract :: "string \<Rightarrow> nat \<Rightarrow> source res"

record extractor =
  be_fn :: sparkfn
  be_now :: int
  be_dumps :: "json \<Rightarrow> string"
  be_loads :: "string \<Rightarrow> json option"
  be_lakehouse :: lakehouse_config
  be_postgres :: postgres_config
  be_source_system :: string
  be_batch_id :: string

section \<open>The reader\<close>

fun retry_from :: "(nat \<Rightarrow> 'a res) \<Rightarrow> nat \<Rightarrow> nat \<Rightarrow> 'a res" where
  "retry_from action k 0 = Inl (AssertionError ''unreachable'')"
| "retry_from action k (Suc n) = (case action k of Inr a \<Rightarrow> Inr a
     | Inl e \<Rightarrow> if n = 0 then Inl e else retry_from action (Suc k) n)"

definition with_retry :: "postgres_config \<Rightarrow> (nat \<Rightarrow> 'a res) \<Rightarrow> 'a res" where
  "with_retry pg action = retry_from action 1 (nat (pg_retry_attempts pg))"

definition read_partitioned_query :: "postgres_config \<Rightarrow> int \<Rightarrow> int \<Rightarrow> int \<Rightarrow> df \<Rightarrow> df res" where
  "read_partitioned_query pg lower upper num_partitions d =
     and_then (raise_if (lower \<ge> upper) (ValueError ''JDBC lower_bound must be smaller than upper_bound'')) (\<lambda>_.
     and_then (raise_if (\<not> (1 \<le> num_partitions \<and> num_partitions \<le> pg_max_jdbc_partitions pg))
       (ValueError ''JDBC num_partitions is outside the configured source throttle'')) (\<lambda>_. Inr d))"

section \<open>High-water marks\<close>

definition lower_bound :: "event_cursor option \<Rightarrow> int" where
  "lower_bound c = (case c of None \<Rightarrow> 0 | Some e \<Rightarrow> last_event_id e)"

text \<open>\<open>WHERE source_table = ... AND event_id > ... ORDER BY event_id LIMIT ...\<close>\<close>

definition bounded_events :: "postgres_config \<Rightarrow> source \<Rightarrow> string \<Rightarrow> int \<Rightarrow> val list" where
  "bounded_events pg src t last_id = take (nat (pg_max_events_per_batch pg))
     (sort (map (\<lambda>e. e ''event_id'') (where3 (\<lambda>e. gt3 (e ''event_id'') (IntV last_id)) (table_events src t))))"

text \<open>For each cursor: the upper bound of the batch and the greatest event id of the table.\<close>

definition batch_upper_bounds_query ::
    "postgres_config \<Rightarrow> (string \<times> event_cursor option) list \<Rightarrow> source \<Rightarrow> (string \<times> val \<times> val) list" where
  "batch_upper_bounds_query pg cursors src = map (\<lambda>(t, c).
     (t, greatest (bounded_events pg src t (lower_bound c)), greatest (map (\<lambda>e. e ''event_id'') (table_events src t)))) cursors"

fun int_of_val :: "val \<Rightarrow> int option" where
  "int_of_val (IntV i) = Some i"
| "int_of_val _ = None"

definition sequence_regressed :: "(string \<times> event_cursor option) list \<Rightarrow> string \<times> val \<times> val \<Rightarrow> bool" where
  "sequence_regressed cursors q = (case q of (t, bound, source_max) \<Rightarrow> (case map_of cursors t of
     Some (Some c) \<Rightarrow> (case int_of_val source_max of None \<Rightarrow> True | Some m \<Rightarrow> m < last_event_id c)
   | _ \<Rightarrow> False))"

definition read_batch_upper_bounds ::
    "postgres_config \<Rightarrow> (nat \<Rightarrow> source res) \<Rightarrow> (string \<times> event_cursor option) list \<Rightarrow> (string \<times> int option) list res" where
  "read_batch_upper_bounds pg control cursors =
     (if cursors = [] then Inr [] else
      and_then (with_retry pg (\<lambda>k. and_then (control k) (\<lambda>src. Inr (batch_upper_bounds_query pg cursors src)))) (\<lambda>rows.
      and_then (raise_if (list_ex (sequence_regressed cursors) rows)
        (RuntimeError ''PostgreSQL change-event sequence regressed'')) (\<lambda>_.
      let bounds = map (\<lambda>(t, b, m). (t, int_of_val b)) rows
      in and_then (raise_if (\<not> set (map fst cursors) \<subseteq> set (map fst bounds))
           (RuntimeError ''PostgreSQL did not return batch upper bounds'')) (\<lambda>_. Inr bounds))))"

section \<open>Reading the events of a table\<close>

definition event_row :: "source \<Rightarrow> string \<Rightarrow> row \<Rightarrow> row" where
  "event_row src t e = (\<lambda>n. if n = ''_event_id'' then e ''event_id''
     else if n = ''_operation'' then e ''operation''
     else if n = ''_event_occurred_at'' then e ''occurred_at''
     else if n \<in> set (so_columns src t) then so_populate src t (e ''row_data'') n else Null)"

definition events_between :: "source \<Rightarrow> string \<Rightarrow> int \<Rightarrow> int \<Rightarrow> row list" where
  "events_between src t lower upper = where3 (\<lambda>e. and3 (gt3 (e ''event_id'') (IntV lower)) (ge3 (IntV upper) (e ''event_id'')))
     (table_events src t)"

text \<open>Without an upper bound the query is the empty one.\<close>

definition change_event_query :: "bronze_contract \<Rightarrow> event_cursor option \<Rightarrow> int option \<Rightarrow> source \<Rightarrow> df" where
  "change_event_query c cursor upper src =
     \<lparr>df_cols = so_columns src (bc_table_name c) @ [''_event_id'', ''_operation'', ''_event_occurred_at''],
      df_rows = (case upper of None \<Rightarrow> []
        | Some u \<Rightarrow> map (event_row src (bc_table_name c)) (events_between src (bc_table_name c) (lower_bound cursor) u))\<rparr>"

text \<open>\<open>math.ceil(span / target)\<close> is exact for the event ids a float can count (below \<open>2 ^ 53\<close>).\<close>

definition jdbc_partition_count :: "postgres_config \<Rightarrow> event_cursor option \<Rightarrow> int \<Rightarrow> int" where
  "jdbc_partition_count pg cursor upper =
     (let span = max (upper - lower_bound cursor) 1; required = - ((- span) div pg_target_events_per_partition pg)
      in min required (pg_max_jdbc_partitions pg))"

definition bronze_meta :: "extractor \<Rightarrow> string \<Rightarrow> string list \<Rightarrow> (string \<times> (row \<Rightarrow> val)) list" where
  "bronze_meta m t cols =
     (let source_columns = sort (filter (\<lambda>c. \<not> starts_with ''_'' c) cols)
      in [(''_record_hash'', \<lambda>r. StrV (fn_sha2 (be_fn m) (fn_to_json (be_fn m) (map r source_columns)))),
          (''_ingested_at'', \<lambda>r. TsV (be_now m)), (''_batch_id'', \<lambda>r. StrV (be_batch_id m)),
          (''_source_system'', \<lambda>r. StrV (be_source_system m)),
          (''_source_schema'', \<lambda>r. StrV (pg_source_schema (be_postgres m))),
          (''_source_table'', \<lambda>r. StrV t), (''_ingestion_type'', \<lambda>r. StrV ''batch_change_event'')])"

definition with_metadata :: "(string \<times> (row \<Rightarrow> val)) list \<Rightarrow> row \<Rightarrow> row" where
  "with_metadata es r = (\<lambda>n. case map_of es n of Some f \<Rightarrow> f r | None \<Rightarrow> r n)"

definition add_bronze_metadata :: "extractor \<Rightarrow> string \<Rightarrow> df \<Rightarrow> df" where
  "add_bronze_metadata m t d = (let es = bronze_meta m t (df_cols d) in
     \<lparr>df_cols = df_cols d @ filter (\<lambda>n. n \<notin> set (df_cols d)) (map fst es), df_rows = map (with_metadata es) (df_rows d)\<rparr>)"

definition drop_columns :: "string list \<Rightarrow> df \<Rightarrow> df" where
  "drop_columns excluded d = \<lparr>df_cols = filter (\<lambda>n. n \<notin> set excluded) (df_cols d),
     df_rows = map (\<lambda>r n. if n \<in> set excluded then Null else r n) (df_rows d)\<rparr>"

definition read_events :: "extractor \<Rightarrow> bronze_contract \<Rightarrow> event_cursor option \<Rightarrow> int option \<Rightarrow> source \<Rightarrow> df res" where
  "read_events m c cursor upper src =
     (let query = change_event_query c cursor upper src
      in and_then (case upper of None \<Rightarrow> Inr query
           | Some u \<Rightarrow> read_partitioned_query (be_postgres m) (lower_bound cursor + 1) (u + 1)
               (jdbc_partition_count (be_postgres m) cursor u) query) (\<lambda>raw.
         Inr (add_bronze_metadata m (bc_table_name c)
           (if bc_excluded_columns c \<noteq> [] then drop_columns (bc_excluded_columns c) raw else raw))))"

section \<open>Validation\<close>

definition CHANGE_OPERATIONS :: "string list" where
  "CHANGE_OPERATIONS = map change_value [OpInsert, OpUpdate, OpDelete]"

record change_event_stats =
  cs_record_count :: int
  cs_last_event_id :: "int option"
  cs_operation_counts :: "(string \<times> int) list"

definition invalid_event :: "string list \<Rightarrow> row \<Rightarrow> bool3" where
  "invalid_event keys r = fold (\<lambda>k b. or3 b (is_null3 (r k))) keys
     (or3 (or3 (or3 (is_null3 (r ''_event_id'')) (is_null3 (r ''_event_occurred_at''))) (is_null3 (r ''_operation'')))
       (not3 (isin3 (r ''_operation'') (map StrV CHANGE_OPERATIONS))))"

definition collect_change_event_stats :: "bronze_contract \<Rightarrow> df \<Rightarrow> change_event_stats res" where
  "collect_change_event_stats c d =
     and_then (raise_if (\<not> set (bc_primary_keys c @ [''_event_id'', ''_operation'', ''_event_occurred_at'']) \<subseteq> set (df_cols d))
       (ValueError ''Missing change-event columns'')) (\<lambda>_.
     and_then (raise_if (where3 (invalid_event (bc_primary_keys c)) (df_rows d) \<noteq> []) (ValueError ''Invalid change event'')) (\<lambda>_.
     Inr \<lparr>cs_record_count = int (length (df_rows d)),
       cs_last_event_id = int_of_val (greatest (map (\<lambda>r. r ''_event_id'') (df_rows d))),
       cs_operation_counts = map (\<lambda>o'. (o', int (length (where3 (\<lambda>r. eq3 (r ''_operation'') (StrV o')) (df_rows d))))) CHANGE_OPERATIONS\<rparr>))"

definition materialize_events ::
    "extractor \<Rightarrow> jdbc \<Rightarrow> bronze_contract \<Rightarrow> event_cursor option \<Rightarrow> int option \<Rightarrow> (df \<times> change_event_stats) res" where
  "materialize_events m jd c cursor upper = with_retry (be_postgres m) (\<lambda>k.
     and_then (jd_extract jd (bc_table_name c) k) (\<lambda>src.
     and_then (read_events m c cursor upper src) (\<lambda>d.
     and_then (collect_change_event_stats c d) (\<lambda>stats. Inr (d, stats)))))"

section \<open>The append\<close>

definition bronze_metadata :: "string \<Rightarrow> string \<Rightarrow> int \<Rightarrow> json" where
  "bronze_metadata t batch_id n = jobj [(''pipeline'', JStr ''postgres_to_bronze''), (''source_table'', JStr t),
     (''batch_id'', JStr batch_id), (''last_event_id'', JInt n), (''bronze_schema_version'', JInt BRONZE_SCHEMA_VERSION)]"

text \<open>
  A new table gets the change data feed with its first commit. When the table came or went since its state was read,
  the overwrite replaces its rows and the append creates it without the property.
\<close>

definition overwrite_delta :: "string \<Rightarrow> df \<Rightarrow> delta_table \<Rightarrow> lake \<Rightarrow> lake" where
  "overwrite_delta ref d t s =
     (let cols = cm_cols (latest_commit t);
          s' = commit_table ref (cols @ filter (\<lambda>c. c \<notin> set cols) (df_cols d)) (df_rows d)
            (map (Pair ''delete'') (cm_rows (latest_commit t)) @ map (Pair ''insert'') (df_rows d)) s
      in s'\<lparr>lk_tables := (lk_tables s')(ref := map_option (\<lambda>t. t\<lparr>dt_props :=
           assoc_set ''delta.enableChangeDataFeed'' ''true'' (dt_props t)\<rparr>) (lk_tables s' ref))\<rparr>)"

definition write_append_only :: "extractor \<Rightarrow> df \<Rightarrow> string \<Rightarrow> bool \<Rightarrow> string \<Rightarrow> int \<Rightarrow> unit io" where
  "write_append_only m d ref present t n =
     delta_commit_metadata (be_dumps m) (bronze_metadata t (be_batch_id m) n) (\<lambda>s. (Inr (),
       (if present then (case lk_tables s ref of Some u \<Rightarrow> append_delta ref d s
            | None \<Rightarrow> commit_table ref (df_cols d) (df_rows d) (map (Pair ''insert'') (df_rows d)) s)
        else (case lk_tables s ref of None \<Rightarrow> append_delta ref d s | Some u \<Rightarrow> overwrite_delta ref d u s))))"

section \<open>One table\<close>

record bronze_state =
  bs_table_name :: string
  bs_reference :: string
  bs_delta_state :: "table_state option"
  bs_cursor :: "event_cursor option"
  bs_processed_version :: int

definition read_cursor :: "table_state option \<Rightarrow> (event_cursor option \<times> int) res" where
  "read_cursor state = (case state of None \<Rightarrow> Inr (None, -1)
   | Some st \<Rightarrow> (case ts_progress st of
       None \<Rightarrow> Inl (RuntimeError ''Bronze progress metadata is missing'')
     | Some metadata \<Rightarrow> (case jget metadata ''last_event_id'' of
         Some (JInt n) \<Rightarrow> if n < 0 then Inl (ValueError ''Invalid Bronze Delta progress metadata'')
           else (case ts_progress_version st of
               None \<Rightarrow> Inl (RuntimeError ''Bronze progress version is missing'')
             | Some v \<Rightarrow> and_then (make_event_cursor n) (\<lambda>c. Inr (Some c, v)))
       | _ \<Rightarrow> Inl (ValueError ''Invalid Bronze Delta progress metadata''))))"

definition table_state_of :: "extractor \<Rightarrow> string \<Rightarrow> bronze_state io" where
  "table_state_of m t = io_get (\<lambda>s.
     and_then (table_reference (be_lakehouse m) ''bronze'' t) (\<lambda>r.
     and_then (try_delta_table_state (be_loads m) s (tr_value r) ''postgres_to_bronze'') (\<lambda>state.
     and_then (read_cursor state) (\<lambda>(cursor, v).
     Inr \<lparr>bs_table_name = t, bs_reference = tr_value r, bs_delta_state = state, bs_cursor = cursor, bs_processed_version = v\<rparr>))))"

definition bronze_result_of :: "extractor \<Rightarrow> bronze_state \<Rightarrow> int \<Rightarrow> (string \<times> int) list \<Rightarrow> bronze_result" where
  "bronze_result_of m st n counts =
     (let wrote_commit = (n > 0 \<or> bs_delta_state st = None);
          physical_version = (case bs_delta_state st of None \<Rightarrow> -1 | Some d \<Rightarrow> max (ts_version d) (bs_processed_version st))
      in \<lparr>br_batch_id = be_batch_id m, br_table_name = bs_table_name st, br_record_count = n,
          br_ingestion_type = (if bs_delta_state st \<noteq> None then ''incremental'' else ''initial''),
          br_delta_version = (if wrote_commit then physical_version + 1 else bs_processed_version st),
          br_operation_counts = counts, br_schema_version = BRONZE_SCHEMA_VERSION\<rparr>)"

definition run_bronze_table :: "extractor \<Rightarrow> jdbc \<Rightarrow> bronze_state \<Rightarrow> int option \<Rightarrow> bronze_result io" where
  "run_bronze_table m jd st upper =
     io_bind (io_lift (get_bronze_contract (bs_table_name st))) (\<lambda>c.
     if bs_delta_state st \<noteq> None \<and> upper = None
     then io_return (bronze_result_of m st 0 (map (\<lambda>o'. (o', 0)) CHANGE_OPERATIONS))
     else io_bind (io_lift (materialize_events m jd c (bs_cursor st) upper)) (\<lambda>(d, stats).
       io_bind (io_lift (case cs_last_event_id stats of Some n \<Rightarrow> make_event_cursor n
           | None \<Rightarrow> (case bs_cursor st of Some cur \<Rightarrow> Inr cur | None \<Rightarrow> make_event_cursor 0))) (\<lambda>current.
       io_bind (if cs_record_count stats > 0 \<or> bs_delta_state st = None
         then write_append_only m d (bs_reference st) (bs_delta_state st \<noteq> None) (bs_table_name st) (last_event_id current)
         else io_return ()) (\<lambda>_.
       io_return (bronze_result_of m st (cs_record_count stats) (cs_operation_counts stats))))))"

section \<open>All tables\<close>

definition bound_of :: "(string \<times> int option) list \<Rightarrow> string \<Rightarrow> int option res" where
  "bound_of bounds t = (case map_of bounds t of None \<Rightarrow> Inl (KeyError t) | Some b \<Rightarrow> Inr b)"

definition run_bronze :: "extractor \<Rightarrow> jdbc \<Rightarrow> string list \<Rightarrow> bronze_manifest io" where
  "run_bronze m jd tables =
     io_bind (io_traverse (\<lambda>t. in_new_session (table_state_of m t)) tables) (\<lambda>states.
     io_bind (io_lift (read_batch_upper_bounds (be_postgres m) (jd_control jd)
       (fold (\<lambda>st kvs. assoc_set (bs_table_name st) (bs_cursor st) kvs) states []))) (\<lambda>bounds.
     io_bind (io_traverse (\<lambda>st. in_new_session (io_bind (io_lift (bound_of bounds (bs_table_name st)))
       (run_bronze_table m jd st))) states) (\<lambda>results.
     io_lift (from_results (be_batch_id m) results))))"

definition extract_all_to_bronze :: "extractor \<Rightarrow> jdbc \<Rightarrow> string list option \<Rightarrow> bronze_manifest io" where
  "extract_all_to_bronze m jd table_names =
     (let tables = (case table_names of None \<Rightarrow> map fst BRONZE_TABLES | Some ts \<Rightarrow> ts)
      in io_bind (io_lift (raise_if (\<not> set tables \<subseteq> set (map fst BRONZE_TABLES)) (ValueError ''Unknown source tables'')))
           (\<lambda>_. run_bronze m jd tables))"

end
