(* ===== verification/BronzeProgress.thy ===== *)
theory BronzeProgress
  imports BronzeIngest
begin

text \<open>
  What the batch ingestion promises: a run takes the next events of the outbox, each once, and records how
  far it came in the same commit; runs drain the backlog. Where the code falls short: a table without events
  stops the runs after its first, an event that becomes visible below the cursor is never
  read, and a table that is requested twice gets its events twice.
\<close>

section \<open>Attempts and partitions\<close>

text \<open>The first attempt that gets through sees the outbox \<open>src\<close>.\<close>

definition answers :: "postgres_config \<Rightarrow> (nat \<Rightarrow> source res) \<Rightarrow> source \<Rightarrow> bool" where
  "answers pg f src \<longleftrightarrow> (\<exists>k \<in> {1..nat (pg_retry_attempts pg)}. f k = Inr src \<and> (\<forall>j \<in> {1..<k}. \<exists>e. f j = Inl e))"

lemma retry_from_succeeds:
  assumes "action k = Inr a" and "\<forall>j \<in> {i..<k}. \<exists>e. action j = Inl e" and "i \<le> k" and "k < i + n"
  shows "retry_from action i n = Inr a"
  using assms
proof (induction n arbitrary: i)
  case (Suc n)
  show ?case
  proof (cases "i = k")
    case True
    with Suc.prems(1) show ?thesis by simp
  next
    case False
    with Suc.prems obtain e where e: "action i = Inl e" by fastforce
    have "retry_from action (Suc i) n = Inr a" using Suc.prems False by (intro Suc.IH) auto
    moreover have "n \<noteq> 0" using Suc.prems False by auto
    ultimately show ?thesis by (simp add: e)
  qed
qed simp

lemma with_retry_answers:
  assumes "answers pg f src" and "g src = Inr a"
  shows "with_retry pg (\<lambda>k. and_then (f k) g) = Inr a"
proof -
  obtain k where k: "k \<in> {1..nat (pg_retry_attempts pg)}" "f k = Inr src" "\<forall>j \<in> {1..<k}. \<exists>e. f j = Inl e"
    using assms(1) by (auto simp: answers_def)
  have "\<forall>j \<in> {1..<k}. \<exists>e. and_then (f j) g = Inl e"
  proof
    fix j assume "j \<in> {1..<k}"
    with k(3) obtain e where "f j = Inl e" by blast
    then show "\<exists>e. and_then (f j) g = Inl e" by simp
  qed
  with k(1,2) assms(2) show ?thesis
    unfolding with_retry_def by (intro retry_from_succeeds [of _ k]) auto
qed

text \<open>Whatever the attempts meet, the result of a successful retry is that of one of them.\<close>

lemma retry_from_Inr: "retry_from action i n = Inr a \<Longrightarrow> \<exists>k. action k = Inr a"
  by (induction action i n rule: retry_from.induct) (auto split: sum.splits if_splits)

definition pg_ok :: "postgres_config \<Rightarrow> bool" where
  "pg_ok pg \<longleftrightarrow> 1 \<le> pg_max_jdbc_partitions pg \<and> 1 \<le> pg_target_events_per_partition pg \<and> 1 \<le> pg_max_events_per_batch pg"

text \<open>The number of partitions respects the throttle of the reader.\<close>

lemma jdbc_partition_count_bounds:
  assumes "pg_ok pg"
  shows "1 \<le> jdbc_partition_count pg cursor upper \<and> jdbc_partition_count pg cursor upper \<le> pg_max_jdbc_partitions pg"
proof -
  let ?span = "max (upper - lower_bound cursor) 1" and ?target = "pg_target_events_per_partition pg"
  have "(- ?span) div ?target < 0" using assms by (intro div_neg_pos_less0) (auto simp: pg_ok_def)
  then show ?thesis using assms by (auto simp: jdbc_partition_count_def pg_ok_def Let_def)
qed

section \<open>The next events\<close>

definition event_no :: "row \<Rightarrow> int" where
  "event_no e = (case int_of_val (e ''event_id'') of Some i \<Rightarrow> i | None \<Rightarrow> 0)"

definition event_ok :: "source \<Rightarrow> bronze_contract \<Rightarrow> row \<Rightarrow> bool" where
  "event_ok src c e \<longleftrightarrow> e ''event_id'' = IntV (event_no e) \<and> 0 < event_no e \<and> e ''occurred_at'' \<noteq> Null \<and>
     e ''operation'' \<in> StrV ` set CHANGE_OPERATIONS \<and>
     list_all (\<lambda>k. so_populate src (bc_table_name c) (e ''row_data'') k \<noteq> Null) (bc_primary_keys c)"

text \<open>The constraints the schema of the outbox and the triggers keep.\<close>

definition outbox_ok :: "source \<Rightarrow> bronze_contract \<Rightarrow> bool" where
  "outbox_ok src c \<longleftrightarrow> list_all (event_ok src c) (table_events src (bc_table_name c)) \<and>
     distinct (map event_no (table_events src (bc_table_name c))) \<and> set (bc_primary_keys c) \<subseteq> set (so_columns src (bc_table_name c))"

definition pending_events :: "source \<Rightarrow> string \<Rightarrow> int \<Rightarrow> row list" where
  "pending_events src t n = filter (\<lambda>e. n < event_no e) (table_events src t)"

definition events_up_to :: "source \<Rightarrow> string \<Rightarrow> int \<Rightarrow> int \<Rightarrow> row list" where
  "events_up_to src t n u = filter (\<lambda>e. event_no e \<le> u) (pending_events src t n)"

lemma greatest_Max: "vs \<noteq> [] \<Longrightarrow> greatest vs = Max (set vs)"
proof (induction vs)
  case (Cons v vs)
  then show ?case by (cases vs) (simp_all add: max_def)
qed simp

lemma sorted_le_last:
  fixes xs :: "'a :: linorder list"
  shows "sorted xs \<Longrightarrow> x \<in> set xs \<Longrightarrow> x \<le> last xs"
  by (induction xs rule: rev_induct) (auto simp: sorted_append)

lemma filter_le_last:
  fixes xs :: "'a :: linorder list"
  assumes "sorted xs" and "distinct xs" and "0 < m" and "xs \<noteq> []"
  shows "filter (\<lambda>x. x \<le> last (take m xs)) xs = take m xs"
proof -
  let ?a = "take m xs" and ?b = "drop m xs"
  have xs: "xs = ?a @ ?b" by simp
  have a: "?a \<noteq> []" using assms by simp
  have "sorted (?a @ ?b)" "distinct (?a @ ?b)" using assms by simp_all
  then have ab: "sorted ?a" "\<forall>x \<in> set ?a. \<forall>y \<in> set ?b. x \<le> y" "set ?a \<inter> set ?b = {}"
    unfolding sorted_append distinct_append by blast+
  have "x \<le> last ?a" if "x \<in> set ?a" for x
    using sorted_le_last [OF ab(1) that] .
  moreover have "\<not> y \<le> last ?a" if "y \<in> set ?b" for y
  proof
    assume "y \<le> last ?a"
    moreover have "last ?a \<in> set ?a" using a by simp
    ultimately have "y = last ?a" using ab(2) that by (meson antisym)
    with \<open>last ?a \<in> set ?a\<close> that ab(3) show False by blast
  qed
  ultimately have "filter (\<lambda>x. x \<le> last ?a) (?a @ ?b) = ?a" unfolding filter_append
    by (simp add: filter_id_conv filter_empty_conv)
  then show ?thesis by simp
qed

lemma sorted_last_Max: "sorted xs \<Longrightarrow> xs \<noteq> [] \<Longrightarrow> Max (set xs) = last xs"
  by (intro Max_eqI) (auto intro: sorted_le_last)

text \<open>The bound of a batch is an event id, and cuts off the next events.\<close>

lemma next_events:
  assumes "outbox_ok src c" and t: "bc_table_name c = t" and "pg_ok pg" and "pending_events src t n \<noteq> []"
  obtains u where "greatest (bounded_events pg src t n) = IntV u"
    and "length (events_up_to src t n u) = min (nat (pg_max_events_per_batch pg)) (length (pending_events src t n))"
    and "\<exists>e \<in> set (pending_events src t n). event_no e = u"
proof -
  let ?es = "pending_events src t n" and ?m = "nat (pg_max_events_per_batch pg)"
  let ?ids = "sort (map event_no ?es)"
  have ok: "e ''event_id'' = IntV (event_no e)" if "e \<in> set (table_events src t)" for e
    using assms(1) that t by (auto simp: outbox_ok_def event_ok_def list_all_iff)
  have above: "where3 (\<lambda>e. gt3 (e ''event_id'') (IntV n)) (table_events src t) = ?es"
    unfolding where3_def pending_events_def by (intro filter_cong refl) (simp add: ok)
  have no: "map (\<lambda>e. e ''event_id'') ?es = map IntV (map event_no ?es)"
    using ok by (auto simp: pending_events_def)
  have sort: "sort (map IntV xs) = map IntV (sort xs)" for xs
    by (rule properties_for_sort) (simp_all add: sorted_map)
  have bounded: "bounded_events pg src t n = map IntV (take ?m ?ids)"
    unfolding bounded_events_def above no sort take_map ..
  have "length ?ids \<noteq> 0" using assms(4) by simp
  then have nonempty: "?ids \<noteq> []" by (metis list.size(3))
  have ids: "sorted ?ids" "distinct ?ids" "0 < ?m"
    using assms by (auto simp: outbox_ok_def pending_events_def distinct_map_filter pg_ok_def)
  let ?u = "last (take ?m ?ids)"
  have "sorted (take ?m ?ids)" "take ?m ?ids \<noteq> []" using ids nonempty by (simp_all add: sorted_wrt_take)
  then have "Max (IntV ` set (take ?m ?ids)) = IntV ?u"
    by (simp add: sorted_last_Max [symmetric] mono_Max_commute [of IntV] monoI)
  with \<open>take ?m ?ids \<noteq> []\<close> have u: "greatest (bounded_events pg src t n) = IntV ?u"
    unfolding bounded by (subst greatest_Max) simp_all
  have "mset (map event_no (events_up_to src t n ?u)) = mset (filter (\<lambda>i. i \<le> ?u) ?ids)"
    by (simp add: events_up_to_def mset_filter filter_mset_image_mset comp_def)
  then have "length (events_up_to src t n ?u) = length (filter (\<lambda>i. i \<le> ?u) ?ids)"
    by (metis length_map mset_eq_length)
  also have "\<dots> = min ?m (length ?es)" unfolding filter_le_last [OF ids nonempty] by simp
  finally have len: "length (events_up_to src t n ?u) = min ?m (length ?es)" .
  have "?u \<in> set (take ?m ?ids)" using \<open>take ?m ?ids \<noteq> []\<close> by (rule last_in_set)
  then have "?u \<in> set ?ids" by (rule in_set_takeD)
  then have "\<exists>e \<in> set ?es. event_no e = ?u" by auto
  with u len that show thesis by blast
qed

section \<open>Reading and checking them\<close>

definition bronze_contract_ok :: "bronze_contract \<Rightarrow> bool" where
  "bronze_contract_ok c \<longleftrightarrow> list_all (\<lambda>n. n \<notin> set (bc_excluded_columns c))
       (bc_primary_keys c @ [''_event_id'', ''_operation'', ''_event_occurred_at'']) \<and>
     list_all (\<lambda>k. \<not> starts_with ''_'' k) (bc_primary_keys c)"

lemma bronze_contract_facts:
  assumes "get_bronze_contract t = Inr c"
  shows "bc_table_name c = t" and "bronze_contract_ok c" and "t \<in> set (map fst BRONZE_TABLES)"
proof -
  have "list_all (\<lambda>(t, c). bc_table_name c = t \<and> bronze_contract_ok c) BRONZE_TABLES" by code_simp
  moreover have "(t, c) \<in> set BRONZE_TABLES"
    using assms by (auto simp: get_bronze_contract_def dest: map_of_SomeD split: option.splits)
  ultimately show "bc_table_name c = t" "bronze_contract_ok c" "t \<in> set (map fst BRONZE_TABLES)"
    by (auto simp: list_all_iff) force
qed

definition event_df :: "extractor \<Rightarrow> bronze_contract \<Rightarrow> source \<Rightarrow> row list \<Rightarrow> df" where
  "event_df m c src es =
     (let raw = \<lparr>df_cols = so_columns src (bc_table_name c) @ [''_event_id'', ''_operation'', ''_event_occurred_at''],
        df_rows = map (event_row src (bc_table_name c)) es\<rparr>
      in add_bronze_metadata m (bc_table_name c)
        (if bc_excluded_columns c \<noteq> [] then drop_columns (bc_excluded_columns c) raw else raw))"

text \<open>The Bronze row of an event.\<close>

definition stored_row :: "extractor \<Rightarrow> bronze_contract \<Rightarrow> source \<Rightarrow> row \<Rightarrow> row" where
  "stored_row m c src e = hd (df_rows (event_df m c src [e]))"

lemma event_df_rows: "df_rows (event_df m c src es) = map (stored_row m c src) es"
  by (simp add: event_df_def stored_row_def add_bronze_metadata_def drop_columns_def Let_def)

lemma event_df_cols: "df_cols (event_df m c src es) = df_cols (event_df m c src [])"
  by (simp add: event_df_def add_bronze_metadata_def drop_columns_def Let_def)

lemma read_events_upper:
  assumes "pg_ok (be_postgres m)" and "lower_bound cursor < u"
  shows "read_events m c cursor (Some u) src =
    Inr (event_df m c src (events_between src (bc_table_name c) (lower_bound cursor) u))"
  using assms(2) jdbc_partition_count_bounds [OF assms(1), of cursor u]
  by (simp add: read_events_def change_event_query_def read_partitioned_query_def event_df_def Let_def raise_if_def)

lemma read_events_empty: "read_events m c cursor None src = Inr (event_df m c src [])"
  by (simp add: read_events_def change_event_query_def event_df_def Let_def)

lemma meta_names: "map_of (bronze_meta m t cols) n \<noteq> None \<Longrightarrow> starts_with ''_'' n"
  by (auto simp: bronze_meta_def Let_def starts_with_def split: if_splits)

lemma stored_row_cells:
  assumes "bronze_contract_ok c"
  shows "stored_row m c src e ''_event_id'' = e ''event_id''" and "stored_row m c src e ''_operation'' = e ''operation''"
    and "stored_row m c src e ''_event_occurred_at'' = e ''occurred_at''"
    and "k \<in> set (bc_primary_keys c) \<Longrightarrow> k \<in> set (so_columns src (bc_table_name c)) \<Longrightarrow>
      stored_row m c src e k = so_populate src (bc_table_name c) (e ''row_data'') k"
proof -
  have meta: "map_of (bronze_meta m (bc_table_name c) cols) n = None" if "n \<in> {''_event_id'', ''_operation'', ''_event_occurred_at''}" for n cols
    using that by (auto simp: bronze_meta_def Let_def)
  have plain: "n \<notin> set (bc_excluded_columns c)" if "n \<in> {''_event_id'', ''_operation'', ''_event_occurred_at''} \<union> set (bc_primary_keys c)" for n
    using assms that by (auto simp: bronze_contract_ok_def list_all_iff)
  have cell: "stored_row m c src e n = event_row src (bc_table_name c) e n"
    if "\<forall>cols. map_of (bronze_meta m (bc_table_name c) cols) n = None" "n \<notin> set (bc_excluded_columns c)" for n
    using that by (simp add: stored_row_def event_df_def add_bronze_metadata_def drop_columns_def with_metadata_def Let_def)
  show "stored_row m c src e ''_event_id'' = e ''event_id''" "stored_row m c src e ''_operation'' = e ''operation''"
    "stored_row m c src e ''_event_occurred_at'' = e ''occurred_at''"
    by (subst cell; simp add: meta plain event_row_def)+
  assume k: "k \<in> set (bc_primary_keys c)" "k \<in> set (so_columns src (bc_table_name c))"
  then have "\<not> starts_with ''_'' k" using assms by (auto simp: bronze_contract_ok_def list_all_iff)
  then have "\<forall>cols. map_of (bronze_meta m (bc_table_name c) cols) k = None"
    using meta_names by (metis not_None_eq)
  moreover have "k \<noteq> ''_event_id''" "k \<noteq> ''_operation''" "k \<noteq> ''_event_occurred_at''"
    using \<open>\<not> starts_with ''_'' k\<close> by (auto simp: starts_with_def)
  ultimately show "stored_row m c src e k = so_populate src (bc_table_name c) (e ''row_data'') k"
    using k plain by (subst cell) (auto simp: event_row_def)
qed

lemma holds_invalid_event:
  "holds (invalid_event keys r) \<longleftrightarrow> r ''_event_id'' = Null \<or> r ''_event_occurred_at'' = Null \<or> r ''_operation'' = Null \<or>
    holds (not3 (isin3 (r ''_operation'') (map StrV CHANGE_OPERATIONS))) \<or> (\<exists>k \<in> set keys. r k = Null)"
proof -
  have fold: "holds (fold (\<lambda>k b. or3 b (is_null3 (r k))) keys b) \<longleftrightarrow> holds b \<or> (\<exists>k \<in> set keys. r k = Null)" for b
    by (induction keys arbitrary: b) (auto simp: is_null3_def)
  show ?thesis unfolding invalid_event_def fold by (auto simp: is_null3_def)
qed

definition event_counts :: "row list \<Rightarrow> (string \<times> int) list" where
  "event_counts es = map (\<lambda>o'. (o', int (length (filter (\<lambda>e. e ''operation'' = StrV o') es)))) CHANGE_OPERATIONS"

lemma collect_stats_ok:
  assumes "outbox_ok src c" and "bronze_contract_ok c" and es: "set es \<subseteq> set (table_events src (bc_table_name c))"
  shows "collect_change_event_stats c (event_df m c src es) = Inr \<lparr>cs_record_count = int (length es),
    cs_last_event_id = int_of_val (greatest (map (\<lambda>e. e ''event_id'') es)), cs_operation_counts = event_counts es\<rparr>"
proof -
  note cells = stored_row_cells [OF assms(2)]
  have keys: "set (bc_primary_keys c) \<subseteq> set (so_columns src (bc_table_name c))" using assms(1) by (simp add: outbox_ok_def)
  have cols: "set (bc_primary_keys c @ [''_event_id'', ''_operation'', ''_event_occurred_at'']) \<subseteq> set (df_cols (event_df m c src es))"
    using assms(2) keys by (auto simp: event_df_def add_bronze_metadata_def drop_columns_def bronze_contract_ok_def list_all_iff Let_def)
  have ok: "event_ok src c e" if "e \<in> set es" for e
    using assms(1) es that by (auto simp: outbox_ok_def list_all_iff)
  have "\<not> holds (invalid_event (bc_primary_keys c) (stored_row m c src e))" if "e \<in> set es" for e
  proof -
    from ok [OF that] obtain o' where o: "e ''operation'' = StrV o'" "o' \<in> set CHANGE_OPERATIONS" by (auto simp: event_ok_def)
    then have "holds (isin3 (e ''operation'') (map StrV CHANGE_OPERATIONS))" by auto
    then have "\<not> holds (not3 (isin3 (e ''operation'') (map StrV CHANGE_OPERATIONS)))" by (simp add: holds_def)
    moreover have "stored_row m c src e k \<noteq> Null" if "k \<in> set (bc_primary_keys c)" for k
      using ok [OF \<open>e \<in> set es\<close>] that keys by (subst cells(4)) (auto simp: event_ok_def list_all_iff)
    ultimately show ?thesis using ok [OF that] o by (auto simp: holds_invalid_event cells event_ok_def)
  qed
  then have valid: "where3 (invalid_event (bc_primary_keys c)) (df_rows (event_df m c src es)) = []"
    by (auto simp: where3_def event_df_rows filter_empty_conv)
  have counts: "length (where3 (\<lambda>r. eq3 (r ''_operation'') (StrV o')) (df_rows (event_df m c src es))) =
      length (filter (\<lambda>e. e ''operation'' = StrV o') es)" for o'
    by (simp add: where3_def event_df_rows filter_map comp_def cells conj_commute cong: conj_cong)
  show ?thesis
    unfolding collect_change_event_stats_def valid counts using cols
    by (simp add: event_counts_def event_df_rows comp_def cells)
qed

section \<open>One run\<close>

text \<open>A Bronze table whose last commit records that it holds the events up to \<open>n\<close>.\<close>

definition bronze_at :: "extractor \<Rightarrow> string \<Rightarrow> string \<Rightarrow> int \<Rightarrow> delta_table \<Rightarrow> lake \<Rightarrow> bool" where
  "bronze_at m t ref n u s \<longleftrightarrow> map_sum id tr_value (table_reference (be_lakehouse m) ''bronze'' t) = Inr ref \<and>
     lk_tables s ref = Some u \<and> dt_commits u \<noteq> [] \<and> 0 \<le> n \<and>
     (\<exists>batch_id. cm_metadata (latest_commit u) = Some (be_dumps m (bronze_metadata t batch_id n)))"

definition state_at :: "string \<Rightarrow> string \<Rightarrow> int \<Rightarrow> delta_table \<Rightarrow> json \<Rightarrow> bronze_state" where
  "state_at t ref n u metadata = (let v = int (length (dt_commits u)) - 1 in
     \<lparr>bs_table_name = t, bs_reference = ref, bs_delta_state = Some \<lparr>ts_version = v, ts_progress_version = Some v, ts_progress = Some metadata\<rparr>,
      bs_cursor = Some \<lparr>last_event_id = n\<rparr>, bs_processed_version = v\<rparr>)"

lemma map_sum_Inr: "map_sum id f x = Inr b \<longleftrightarrow> (\<exists>a. x = Inr a \<and> f a = b)"
  by (cases x) auto

lemma bronze_metadata_fields:
  "jget (bronze_metadata t batch_id n) ''pipeline'' = Some (JStr ''postgres_to_bronze'')"
  "jget (bronze_metadata t batch_id n) ''last_event_id'' = Some (JInt n)"
  by (simp_all add: bronze_metadata_def)

lemma pipeline_metadata_bronze:
  assumes "json_codec dumps loads"
  shows "pipeline_metadata loads (Some (dumps (bronze_metadata t batch_id n))) ''postgres_to_bronze'' = Some (bronze_metadata t batch_id n)"
  using bronze_metadata_fields(1) [of t batch_id n] assms
  by (auto simp: pipeline_metadata_def metadata_for_pipelines_def json_codec_loads jget_def jobj_def bronze_metadata_def split: json.splits)

lemma bronze_table_state:
  assumes "json_codec (be_dumps m) (be_loads m)" and "bronze_at m t ref n u s"
  shows "\<exists>metadata. in_new_session (table_state_of m t) s = (Inr (state_at t ref n u metadata), s)"
proof -
  from assms(2) obtain r batch_id where r: "table_reference (be_lakehouse m) ''bronze'' t = Inr r" "tr_value r = ref"
    and u: "lk_tables s ref = Some u" "dt_commits u \<noteq> []" "0 \<le> n"
    and meta: "cm_metadata (latest_commit u) = Some (be_dumps m (bronze_metadata t batch_id n))"
    by (auto simp: bronze_at_def map_sum_Inr)
  have "delta_table_state (be_loads m) s' ref ''postgres_to_bronze'' = Inr \<lparr>ts_version = int (length (dt_commits u)) - 1,
      ts_progress_version = Some (int (length (dt_commits u)) - 1), ts_progress = Some (bronze_metadata t batch_id n)\<rparr>"
    if "lk_tables s' ref = Some u" for s'
    using that u meta by (simp add: delta_table_state_def delta_table_at_def history_newest pipeline_metadata_bronze [OF assms(1)]
        del: One_nat_def)
  then show ?thesis
    using r u by (intro exI [of _ "bronze_metadata t batch_id n"])
      (simp add: in_new_session_def table_state_of_def io_get_def try_delta_table_state_def missing_as_none_def read_cursor_def
        bronze_metadata_fields make_event_cursor_def state_at_def Let_def)
qed

lemma greatest_event:
  assumes "outbox_ok src c" and t: "bc_table_name c = t" and "\<exists>e \<in> set (table_events src t). n \<le> event_no e"
  obtains k where "greatest (map (\<lambda>e. e ''event_id'') (table_events src t)) = IntV k" and "n \<le> k"
proof -
  let ?es = "table_events src t"
  from assms(3) obtain e where e: "e \<in> set ?es" "n \<le> event_no e" by blast
  have ids: "map (\<lambda>e. e ''event_id'') ?es = map IntV (map event_no ?es)"
    using assms(1) t by (auto simp: outbox_ok_def event_ok_def list_all_iff)
  have "greatest (map (\<lambda>e. e ''event_id'') ?es) = Max (IntV ` event_no ` set ?es)"
    using e(1) unfolding ids by (subst greatest_Max) (auto simp: image_image)
  also have "\<dots> = IntV (Max (event_no ` set ?es))" using e(1) by (subst mono_Max_commute [of IntV]) (auto intro: monoI)
  finally show thesis using e by (intro that [of "Max (event_no ` set ?es)"]) (auto intro: order_trans Max_ge)
qed

text \<open>Nothing pending: no upper bound.\<close>

lemma no_pending_bound:
  assumes "outbox_ok src c" and t: "bc_table_name c = t" and "pending_events src t n = []"
  shows "int_of_val (greatest (bounded_events pg src t n)) = None"
proof -
  have "filter (\<lambda>e. n < event_no e) (table_events src t) = []" using assms(3) by (simp add: pending_events_def)
  moreover have "\<forall>e \<in> set (table_events src t). e ''event_id'' = IntV (event_no e)"
    using assms(1) t by (auto simp: outbox_ok_def event_ok_def list_all_iff)
  ultimately have "where3 (\<lambda>e. gt3 (e ''event_id'') (IntV n)) (table_events src t) = []"
    by (auto simp: where3_def filter_empty_conv)
  then show ?thesis by (simp add: bounded_events_def)
qed

lemma upper_bounds_at:
  assumes "answers pg control src" and "outbox_ok src c" and t: "bc_table_name c = t"
    and "\<exists>e \<in> set (table_events src t). n \<le> event_no e"
  shows "read_batch_upper_bounds pg control [(t, Some \<lparr>last_event_id = n\<rparr>)] =
    Inr [(t, int_of_val (greatest (bounded_events pg src t n)))]"
proof -
  let ?cursors = "[(t, Some \<lparr>last_event_id = n\<rparr>)]"
  have run: "with_retry pg (\<lambda>k. and_then (control k) (\<lambda>src. Inr (batch_upper_bounds_query pg ?cursors src))) =
      Inr (batch_upper_bounds_query pg ?cursors src)"
    using assms(1) by (rule with_retry_answers) simp
  obtain k where "greatest (map (\<lambda>e. e ''event_id'') (table_events src t)) = IntV k" "n \<le> k"
    by (rule greatest_event [OF assms(2-4)])
  then show ?thesis
    unfolding read_batch_upper_bounds_def run
    by (simp add: batch_upper_bounds_query_def sequence_regressed_def lower_bound_def)
qed

lemma events_between_eq:
  assumes "outbox_ok src c" and t: "bc_table_name c = t"
  shows "events_between src t n u = events_up_to src t n u"
proof -
  have ok: "e ''event_id'' = IntV (event_no e)" if "e \<in> set (table_events src t)" for e
    using assms(1) t that by (auto simp: outbox_ok_def event_ok_def list_all_iff)
  show ?thesis
    unfolding events_between_def where3_def events_up_to_def pending_events_def filter_filter
    by (intro filter_cong refl) (simp add: ok)
qed

lemma pending_events_set: "set (pending_events src t n) \<subseteq> set (table_events src t)"
  by (auto simp: pending_events_def)

text \<open>The batch that ends at the event \<open>u\<close>.\<close>

lemma materialize_next:
  assumes "answers (be_postgres m) (jd_extract jd t) src" and ok: "outbox_ok src c" and c: "get_bronze_contract t = Inr c"
    and "pg_ok (be_postgres m)" and u: "e \<in> set (pending_events src t n)" "event_no e = u"
  shows "materialize_events m jd c (Some \<lparr>last_event_id = n\<rparr>) (Some u) =
    Inr (event_df m c src (events_up_to src t n u), \<lparr>cs_record_count = int (length (events_up_to src t n u)),
      cs_last_event_id = Some u, cs_operation_counts = event_counts (events_up_to src t n u)\<rparr>)"
proof -
  let ?es = "events_up_to src t n u"
  note contract = bronze_contract_facts [OF c]
  have e: "e \<in> set ?es" using u by (simp add: events_up_to_def)
  have es: "set ?es \<subseteq> set (table_events src (bc_table_name c))"
    using pending_events_set by (auto simp: events_up_to_def contract)
  have "\<forall>e \<in> set ?es. e ''event_id'' = IntV (event_no e) \<and> event_no e \<le> u"
    using ok es by (auto simp: outbox_ok_def event_ok_def list_all_iff events_up_to_def)
  then have "greatest (map (\<lambda>e. e ''event_id'') ?es) = IntV u"
    using e u(2) by (subst greatest_Max) (auto intro!: Max_eqI simp: image_iff intro: rev_bexI)
  then have stats: "collect_change_event_stats c (event_df m c src ?es) = Inr \<lparr>cs_record_count = int (length ?es),
      cs_last_event_id = Some u, cs_operation_counts = event_counts ?es\<rparr>"
    using collect_stats_ok [OF ok contract(2) es, of m] by simp
  have "n < u" using u by (auto simp: pending_events_def)
  then have read: "read_events m c (Some \<lparr>last_event_id = n\<rparr>) (Some u) src = Inr (event_df m c src ?es)"
    using read_events_upper [OF assms(4), of "Some \<lparr>last_event_id = n\<rparr>" u c src]
      events_between_eq [OF ok contract(1), of n u] contract(1)
    by (simp add: lower_bound_def)
  show ?thesis
    unfolding materialize_events_def contract(1) using assms(1) by (rule with_retry_answers) (simp add: read stats)
qed

definition bronze_commit :: "extractor \<Rightarrow> string \<Rightarrow> int \<Rightarrow> df \<Rightarrow> delta_table \<Rightarrow> delta_table" where
  "bronze_commit m t n d u = (let cols = cm_cols (latest_commit u) in u\<lparr>dt_commits := dt_commits u @
     [\<lparr>cm_cols = cols @ filter (\<lambda>c. c \<notin> set cols) (df_cols d), cm_rows = cm_rows (latest_commit u) @ df_rows d,
       cm_changes = map (Pair ''insert'') (df_rows d),
       cm_metadata = Some (be_dumps m (bronze_metadata t (be_batch_id m) n))\<rparr>]\<rparr>)"

lemma run_bronze_table_appends:
  assumes "get_bronze_contract t = Inr c" and st: "bs_table_name st = t" "bs_reference st = ref" "bs_delta_state st = Some ds"
    and mat: "materialize_events m jd c (bs_cursor st) (Some b) = Inr (d, stats)"
    and stats: "0 < cs_record_count stats" "cs_last_event_id stats = Some n" "0 \<le> n" and u: "lk_tables s ref = Some u"
  shows "in_new_session (run_bronze_table m jd st (Some b)) s =
    (Inr (bronze_result_of m st (cs_record_count stats) (cs_operation_counts stats)),
     s\<lparr>lk_tables := (lk_tables s)(ref \<mapsto> bronze_commit m t n d u)\<rparr>)"
proof -
  let ?s0 = "s\<lparr>lk_metadata := None, lk_txn_app := None, lk_txn_version := None\<rparr>"
  have cursor: "make_event_cursor n = Inr \<lparr>last_event_id = n\<rparr>" using stats(3) by (simp add: make_event_cursor_def)
  have written: "write_append_only m d ref True t n ?s0 =
      (Inr (), ?s0\<lparr>lk_tables := (lk_tables s)(ref \<mapsto> bronze_commit m t n d u)\<rparr>)"
    by (simp add: write_append_only_def delta_commit_metadata_def u append_delta_def commit_table_def table_or_empty_def
        txn_seen_def bronze_commit_def Let_def)
  have "run_bronze_table m jd st (Some b) ?s0 = (Inr (bronze_result_of m st (cs_record_count stats) (cs_operation_counts stats)),
      ?s0\<lparr>lk_tables := (lk_tables s)(ref \<mapsto> bronze_commit m t n d u)\<rparr>)"
    using stats(1,2) by (simp add: run_bronze_table_def assms(1) st mat io_lift_def io_bind_def cursor written)
  then show ?thesis by (simp add: in_new_session_def)
qed

lemma bronze_at_commit:
  assumes "bronze_at m t ref n u s" and "0 \<le> b"
  shows "bronze_at m t ref b (bronze_commit m t b d u) (s\<lparr>lk_tables := (lk_tables s)(ref \<mapsto> bronze_commit m t b d u)\<rparr>)"
  using assms by (auto simp: bronze_at_def bronze_commit_def latest_commit_def Let_def)

lemma bronze_commit_rows:
  assumes "lk_tables s ref = Some u"
  shows "current_rows (s\<lparr>lk_tables := (lk_tables s)(ref \<mapsto> bronze_commit m t b d u)\<rparr>) ref = current_rows s ref @ df_rows d"
  using assms by (simp add: current_rows_def bronze_commit_def latest_commit_def Let_def)

lemma run_one_table:
  assumes "t \<in> set (map fst BRONZE_TABLES)" and "in_new_session (table_state_of m t) s = (Inr st, s)" and "bs_table_name st = t"
    and "read_batch_upper_bounds (be_postgres m) (jd_control jd) [(t, bs_cursor st)] = Inr [(t, b)]"
    and "in_new_session (run_bronze_table m jd st b) s = (Inr result, s')" and "br_table_name result = t" "br_batch_id result = be_batch_id m"
  shows "extract_all_to_bronze m jd (Some [t]) s = (Inr \<lparr>bm_batch_id = be_batch_id m, bm_tables = [(t, result)]\<rparr>, s')"
proof -
  have known: "set [t] \<subseteq> set (map fst BRONZE_TABLES)" using assms(1) by simp
  have "from_results (be_batch_id m) [result] = Inr \<lparr>bm_batch_id = be_batch_id m, bm_tables = [(t, result)]\<rparr>"
    using assms(6,7) by (simp add: from_results_def)
  then show ?thesis
    unfolding extract_all_to_bronze_def run_bronze_def using known
    by (simp add: io_bind_def io_lift_def io_return_def assms(2-5) bound_of_def Let_def)
qed

lemma bronze_result_fields:
  "br_table_name (bronze_result_of m st k counts) = bs_table_name st" "br_batch_id (bronze_result_of m st k counts) = be_batch_id m"
  "br_record_count (bronze_result_of m st k counts) = k"
  by (simp_all add: bronze_result_of_def Let_def)

lemma bronze_result_version:
  "br_delta_version (bronze_result_of m (state_at t ref n u metadata) k counts) =
    (if 0 < k then int (length (dt_commits u)) else int (length (dt_commits u)) - 1)"
  by (simp add: bronze_result_of_def state_at_def Let_def)

lemma state_at_fields:
  "bs_table_name (state_at t ref n u metadata) = t" "bs_reference (state_at t ref n u metadata) = ref"
  "bs_cursor (state_at t ref n u metadata) = Some \<lparr>last_event_id = n\<rparr>"
  "bs_delta_state (state_at t ref n u metadata) = Some \<lparr>ts_version = int (length (dt_commits u)) - 1,
     ts_progress_version = Some (int (length (dt_commits u)) - 1), ts_progress = Some metadata\<rparr>"
  by (simp_all add: state_at_def Let_def)

lemma bronze_run:
  assumes codec: "json_codec (be_dumps m) (be_loads m)" and at: "bronze_at m t ref n u s" and c: "get_bronze_contract t = Inr c"
    and ok: "outbox_ok src c" "pg_ok (be_postgres m)" and control: "answers (be_postgres m) (jd_control jd) src"
    and extraction: "answers (be_postgres m) (jd_extract jd t) src" and reached: "list_ex (\<lambda>e. n \<le> event_no e) (table_events src t)"
  shows "\<exists>b u' result s'. extract_all_to_bronze m jd (Some [t]) s = (Inr \<lparr>bm_batch_id = be_batch_id m, bm_tables = [(t, result)]\<rparr>, s') \<and>
    length (events_up_to src t n b) = min (nat (pg_max_events_per_batch (be_postgres m))) (length (pending_events src t n)) \<and>
    n \<le> b \<and> list_ex (\<lambda>e. b \<le> event_no e) (table_events src t) \<and> bronze_at m t ref b u' s' \<and>
    current_rows s' ref = current_rows s ref @ map (stored_row m c src) (events_up_to src t n b) \<and>
    br_record_count result = int (length (events_up_to src t n b)) \<and> br_delta_version result = int (length (dt_commits u')) - 1"
proof -
  note contract = bronze_contract_facts [OF c]
  obtain metadata where st: "in_new_session (table_state_of m t) s = (Inr (state_at t ref n u metadata), s)"
    using bronze_table_state [OF codec at] by blast
  let ?st = "state_at t ref n u metadata"
  have bounds: "read_batch_upper_bounds (be_postgres m) (jd_control jd) [(t, bs_cursor ?st)] =
      Inr [(t, int_of_val (greatest (bounded_events (be_postgres m) src t n)))]"
    unfolding state_at_fields using upper_bounds_at [OF control ok(1) contract(1)] reached by (simp add: list_ex_iff)
  show ?thesis
  proof (cases "pending_events src t n = []")
    case True
    have none: "int_of_val (greatest (bounded_events (be_postgres m) src t n)) = None"
      by (rule no_pending_bound [OF ok(1) contract(1) True])
    let ?r = "bronze_result_of m ?st 0 (map (\<lambda>o'. (o', 0)) CHANGE_OPERATIONS)"
    have "run_bronze_table m jd ?st None s' = (Inr ?r, s')" for s'
      by (simp add: run_bronze_table_def state_at_fields c)
    then have "in_new_session (run_bronze_table m jd ?st None) s = (Inr ?r, s)" by (simp add: in_new_session_def)
    from run_one_table [OF contract(3) st state_at_fields(1) bounds [unfolded none] this]
    have "extract_all_to_bronze m jd (Some [t]) s = (Inr \<lparr>bm_batch_id = be_batch_id m, bm_tables = [(t, ?r)]\<rparr>, s)"
      by (simp add: bronze_result_fields state_at_fields)
    moreover have "events_up_to src t n n = []" using True by (simp add: events_up_to_def)
    ultimately show ?thesis using at reached True
      by (intro exI [of _ n] exI [of _ u] exI [of _ ?r] exI [of _ s]) (simp add: bronze_result_fields bronze_result_version)
  next
    case False
    obtain b where b: "greatest (bounded_events (be_postgres m) src t n) = IntV b"
      and len: "length (events_up_to src t n b) = min (nat (pg_max_events_per_batch (be_postgres m))) (length (pending_events src t n))"
      and "\<exists>e \<in> set (pending_events src t n). event_no e = b"
      by (rule next_events [OF ok(1) contract(1) ok(2) False])
    then obtain e where e: "e \<in> set (pending_events src t n)" "event_no e = b" by blast
    let ?es = "events_up_to src t n b" and ?d = "event_df m c src (events_up_to src t n b)"
    let ?u = "bronze_commit m t b ?d u"
    let ?s = "s\<lparr>lk_tables := (lk_tables s)(ref \<mapsto> ?u)\<rparr>"
    let ?r = "bronze_result_of m ?st (int (length ?es)) (event_counts ?es)"
    have u: "lk_tables s ref = Some u" "0 \<le> n" using at by (simp_all add: bronze_at_def)
    have nb: "n < b" "e \<in> set ?es" using e by (simp_all add: pending_events_def events_up_to_def)
    then have pos: "0 < int (length ?es)" by (cases ?es) simp_all
    note mat = materialize_next [OF extraction ok(1) c ok(2) e]
    have run: "in_new_session (run_bronze_table m jd ?st (Some b)) s = (Inr ?r, ?s)"
      using run_bronze_table_appends [OF c state_at_fields(1,2,4) mat [folded state_at_fields(3) [of t ref n u metadata]] _ _ _ u(1)]
        pos nb u(2) by simp
    have some: "int_of_val (greatest (bounded_events (be_postgres m) src t n)) = Some b" by (simp add: b)
    from run_one_table [OF contract(3) st state_at_fields(1) bounds [unfolded some] run]
    have "extract_all_to_bronze m jd (Some [t]) s = (Inr \<lparr>bm_batch_id = be_batch_id m, bm_tables = [(t, ?r)]\<rparr>, ?s)"
      by (simp add: bronze_result_fields state_at_fields)
    moreover have "bronze_at m t ref b ?u ?s" using bronze_at_commit [OF at] nb u(2) by simp
    moreover have "current_rows ?s ref = current_rows s ref @ map (stored_row m c src) ?es"
      unfolding bronze_commit_rows [OF u(1)] event_df_rows ..
    moreover have "br_delta_version ?r = int (length (dt_commits ?u)) - 1"
      unfolding bronze_result_version using pos by (simp add: bronze_commit_def Let_def)
    moreover have "list_ex (\<lambda>e. b \<le> event_no e) (table_events src t)"
      using e pending_events_set by (fastforce simp: list_ex_iff)
    ultimately show ?thesis using len nb
      by (intro exI [of _ b] exI [of _ ?u] exI [of _ ?r] exI [of _ ?s]) (simp add: bronze_result_fields)
  qed
qed

end
