(* ===== verification/BronzeCatchUp.thy ===== *)
theory BronzeCatchUp
  imports BronzeProgress
begin

text \<open>
  The promises of the batch ingestion over several runs, and the three cases in which it breaks them.
\<close>

section \<open>Draining the backlog\<close>

text \<open>\<open>k\<close> runs for one table.\<close>

primrec ingest_runs :: "extractor \<Rightarrow> jdbc \<Rightarrow> string \<Rightarrow> nat \<Rightarrow> lake \<Rightarrow> lake" where
  "ingest_runs m jd t 0 s = s"
| "ingest_runs m jd t (Suc k) s = ingest_runs m jd t k (snd (extract_all_to_bronze m jd (Some [t]) s))"

lemma pending_split:
  assumes "n \<le> b"
  shows "mset (pending_events src t n) = mset (events_up_to src t n b) + mset (pending_events src t b)"
    and "length (pending_events src t n) = length (events_up_to src t n b) + length (pending_events src t b)"
proof -
  have "pending_events src t b = filter (\<lambda>e. \<not> event_no e \<le> b) (pending_events src t n)"
    using assms by (auto simp: pending_events_def filter_filter intro!: filter_cong)
  then show "mset (pending_events src t n) = mset (events_up_to src t n b) + mset (pending_events src t b)"
    unfolding events_up_to_def by (simp add: multiset_partition [symmetric])
  then show "length (pending_events src t n) = length (events_up_to src t n b) + length (pending_events src t b)"
    by (metis size_mset size_union)
qed

lemma backlog_shrinks:
  fixes l :: nat
  assumes "p \<le> Suc k * m" and "p = min m p + l"
  shows "l \<le> k * m"
  using assms by (cases "m \<le> p") simp_all

text \<open>
  C4. Batch ingestion catches up with the source. Each run takes the next events of the outbox, at most
  the configured maximum, and commits them with its progress; after enough runs, whatever attempts
  fail in between, Bronze holds every event that was pending exactly once, after the rows it held before, and
  nothing is pending.
\<close>

theorem bronze_catches_up:
  assumes "json_codec (be_dumps m) (be_loads m)" and "bronze_at m t ref n u s" and "get_bronze_contract t = Inr c"
    and "outbox_ok src c" "pg_ok (be_postgres m)" and "answers (be_postgres m) (jd_control jd) src"
    and "answers (be_postgres m) (jd_extract jd t) src" and "list_ex (\<lambda>e. n \<le> event_no e) (table_events src t)"
    and "length (pending_events src t n) \<le> k * nat (pg_max_events_per_batch (be_postgres m))"
  shows "\<exists>n' u' rows. bronze_at m t ref n' u' (ingest_runs m jd t k s) \<and> pending_events src t n' = [] \<and>
    current_rows (ingest_runs m jd t k s) ref = current_rows s ref @ rows \<and>
    mset rows = image_mset (stored_row m c src) (mset (pending_events src t n))"
  using assms(2,8,9)
proof (induction k arbitrary: n u s)
  case 0
  then show ?case by (intro exI [of _ n] exI [of _ u] exI [of _ "[]"]) simp
next
  case (Suc k)
  let ?max = "nat (pg_max_events_per_batch (be_postgres m))"
  from bronze_run [OF assms(1) Suc.prems(1) assms(3,4,5,6,7) Suc.prems(2)] show ?case
  proof (elim exE conjE)
    fix b u1 result s1
    assume run: "extract_all_to_bronze m jd (Some [t]) s = (Inr \<lparr>bm_batch_id = be_batch_id m, bm_tables = [(t, result)]\<rparr>, s1)"
      and len: "length (events_up_to src t n b) = min ?max (length (pending_events src t n))" and b: "n \<le> b"
      and reached: "list_ex (\<lambda>e. b \<le> event_no e) (table_events src t)" and at1: "bronze_at m t ref b u1 s1"
      and rows: "current_rows s1 ref = current_rows s ref @ map (stored_row m c src) (events_up_to src t n b)"
    have "length (pending_events src t b) \<le> k * ?max" 
      using backlog_shrinks [OF Suc.prems(3)] pending_split(2) [OF b, of src t, unfolded len] .
    from Suc.IH [OF at1 reached this] show ?case
    proof (elim exE conjE)
      fix n' u' rest
      assume later: "bronze_at m t ref n' u' (ingest_runs m jd t k s1)" "pending_events src t n' = []"
        "current_rows (ingest_runs m jd t k s1) ref = current_rows s1 ref @ rest"
        "mset rest = image_mset (stored_row m c src) (mset (pending_events src t b))"
      then show ?case
        using pending_split(1) [OF b, of src t]
        by (intro exI [of _ n'] exI [of _ u'] exI [of _ "map (stored_row m c src) (events_up_to src t n b) @ rest"])
          (simp add: run rows)
    qed
  qed
qed

section \<open>Events below the cursor\<close>

lemma retried_materialize:
  assumes "materialize_events m jd c cursor (Some b) = Inr (d, stats)"
  shows "\<exists>src. d = event_df m c src (events_between src (bc_table_name c) (lower_bound cursor) b) \<and> lower_bound cursor < b \<and>
    collect_change_event_stats c d = Inr stats"
proof -
  from retry_from_Inr [OF assms [unfolded materialize_events_def with_retry_def]] obtain k src
    where read: "read_events m c cursor (Some b) src = Inr d" and stats: "collect_change_event_stats c d = Inr stats"
    by (auto simp: and_then_Inr_iff)
  from read have "d = event_df m c src (events_between src (bc_table_name c) (lower_bound cursor) b) \<and> lower_bound cursor < b"
    by (auto simp: read_events_def change_event_query_def read_partitioned_query_def event_df_def Let_def and_then_Inr_iff)
  with stats show ?thesis by blast
qed

lemma between_ids: "e \<in> set (events_between src t n b) \<Longrightarrow> \<exists>i. e ''event_id'' = IntV i \<and> n < i \<and> i \<le> b"
  by (cases "e ''event_id''") (auto simp: events_between_def less_val_def less_eq_val_def)

text \<open>Whatever the source shows, a run leaves the table or appends events above the cursor.\<close>

lemma any_bronze_run:
  assumes codec: "json_codec (be_dumps m) (be_loads m)" and here: "bronze_at m t ref n u s"
  shows "\<exists>n' u' rows. n \<le> n' \<and> bronze_at m t ref n' u' (snd (extract_all_to_bronze m jd (Some [t]) s)) \<and>
    current_rows (snd (extract_all_to_bronze m jd (Some [t]) s)) ref = current_rows s ref @ rows \<and>
    list_all (\<lambda>r. \<exists>i. r ''_event_id'' = IntV i \<and> n < i) rows"
proof -
  let ?run = "extract_all_to_bronze m jd (Some [t]) s"
  have same: ?thesis if "snd ?run = s"
    using that here by (intro exI [of _ n] exI [of _ u] exI [of _ "[]"]) simp
  obtain metadata where st: "in_new_session (table_state_of m t) s = (Inr (state_at t ref n u metadata), s)"
    using bronze_table_state [OF codec here] by blast
  let ?st = "state_at t ref n u metadata"
  show ?thesis
  proof (cases "t \<in> set (map fst BRONZE_TABLES)")
    case False
    then show ?thesis by (intro same) (simp add: extract_all_to_bronze_def)
  next
    case True
    then obtain c where c: "get_bronze_contract t = Inr c"
      by (cases "map_of BRONZE_TABLES t") (auto simp: get_bronze_contract_def map_of_eq_None_iff)
    note contract = bronze_contract_facts [OF c]
    note prefix = extract_all_to_bronze_def run_bronze_def io_bind_def io_lift_def io_return_def st state_at_fields Let_def
    show ?thesis
    proof (cases "read_batch_upper_bounds (be_postgres m) (jd_control jd) [(t, Some \<lparr>last_event_id = n\<rparr>)]")
      case (Inl e)
      with True show ?thesis by (intro same) (simp add: prefix)
    next
      case (Inr bounds)
      have run: "snd ?run = snd (in_new_session (io_bind (io_lift (bound_of bounds t)) (run_bronze_table m jd ?st)) s)"
        using True Inr
        by (cases "in_new_session (io_bind (io_lift (bound_of bounds t)) (run_bronze_table m jd ?st)) s")
          (simp add: prefix split: sum.split)
      consider "bound_of bounds t = Inr None" | (err) e where "bound_of bounds t = Inl e"
        | (bound) b where "bound_of bounds t = Inr (Some b)"
        by (cases "bound_of bounds t") auto
      then show ?thesis
      proof cases
        case 1
        have "in_new_session (io_bind (io_lift (bound_of bounds t)) (run_bronze_table m jd ?st)) s =
            (Inr (bronze_result_of m ?st 0 (map (\<lambda>o'. (o', 0)) CHANGE_OPERATIONS)), s)"
          by (simp add: 1 in_new_session_def run_bronze_table_def c state_at_fields)
        then show ?thesis by (intro same) (simp add: run)
      next
        case err
        have "in_new_session (io_bind (io_lift (bound_of bounds t)) (run_bronze_table m jd ?st)) s = (Inl e, s)"
          by (simp add: err in_new_session_def)
        then show ?thesis by (intro same) (simp add: run)
      next
        case bound
        have "in_new_session (io_bind (io_lift (bound_of bounds t)) (run_bronze_table m jd ?st)) s =
            in_new_session (run_bronze_table m jd ?st (Some b)) s"
          by (simp add: bound in_new_session_def)
        with run have final: "snd ?run = snd (in_new_session (run_bronze_table m jd ?st (Some b)) s)" by simp
        show ?thesis
        proof (cases "materialize_events m jd c (Some \<lparr>last_event_id = n\<rparr>) (Some b)")
          case (Inl e)
          then show ?thesis
            by (intro same) (simp add: final in_new_session_def run_bronze_table_def c state_at_fields io_bind_def io_lift_def)
        next
          case (Inr p)
          obtain d stats where p: "p = (d, stats)" by fastforce
          note mat = Inr [unfolded p]
          from retried_materialize [OF mat] obtain src where d: "d = event_df m c src (events_between src t n b)"
              and stats: "collect_change_event_stats c d = Inr stats"
            by (auto simp: contract lower_bound_def)
          let ?es = "events_between src t n b"
          have ids: "map (\<lambda>r. r ''_event_id'') (df_rows d) = map (\<lambda>e. e ''event_id'') ?es"
            by (simp add: d event_df_rows stored_row_cells(1) [OF contract(2)])
          have count: "cs_record_count stats = int (length ?es)"
            and last: "cs_last_event_id stats = int_of_val (greatest (map (\<lambda>e. e ''event_id'') ?es))"
            using stats by (auto simp: collect_change_event_stats_def and_then_Inr_iff ids) (simp add: d event_df_rows)
          show ?thesis
          proof (cases "?es = []")
            case True
            then show ?thesis using mat count last
              by (intro same) (simp add: final in_new_session_def run_bronze_table_def c state_at_fields io_bind_def io_lift_def io_return_def)
          next
            case False
            then have "greatest (map (\<lambda>e. e ''event_id'') ?es) \<in> set (map (\<lambda>e. e ''event_id'') ?es)"
              by (subst greatest_Max) (auto intro: Max_in)
            then obtain i where i: "cs_last_event_id stats = Some i" "n < i" unfolding last using between_ids by fastforce
            have u: "lk_tables s ref = Some u" "0 \<le> n" using here by (simp_all add: bronze_at_def)
            have appended: "in_new_session (run_bronze_table m jd ?st (Some b)) s =
                (Inr (bronze_result_of m ?st (cs_record_count stats) (cs_operation_counts stats)),
                 s\<lparr>lk_tables := (lk_tables s)(ref \<mapsto> bronze_commit m t i d u)\<rparr>)"
              using run_bronze_table_appends [OF c state_at_fields(1,2,4) mat [folded state_at_fields(3) [of t ref n u metadata]] _ i(1) _ u(1)]
                count i(2) u(2) False by simp
            have rows: "list_all (\<lambda>r. \<exists>i. r ''_event_id'' = IntV i \<and> n < i) (df_rows d)"
              using between_ids by (fastforce simp: d event_df_rows list_all_iff stored_row_cells(1) [OF contract(2)])
            show ?thesis
              unfolding final appended using i(2) u(2) rows bronze_at_commit [OF here] bronze_commit_rows [OF u(1)]
              by (intro exI [of _ i] exI [of _ "bronze_commit m t i d u"] exI [of _ "df_rows d"]) simp
          qed
        qed
      qed
    qed
  qed
qed

text \<open>
  C30. An event that becomes visible below the cursor is lost. The ids of the outbox are drawn when a row is
  inserted and visible when its transaction commits, so an event can appear after one with a greater id was ingested. The
  next batches read above the cursor only: whatever they see, no row of such an event is ever added.
\<close>

theorem late_event_is_lost:
  assumes "json_codec (be_dumps m) (be_loads m)" and "bronze_at m t ref n u s" and "i \<le> n"
  shows "filter (\<lambda>r. r ''_event_id'' = IntV i)
      (current_rows (fold (\<lambda>jd s. snd (extract_all_to_bronze m jd (Some [t]) s)) jds s) ref) =
    filter (\<lambda>r. r ''_event_id'' = IntV i) (current_rows s ref)"
  using assms(2,3)
proof (induction jds arbitrary: n u s)
  case (Cons jd jds)
  from any_bronze_run [OF assms(1) Cons.prems(1), of jd] show ?case
  proof (elim exE conjE)
    fix n' u' rows
    assume n': "n \<le> n'" "bronze_at m t ref n' u' (snd (extract_all_to_bronze m jd (Some [t]) s))"
      and rows: "current_rows (snd (extract_all_to_bronze m jd (Some [t]) s)) ref = current_rows s ref @ rows"
        "list_all (\<lambda>r. \<exists>i. r ''_event_id'' = IntV i \<and> n < i) rows"
    have "filter (\<lambda>r. r ''_event_id'' = IntV i) rows = []"
      using rows(2) Cons.prems(2) by (auto simp: filter_empty_conv list_all_iff)
    with Cons.IH [OF n'(2)] n'(1) Cons.prems(2) rows(1) show ?thesis by simp
  qed
qed simp

section \<open>A table without events\<close>

lemma first_run_of_empty_table:
  assumes r: "table_reference (be_lakehouse m) ''bronze'' t = Inr r" and absent: "lk_tables s (tr_value r) = None"
    and c: "get_bronze_contract t = Inr c" and ok: "outbox_ok src c" and none: "table_events src t = []"
    and control: "answers (be_postgres m) (jd_control jd) src" and extraction: "answers (be_postgres m) (jd_extract jd t) src"
  shows "\<exists>u s1 result. extract_all_to_bronze m jd (Some [t]) s =
    (Inr \<lparr>bm_batch_id = be_batch_id m, bm_tables = [(t, result)]\<rparr>, s1) \<and> br_record_count result = 0 \<and> bronze_at m t (tr_value r) 0 u s1"
proof -
  note contract = bronze_contract_facts [OF c]
  let ?st = "\<lparr>bs_table_name = t, bs_reference = tr_value r, bs_delta_state = None, bs_cursor = None, bs_processed_version = -1\<rparr>"
  let ?d = "event_df m c src []" and ?stats = "\<lparr>cs_record_count = 0, cs_last_event_id = None, cs_operation_counts = event_counts []\<rparr>"
  let ?u = "\<lparr>dt_commits = [\<lparr>cm_cols = df_cols ?d, cm_rows = [], cm_changes = [],
      cm_metadata = Some (be_dumps m (bronze_metadata t (be_batch_id m) 0))\<rparr>], dt_props = [(''delta.enableChangeDataFeed'', ''true'')], dt_txns = []\<rparr>"
  let ?s1 = "s\<lparr>lk_tables := (lk_tables s)(tr_value r \<mapsto> ?u)\<rparr>" and ?r = "bronze_result_of m ?st 0 (event_counts [])"
  have st: "in_new_session (table_state_of m t) s = (Inr ?st, s)"
    by (simp add: in_new_session_def table_state_of_def io_get_def r absent try_delta_table_state_def delta_table_state_def
        delta_table_at_def missing_as_none_def read_cursor_def)
  have query: "with_retry (be_postgres m) (\<lambda>k. and_then (jd_control jd k) (\<lambda>src. Inr (batch_upper_bounds_query (be_postgres m) [(t, None)] src))) =
      Inr (batch_upper_bounds_query (be_postgres m) [(t, None)] src)"
    using control by (rule with_retry_answers) simp
  have bounds: "read_batch_upper_bounds (be_postgres m) (jd_control jd) [(t, bs_cursor ?st)] = Inr [(t, None)]"
    unfolding read_batch_upper_bounds_def
    by (simp add: query) (simp add: batch_upper_bounds_query_def sequence_regressed_def bounded_events_def none where3_def)
  have mat: "materialize_events m jd c None None = Inr (?d, ?stats)"
    unfolding materialize_events_def contract(1) using extraction
    by (rule with_retry_answers) (simp add: read_events_empty collect_stats_ok [OF ok contract(2), of "[]"])
  have "event_df m c src [] = \<lparr>df_cols = df_cols ?d, df_rows = []\<rparr>" by (simp add: event_df_rows)
  then have rows: "df_rows ?d = []" by (metis df.simps(2))
  have "run_bronze_table m jd ?st None (s\<lparr>lk_metadata := None, lk_txn_app := None, lk_txn_version := None\<rparr>) =
      (Inr ?r, ?s1\<lparr>lk_metadata := None, lk_txn_app := None, lk_txn_version := None\<rparr>)"
    by (simp add: run_bronze_table_def c mat io_bind_def io_lift_def io_return_def make_event_cursor_def write_append_only_def
        delta_commit_metadata_def absent append_delta_def commit_table_def table_or_empty_def txn_seen_def empty_table_def rows Let_def)
  then have run: "in_new_session (run_bronze_table m jd ?st None) s = (Inr ?r, ?s1)" by (simp add: in_new_session_def)
  have "extract_all_to_bronze m jd (Some [t]) s = (Inr \<lparr>bm_batch_id = be_batch_id m, bm_tables = [(t, ?r)]\<rparr>, ?s1)"
    using run_one_table [OF contract(3) st _ bounds run] by (simp add: bronze_result_fields)
  moreover have "bronze_at m t (tr_value r) 0 ?u ?s1" by (auto simp: bronze_at_def r latest_commit_def)
  ultimately show ?thesis by (intro exI [of _ ?u] exI [of _ ?s1] exI [of _ ?r]) (simp add: bronze_result_fields)
qed

lemma empty_source_regressed:
  assumes "json_codec (be_dumps m) (be_loads m)" and "bronze_at m t ref n u s" and "t \<in> set (map fst BRONZE_TABLES)"
    and none: "table_events src t = []" and control: "answers (be_postgres m) (jd_control jd) src"
  shows "extract_all_to_bronze m jd (Some [t]) s = (Inl (RuntimeError ''PostgreSQL change-event sequence regressed''), s)"
proof -
  let ?cursors = "[(t, Some \<lparr>last_event_id = n\<rparr>)]"
  obtain metadata where st: "in_new_session (table_state_of m t) s = (Inr (state_at t ref n u metadata), s)"
    using bronze_table_state [OF assms(1,2)] by blast
  have query: "with_retry (be_postgres m) (\<lambda>k. and_then (jd_control jd k) (\<lambda>src. Inr (batch_upper_bounds_query (be_postgres m) ?cursors src))) =
      Inr (batch_upper_bounds_query (be_postgres m) ?cursors src)"
    using control by (rule with_retry_answers) simp
  have "read_batch_upper_bounds (be_postgres m) (jd_control jd) ?cursors =
      Inl (RuntimeError ''PostgreSQL change-event sequence regressed'')"
    unfolding read_batch_upper_bounds_def
    by (simp add: query) (simp add: batch_upper_bounds_query_def sequence_regressed_def none)
  moreover have "set [t] \<subseteq> set (map fst BRONZE_TABLES)" using assms(3) by simp
  ultimately show ?thesis
    by (simp add: extract_all_to_bronze_def run_bronze_def io_bind_def io_lift_def io_return_def st state_at_fields Let_def io_raise_def)
qed

text \<open>
  C31. A source table without events stops the pipeline after its first batch. The first run creates the Bronze
  table and records the progress 0; every later run that still finds no event takes this
  for a regression of the event sequence and raises, although nothing was reset.
\<close>

theorem empty_table_blocks_next_batch:
  assumes "json_codec (be_dumps m) (be_loads m)" and "table_reference (be_lakehouse m) ''bronze'' t = Inr r"
    and "lk_tables s (tr_value r) = None" and "get_bronze_contract t = Inr c" and "outbox_ok src c" and "table_events src t = []"
    and "answers (be_postgres m) (jd_control jd) src" and "answers (be_postgres m) (jd_extract jd t) src"
    and "answers (be_postgres m) (jd_control jd') src'" and "table_events src' t = []"
  shows "\<exists>s1 manifest. extract_all_to_bronze m jd (Some [t]) s = (Inr manifest, s1) \<and>
    extract_all_to_bronze m jd' (Some [t]) s1 = (Inl (RuntimeError ''PostgreSQL change-event sequence regressed''), s1)"
proof -
  obtain u s1 result where first: "extract_all_to_bronze m jd (Some [t]) s =
      (Inr \<lparr>bm_batch_id = be_batch_id m, bm_tables = [(t, result)]\<rparr>, s1)" "bronze_at m t (tr_value r) 0 u s1"
    using first_run_of_empty_table [OF assms(2-8)] by blast
  from empty_source_regressed [OF assms(1) first(2) bronze_contract_facts(3) [OF assms(4)] assms(10,9)] first(1)
  show ?thesis by blast
qed

section \<open>A table that is requested twice\<close>

text \<open>
  Naming a table twice ingests its events twice. Both requests start from the same cursor and both append the
  same events; the duplicate is only noticed when the manifest is made, after both commits.
\<close>

theorem duplicate_request_ingests_twice:
  assumes "json_codec (be_dumps m) (be_loads m)" and "bronze_at m t ref n u s" and "get_bronze_contract t = Inr c"
    and "outbox_ok src c" "pg_ok (be_postgres m)" and "answers (be_postgres m) (jd_control jd) src"
    and "answers (be_postgres m) (jd_extract jd t) src" and "pending_events src t n \<noteq> []"
  shows "\<exists>b s'. extract_all_to_bronze m jd (Some [t, t]) s =
      (Inl (ValueError ''Bronze manifest contains duplicate table names''), s') \<and> events_up_to src t n b \<noteq> [] \<and>
    current_rows s' ref = current_rows s ref @ map (stored_row m c src) (events_up_to src t n b) @
      map (stored_row m c src) (events_up_to src t n b)"
proof -
  note contract = bronze_contract_facts [OF assms(3)]
  obtain metadata where st: "in_new_session (table_state_of m t) s = (Inr (state_at t ref n u metadata), s)"
    using bronze_table_state [OF assms(1,2)] by blast
  let ?st = "state_at t ref n u metadata"
  obtain b where b: "greatest (bounded_events (be_postgres m) src t n) = IntV b"
    and "\<exists>e \<in> set (pending_events src t n). event_no e = b"
    by (rule next_events [OF assms(4) contract(1) assms(5,8)])
  then obtain e where e: "e \<in> set (pending_events src t n)" "event_no e = b" by blast
  let ?es = "events_up_to src t n b" and ?d = "event_df m c src (events_up_to src t n b)"
  let ?u = "bronze_commit m t b ?d u"
  let ?s1 = "s\<lparr>lk_tables := (lk_tables s)(ref \<mapsto> ?u)\<rparr>"
  let ?s2 = "?s1\<lparr>lk_tables := (lk_tables ?s1)(ref \<mapsto> bronze_commit m t b ?d ?u)\<rparr>"
  let ?r = "bronze_result_of m ?st (int (length ?es)) (event_counts ?es)"
  have u: "lk_tables s ref = Some u" "0 \<le> n" using assms(2) by (simp_all add: bronze_at_def)
  have es: "n < b" "e \<in> set ?es" using e by (simp_all add: pending_events_def events_up_to_def)
  then have some: "?es \<noteq> []" "0 < int (length ?es)" by (cases ?es; simp)+
  have "list_ex (\<lambda>e. n \<le> event_no e) (table_events src t)"
    unfolding list_ex_iff using e es(1) pending_events_set by (intro bexI [of _ e]) auto
  then have bounds: "read_batch_upper_bounds (be_postgres m) (jd_control jd) [(t, Some \<lparr>last_event_id = n\<rparr>)] = Inr [(t, Some b)]"
    using upper_bounds_at [OF assms(6,4) contract(1), of n] by (simp add: b list_ex_iff)
  note appends = run_bronze_table_appends [OF assms(3) state_at_fields(1,2,4)
      materialize_next [OF assms(7,4,3,5) e, folded state_at_fields(3) [of t ref n u metadata]]]
  have runs: "in_new_session (run_bronze_table m jd ?st (Some b)) s = (Inr ?r, ?s1)"
    "in_new_session (run_bronze_table m jd ?st (Some b)) ?s1 = (Inr ?r, ?s2)"
    using appends [where s = s and u = u] appends [where s = ?s1 and u = ?u] some es(1) u by simp_all
  have dup: "from_results (be_batch_id m) [?r, ?r] = Inl (ValueError ''Bronze manifest contains duplicate table names'')"
    by (simp add: from_results_def)
  have known: "set [t, t] \<subseteq> set (map fst BRONZE_TABLES)" using contract(3) by simp
  have "extract_all_to_bronze m jd (Some [t, t]) s = (Inl (ValueError ''Bronze manifest contains duplicate table names''), ?s2)"
    unfolding extract_all_to_bronze_def run_bronze_def using known
    by (simp add: io_bind_def io_lift_def io_return_def st state_at_fields bounds bound_of_def runs dup Let_def)
  moreover have "current_rows ?s2 ref = current_rows s ref @ map (stored_row m c src) ?es @ map (stored_row m c src) ?es"
    by (subst bronze_commit_rows, simp, subst bronze_commit_rows, rule u(1)) (simp add: event_df_rows)
  ultimately show ?thesis using some(1) by (intro exI [of _ b] exI [of _ ?s2]) simp
qed

section \<open>One table of payments\<close>

definition demo_postgres :: postgres_config where
  "demo_postgres = \<lparr>pg_host = ''db'', pg_port = 5432, pg_database = ''shop'', pg_user = ''reader'', pg_source_schema = ''public'',
     pg_jdbc_driver = ''org.postgresql.Driver'', pg_sslmode = None, pg_fetch_size = 10000, pg_query_timeout_seconds = 300,
     pg_connect_timeout_seconds = 15, pg_socket_timeout_seconds = 300, pg_max_jdbc_partitions = 4,
     pg_target_events_per_partition = 100000, pg_max_events_per_batch = 1, pg_retry_attempts = 3, pg_retry_initial_backoff_seconds = 2\<rparr>"

definition demo_extractor :: extractor where
  "demo_extractor = \<lparr>be_fn = example_fn, be_now = 7, be_dumps = example_dumps, be_loads = example_loads,
     be_lakehouse = ad_lakehouse (sb_adapter demo_builder), be_postgres = demo_postgres, be_source_system = ''shop'', be_batch_id = ''b1''\<rparr>"

definition demo_outbox :: "int list \<Rightarrow> source" where
  "demo_outbox ids = \<lparr>so_events = map (\<lambda>i. row_of [(''event_id'', IntV i), (''source_table'', StrV ''payments''),
       (''operation'', StrV ''INSERT''), (''occurred_at'', TsV i), (''row_data'', StrV ''{}'')]) ids,
     so_columns = (\<lambda>t. [''payment_id'']), so_populate = (\<lambda>t v. row_of [(''payment_id'', IntV 1)])\<rparr>"

text \<open>The first attempt of each query fails.\<close>

definition demo_jdbc :: "int list \<Rightarrow> jdbc" where
  "demo_jdbc ids = \<lparr>jd_control = (\<lambda>k. if k = 1 then Inl (OtherError ''timeout'') else Inr (demo_outbox ids)),
     jd_extract = (\<lambda>t k. if k = 1 then Inl (OtherError ''timeout'') else Inr (demo_outbox ids))\<rparr>"

definition demo_bronze_table :: "int \<Rightarrow> delta_table" where
  "demo_bronze_table n = \<lparr>dt_commits = [\<lparr>cm_cols = [''payment_id''], cm_rows = [], cm_changes = [],
     cm_metadata = Some (example_dumps (bronze_metadata ''payments'' ''b0'' n))\<rparr>], dt_props = [], dt_txns = []\<rparr>"

definition demo_payments_ref :: string where
  "demo_payments_ref = ''lake/bronze/batch/payments''"

definition demo_bronze_lake :: "int \<Rightarrow> lake" where
  "demo_bronze_lake n = \<lparr>lk_tables = [demo_payments_ref \<mapsto> demo_bronze_table n],
     lk_metadata = None, lk_txn_app = None, lk_txn_version = None\<rparr>"

lemma demo_extractor_facts:
  "json_codec (be_dumps demo_extractor) (be_loads demo_extractor)" "pg_ok (be_postgres demo_extractor)"
  "answers (be_postgres demo_extractor) (jd_control (demo_jdbc ids)) (demo_outbox ids)"
  "answers (be_postgres demo_extractor) (jd_extract (demo_jdbc ids) t) (demo_outbox ids)"
  by (auto simp: demo_extractor_def demo_postgres_def pg_ok_def example_codec answers_def demo_jdbc_def intro!: bexI [of _ 2])

lemma demo_payments_reference:
  "\<exists>r. table_reference (be_lakehouse demo_extractor) ''bronze'' ''payments'' = Inr r \<and> tr_value r = demo_payments_ref"
proof -
  have "map_sum id tr_value (table_reference (ad_lakehouse (sb_adapter demo_builder)) ''bronze'' ''payments'') = Inr demo_payments_ref"
    by code_simp
  then show ?thesis by (simp add: map_sum_Inr demo_extractor_def)
qed

lemma demo_bronze_at: "0 \<le> n \<Longrightarrow> bronze_at demo_extractor ''payments'' demo_payments_ref n (demo_bronze_table n) (demo_bronze_lake n)"
  using demo_payments_reference
  by (auto simp: bronze_at_def demo_bronze_lake_def demo_bronze_table_def latest_commit_def demo_extractor_def)

lemma demo_bronze_contract:
  "get_bronze_contract ''payments'' = Inr \<lparr>bc_table_name = ''payments'', bc_primary_keys = [''payment_id''], bc_excluded_columns = []\<rparr>"
  by code_simp

lemma demo_table_events: "table_events (demo_outbox ids) ''payments'' = so_events (demo_outbox ids)"
  by (simp add: table_events_def demo_outbox_def where3_def filter_id_conv row_of_def)

lemma demo_outbox_ok:
  assumes "distinct ids" and "list_all (\<lambda>i. 0 < i) ids"
  shows "outbox_ok (demo_outbox ids) \<lparr>bc_table_name = ''payments'', bc_primary_keys = [''payment_id''], bc_excluded_columns = []\<rparr>"
  unfolding outbox_ok_def bronze_contract.simps demo_table_events
  using assms by (auto simp: demo_outbox_def event_ok_def event_no_def row_of_def list_all_iff CHANGE_OPERATIONS_def distinct_map inj_on_def)

lemma demo_pending: "pending_events (demo_outbox ids) ''payments'' n = filter (\<lambda>e. n < event_no e) (so_events (demo_outbox ids))"
  by (simp add: pending_events_def demo_table_events)

theorem bronze_catches_up_witness:
  "\<exists>rows. current_rows (ingest_runs demo_extractor (demo_jdbc [1, 3, 2]) ''payments'' 2 (demo_bronze_lake 1)) demo_payments_ref = rows \<and>
    length rows = 2"
proof -
  let ?ids = "[1, 3, 2] :: int list"
  have pending: "length (pending_events (demo_outbox ?ids) ''payments'' 1) = 2"
    by (simp add: demo_pending) (simp add: demo_outbox_def event_no_def row_of_def)
  have reached: "list_ex (\<lambda>e. 1 \<le> event_no e) (table_events (demo_outbox ?ids) ''payments'')"
    by (simp add: demo_table_events) (simp add: demo_outbox_def event_no_def row_of_def)
  have enough: "length (pending_events (demo_outbox ?ids) ''payments'' 1) \<le> 2 * nat (pg_max_events_per_batch (be_postgres demo_extractor))"
    by (simp add: pending) (simp add: demo_extractor_def demo_postgres_def)
  have ok: "outbox_ok (demo_outbox ?ids) \<lparr>bc_table_name = ''payments'', bc_primary_keys = [''payment_id''], bc_excluded_columns = []\<rparr>"
    by (rule demo_outbox_ok) simp_all
  have none: "current_rows (demo_bronze_lake 1) demo_payments_ref = []"
    by (simp add: current_rows_def demo_bronze_lake_def demo_bronze_table_def latest_commit_def)
  from bronze_catches_up [OF demo_extractor_facts(1) demo_bronze_at demo_bronze_contract ok demo_extractor_facts(2-4) reached enough]
  obtain rows where rows: "current_rows (ingest_runs demo_extractor (demo_jdbc ?ids) ''payments'' 2 (demo_bronze_lake 1)) demo_payments_ref =
      current_rows (demo_bronze_lake 1) demo_payments_ref @ rows"
    "mset rows = image_mset (stored_row demo_extractor \<lparr>bc_table_name = ''payments'', bc_primary_keys = [''payment_id''], bc_excluded_columns = []\<rparr>
      (demo_outbox ?ids)) (mset (pending_events (demo_outbox ?ids) ''payments'' 1))"
    by auto
  have "length rows = 2" using arg_cong [OF rows(2), of size] pending by simp
  with rows(1) none show ?thesis by simp
qed

theorem late_event_is_lost_witness:
  "filter (\<lambda>r. r ''_event_id'' = IntV 2) (current_rows (fold (\<lambda>jd s. snd (extract_all_to_bronze demo_extractor jd (Some [''payments'']) s))
     [demo_jdbc [1, 3, 2], demo_jdbc [1, 2, 3, 4]] (demo_bronze_lake 3)) demo_payments_ref) = []"
proof -
  have "current_rows (demo_bronze_lake 3) demo_payments_ref = []"
    by (simp add: current_rows_def demo_bronze_lake_def demo_bronze_table_def latest_commit_def)
  then show ?thesis
    using late_event_is_lost [OF demo_extractor_facts(1) demo_bronze_at, of 3 2 "[demo_jdbc [1, 3, 2], demo_jdbc [1, 2, 3, 4]]"] by simp
qed

theorem empty_table_blocks_next_batch_witness:
  "\<exists>s1 manifest. extract_all_to_bronze demo_extractor (demo_jdbc []) (Some [''payments'']) (demo_bronze_lake 0\<lparr>lk_tables := (\<lambda>ref. None)\<rparr>) =
      (Inr manifest, s1) \<and>
    extract_all_to_bronze demo_extractor (demo_jdbc []) (Some [''payments'']) s1 =
      (Inl (RuntimeError ''PostgreSQL change-event sequence regressed''), s1)"
proof -
  obtain r where r: "table_reference (be_lakehouse demo_extractor) ''bronze'' ''payments'' = Inr r"
    using demo_payments_reference by blast
  have none: "table_events (demo_outbox []) ''payments'' = []" by (simp add: demo_table_events) (simp add: demo_outbox_def)
  have ok: "outbox_ok (demo_outbox []) \<lparr>bc_table_name = ''payments'', bc_primary_keys = [''payment_id''], bc_excluded_columns = []\<rparr>"
    by (rule demo_outbox_ok) simp_all
  show ?thesis
    by (rule empty_table_blocks_next_batch [OF demo_extractor_facts(1) r _ demo_bronze_contract ok none demo_extractor_facts(3,4,3) none]) simp
qed

theorem duplicate_request_ingests_twice_witness:
  "\<exists>s' rows. extract_all_to_bronze demo_extractor (demo_jdbc [2]) (Some [''payments'', ''payments'']) (demo_bronze_lake 1) =
      (Inl (ValueError ''Bronze manifest contains duplicate table names''), s') \<and>
    rows \<noteq> [] \<and> current_rows s' demo_payments_ref = rows @ rows"
proof -
  have pending: "pending_events (demo_outbox [2]) ''payments'' 1 \<noteq> []"
    by (simp add: demo_pending) (simp add: demo_outbox_def event_no_def row_of_def)
  have ok: "outbox_ok (demo_outbox [2]) \<lparr>bc_table_name = ''payments'', bc_primary_keys = [''payment_id''], bc_excluded_columns = []\<rparr>"
    by (rule demo_outbox_ok) simp_all
  have none: "current_rows (demo_bronze_lake 1) demo_payments_ref = []"
    by (simp add: current_rows_def demo_bronze_lake_def demo_bronze_table_def latest_commit_def)
  from duplicate_request_ingests_twice [OF demo_extractor_facts(1) demo_bronze_at demo_bronze_contract ok demo_extractor_facts(2-4) pending]
  show ?thesis by (auto simp: none)
qed

end
