(* ===== verification/BatchRun.thy ===== *)
theory BatchRun
  imports Validation BronzeCatchUp Locks
begin

text \<open>
  The batch job (\<open>jobs/run_batch.py\<close>, \<open>control/batch_flow.py\<close>): the checks of the arguments, the manifest of the
  stage before, and \<open>run_mode\<close>, which runs one stage or all of them. A stage that runs
  without the stages before it gets their manifest through the environment, if at all. Building the Spark session,
  the secrets, timings and the status lines are left out.
\<close>

section \<open>The job\<close>

text \<open>\<open>bp_contention\<close> is what happens around the attempts to take the cloud lock for an owner.\<close>

record batch_pipeline =
  bp_master :: "string option"
  bp_coordination :: coordination_config
  bp_contention :: "string \<Rightarrow> (lake \<Rightarrow> exn option \<times> lake) \<times> contention"
  bp_owner_id :: "string \<Rightarrow> string"
  bp_probe :: outbox_probe
  bp_extractor :: extractor
  bp_jdbc :: jdbc
  bp_silver :: silver_builder
  bp_gold :: gold_builder
  bp_raw_table :: string

record batch_args =
  ba_mode :: string
  ba_tables :: "string list option"
  ba_full_rebuild_silver :: bool
  ba_full_rebuild_gold :: bool
  ba_emit_manifest :: bool

definition check_args :: "batch_args \<Rightarrow> unit res" where
  "check_args a = (let tables = (ba_tables a \<noteq> None) in
     and_then (raise_if (ba_tables a = Some []) (SystemExit ''--tables requires at least one table name'')) (\<lambda>_.
     and_then (raise_if (tables \<and> ba_mode a \<notin> {''bronze'', ''silver''})
       (SystemExit ''--tables is supported only for bronze or silver mode'')) (\<lambda>_.
     and_then (raise_if (ba_full_rebuild_silver a \<and> ba_mode a \<notin> {''silver'', ''all'', ''workflow''})
       (SystemExit ''--full-rebuild-silver requires --mode silver, all, or workflow'')) (\<lambda>_.
     and_then (raise_if (ba_full_rebuild_gold a \<and> ba_mode a \<notin> {''gold'', ''all'', ''workflow''})
       (SystemExit ''--full-rebuild-gold requires --mode gold, all, or workflow'')) (\<lambda>_.
     raise_if (ba_emit_manifest a \<and> ba_mode a \<notin> {''bronze'', ''silver''})
       (SystemExit ''--emit-manifest is supported only for bronze or silver mode''))))))"

text \<open>The manifest of the stage before, from the (stripped) text of the environment.\<close>

definition upstream_manifest :: "(string \<Rightarrow> json option) \<Rightarrow> string \<Rightarrow> string \<Rightarrow> manifest option res" where
  "upstream_manifest loads mode raw =
     (if raw = [] then Inr None
      else and_then (deserialize_manifest loads raw) (\<lambda>m.
        if (case m of BronzeManifest b \<Rightarrow> mode = ''silver'' | SilverManifest sm \<Rightarrow> mode \<in> {''gold'', ''validate_release''})
        then Inr (Some m) else Inl (ValueError ''Unexpected upstream manifest'')))"

section \<open>Skipping a batch without changes\<close>

definition is_no_change_batch :: "bronze_result list \<Rightarrow> bool" where
  "is_no_change_batch results \<longleftrightarrow> results \<noteq> [] \<and>
     list_all (\<lambda>r. br_ingestion_type r = ''incremental'' \<and> br_record_count r = 0) results"

definition inspect_silver :: "gold_builder \<Rightarrow> lake \<Rightarrow> string \<Rightarrow> (string \<times> int option) res" where
  "inspect_silver b s t = and_then (gold_reference b ''silver'' t) (\<lambda>ref.
     and_then (try_latest_delta_pipeline_commit (gb_loads b) s ref SILVER_DATA_PIPELINES) (\<lambda>commit.
     Inr (t, case commit of None \<Rightarrow> None
       | Some c \<Rightarrow> if jget (pc_metadata c) ''silver_schema_version'' \<noteq> Some (JInt 2) then None else Some (pc_version c))))"

definition downstream_is_current :: "gold_builder \<Rightarrow> lake \<Rightarrow> bool res" where
  "downstream_is_current b s = and_then (latest_release (gold_store b) s) (\<lambda>latest. case latest of
     None \<Rightarrow> Inr False
   | Some release \<Rightarrow>
       if set (map fst (gr_silver_versions release)) \<noteq> set (map fst SILVER_TABLES) then Inr False
       else and_then (traverse (inspect_silver b s) (map fst SILVER_TABLES)) (\<lambda>inspected.
         Inr (list_all (\<lambda>(t, v). v \<noteq> None \<and> map_of (gr_silver_versions release) t = v) inspected)))"

section \<open>One mode\<close>

text \<open>The shared writer lock, on Databricks only; waiting for it ends.\<close>

definition with_writer_lock :: "batch_pipeline \<Rightarrow> string \<Rightarrow> 'a io \<Rightarrow> 'a io" where
  "with_writer_lock p owner body s = (if bp_master p \<noteq> None then body s
     else (case bp_contention p owner of (race, ct) \<Rightarrow>
       (case cloud_pipeline_lock (ad_lakehouse (gb_adapter (bp_gold p))) (bp_coordination p) (bp_owner_id p owner) race ct body s of
          Some r \<Rightarrow> r | None \<Rightarrow> (Inl (AssertionError ''unreachable''), s))))"

definition bronze_stage :: "batch_pipeline \<Rightarrow> batch_args \<Rightarrow> string \<Rightarrow> bronze_manifest io" where
  "bronze_stage p a batch = extract_all_to_bronze ((bp_extractor p)\<lparr>be_batch_id := batch\<rparr>) (bp_jdbc p) (ba_tables a)"

definition silver_stage :: "batch_pipeline \<Rightarrow> batch_args \<Rightarrow> string \<Rightarrow> bronze_manifest option \<Rightarrow> silver_manifest io" where
  "silver_stage p a batch bronze = with_writer_lock p (''batch-'' @ batch)
     (run_silver ((bp_silver p)\<lparr>sb_manifest := bronze\<rparr>) (if ba_mode a = ''silver'' then ba_tables a else None) batch
       (ba_full_rebuild_silver a))"

definition gold_stage :: "batch_pipeline \<Rightarrow> batch_args \<Rightarrow> string \<Rightarrow> silver_manifest option \<Rightarrow> string list io" where
  "gold_stage p a batch silver = with_writer_lock p (''gold-batch-'' @ batch)
     (run_gold ((bp_gold p)\<lparr>gb_manifest := silver\<rparr>) batch (ba_full_rebuild_gold a))"

definition bronze_of :: "manifest option \<Rightarrow> bronze_manifest option" where
  "bronze_of m = (case m of Some (BronzeManifest b) \<Rightarrow> Some b | _ \<Rightarrow> None)"

definition silver_of :: "manifest option \<Rightarrow> silver_manifest option" where
  "silver_of m = (case m of Some (SilverManifest sm) \<Rightarrow> Some sm | _ \<Rightarrow> None)"

definition unchanged_batch :: "batch_pipeline \<Rightarrow> batch_args \<Rightarrow> bronze_manifest option \<Rightarrow> bool io" where
  "unchanged_batch p a bronze =
     (if ba_mode a \<in> {''all'', ''workflow''} \<and> \<not> ba_full_rebuild_silver a \<and> \<not> ba_full_rebuild_gold a \<and>
         is_no_change_batch (case bronze of None \<Rightarrow> [] | Some m \<Rightarrow> manifest_results m)
      then io_get (downstream_is_current (bp_gold p)) else io_return False)"

definition run_mode :: "batch_pipeline \<Rightarrow> batch_args \<Rightarrow> string \<Rightarrow> manifest option \<Rightarrow> manifest option io" where
  "run_mode p a batch upstream = (let mode = ba_mode a in
     io_bind (if mode \<in> {''check_postgres'', ''workflow''}
       then io_bind (io_lift (check_postgres_source (be_postgres (bp_extractor p)) (bp_probe p))) (\<lambda>_. io_return ())
       else io_return ()) (\<lambda>_.
     if mode = ''check_postgres'' then io_return None else
     io_bind (if mode \<in> {''bronze'', ''all'', ''workflow''} then io_bind (bronze_stage p a batch) (\<lambda>m. io_return (Some m))
       else io_return (bronze_of upstream)) (\<lambda>bronze.
     io_bind (if mode \<in> {''bronze'', ''all'', ''workflow''} then unchanged_batch p a bronze else io_return False) (\<lambda>unchanged.
     if unchanged then io_return (map_option BronzeManifest bronze) else
     io_bind (if mode \<in> {''silver'', ''all'', ''workflow''} then io_bind (silver_stage p a batch bronze) (\<lambda>m. io_return (Some m))
       else io_return (silver_of upstream)) (\<lambda>silver.
     io_bind (if mode \<in> {''gold'', ''all'', ''workflow''} then io_bind (gold_stage p a batch silver) (\<lambda>_. io_return ())
       else io_return ()) (\<lambda>_.
     io_bind (if mode = ''validate''
       then io_bind (io_get (validate_batch_lakehouse (bp_gold p) (bp_raw_table p))) (\<lambda>_. io_return ()) else io_return ()) (\<lambda>_.
     io_bind (if mode \<in> {''validate_release'', ''workflow''}
       then io_bind (io_get (validate_gold_release (bp_gold p) silver)) (\<lambda>_. io_return ()) else io_return ()) (\<lambda>_.
     io_return (if mode \<in> {''bronze'', ''all'', ''workflow''} then map_option BronzeManifest bronze
       else if mode = ''silver'' then map_option SilverManifest silver else None)))))))))"

section \<open>The stages of the workflow\<close>

definition BATCH_STAGES :: "(string \<times> string) list" where
  "BATCH_STAGES = [(''check_source'', ''check_postgres''), (''run_bronze'', ''bronze''), (''run_silver'', ''silver''),
     (''run_gold'', ''gold''), (''validate_release'', ''validate_release'')]"

text \<open>
  The stages one after the other, each in a process of its own: the manifest that a stage emits (\<open>--emit-manifest\<close>) is the
  upstream manifest of the next one; a stage that emits none passes on what it got. (The Airflow DAG of the repository,
  \<open>infra/local/airflow/dags/ecommerce_batch.py\<close>, hands no manifest on: there each stage relies on the progress in the
  Delta commits, which this definition does not describe.)
\<close>

fun run_stages :: "batch_pipeline \<Rightarrow> batch_args \<Rightarrow> string \<Rightarrow> string list \<Rightarrow> manifest option \<Rightarrow> manifest option io" where
  "run_stages p a batch [] upstream = io_return upstream"
| "run_stages p a batch (mode # modes) upstream = io_bind (run_mode p (a\<lparr>ba_mode := mode\<rparr>) batch upstream) (\<lambda>m.
     run_stages p a batch modes (if m = None then upstream else m))"

lemma io_bind_assoc: "io_bind (io_bind m f) g = io_bind m (\<lambda>x. io_bind (f x) g)"
  by (auto simp: fun_eq_iff io_bind_def split: prod.splits sum.splits)

lemma run_mode_stages:
  "run_mode p (a\<lparr>ba_mode := ''check_postgres''\<rparr>) batch m =
    io_bind (io_lift (check_postgres_source (be_postgres (bp_extractor p)) (bp_probe p))) (\<lambda>_. io_return None)"
  "run_mode p (a\<lparr>ba_mode := ''bronze''\<rparr>) batch m = io_bind (bronze_stage p a batch) (\<lambda>b. io_return (Some (BronzeManifest b)))"
  "ba_tables a = None \<Longrightarrow> run_mode p (a\<lparr>ba_mode := ''silver''\<rparr>) batch (Some (BronzeManifest b)) =
    io_bind (silver_stage p a batch (Some b)) (\<lambda>sm. io_return (Some (SilverManifest sm)))"
  "run_mode p (a\<lparr>ba_mode := ''gold''\<rparr>) batch (Some (SilverManifest sm)) = io_bind (gold_stage p a batch (Some sm)) (\<lambda>_. io_return None)"
  "run_mode p (a\<lparr>ba_mode := ''validate_release''\<rparr>) batch (Some (SilverManifest sm)) =
    io_bind (io_get (validate_gold_release (bp_gold p) (Some sm))) (\<lambda>_. io_return None)"
  by (simp_all add: run_mode_def bronze_of_def silver_of_def unchanged_batch_def bronze_stage_def silver_stage_def gold_stage_def
      io_bind_assoc Let_def del: io_simps(5))

lemma run_mode_workflow:
  assumes "ba_mode a = ''workflow''"
  shows "run_mode p a batch m = io_bind (io_lift (check_postgres_source (be_postgres (bp_extractor p)) (bp_probe p))) (\<lambda>_.
    io_bind (bronze_stage p a batch) (\<lambda>b. io_bind (unchanged_batch p a (Some b)) (\<lambda>unchanged.
    if unchanged then io_return (Some (BronzeManifest b)) else
    io_bind (silver_stage p a batch (Some b)) (\<lambda>sm. io_bind (gold_stage p a batch (Some sm)) (\<lambda>_.
    io_bind (io_get (validate_gold_release (bp_gold p) (Some sm))) (\<lambda>_. io_return (Some (BronzeManifest b))))))))"
  by (simp add: run_mode_def assms io_bind_assoc Let_def del: io_simps(5) cong: if_cong)

text \<open>What a run leaves behind: success or the exception, and the lake.\<close>

definition outcome :: "'a res \<times> lake \<Rightarrow> unit res \<times> lake" where
  "outcome r = (map_sum id (\<lambda>_. ()) (fst r), snd r)"

lemma run_stages_workflow:
  assumes "ba_tables a = None"
  shows "run_stages p a batch (map snd BATCH_STAGES) None =
    io_bind (io_lift (check_postgres_source (be_postgres (bp_extractor p)) (bp_probe p))) (\<lambda>_.
    io_bind (bronze_stage p a batch) (\<lambda>b. io_bind (silver_stage p a batch (Some b)) (\<lambda>sm. io_bind (gold_stage p a batch (Some sm)) (\<lambda>_.
    io_bind (io_get (validate_gold_release (bp_gold p) (Some sm))) (\<lambda>_. io_return (Some (SilverManifest sm)))))))"
  by (simp add: BATCH_STAGES_def run_mode_stages assms io_bind_assoc del: io_simps(5))

lemma unchanged_batch_state: "unchanged_batch p a m s = (fst (unchanged_batch p a m s), s)"
  by (simp add: unchanged_batch_def io_get_def)

text \<open>
  C13. The workflow mode is the stages. Unless the batch is skipped, running all stages in one process
  leaves the lake as running them one by one does when each is given the manifest of the stage before, and fails
  with the same exception or succeeds with it.
\<close>

theorem workflow_runs_the_stages:
  assumes "ba_mode a = ''workflow''" and "ba_tables a = None"
    and "case bronze_stage p a batch s of (Inl e, s1) \<Rightarrow> True | (Inr b, s1) \<Rightarrow> fst (unchanged_batch p a (Some b) s1) = Inr False"
  shows "outcome (run_mode p a batch None s) = outcome (run_stages p a batch (map snd BATCH_STAGES) None s)"
proof -
  let ?rest = "\<lambda>x b. io_bind (silver_stage p a batch (Some b)) (\<lambda>sm. io_bind (gold_stage p a batch (Some sm)) (\<lambda>_.
      io_bind (io_get (validate_gold_release (bp_gold p) (Some sm))) (\<lambda>_. io_return (Some (x sm b)))))"
  have rest: "outcome (?rest (\<lambda>sm b. BronzeManifest b) b s1) = outcome (?rest (\<lambda>sm b. SilverManifest sm) b s1)" for b s1
    by (auto simp: outcome_def io_bind_def io_return_def split: prod.split sum.split)
  show ?thesis
    unfolding run_mode_workflow [OF assms(1)] run_stages_workflow [OF assms(2)]
  proof (cases "check_postgres_source (be_postgres (bp_extractor p)) (bp_probe p)")
    case (Inr r)
    show "outcome (io_bind (io_lift (check_postgres_source (be_postgres (bp_extractor p)) (bp_probe p)))
         (\<lambda>_. io_bind (bronze_stage p a batch) (\<lambda>b. io_bind (unchanged_batch p a (Some b)) (\<lambda>unchanged.
           if unchanged then io_return (Some (BronzeManifest b)) else ?rest (\<lambda>sm b. BronzeManifest b) b))) s) =
       outcome (io_bind (io_lift (check_postgres_source (be_postgres (bp_extractor p)) (bp_probe p)))
         (\<lambda>_. io_bind (bronze_stage p a batch) (?rest (\<lambda>sm b. SilverManifest sm))) s)"
    proof (cases "bronze_stage p a batch s")
      case (Pair r1 s1)
      show ?thesis
      proof (cases r1)
        case (Inr b)
        then have "unchanged_batch p a (Some b) s1 = (Inr False, s1)"
          using assms(3) Pair unchanged_batch_state [of p a "Some b" s1] by simp
        then have "outcome (io_bind (bronze_stage p a batch) (\<lambda>b. io_bind (unchanged_batch p a (Some b)) (\<lambda>unchanged.
             if unchanged then io_return (Some (BronzeManifest b)) else ?rest (\<lambda>sm b. BronzeManifest b) b)) s) =
            outcome (?rest (\<lambda>sm b. BronzeManifest b) b s1)"
          by (simp only: io_bind_def [of "bronze_stage p a batch"] io_bind_def [of "unchanged_batch p a (Some b)"] Pair Inr
              prod.case sum.case if_False)
        moreover have "io_bind (bronze_stage p a batch) (?rest (\<lambda>sm b. SilverManifest sm)) s = ?rest (\<lambda>sm b. SilverManifest sm) b s1"
          by (simp only: io_bind_def [of "bronze_stage p a batch"] Pair Inr prod.case sum.case)
        ultimately show ?thesis using rest \<open>check_postgres_source _ _ = Inr r\<close> by simp
      qed (simp add: Pair Inr io_bind_def [of "bronze_stage p a batch"])
    qed
  qed simp
qed

section \<open>A batch without new events\<close>

definition contract_named :: "string \<Rightarrow> bronze_contract" where
  "contract_named t = (case map_of BRONZE_TABLES t of Some c \<Rightarrow> c | None \<Rightarrow> \<lparr>bc_table_name = t, bc_primary_keys = [], bc_excluded_columns = []\<rparr>)"

lemma contract_named:
  assumes "t \<in> set (map fst BRONZE_TABLES)"
  shows "get_bronze_contract t = Inr (contract_named t)"
  using assms by (cases "map_of BRONZE_TABLES t") (auto simp: get_bronze_contract_def contract_named_def map_of_eq_None_iff)

text \<open>A Bronze table that holds every event of its source.\<close>

definition caught_up :: "extractor \<Rightarrow> source \<Rightarrow> lake \<Rightarrow> string \<Rightarrow> bool" where
  "caught_up m src s t \<longleftrightarrow> outbox_ok src (contract_named t) \<and> (\<exists>ref n u. bronze_at m t ref n u s \<and>
     pending_events src t n = [] \<and> list_ex (\<lambda>e. n \<le> event_no e) (table_events src t))"

lemma io_traverse_unchanged:
  assumes "\<forall>x \<in> set xs. f x s = (Inr (g x), s)"
  shows "io_traverse f xs s = (Inr (map g xs), s)"
  using assms by (induction xs) (simp_all add: io_bind_def)

lemma fold_assoc_set_map:
  "distinct (map fst acc @ map key rs) \<Longrightarrow> fold (\<lambda>r kvs. assoc_set (key r) (v r) kvs) rs acc = acc @ map (\<lambda>r. (key r, v r)) rs"
proof (induction rs arbitrary: acc)
  case (Cons r rs)
  from Cons.prems have "key r \<notin> fst ` set acc" by auto
  with Cons show ?case by (simp add: assoc_set_new)
qed simp

lemma BRONZE_TABLES_distinct: "distinct (map fst BRONZE_TABLES)"
  by (simp add: BRONZE_TABLES_def)

text \<open>No table has a new event: the control query succeeds and sets no bound.\<close>

lemma caught_up_bounds:
  assumes control: "answers pg control src" and "ts \<noteq> []"
    and quiet: "\<forall>t \<in> set ts. outbox_ok src (contract_named t) \<and> bc_table_name (contract_named t) = t \<and>
      pending_events src t (n t) = [] \<and> list_ex (\<lambda>e. n t \<le> event_no e) (table_events src t)"
  shows "read_batch_upper_bounds pg control (map (\<lambda>t. (t, Some \<lparr>last_event_id = n t\<rparr>)) ts) = Inr (map (\<lambda>t. (t, None)) ts)"
proof -
  let ?cursors = "map (\<lambda>t. (t, Some \<lparr>last_event_id = n t\<rparr>)) ts"
  let ?rows = "batch_upper_bounds_query pg ?cursors src"
  have query: "with_retry pg (\<lambda>k. and_then (control k) (\<lambda>src. Inr (batch_upper_bounds_query pg ?cursors src))) = Inr ?rows"
    using control by (rule with_retry_answers) simp
  have none: "int_of_val (greatest (bounded_events pg src t (n t))) = None" if "t \<in> set ts" for t
    using quiet that no_pending_bound by blast
  have seen: "\<exists>k. greatest (map (\<lambda>e. e ''event_id'') (table_events src t)) = IntV k \<and> n t \<le> k" if "t \<in> set ts" for t
  proof -
    from quiet that have ok: "outbox_ok src (contract_named t)" "bc_table_name (contract_named t) = t"
        "\<exists>e \<in> set (table_events src t). n t \<le> event_no e" by (auto simp: list_ex_iff)
    show ?thesis by (rule greatest_event [OF ok]) blast
  qed
  have regress: "\<not> list_ex (sequence_regressed ?cursors) ?rows"
    using seen by (fastforce simp: list_ex_iff batch_upper_bounds_query_def sequence_regressed_def map_of_tabulate)
  have names: "map (\<lambda>(t, b, mx). (t, int_of_val b)) ?rows = map (\<lambda>t. (t, None)) ts"
    using none by (simp add: batch_upper_bounds_query_def lower_bound_def)
  have nonempty: "?cursors \<noteq> []" using assms(2) by simp
  show ?thesis
    unfolding read_batch_upper_bounds_def if_not_P [OF nonempty] query and_then_simps Let_def names using regress
    by (simp add: comp_def)
qed

lemma idle_bronze_table:
  assumes "t \<in> set (map fst BRONZE_TABLES)" and st: "bs_table_name x = t" "bs_delta_state x \<noteq> None" and "map_of bounds t = Some None"
  shows "in_new_session (io_bind (io_lift (bound_of bounds (bs_table_name x))) (run_bronze_table m jd x)) s =
    (Inr (bronze_result_of m x 0 (map (\<lambda>o'. (o', 0)) CHANGE_OPERATIONS)), s)"
  using assms by (simp add: bound_of_def in_new_session_def run_bronze_table_def contract_named [OF assms(1)])

lemma caught_up_extraction:
  assumes codec: "json_codec (be_dumps m) (be_loads m)" and control: "answers (be_postgres m) (jd_control jd) src"
    and quiet: "list_all (caught_up m src s) (map fst BRONZE_TABLES)"
  shows "\<exists>b. extract_all_to_bronze m jd None s = (Inr b, s) \<and> is_no_change_batch (manifest_results b)"
proof -
  let ?tables = "map fst BRONZE_TABLES"
  have "\<forall>t \<in> set ?tables. \<exists>ref n u metadata. in_new_session (table_state_of m t) s = (Inr (state_at t ref n u metadata), s) \<and>
      outbox_ok src (contract_named t) \<and> bc_table_name (contract_named t) = t \<and>
      pending_events src t n = [] \<and> list_ex (\<lambda>e. n \<le> event_no e) (table_events src t)"
    using quiet bronze_table_state [OF codec] bronze_contract_facts(1) [OF contract_named] unfolding caught_up_def list_all_iff by blast
  then obtain ref n u metadata where at: "\<forall>t \<in> set ?tables.
      in_new_session (table_state_of m t) s = (Inr (state_at t (ref t) (n t) (u t) (metadata t)), s) \<and>
      outbox_ok src (contract_named t) \<and> bc_table_name (contract_named t) = t \<and>
      pending_events src t (n t) = [] \<and> list_ex (\<lambda>e. n t \<le> event_no e) (table_events src t)"
    by metis
  define st where "st t = state_at t (ref t) (n t) (u t) (metadata t)" for t
  have st: "bs_table_name (st t) = t" "bs_cursor (st t) = Some \<lparr>last_event_id = n t\<rparr>" "bs_delta_state (st t) \<noteq> None" for t
    by (simp_all add: st_def state_at_fields)
  have states: "io_traverse (\<lambda>t. in_new_session (table_state_of m t)) ?tables s = (Inr (map st ?tables), s)"
    by (rule io_traverse_unchanged) (use at in \<open>simp add: st_def\<close>)
  have cursors: "fold (\<lambda>st kvs. assoc_set (bs_table_name st) (bs_cursor st) kvs) (map st ?tables) [] =
      map (\<lambda>t. (t, Some \<lparr>last_event_id = n t\<rparr>)) ?tables"
    by (subst fold_assoc_set_map) (simp_all add: st comp_def BRONZE_TABLES_distinct)
  have bounds: "read_batch_upper_bounds (be_postgres m) (jd_control jd) (map (\<lambda>t. (t, Some \<lparr>last_event_id = n t\<rparr>)) ?tables) =
      Inr (map (\<lambda>t. (t, None)) ?tables)"
    using at by (intro caught_up_bounds [OF control]) (simp_all add: BRONZE_TABLES_def)
  let ?results = "map (\<lambda>x. bronze_result_of m x 0 (map (\<lambda>o'. (o', 0)) CHANGE_OPERATIONS)) (map st ?tables)"
  have "in_new_session (io_bind (io_lift (bound_of (map (\<lambda>t. (t, None)) ?tables) (bs_table_name x))) (run_bronze_table m jd x)) s =
      (Inr (bronze_result_of m x 0 (map (\<lambda>o'. (o', 0)) CHANGE_OPERATIONS)), s)" if "x \<in> set (map st ?tables)" for x
  proof -
    from that obtain t where t: "x = st t" "t \<in> set ?tables" by auto
    have "map_of (map (\<lambda>t. (t, None)) ?tables) t = Some None" using t(2) by (simp only: map_of_tabulate if_True)
    show ?thesis unfolding t(1) by (rule idle_bronze_table [OF t(2) st(1,3)]) (simp only: st(1) \<open>map_of _ t = Some None\<close>)
  qed
  then have results: "io_traverse (\<lambda>x. in_new_session (io_bind (io_lift (bound_of (map (\<lambda>t. (t, None)) ?tables) (bs_table_name x)))
      (run_bronze_table m jd x))) (map st ?tables) s = (Inr ?results, s)"
    by (intro io_traverse_unchanged) blast
  have "distinct (map br_table_name ?results)" "\<forall>r \<in> set ?results. br_batch_id r = be_batch_id m"
    using BRONZE_TABLES_distinct by (simp_all add: comp_def bronze_result_fields st)
  note manifest = from_results_distinct [OF this]
  let ?b = "\<lparr>bm_batch_id = be_batch_id m, bm_tables = map (\<lambda>r. (br_table_name r, r)) ?results\<rparr>"
  have "extract_all_to_bronze m jd None s = (Inr ?b, s)"
    unfolding extract_all_to_bronze_def run_bronze_def option.case Let_def
    by (simp only: io_bind_def [of "io_lift _"] io_bind_def [of "io_traverse _ _"] io_lift_def raise_if_simps order_refl not_True_eq_False
        prod.case sum.case states cursors bounds results manifest)
  moreover have "is_no_change_batch (manifest_results ?b)"
    by (simp add: is_no_change_batch_def manifest_results_def list_all_iff bronze_result_of_def st Let_def) (simp add: BRONZE_TABLES_def)
  ultimately show ?thesis by blast
qed

section \<open>What the skip does not look at\<close>

definition current_refs :: "gold_builder \<Rightarrow> string set" where
  "current_refs b = silver_refs b \<union> {ref. fact_reference (gold_store b) = Inr ref}"

lemma downstream_is_current_same:
  assumes "\<forall>r \<in> current_refs b. lk_tables s' r = lk_tables s r"
  shows "downstream_is_current b s' = downstream_is_current b s"
proof -
  have release: "latest_release (gold_store b) s' = latest_release (gold_store b) s"
    using assms by (cases "fact_reference (gold_store b)")
      (auto simp: latest_release_def current_refs_def try_delta_table_properties_def delta_table_properties_def delta_table_at_def)
  have "inspect_silver b s' t = inspect_silver b s t" for t
  proof (cases "table_reference (ad_lakehouse (gb_adapter b)) ''silver'' t")
    case (Inr ref)
    then have "lk_tables s' (tr_value ref) = lk_tables s (tr_value ref)" using assms by (auto simp: silver_refs_def current_refs_def)
    then have "delta_table_at s' (tr_value ref) = delta_table_at s (tr_value ref)" by (rule delta_table_at_same)
    with Inr show ?thesis
      by (simp add: inspect_silver_def gold_reference_def try_latest_delta_pipeline_commit_def latest_delta_pipeline_commit_def)
  qed (simp add: inspect_silver_def gold_reference_def)
  then have inspected: "traverse (inspect_silver b s') (map fst SILVER_TABLES) = traverse (inspect_silver b s) (map fst SILVER_TABLES)"
    by (intro traverse_cong)
  show ?thesis unfolding downstream_is_current_def release inspected ..
qed

text \<open>
  C21. A batch without new events skips Silver even when Silver lags. Suppose Silver and Gold were
  current with each other in \<open>s0\<close> and a batch then committed new events to Bronze and failed before Silver (\<open>s1\<close> has the same
  Silver and Gold tables). The next batch finds no new event in the source, sees that Gold agrees with Silver, and returns
  successfully without processing what the failed batch ingested.
\<close>

theorem no_change_batch_skips_lagging_silver:
  assumes "json_codec (be_dumps (bp_extractor p)) (be_loads (bp_extractor p))"
    and "answers (be_postgres (bp_extractor p)) (jd_control (bp_jdbc p)) src"
    and "list_all (caught_up ((bp_extractor p)\<lparr>be_batch_id := batch\<rparr>) src s1) (map fst BRONZE_TABLES)"
    and "ba_mode a = ''all''" "ba_tables a = None" "\<not> ba_full_rebuild_silver a" "\<not> ba_full_rebuild_gold a"
    and "downstream_is_current (bp_gold p) s0 = Inr True"
    and "\<forall>r \<in> current_refs (bp_gold p). lk_tables s1 r = lk_tables s0 r"
  shows "\<exists>b. run_mode p a batch None s1 = (Inr (Some (BronzeManifest b)), s1)"
proof -
  let ?m = "(bp_extractor p)\<lparr>be_batch_id := batch\<rparr>"
  obtain b where b: "extract_all_to_bronze ?m (bp_jdbc p) None s1 = (Inr b, s1)" "is_no_change_batch (manifest_results b)"
    using caught_up_extraction [of ?m "bp_jdbc p" src s1] assms(1-3) by auto
  have "downstream_is_current (bp_gold p) s1 = Inr True" using downstream_is_current_same [OF assms(9)] assms(8) by simp
  then have "unchanged_batch p a (Some b) s1 = (Inr True, s1)" using assms(4-7) b(2) by (simp add: unchanged_batch_def io_get_def)
  moreover have "bronze_stage p a batch s1 = (Inr b, s1)" using b(1) assms(5) by (simp add: bronze_stage_def)
  ultimately show ?thesis using assms(4)
    by (intro exI [of _ b]) (simp add: run_mode_def io_bind_assoc io_bind_def [of "bronze_stage p a batch"]
        io_bind_def [of "unchanged_batch p a (Some b)"] Let_def)
qed

end
