(* ===== verification/BatchSkip.thy ===== *)
theory BatchSkip
  imports BatchRun
begin

text \<open>
  A lake in which a batch without new events returns although Silver lags Bronze, and the witnesses of the
  properties of the batch job.
\<close>

section \<open>A source with one event for each table\<close>

definition demo_event_no :: "string \<Rightarrow> int" where
  "demo_event_no t = int (length (takeWhile (\<lambda>x. x \<noteq> t) (map fst BRONZE_TABLES))) + 1"

definition demo_outbox_event :: "string \<Rightarrow> row" where
  "demo_outbox_event t = row_of [(''event_id'', IntV (demo_event_no t)), (''source_table'', StrV t), (''operation'', StrV ''INSERT''),
     (''occurred_at'', TsV 5), (''row_data'', StrV ''{}'')]"

definition demo_shop_outbox :: source where
  "demo_shop_outbox = \<lparr>so_events = map demo_outbox_event (map fst BRONZE_TABLES),
     so_columns = (\<lambda>t. bc_primary_keys (contract_named t)), so_populate = (\<lambda>t v k. IntV 1)\<rparr>"

definition demo_shop_jdbc :: jdbc where
  "demo_shop_jdbc = \<lparr>jd_control = (\<lambda>k. Inr demo_shop_outbox), jd_extract = (\<lambda>t k. Inr demo_shop_outbox)\<rparr>"

lemma filter_single: "distinct xs \<Longrightarrow> t \<in> set xs \<Longrightarrow> filter (\<lambda>x. x = t) xs = [t]"
  by (induction xs) (auto simp: filter_empty_conv)

lemma demo_shop_events:
  assumes "t \<in> set (map fst BRONZE_TABLES)"
  shows "table_events demo_shop_outbox t = [demo_outbox_event t]"
proof -
  have "(\<lambda>x. holds (eq3 (demo_outbox_event x ''source_table'') (StrV t))) = (\<lambda>x. x = t)"
    by (auto simp: demo_outbox_event_def row_of_def)
  then have same: "filter (\<lambda>x. holds (eq3 (demo_outbox_event x ''source_table'') (StrV t))) (map fst BRONZE_TABLES) = [t]"
    using filter_single [OF BRONZE_TABLES_distinct assms] by (simp only:)
  have "table_events demo_shop_outbox t =
      map demo_outbox_event (filter (\<lambda>x. holds (eq3 (demo_outbox_event x ''source_table'') (StrV t))) (map fst BRONZE_TABLES))"
    by (simp only: table_events_def where3_def demo_shop_outbox_def source.simps filter_map comp_def)
  then show ?thesis unfolding same by simp
qed

lemma demo_outbox_event_fields:
  "event_no (demo_outbox_event t) = demo_event_no t" "demo_outbox_event t ''event_id'' = IntV (demo_event_no t)"
  "demo_outbox_event t ''operation'' = StrV ''INSERT''" "demo_outbox_event t ''occurred_at'' = TsV 5" "0 < demo_event_no t"
  by (simp_all add: event_no_def demo_outbox_event_def row_of_def demo_event_no_def)

lemma demo_shop_outbox_ok:
  assumes "t \<in> set (map fst BRONZE_TABLES)"
  shows "outbox_ok demo_shop_outbox (contract_named t)"
proof -
  have name: "bc_table_name (contract_named t) = t" by (rule bronze_contract_facts(1) [OF contract_named [OF assms]])
  show ?thesis
    unfolding outbox_ok_def name demo_shop_events [OF assms]
    by (simp add: event_ok_def demo_outbox_event_fields CHANGE_OPERATIONS_def) (simp add: demo_shop_outbox_def list_all_iff)
qed

section \<open>The lake\<close>

definition demo_bronze_commit :: "string \<Rightarrow> int \<Rightarrow> commit" where
  "demo_bronze_commit t n = \<lparr>cm_cols = [], cm_rows = [], cm_changes = [],
     cm_metadata = Some (example_dumps (bronze_metadata t ''b0'' n))\<rparr>"

definition demo_bronze_of :: "string \<Rightarrow> int list \<Rightarrow> delta_table" where
  "demo_bronze_of t ns = \<lparr>dt_commits = map (demo_bronze_commit t) ns, dt_props = [], dt_txns = []\<rparr>"

text \<open>Silver as the batch pipeline leaves it at Bronze version 0.\<close>

definition demo_current_silver :: "string \<Rightarrow> delta_table" where
  "demo_current_silver t = \<lparr>dt_commits = [\<lparr>cm_cols = [], cm_rows = [], cm_changes = [],
     cm_metadata = Some (example_dumps (progress_metadata t 0 ''b0'' None))\<rparr>], dt_props = [], dt_txns = []\<rparr>"

definition table_at :: "string \<Rightarrow> (string \<Rightarrow> delta_table) \<Rightarrow> string list \<Rightarrow> string \<Rightarrow> delta_table option" where
  "table_at root table names ref = map_option table (find (\<lambda>t. ref = root @ t) names)"

definition demo_batch_base :: lake where
  "demo_batch_base = empty_lake\<lparr>lk_tables := (\<lambda>ref. if ref = ''lake/gold/fact_sales'' then Some demo_fact_table
     else case table_at ''lake/silver/'' demo_current_silver (map fst SILVER_TABLES) ref of Some t \<Rightarrow> Some t
       | None \<Rightarrow> table_at ''lake/bronze/batch/'' (\<lambda>t. demo_bronze_of t [if t = ''payments'' then 0 else demo_event_no t])
           (map fst BRONZE_TABLES) ref)\<rparr>"

text \<open>The failed batch added a commit to Bronze.\<close>

definition after_failed_batch :: "lake \<Rightarrow> lake" where
  "after_failed_batch s = s\<lparr>lk_tables := (lk_tables s)(''lake/bronze/batch/payments'' \<mapsto>
     demo_bronze_of ''payments'' [0, demo_event_no ''payments''])\<rparr>"

lemma find_same: "t \<in> set ts \<Longrightarrow> find (\<lambda>x. root @ t = root @ x) ts = Some t"
  by (induction ts) auto

lemma find_other: "(\<And>t. ref \<noteq> root @ t) \<Longrightarrow> find (\<lambda>x. ref = root @ x) ts = None"
  by (induction ts) auto

lemma demo_base_tables:
  "t \<in> set (map fst SILVER_TABLES) \<Longrightarrow> lk_tables demo_batch_base (''lake/silver/'' @ t) = Some (demo_current_silver t)"
  "t \<in> set (map fst BRONZE_TABLES) \<Longrightarrow> lk_tables demo_batch_base (''lake/bronze/batch/'' @ t) =
    Some (demo_bronze_of t [if t = ''payments'' then 0 else demo_event_no t])"
  "lk_tables demo_batch_base ''lake/gold/fact_sales'' = Some demo_fact_table"
proof -
  assume t: "t \<in> set (map fst SILVER_TABLES)"
  have "table_at ''lake/silver/'' demo_current_silver (map fst SILVER_TABLES) (''lake/silver/'' @ t) = Some (demo_current_silver t)"
    unfolding table_at_def find_same [OF t] by simp
  then show "lk_tables demo_batch_base (''lake/silver/'' @ t) = Some (demo_current_silver t)"
    by (simp add: demo_batch_base_def)
next
  assume t: "t \<in> set (map fst BRONZE_TABLES)"
  have "table_at ''lake/silver/'' demo_current_silver (map fst SILVER_TABLES) (''lake/bronze/batch/'' @ t) = None"
    unfolding table_at_def by (subst find_other) simp_all
  moreover have "table_at ''lake/bronze/batch/'' f (map fst BRONZE_TABLES) (''lake/bronze/batch/'' @ t) = Some (f t)" for f
    unfolding table_at_def find_same [OF t] by simp
  ultimately show "lk_tables demo_batch_base (''lake/bronze/batch/'' @ t) =
      Some (demo_bronze_of t [if t = ''payments'' then 0 else demo_event_no t])"
    by (simp add: demo_batch_base_def)
qed (simp add: demo_batch_base_def)

text \<open>Gold published for this Silver.\<close>

lemma demo_published:
  obtains s where "\<forall>r. r \<noteq> ''lake/gold/fact_sales'' \<longrightarrow> lk_tables s r = lk_tables demo_batch_base r"
    and "latest_release (gold_store demo_gold) s = Inr (Some (canonical_release (release_of all_silver_candidate)))"
proof -
  let ?c = all_silver_candidate
  have store: "gold_store demo_gold = demo_store"
    by (simp add: gold_store_def demo_gold_def demo_store_def demo_adapter_def)
  have valid: "validate_versions (gc_silver_versions ?c) None = Inr ()" by code_simp
  have c: "gc_committed_versions ?c = gc_committed_versions demo_candidate" "gc_changed_tables ?c = gc_changed_tables demo_candidate"
    "gc_batch_id ?c = gc_batch_id demo_candidate"
    by (simp_all add: all_silver_candidate_def)
  note facts = valid c demo_candidate_valid demo_fact_reference raise_if_def io_bind_def delta_commit_metadata_def set_delta_table_property_def
  obtain s where s: "publish_release demo_store ?c demo_batch_base = (Inr (release_of ?c), s)"
    using demo_base_tables(3) by (simp add: publish_release_def facts)
  have latest: "latest_release (gold_store demo_gold) s = Inr (Some (canonical_release (release_of ?c)))"
    unfolding store by (rule gold_publish_roundtrip_lemma [OF demo_store_codec _ s]) (simp add: c demo_candidate_valid)
  have "\<forall>r. r \<noteq> ''lake/gold/fact_sales'' \<longrightarrow> lk_tables s r = lk_tables demo_batch_base r"
    using s demo_base_tables(3) by (auto simp: publish_release_def facts)
  with latest that show thesis by blast
qed

lemma demo_silver_metadata:
  "metadata_for_pipelines example_loads (Some (example_dumps (progress_metadata t v batch_id start))) SILVER_DATA_PIPELINES =
    Some (progress_metadata t v batch_id start)"
proof -
  have "example_loads (example_dumps (progress_metadata t v batch_id start)) = Some (progress_metadata t v batch_id start)"
    by (rule json_codec_loads [OF example_codec])
  moreover obtain kvs where kvs: "progress_metadata t v batch_id start = JObj kvs" by (simp add: progress_metadata_def jobj_def)
  moreover have "map_of kvs ''pipeline'' = Some (JStr SILVER_PIPELINE_NAME)"
    using progress_metadata_fields(1) [of t v batch_id start] by (simp add: kvs jget_def)
  ultimately show ?thesis by (simp add: metadata_for_pipelines_def SILVER_DATA_PIPELINES_def)
qed

lemma demo_silver_commit:
  assumes "\<And>r. r \<noteq> ''lake/gold/fact_sales'' \<Longrightarrow> lk_tables s r = lk_tables demo_batch_base r"
    and t: "t \<in> set (map fst SILVER_TABLES)"
  shows "gold_reference demo_gold ''silver'' t = Inr (''lake/silver/'' @ t)"
    and "latest_delta_pipeline_commit example_loads s (''lake/silver/'' @ t) SILVER_DATA_PIPELINES =
      Inr \<lparr>pc_version = 0, pc_metadata = progress_metadata t 0 ''b0'' None\<rparr>"
proof -
  have "\<forall>t \<in> set (map fst SILVER_TABLES). gold_reference demo_gold ''silver'' t = Inr (''lake/silver/'' @ t)"
    using demo_silver_references(1) unfolding map_eq_conv .
  then show "gold_reference demo_gold ''silver'' t = Inr (''lake/silver/'' @ t)" using t by (rule bspec)
  have table: "lk_tables s (''lake/silver/'' @ t) = Some (demo_current_silver t)"
    using assms(1) demo_base_tables(1) [OF t] by simp
  show "latest_delta_pipeline_commit example_loads s (''lake/silver/'' @ t) SILVER_DATA_PIPELINES =
      Inr \<lparr>pc_version = 0, pc_metadata = progress_metadata t 0 ''b0'' None\<rparr>"
    unfolding latest_delta_pipeline_commit_def delta_table_at_def table
    by (simp add: history_def demo_current_silver_def demo_silver_metadata) (simp add: SILVER_DATA_PIPELINES_def)
qed

lemma demo_inspected:
  assumes "\<And>r. r \<noteq> ''lake/gold/fact_sales'' \<Longrightarrow> lk_tables s r = lk_tables demo_batch_base r"
    and "t \<in> set (map fst SILVER_TABLES)"
  shows "inspect_silver demo_gold s t = Inr (t, Some 0)"
proof -
  have "gb_loads demo_gold = example_loads" by (simp add: demo_gold_def)
  with demo_silver_commit [OF assms] show ?thesis
    by (simp add: inspect_silver_def try_latest_delta_pipeline_commit_def missing_as_none_def progress_metadata_fields(3)
        SILVER_SCHEMA_VERSION_def)
qed

lemma demo_downstream_current:
  assumes "\<And>r. r \<noteq> ''lake/gold/fact_sales'' \<Longrightarrow> lk_tables s r = lk_tables demo_batch_base r"
    and "latest_release (gold_store demo_gold) s = Inr (Some (canonical_release (release_of all_silver_candidate)))"
  shows "downstream_is_current demo_gold s = Inr True"
proof -
  let ?r = "canonical_release (release_of all_silver_candidate)" and ?names = "map fst SILVER_TABLES"
  have "distinct (map fst (map (\<lambda>t. (t, 0::int)) ?names))" using SILVER_TABLES_distinct by (simp add: o_def)
  from map_of_sort_key [OF this]
  have versions: "map_of (gr_silver_versions ?r) = map_of (map (\<lambda>t. (t, 0)) ?names)"
    by (simp add: canonical_release_def release_of_def all_silver_candidate_def)
  have names: "set (map fst (gr_silver_versions ?r)) = set ?names"
    by (simp add: canonical_release_def release_of_def all_silver_candidate_def image_image)
  have "traverse (inspect_silver demo_gold s) ?names = Inr (map (\<lambda>t. (t, Some 0)) ?names)"
    by (rule traverse_total) (rule demo_inspected [OF assms(1)])
  then show ?thesis
    unfolding downstream_is_current_def assms(2) using names
    by (simp add: list_all_iff versions map_of_tabulate del: map_map list.map)
qed

section \<open>The next batch\<close>

definition demo_batch :: batch_pipeline where
  "demo_batch = \<lparr>bp_master = Some ''local[2]'', bp_coordination = demo_coordination,
     bp_contention = (\<lambda>owner. (\<lambda>s. (None, s), \<lparr>ct_before_merge = (\<lambda>k s. s), ct_before_read = (\<lambda>k s. s), ct_now = (\<lambda>k. 0),
       ct_merge_error = (\<lambda>k. None), ct_read_error = (\<lambda>k. None), ct_delay = (\<lambda>k. 0)\<rparr>)),
     bp_owner_id = id, bp_probe = \<lparr>op_row = Some (''shop'', ''reader'', True, True, True), op_columns = CHANGE_EVENT_COLUMNS\<rparr>,
     bp_extractor = demo_extractor, bp_jdbc = demo_shop_jdbc, bp_silver = demo_builder, bp_gold = demo_gold, bp_raw_table = ''cdc_events''\<rparr>"

definition demo_args :: "string \<Rightarrow> bool \<Rightarrow> batch_args" where
  "demo_args mode rebuild = \<lparr>ba_mode = mode, ba_tables = None, ba_full_rebuild_silver = rebuild, ba_full_rebuild_gold = False,
     ba_emit_manifest = False\<rparr>"

lemma demo_bronze_references:
  "list_all (\<lambda>t. map_sum id tr_value (table_reference (ad_lakehouse (sb_adapter demo_builder)) ''bronze'' t) =
     Inr (''lake/bronze/batch/'' @ t)) (map fst BRONZE_TABLES)"
  by code_simp

lemma after_failed_batch_tables:
  assumes "\<And>r. r \<noteq> ''lake/gold/fact_sales'' \<Longrightarrow> lk_tables s r = lk_tables demo_batch_base r" and "t \<in> set (map fst BRONZE_TABLES)"
  shows "lk_tables (after_failed_batch s) (''lake/bronze/batch/'' @ t) =
    Some (demo_bronze_of t (if t = ''payments'' then [0, demo_event_no t] else [demo_event_no t]))"
  using assms demo_base_tables(2) [OF assms(2)] by (simp add: after_failed_batch_def)

lemma demo_caught_up:
  assumes "\<And>r. r \<noteq> ''lake/gold/fact_sales'' \<Longrightarrow> lk_tables s r = lk_tables demo_batch_base r" and t: "t \<in> set (map fst BRONZE_TABLES)"
  shows "caught_up (demo_extractor\<lparr>be_batch_id := batch\<rparr>) demo_shop_outbox (after_failed_batch s) t"
proof -
  let ?ns = "if t = ''payments'' then [0, demo_event_no t] else [demo_event_no t]"
  have ref: "map_sum id tr_value (table_reference (be_lakehouse (demo_extractor\<lparr>be_batch_id := batch\<rparr>)) ''bronze'' t) = Inr (''lake/bronze/batch/'' @ t)"
    using demo_bronze_references t by (simp add: list_all_iff demo_extractor_def del: list.set_map set_map)
  have last: "cm_metadata (latest_commit (demo_bronze_of t ?ns)) =
      Some (be_dumps (demo_extractor\<lparr>be_batch_id := batch\<rparr>) (bronze_metadata t ''b0'' (demo_event_no t)))"
    by (simp add: latest_commit_def demo_bronze_of_def demo_bronze_commit_def demo_extractor_def)
  have some: "dt_commits (demo_bronze_of t ?ns) \<noteq> []" "0 \<le> demo_event_no t"
    using demo_outbox_event_fields(5) [of t] by (simp_all add: demo_bronze_of_def)
  have "bronze_at (demo_extractor\<lparr>be_batch_id := batch\<rparr>) t (''lake/bronze/batch/'' @ t) (demo_event_no t)
      (demo_bronze_of t ?ns) (after_failed_batch s)"
    unfolding bronze_at_def by (intro conjI exI [of _ "''b0''"] ref last some after_failed_batch_tables [OF assms])
  moreover have "pending_events demo_shop_outbox t (demo_event_no t) = []" "list_ex (\<lambda>e. demo_event_no t \<le> event_no e) (table_events demo_shop_outbox t)"
    by (simp_all add: pending_events_def demo_shop_events [OF t] demo_outbox_event_fields)
  ultimately show ?thesis unfolding caught_up_def using demo_shop_outbox_ok [OF t] by blast
qed

lemma payments_outside:
  "''lake/bronze/batch/payments'' \<notin> current_refs demo_gold" "''lake/gold/fact_sales'' \<noteq> ''lake/bronze/batch/payments''"
proof -
  have path: "lc_catalog (ad_lakehouse (gb_adapter demo_gold)) = None" by (simp add: demo_gold_def demo_adapter_def)
  have bronze: "\<exists>r. table_reference (ad_lakehouse (gb_adapter demo_gold)) ''bronze'' ''payments'' = Inr r \<and> tr_value r = ''lake/bronze/batch/payments''"
  proof -
    have "map_sum id tr_value (table_reference (ad_lakehouse (gb_adapter demo_gold)) ''bronze'' ''payments'') = Inr ''lake/bronze/batch/payments''"
      by code_simp
    then show ?thesis by (simp add: map_sum_Inr)
  qed
  have False if "table_reference (ad_lakehouse (gb_adapter demo_gold)) ''silver'' t = Inr ref" "''lake/bronze/batch/payments'' = tr_value ref" for t ref
    using bronze that path_locations_lemma [OF path, of "Batch ''silver'' t" ref "Batch ''bronze'' ''payments''"] by auto
  moreover have "gold_store demo_gold = demo_store" by (simp add: gold_store_def demo_gold_def demo_store_def demo_adapter_def)
  ultimately show "''lake/bronze/batch/payments'' \<notin> current_refs demo_gold"
    by (auto simp: current_refs_def silver_refs_def demo_fact_reference)
qed simp

lemma demo_silver_state:
  assumes "lk_tables s (''lake/silver/'' @ t) = Some (demo_current_silver t)"
  shows "delta_table_state example_loads s (''lake/silver/'' @ t) SILVER_PIPELINE_NAME =
    Inr \<lparr>ts_version = 0, ts_progress_version = Some 0, ts_progress = Some (progress_metadata t 0 ''b0'' None)\<rparr>"
  using assms by (simp add: delta_table_state_def delta_table_at_def history_def demo_current_silver_def
      pipeline_metadata_progress [OF example_codec])

lemma demo_payments_state:
  assumes "lk_tables s ''lake/bronze/batch/payments'' = Some (demo_bronze_of ''payments'' [0, n])"
  shows "delta_table_state example_loads s ''lake/bronze/batch/payments'' ''postgres_to_bronze'' =
    Inr \<lparr>ts_version = 1, ts_progress_version = Some 1, ts_progress = Some (bronze_metadata ''payments'' ''b0'' n)\<rparr>"
  using assms by (simp add: delta_table_state_def delta_table_at_def history_def demo_bronze_of_def demo_bronze_commit_def
      pipeline_metadata_bronze [OF example_codec])

theorem no_change_batch_skips_lagging_silver_witness:
  "\<exists>s b bronze silver. run_mode demo_batch (demo_args ''all'' False) ''b2'' None s = (Inr (Some (BronzeManifest b)), s) \<and>
    delta_table_state example_loads s ''lake/bronze/batch/payments'' ''postgres_to_bronze'' = Inr bronze \<and>
    delta_table_state example_loads s ''lake/silver/payments'' SILVER_PIPELINE_NAME = Inr silver \<and>
    validate_progress_alignment bronze silver = Inl (ValueError ''Silver progress is not aligned with Bronze'')"
proof -
  obtain s where same_base: "\<forall>r. r \<noteq> ''lake/gold/fact_sales'' \<longrightarrow> lk_tables s r = lk_tables demo_batch_base r"
    and latest: "latest_release (gold_store demo_gold) s = Inr (Some (canonical_release (release_of all_silver_candidate)))"
    by (rule demo_published)
  then have s: "\<And>r. r \<noteq> ''lake/gold/fact_sales'' \<Longrightarrow> lk_tables s r = lk_tables demo_batch_base r" by blast
  let ?s = "after_failed_batch s"
  have fields: "bp_extractor demo_batch = demo_extractor" "bp_jdbc demo_batch = demo_shop_jdbc" "bp_gold demo_batch = demo_gold"
    by (simp_all add: demo_batch_def)
  have codec: "json_codec (be_dumps (bp_extractor demo_batch)) (be_loads (bp_extractor demo_batch))"
    using demo_extractor_facts(1) by (simp only: fields)
  have answers: "answers (be_postgres (bp_extractor demo_batch)) (jd_control (bp_jdbc demo_batch)) demo_shop_outbox"
    by (auto simp: fields answers_def demo_shop_jdbc_def demo_extractor_def demo_postgres_def intro!: bexI [of _ 1])
  have quiet: "list_all (caught_up ((bp_extractor demo_batch)\<lparr>be_batch_id := ''b2''\<rparr>) demo_shop_outbox ?s) (map fst BRONZE_TABLES)"
    unfolding list_all_iff fields using demo_caught_up [OF s] by blast
  have current: "downstream_is_current (bp_gold demo_batch) s = Inr True" unfolding fields by (rule demo_downstream_current [OF s latest])
  have same: "\<forall>r \<in> current_refs (bp_gold demo_batch). lk_tables ?s r = lk_tables s r"
    using payments_outside(1) by (auto simp: fields after_failed_batch_def)
  have args: "ba_mode (demo_args ''all'' False) = ''all''" "ba_tables (demo_args ''all'' False) = None"
    "\<not> ba_full_rebuild_silver (demo_args ''all'' False)" "\<not> ba_full_rebuild_gold (demo_args ''all'' False)"
    by (simp_all add: demo_args_def)
  obtain b where run: "run_mode demo_batch (demo_args ''all'' False) ''b2'' None ?s = (Inr (Some (BronzeManifest b)), ?s)"
    using no_change_batch_skips_lagging_silver [OF codec answers quiet args current same] by blast
  have bronze: "delta_table_state example_loads ?s ''lake/bronze/batch/payments'' ''postgres_to_bronze'' =
      Inr \<lparr>ts_version = 1, ts_progress_version = Some 1, ts_progress = Some (bronze_metadata ''payments'' ''b0'' (demo_event_no ''payments''))\<rparr>"
    by (rule demo_payments_state) (simp add: after_failed_batch_def)
  have "''payments'' \<in> set (map fst SILVER_TABLES)" by code_simp
  then have "lk_tables ?s (''lake/silver/'' @ ''payments'') = Some (demo_current_silver ''payments'')"
    using s demo_base_tables(1) [of "''payments''"] by (simp add: after_failed_batch_def)
  from demo_silver_state [OF this] have silver: "delta_table_state example_loads ?s ''lake/silver/payments'' SILVER_PIPELINE_NAME =
      Inr \<lparr>ts_version = 0, ts_progress_version = Some 0, ts_progress = Some (progress_metadata ''payments'' 0 ''b0'' None)\<rparr>"
    by simp
  show ?thesis
    by (intro exI conjI, rule run, rule bronze, rule silver)
      (simp add: validate_progress_alignment_def progress_metadata_fields(2))
qed

theorem workflow_runs_the_stages_witness:
  "outcome (run_mode demo_batch (demo_args ''workflow'' True) ''b2'' None demo_batch_base) =
    outcome (run_stages demo_batch (demo_args ''workflow'' True) ''b2'' (map snd BATCH_STAGES) None demo_batch_base)"
  by (rule workflow_runs_the_stages) (simp_all add: demo_args_def unchanged_batch_def split: prod.split sum.split)

end
