(* ===== verification/ReleaseCheck.thy ===== *)
theory ReleaseCheck
  imports BatchSkip
begin

text \<open>
  Gold and the release validation together: the validation that ends the workflow never fails after a
  successful Gold build.
\<close>

section \<open>What a Gold run with a manifest publishes\<close>

lemma refresh_cases:
  assumes "refresh_stale_propagated_versions b previous vs s = Inr cur"
  shows "cur = vs \<or> silver_versions b s = Inr cur"
  using assms by (auto simp: refresh_stale_propagated_versions_def split: if_splits)

lemma run_gold_outcomes:
  assumes run: "run_gold b batch full s = (Inr paths, s')"
  obtains (published) vs cur ch prev s1 u where "current_silver_versions b s = Inr vs" and "cur = vs \<or> silver_versions b s = Inr cur"
      and "publish_gold b cur batch ch prev s1 = (Inr u, s')"
    | (idle) vs cur release where "current_silver_versions b s = Inr vs" and "cur = vs \<or> silver_versions b s = Inr cur"
      and "s' = s" and "latest_release (gold_store b) s = Inr (Some release)"
      and "validate_progress (gr_silver_versions release) cur = Inr ()"
      and "filter (\<lambda>n. version_of (gr_silver_versions release) n < version_of cur n) (map fst cur) = []"
proof -
  note run' = run [unfolded run_gold_def]
  from run' obtain vs where vs: "current_silver_versions b s = Inr vs" by (rule io_bind_getE)
  note run1 = run' [unfolded io_bind_def [of "io_get (current_silver_versions b)"] io_get_def [of "current_silver_versions b"] vs prod.case sum.case]
  from run1 obtain prev where prev: "latest_release (gold_store b) s = Inr prev" by (rule io_bind_getE)
  note run2 = run1 [unfolded io_bind_def [of "io_get (latest_release (gold_store b))"] io_get_def [of "latest_release (gold_store b)"]
      prev prod.case sum.case]
  show thesis
  proof (cases "if full then None else prev")
    case None
    note run3 = run2 [unfolded None option.case]
    from run3 obtain ch s1 where "io_bind (publish_gold b vs batch ch prev) (\<lambda>_. io_lift (gold_paths b)) s1 = (Inr paths, s')"
      by (rule io_bind_InrE)
    then obtain u s2 where "publish_gold b vs batch ch prev s1 = (Inr u, s2)" "io_lift (gold_paths b) s2 = (Inr paths, s')"
      by (rule io_bind_InrE)
    with published [OF vs] show thesis by auto
  next
    case (Some release)
    let ?prev = "gr_silver_versions release"
    note run3 = run2 [unfolded Some option.case Let_def]
    from run3 obtain cur where cur: "refresh_stale_propagated_versions b ?prev vs s = Inr cur" by (rule io_bind_getE)
    note origin = refresh_cases [OF cur]
    note run4 = run3 [unfolded io_bind_def [of "io_get (refresh_stale_propagated_versions b ?prev vs)"]
        io_get_def [of "refresh_stale_propagated_versions b ?prev vs"] cur prod.case sum.case]
    from run4 obtain u where valid: "validate_progress ?prev cur = Inr u" by (rule io_bind_liftE)
    note run5 = run4 [unfolded valid io_simps(3)]
    let ?changed = "filter (\<lambda>n. version_of ?prev n < version_of cur n) (map fst cur)"
    show thesis
    proof (cases "?changed = []")
      case True
      have "s' = s" using run5 [unfolded True] by auto
      moreover have "prev = Some release" using Some by (auto split: if_splits)
      ultimately show thesis using idle [OF vs origin _ _ _ True] prev valid by simp
    next
      case False
      note run6 = run5 [unfolded if_not_P [OF False]]
      from run6 obtain x y z where rest: "(if z = [] then io_bind (publish_gold b cur batch [] prev) (\<lambda>_. io_lift (gold_paths b))
           else io_bind (run_incremental_gold b z) (\<lambda>ch. io_bind (publish_gold b cur batch ch prev) (\<lambda>_. io_lift (gold_paths b)))) s =
        (Inr paths, s')"
        by (elim io_bind_getE io_bind_liftE) blast
      obtain ch s1 where "io_bind (publish_gold b cur batch ch prev) (\<lambda>_. io_lift (gold_paths b)) s1 = (Inr paths, s')"
      proof (cases "z = []")
        case True
        with rest that show thesis by simp
      next
        case False
        from rest [unfolded if_not_P [OF False]] show thesis by (rule io_bind_InrE) (rule that)
      qed
      then obtain u s2 where "publish_gold b cur batch ch prev s1 = (Inr u, s2)" "io_lift (gold_paths b) s2 = (Inr paths, s')"
        by (rule io_bind_InrE)
      with published [OF vs origin] show thesis by auto
    qed
  qed
qed

lemma propagated_versions:
  assumes "gb_manifest b = Some m" and "current_silver_versions b s = Inr vs"
  shows "vs = committed_versions m" and "set (map fst vs) = set (map fst SILVER_TABLES)"
  using assms by (auto simp: current_silver_versions_def Let_def split: if_splits)

lemma committed_versions_keys: "map fst (committed_versions m) = map fst m"
  by (simp add: committed_versions_def comp_def case_prod_unfold)

lemma release_names:
  assumes "cur = committed_versions m \<or> silver_versions b s = Inr cur"
    and "set (map fst (committed_versions m)) = set (map fst SILVER_TABLES)" and "distinct (map fst m)"
  shows "set (map fst cur) = set (map fst SILVER_TABLES)" and "distinct (map fst cur)"
proof -
  note keys = committed_versions_keys [of m]
  from assms(1) show "set (map fst cur) = set (map fst SILVER_TABLES)"
  proof
    assume "cur = committed_versions m" with assms(2) show ?thesis by (simp only:)
  next
    assume "silver_versions b s = Inr cur" then show ?thesis using silver_versions_names by (simp only:)
  qed
  from assms(1) show "distinct (map fst cur)"
  proof
    assume "cur = committed_versions m" with assms(3) keys show ?thesis by (simp only:)
  next
    assume "silver_versions b s = Inr cur" then show ?thesis using silver_versions_names SILVER_TABLES_distinct by (simp only:)
  qed
qed

lemma version_of_cong: "map_of a = map_of b \<Longrightarrow> version_of a = version_of b"
  by (simp add: fun_eq_iff version_of_def)

lemma map_of_names: "map_of a = map_of b \<Longrightarrow> set (map fst a) = set (map fst b)"
  by (metis dom_map_of_conv_image_fst set_map)

lemma gold_store_manifest [simp]: "gold_store (b\<lparr>gb_manifest := m\<rparr>) = gold_store b"
  by (simp add: gold_store_def)

lemma release_covers:
  assumes release: "latest_release (gold_store b) s = Inr (Some r)"
    and names: "set (map fst (gr_silver_versions r)) = set (map fst SILVER_TABLES)"
    and manifest: "set (map fst (committed_versions m)) = set (map fst SILVER_TABLES)"
    and ge: "\<And>n. n \<in> set (map fst m) \<Longrightarrow> version_of (committed_versions m) n \<le> version_of (gr_silver_versions r) n"
  shows "\<exists>report. validate_gold_release b (Some m) s = Inr report"
proof -
  have "\<not> list_ex (\<lambda>n. version_of (gr_silver_versions r) n < version_of (committed_versions m) n) (map fst (committed_versions m))"
    unfolding committed_versions_keys list_ex_iff using ge by (auto simp: not_less simp del: set_map list.set_map)
  then show ?thesis
    unfolding validate_gold_release_def Let_def release and_then_simps sum.case option.case names manifest
    by (simp add: raise_if_def del: set_map list.set_map)
qed

text \<open>
  C12. After a successful Gold build the release validation of the workflow succeeds. Whether the build
  published the versions of the Silver manifest, or newer ones that it read again because the manifest was
  stale, or found nothing to do, the release covers every Silver table at least at the version the manifest names; the
  versions of the manifest only have to be ones that Silver had reached.
\<close>

theorem gold_run_passes_release_validation:
  assumes "json_codec (gb_dumps b) (gb_loads b)" and "gb_manifest b = Some m" and "distinct (map fst m)" and "batch \<noteq> []"
    and "silver_versions b s = Inr reached" and "list_all (\<lambda>n. version_of (committed_versions m) n \<le> version_of reached n) (map fst m)"
    and "run_gold b batch full s = (Inr paths, s')"
  shows "\<exists>report. validate_gold_release b (Some m) s' = Inr report"
proof -
  have keys: "map fst (committed_versions m) = map fst m" by (rule committed_versions_keys)
  have reach: "version_of (committed_versions m) n \<le> version_of cur n"
    if "cur = committed_versions m \<or> silver_versions b s = Inr cur" "n \<in> set (map fst m)" for cur n
    using assms(5,6) that by (auto simp: list_all_iff)
  from assms(7) show ?thesis
  proof (cases rule: run_gold_outcomes)
    case (published vs cur ch prev s1 u)
    note vs = propagated_versions [OF assms(2) published(1)]
    have origin: "cur = committed_versions m \<or> silver_versions b s = Inr cur" using published(2) unfolding vs(1) .
    note names = release_names [OF origin vs(2) [unfolded vs(1)] assms(3)]
    obtain r where r: "latest_release (gold_store b) s' = Inr (Some r)" "map_of (gr_silver_versions r) = map_of cur"
      using publish_gold_release [OF assms(1,4) names(2) published(3)] by blast
    show ?thesis
    proof (rule release_covers [OF r(1) _ vs(2) [unfolded vs(1)]])
      show "set (map fst (gr_silver_versions r)) = set (map fst SILVER_TABLES)"
        using map_of_names [OF r(2)] names(1) by (rule trans)
      show "version_of (committed_versions m) n \<le> version_of (gr_silver_versions r) n" if "n \<in> set (map fst m)" for n
        using reach [OF origin that] unfolding version_of_cong [OF r(2)] .
    qed
  next
    case (idle vs cur release)
    note vs = propagated_versions [OF assms(2) idle(1)]
    have origin: "cur = committed_versions m \<or> silver_versions b s = Inr cur" using idle(2) unfolding vs(1) .
    note names = release_names(1) [OF origin vs(2) [unfolded vs(1)] assms(3)]
    have same: "set (map fst (gr_silver_versions release)) = set (map fst cur)"
      using idle(5) by (simp add: validate_progress_def and_then_Inr_iff)
    have "latest_release (gold_store b) s' = Inr (Some release)" using idle(4) unfolding idle(3) .
    then show ?thesis
    proof (rule release_covers [OF _ _ vs(2) [unfolded vs(1)]])
      show "set (map fst (gr_silver_versions release)) = set (map fst SILVER_TABLES)" using same names by (rule trans)
      fix n assume n: "n \<in> set (map fst m)"
      then have "n \<in> set (map fst cur)" using vs(2) [unfolded vs(1)] names keys by simp
      then have "version_of cur n \<le> version_of (gr_silver_versions release) n"
        using idle(6) unfolding filter_empty_conv by (simp only: not_less)
      with reach [OF origin n] show "version_of (committed_versions m) n \<le> version_of (gr_silver_versions release) n" by (rule order_trans)
    qed
  qed
qed

section \<open>A Gold run with a manifest\<close>

definition demo_silver_manifest :: silver_manifest where
  "demo_silver_manifest = map (\<lambda>t. (t, \<lparr>sr_table_name = t, sr_committed_version = 0, sr_schema_version = SILVER_SCHEMA_VERSION\<rparr>))
     (map fst SILVER_TABLES)"

lemma demo_manifest_versions: "committed_versions demo_silver_manifest = map (\<lambda>t. (t, 0)) (map fst SILVER_TABLES)"
  by (simp add: committed_versions_def demo_silver_manifest_def comp_def)

theorem gold_run_passes_release_validation_witness:
  "\<exists>s paths report. run_gold (demo_gold\<lparr>gb_manifest := Some demo_silver_manifest\<rparr>) ''b2'' False s = (Inr paths, s) \<and>
    validate_gold_release (demo_gold\<lparr>gb_manifest := Some demo_silver_manifest\<rparr>) (Some demo_silver_manifest) s = Inr report"
proof -
  let ?b = "demo_gold\<lparr>gb_manifest := Some demo_silver_manifest\<rparr>" and ?names = "map fst SILVER_TABLES"
  let ?vs = "map (\<lambda>t. (t, 0 :: int)) ?names" and ?r = "canonical_release (release_of all_silver_candidate)"
  obtain s where base: "\<forall>r. r \<noteq> ''lake/gold/fact_sales'' \<longrightarrow> lk_tables s r = lk_tables demo_batch_base r"
    and latest: "latest_release (gold_store demo_gold) s = Inr (Some ?r)"
    by (rule demo_published)
  have names: "map fst demo_silver_manifest = ?names" by (simp add: demo_silver_manifest_def comp_def)
  have vs_names: "map fst ?vs = ?names" by (simp add: comp_def)
  have "distinct (map fst ?vs)" using SILVER_TABLES_distinct unfolding vs_names .
  from map_of_sort_key [OF this] have versions: "map_of (gr_silver_versions ?r) = map_of ?vs"
    by (simp add: canonical_release_def release_of_def all_silver_candidate_def)
  note same = version_of_cong [OF versions] map_of_names [OF versions]
  have reached: "silver_versions ?b s = Inr ?vs"
    unfolding silver_versions_def
  proof (rule traverse_total)
    fix t assume t: "t \<in> set ?names"
    have facts: "gold_reference ?b ''silver'' t = gold_reference demo_gold ''silver'' t" "gb_loads ?b = example_loads"
      "GOLD_SILVER_DATA_PIPELINES = SILVER_DATA_PIPELINES"
      by (simp_all add: gold_reference_def demo_gold_def GOLD_SILVER_DATA_PIPELINES_def SILVER_DATA_PIPELINES_def SILVER_PIPELINE_NAME_def)
    have tables: "r \<noteq> ''lake/gold/fact_sales'' \<Longrightarrow> lk_tables s r = lk_tables demo_batch_base r" for r using base by blast
    have commit: "gold_reference demo_gold ''silver'' t = Inr (''lake/silver/'' @ t)"
      "latest_delta_pipeline_commit example_loads s (''lake/silver/'' @ t) SILVER_DATA_PIPELINES =
        Inr \<lparr>pc_version = 0, pc_metadata = progress_metadata t 0 ''b0'' None\<rparr>"
      by (rule demo_silver_commit; fact tables t)+
    show "and_then (gold_reference ?b ''silver'' t) (\<lambda>ref. and_then (latest_delta_pipeline_commit (gb_loads ?b) s ref GOLD_SILVER_DATA_PIPELINES)
        (\<lambda>c. Inr (t, pc_version c))) = Inr (t, 0)"
      unfolding facts commit(1) and_then_simps commit(2) by simp
  qed
  have schema: "\<not> (\<exists>(n, r) \<in> set demo_silver_manifest. sr_schema_version r \<noteq> SILVER_SCHEMA_VERSION)"
    by (auto simp: demo_silver_manifest_def)
  have current: "current_silver_versions ?b s = Inr ?vs"
    using schema by (simp add: current_silver_versions_def demo_manifest_versions vs_names Let_def del: map_map set_map list.set_map)
  have refresh: "refresh_stale_propagated_versions ?b (gr_silver_versions ?r) ?vs s = Inr ?vs"
    by (simp add: refresh_stale_propagated_versions_def same)
  have valid: "validate_progress (gr_silver_versions ?r) ?vs = Inr ()" using same by (simp add: validate_progress_def)
  obtain paths where paths: "gold_paths ?b = Inr paths"
  proof -
    have "gold_reference ?b = gold_reference demo_gold" by (simp add: fun_eq_iff gold_reference_def)
    then show thesis using demo_silver_references(2) that unfolding gold_paths_def by auto
  qed
  have run: "run_gold ?b ''b2'' False s = (Inr paths, s)"
    by (simp add: run_gold_def io_bind_def io_get_def current latest refresh valid same paths Let_def del: map_map)
  have codec: "json_codec (gb_dumps ?b) (gb_loads ?b)" by (simp add: demo_gold_def example_codec)
  have manifest: "gb_manifest ?b = Some demo_silver_manifest" "distinct (map fst demo_silver_manifest)" "''b2'' \<noteq> []"
    using SILVER_TABLES_distinct by (simp_all add: names)
  have reach: "list_all (\<lambda>n. version_of (committed_versions demo_silver_manifest) n \<le> version_of ?vs n) (map fst demo_silver_manifest)"
    unfolding demo_manifest_versions by (simp add: list_all_iff)
  from gold_run_passes_release_validation [OF codec manifest reached reach run] run show ?thesis by blast
qed

end
