(* ===== verification/StreamJobs.thy ===== *)
theory StreamJobs
  imports Validation "HOL-Library.Sublist"
begin

text \<open>
  The streaming jobs (\<open>jobs/run_streaming.py\<close>, \<open>jobs/run_silver_streaming.py\<close>, \<open>jobs/run_cloud_cdc.py\<close>,
  \<open>jobs/reconcile_gold.py\<close>, \<open>ingestion/streaming/bronze.py\<close>, \<open>ingestion/streaming/state.py\<close>,
  \<open>runtime/streaming_progress.py\<close>): the raw table and its checkpoints, one cycle over the available input, and
  the two control loops that reconcile Gold next to running queries. The streaming engine decides the micro-batches and
  when a query ends: both are arguments. Sessions, secrets and printed lines are left out, the alerts are the
  result of a cycle.
\<close>

section \<open>Checkpoints\<close>

definition looks_like_cloud_path :: "string \<Rightarrow> bool" where
  "looks_like_cloud_path v \<longleftrightarrow> list_ex (starts_with ''://'') (suffixes v) \<or> starts_with ''dbfs:'' v"

text \<open>\<open>child_exists d c\<close>: the directory \<open>d\<close> of the local file system has a child \<open>c\<close>.\<close>

definition local_checkpoint_exists :: "(string \<Rightarrow> string \<Rightarrow> bool) \<Rightarrow> string \<Rightarrow> bool" where
  "local_checkpoint_exists child_exists location \<longleftrightarrow> \<not> looks_like_cloud_path location \<and>
     list_ex (child_exists location) [''metadata'', ''offsets'', ''commits'', ''sources'']"

definition assert_local_delta_target_matches_checkpoints ::
    "(string \<Rightarrow> string \<Rightarrow> bool) \<Rightarrow> table_ref \<Rightarrow> string list \<Rightarrow> unit res" where
  "assert_local_delta_target_matches_checkpoints child_exists ref locations =
     (if tr_is_catalog ref \<or> looks_like_cloud_path (tr_value ref) then Inr ()
      else if child_exists (tr_value ref) ''_delta_log'' then Inr ()
      else if filter (local_checkpoint_exists child_exists) locations = [] then Inr ()
      else Inl (RuntimeError ''Delta target is missing but streaming checkpoint state exists''))"

section \<open>The raw table\<close>

definition CHANGE_DATA_FEED_PROPERTY :: string where
  "CHANGE_DATA_FEED_PROPERTY = ''delta.enableChangeDataFeed''"

definition ascii_lower :: "char \<Rightarrow> char" where
  "ascii_lower c = (if CHR ''A'' \<le> c \<and> c \<le> CHR ''Z'' then char_of (of_char c + (32 :: nat)) else c)"

text \<open>
  \<open>create\<close> is what happens while the table is being created: another writer may create it first, or the
  engine may fail. A table that exists by then is taken as it is.
\<close>

definition ensure_bronze_target :: "(lake \<Rightarrow> exn option \<times> lake) \<Rightarrow> string list \<Rightarrow> string \<Rightarrow> unit io" where
  "ensure_bronze_target create columns ref s =
     (case lk_tables s ref of
        None \<Rightarrow> (case create s of (failure, s1) \<Rightarrow>
          if lk_tables s1 ref \<noteq> None then (Inr (), s1)
          else (case failure of Some e \<Rightarrow> (Inl e, s1)
            | None \<Rightarrow> (Inr (), append_delta ref \<lparr>df_cols = columns, df_rows = []\<rparr> s1)))
      | Some t \<Rightarrow>
          if map ascii_lower (case map_of (dt_props t) CHANGE_DATA_FEED_PROPERTY of None \<Rightarrow> ''false'' | Some v \<Rightarrow> v) \<noteq> ''true''
          then set_delta_table_property ref CHANGE_DATA_FEED_PROPERTY ''true'' s
          else (Inr (), s))"

section \<open>Starting the queries\<close>

text \<open>\<open>sj_messages\<close>: the micro-batches of Kafka messages; \<open>sj_micro_batches\<close>: those the engine forms of the raw table.\<close>

record stream_job =
  sj_streaming :: streaming_config
  sj_lakehouse :: lakehouse_config
  sj_child_exists :: "string \<Rightarrow> string \<Rightarrow> bool"
  sj_create :: "lake \<Rightarrow> exn option \<times> lake"
  sj_fn :: cdc_fn
  sj_now :: int
  sj_messages :: "row list list"
  sj_unified :: unified
  sj_micro_batches :: "lake \<Rightarrow> (int \<times> df) list"

definition sj_source_id :: "stream_job \<Rightarrow> string option" where
  "sj_source_id j = (case st_kafka (sj_streaming j) of None \<Rightarrow> None | Some k \<Rightarrow> kf_source_id k)"

definition normalized_columns :: "stream_job \<Rightarrow> string list" where
  "normalized_columns j = df_cols (normalize_debezium_events (sj_fn j) (sj_now j) (sj_source_id j) [])"

definition start_raw_query :: "stream_job \<Rightarrow> string io" where
  "start_raw_query j = (let st = sj_streaming j in
     io_bind (io_lift (raise_if (\<not> st_enabled st \<or> st_kafka st = None) (RuntimeError ''Streaming is not enabled for environment''))) (\<lambda>_.
     io_bind (io_lift (raw_cdc_bronze_reference (sj_lakehouse j) (st_bronze_table st))) (\<lambda>ref.
     io_bind (io_lift (checkpoint_location st)) (\<lambda>location.
     io_bind (io_lift (assert_local_delta_target_matches_checkpoints (sj_child_exists j) ref [location])) (\<lambda>_.
     io_bind (ensure_bronze_target (sj_create j) (normalized_columns j) (tr_value ref)) (\<lambda>_.
     io_return (tr_value ref)))))))"

definition start_silver_query :: "stream_job \<Rightarrow> unit io" where
  "start_silver_query j = (let st = sj_streaming j in
     io_bind (io_lift (raise_if (\<not> ss_enabled (st_silver st)) (RuntimeError ''Streaming Silver is not enabled for environment''))) (\<lambda>_.
     io_bind (io_lift (raw_cdc_bronze_reference (sj_lakehouse j) (st_bronze_table st))) (\<lambda>ref.
     io_bind (io_lift (checkpoint_location st)) (\<lambda>location.
     io_bind (io_lift (silver_checkpoint_location st)) (\<lambda>silver_location.
     io_bind (io_lift (assert_local_delta_target_matches_checkpoints (sj_child_exists j) ref [location, silver_location])) (\<lambda>_.
     ensure_bronze_target (sj_create j) (normalized_columns j) (tr_value ref)))))))"

section \<open>One cycle over the available input\<close>

text \<open>The sink commits a micro-batch of normalized messages once.\<close>

definition append_raw :: "stream_job \<Rightarrow> string \<Rightarrow> row list \<Rightarrow> unit io" where
  "append_raw j ref messages s =
     (Inr (), append_delta ref (normalize_debezium_events (sj_fn j) (sj_now j) (sj_source_id j) messages) s)"

definition run_raw_available_now :: "stream_job \<Rightarrow> unit io" where
  "run_raw_available_now j = io_bind (start_raw_query j) (\<lambda>ref.
     io_bind (io_traverse (append_raw j ref) (sj_messages j)) (\<lambda>_. io_return ()))"

text \<open>The materializer of a query remembers that the typed tables exist and that the targets were validated.\<close>

fun process_batches :: "unified \<Rightarrow> bool \<Rightarrow> bool \<Rightarrow> (int \<times> df) list \<Rightarrow> unit io" where
  "process_batches u initialized validated [] = io_return ()"
| "process_batches u initialized validated ((batch_id, d) # batches) =
     io_bind (process_batch u initialized validated d batch_id) (\<lambda>validated'. process_batches u True validated' batches)"

definition run_silver_available_now :: "stream_job \<Rightarrow> unit io" where
  "run_silver_available_now j = io_bind (start_silver_query j) (\<lambda>_.
     io_bind (io_get (\<lambda>s. Inr (sj_micro_batches j s))) (\<lambda>batches.
     io_bind (process_batches (sj_unified j) False False batches) (\<lambda>_.
     io_bind (reconcile_pending_gold_if_ready (sj_unified j) ''cdc-available-now-reconcile'') (\<lambda>_.
     io_return ()))))"

definition reconcile_gold_job :: "unified \<Rightarrow> string \<Rightarrow> string io" where
  "reconcile_gold_job u new_batch_id = reconcile_gold u (''gold-reconcile-'' @ new_batch_id) True True False None"

section \<open>Progress and alerts\<close>

text \<open>
  A progress event of Spark. \<open>qp_sources\<close>: for each source the lag it reports, when that is a number.
\<close>

record query_progress =
  qp_run_id :: string
  qp_batch_id :: "int option"
  qp_input_rows :: int
  qp_trigger_ms :: "int option"
  qp_sources :: "int option list option"

record stream_metrics =
  sm_micro_batches :: nat
  sm_input_rows :: int
  sm_max_trigger_ms :: int
  sm_max_lag :: int
  sm_latest_lag :: int

definition source_lag :: "int option \<Rightarrow> int" where
  "source_lag raw = (case raw of None \<Rightarrow> 0 | Some n \<Rightarrow> max 0 n)"

definition add_progress :: "query_progress \<Rightarrow> stream_metrics \<Rightarrow> stream_metrics" where
  "add_progress p m =
     (let m' = m\<lparr>sm_input_rows := sm_input_rows m + qp_input_rows p,
          sm_max_trigger_ms := (case qp_trigger_ms p of None \<Rightarrow> sm_max_trigger_ms m | Some ms \<Rightarrow> max (sm_max_trigger_ms m) ms)\<rparr>
      in case qp_sources p of None \<Rightarrow> m'
         | Some sources \<Rightarrow> fold (\<lambda>src m. m\<lparr>sm_latest_lag := max (sm_latest_lag m) (source_lag src),
               sm_max_lag := max (sm_max_lag m) (source_lag src)\<rparr>) sources (m'\<lparr>sm_latest_lag := 0\<rparr>))"

definition summarize_streaming_progress :: "query_progress list \<Rightarrow> query_progress option \<Rightarrow> stream_metrics" where
  "summarize_streaming_progress recent latest =
     (let events = (if recent = [] then (case latest of None \<Rightarrow> [] | Some p \<Rightarrow> [p]) else recent)
      in (fold add_progress events \<lparr>sm_micro_batches = 0, sm_input_rows = 0, sm_max_trigger_ms = 0, sm_max_lag = 0,
            sm_latest_lag = 0\<rparr>)\<lparr>sm_micro_batches := length events\<rparr>)"

text \<open>Metric, value and threshold; ages are milliseconds here, as the code rounds seconds to three places.\<close>

type_synonym alert = "string \<times> int \<times> int"

definition emit_runtime_alerts :: "stream_metrics \<Rightarrow> stream_metrics \<Rightarrow> alert list" where
  "emit_runtime_alerts raw silver = filter (\<lambda>(name, v, threshold). v > threshold)
     [(''event_hubs_lag'', sm_latest_lag raw, 0), (''raw_micro_batch_duration_ms'', sm_max_trigger_ms raw, 120000),
      (''silver_micro_batch_duration_ms'', sm_max_trigger_ms silver, 120000)]"

definition age_ms :: "int option \<Rightarrow> int option" where
  "age_ms age = map_option (\<lambda>a. round_half_even a 1000) age"

definition emit_canary_alerts :: "cloud_cdc_report \<Rightarrow> stream_metrics \<Rightarrow> alert list" where
  "emit_canary_alerts r raw =
     (let freshness = (if sm_input_rows raw > 0 \<or> sm_latest_lag raw > 0
            then [(''raw_freshness_seconds'', age_ms (cc_raw_freshness r), 300000),
                  (''silver_freshness_seconds'', age_ms (cc_silver_freshness r), 300000),
                  (''gold_freshness_seconds'', age_ms (Some (cc_gold_freshness r)), 300000)] else []);
          checks = freshness @ [(''pending_gold_count'', Some (int (cc_pending_gold_count r)), 0),
            (''pending_gold_oldest_age_seconds'', age_ms (cc_pending_gold_oldest_age r), 60000),
            (''quarantine_count'', Some (int (cc_quarantine_count r)), 0)]
      in concat (map (\<lambda>(name, v, threshold). case v of None \<Rightarrow> []
           | Some x \<Rightarrow> if x > threshold then [(name, x, threshold)] else []) checks))"

definition run_cycle :: "stream_job \<Rightarrow> bool \<Rightarrow> stream_metrics \<Rightarrow> stream_metrics \<Rightarrow> int option \<Rightarrow> alert list io" where
  "run_cycle j canary raw silver fact_time =
     io_bind (io_lift (raise_if (st_kafka (sj_streaming j) = None) (RuntimeError ''Cloud Kafka/Event Hubs configuration is missing''))) (\<lambda>_.
     io_bind (run_raw_available_now j) (\<lambda>_.
     io_bind (run_silver_available_now j) (\<lambda>_.
     if \<not> canary then io_return (emit_runtime_alerts raw silver)
     else io_bind (io_get (validate_cloud_cdc_lakehouse (gold_store (us_gold (sj_unified j)))
         (st_bronze_table (sj_streaming j)) (sj_now j) fact_time)) (\<lambda>report.
       io_return (emit_runtime_alerts raw silver @ emit_canary_alerts report raw)))))"

text \<open>The configuration of a cloud run: the namespace is the source, all domain topics are read.\<close>

definition cdc_topic_pattern :: string where
  "cdc_topic_pattern = ''ecommerce'' @ [CHR 0x5C] @ ''.domain'' @ [CHR 0x5C] @ ''..*''"

definition event_hubs_jaas :: "string \<Rightarrow> string" where
  "event_hubs_jaas connection = ''kafkashaded.org.apache.kafka.common.security.plain.PlainLoginModule required '' @
     ''username='' @ [CHR 0x22] @ ''$ConnectionString'' @ [CHR 0x22] @ '' password='' @ [CHR 0x22] @ connection @ [CHR 0x22] @ '';''"

definition cloud_streaming :: "string \<Rightarrow> string \<Rightarrow> string \<Rightarrow> streaming_config \<Rightarrow> streaming_config res" where
  "cloud_streaming namespace storage_root connection st = (case st_kafka st of
     None \<Rightarrow> Inl (RuntimeError ''Azure streaming.kafka configuration is missing'')
   | Some k \<Rightarrow> Inr (st\<lparr>st_checkpoint_root := Some (path_join [rstrip_slash storage_root, ''_checkpoints'', ''cdc'', namespace]),
       st_kafka := Some (k\<lparr>kf_source_id := Some namespace, kf_bootstrap_servers := namespace @ ''.servicebus.windows.net:9093'',
         kf_topic_pattern := Some cdc_topic_pattern,
         kf_secret_options := [(''kafka.sasl.jaas.config'', event_hubs_jaas connection)]\<rparr>)\<rparr>))"

section \<open>The local control loop\<close>

text \<open>
  One wait of the loop: what the query and other writers do to the lake meanwhile, whether the query ended (or
  failed), and its last progress. The list ends when the query is no longer active.
\<close>

record wait =
  wt_lake :: "lake \<Rightarrow> lake"
  wt_terminated :: "bool res"
  wt_progress :: "query_progress option"

definition progress_key :: "query_progress \<Rightarrow> string \<times> int option" where
  "progress_key p = (qp_run_id p, qp_batch_id p)"

fun await_continuous_query :: "unified \<Rightarrow> wait list \<Rightarrow> (string \<times> int option) option \<Rightarrow> unit io" where
  "await_continuous_query u [] reconciled s = (Inr (), s)"
| "await_continuous_query u (w # ws) reconciled s = (let s1 = wt_lake w s in
     case wt_terminated w of Inl e \<Rightarrow> (Inl e, s1)
     | Inr terminated \<Rightarrow>
         let key = (case wt_progress w of None \<Rightarrow> reconciled | Some p \<Rightarrow> Some (progress_key p))
         in if terminated then (Inr (), s1)
            else if key \<noteq> reconciled
            then (case reconcile_pending_gold_if_ready u ''cdc-idle-reconcile'' s1 of
                (Inl e, s2) \<Rightarrow> (Inl e, s2)
              | (Inr status, s2) \<Rightarrow> await_continuous_query u ws key s2)
            else await_continuous_query u ws reconciled s1)"

definition should_log_progress :: "query_progress \<Rightarrow> bool" where
  "should_log_progress p \<longleftrightarrow> qp_input_rows p > 0 \<or> (case qp_batch_id p of None \<Rightarrow> False | Some b \<Rightarrow> b mod 10 = 0)"

text \<open>The Silver job without \<open>--available-now\<close>.\<close>

definition run_silver_continuous :: "stream_job \<Rightarrow> wait list \<Rightarrow> unit io" where
  "run_silver_continuous j ws = io_bind (start_silver_query j) (\<lambda>_. await_continuous_query (sj_unified j) ws None)"

section \<open>The cloud control loop\<close>

record tick =
  tk_lake :: "lake \<Rightarrow> lake"
  tk_raw_terminated :: "bool res"
  tk_silver_terminated :: "bool res"
  tk_progress :: "query_progress option"

fun continuous_loop :: "unified \<Rightarrow> tick list \<Rightarrow> int option \<Rightarrow> unit io" where
  "continuous_loop u [] reconciled s = (Inr (), s)"
| "continuous_loop u (t # ts) reconciled s = (let s1 = tk_lake t s in
     case tk_raw_terminated t of Inl e \<Rightarrow> (Inl e, s1)
     | Inr True \<Rightarrow> (Inr (), s1)
     | Inr False \<Rightarrow> (case tk_silver_terminated t of Inl e \<Rightarrow> (Inl e, s1)
       | Inr True \<Rightarrow> (Inr (), s1)
       | Inr False \<Rightarrow> (case tk_progress t of None \<Rightarrow> continuous_loop u ts reconciled s1
         | Some p \<Rightarrow> (case qp_batch_id p of None \<Rightarrow> continuous_loop u ts reconciled s1
           | Some b \<Rightarrow> if reconciled = Some b then continuous_loop u ts reconciled s1
               else (case reconcile_pending_gold_if_ready u (''cdc-continuous-'' @ int_text b) s1 of
                   (Inl e, s2) \<Rightarrow> (Inl e, s2)
                 | (Inr status, s2) \<Rightarrow> continuous_loop u ts (Some b) s2)))))"

definition raise_terminated_query :: "exn option \<Rightarrow> string \<Rightarrow> unit res" where
  "raise_terminated_query error label = (case error of
     Some e \<Rightarrow> Inl (RuntimeError (''Cloud CDC query failed: '' @ label))
   | None \<Rightarrow> Inl (RuntimeError (''Cloud CDC query stopped unexpectedly: '' @ label)))"

text \<open>\<open>raw_error\<close> and \<open>silver_error\<close>: the exceptions of the two queries once the loop is left.\<close>

definition run_continuous :: "stream_job \<Rightarrow> tick list \<Rightarrow> exn option \<Rightarrow> exn option \<Rightarrow> unit io" where
  "run_continuous j ticks raw_error silver_error =
     io_bind (start_raw_query j) (\<lambda>_.
     io_bind (start_silver_query j) (\<lambda>_.
     io_bind (continuous_loop (sj_unified j) ticks None) (\<lambda>_.
     io_bind (io_lift (raise_terminated_query raw_error ''raw_bronze'')) (\<lambda>_.
     io_lift (raise_terminated_query silver_error ''unified_silver_gold'')))))"

section \<open>What the control loops do not do\<close>

lemma run_gold_locked_status:
  assumes "run_gold_locked u batch_id raise_q rebuild_q s = (Inr status, s')"
  shows "status = ''published'' \<or> status = ''quality_skipped''"
  using assms by (auto simp: run_gold_locked_def split: prod.splits sum.splits exn.splits if_splits)

lemma deferred_unchanged:
  assumes "reconcile_pending_gold_if_ready u batch_id s = (Inr ''deferred_source_incomplete'', s')"
  shows "s' = s"
proof -
  have gate: "snd ((if b then source_fact_ready_for_gold u ids else io_return True) s) = s" for b ids
    by (auto simp: source_fact_ready_for_gold_def io_bind_def io_get_def split: sum.split prod.split)
  have published: "status \<noteq> ''deferred_source_incomplete''" if "run_gold_locked u batch_id False False s = (Inr status, s1)" for status s1
    using run_gold_locked_status [OF that] by auto
  show ?thesis
  proof (cases "pending_scope_of u s")
    case (Inr scope)
    show ?thesis
    proof (cases scope)
      case (Some p)
      obtain g where g: "(if ps_requires_fact_readiness p then source_fact_ready_for_gold u (ps_affected_order_ids p) else io_return True) s = (g, s)"
        using gate [of "ps_requires_fact_readiness p" "ps_affected_order_ids p"] by (metis prod.collapse)
      show ?thesis
        using assms published unfolding reconcile_pending_gold_if_ready_def
        by (simp add: io_bind_def io_get_def Inr Some g split: sum.splits prod.splits if_splits)
    qed (use assms Inr in \<open>simp add: reconcile_pending_gold_if_ready_def io_bind_def io_get_def\<close>)
  qed (use assms in \<open>simp add: reconcile_pending_gold_if_ready_def io_bind_def io_get_def\<close>)
qed

text \<open>A wait that shows nothing new: the query runs, and its progress is the one seen last.\<close>

definition idle_wait :: "string \<times> int option \<Rightarrow> wait \<Rightarrow> bool" where
  "idle_wait key w \<longleftrightarrow> wt_terminated w = Inr False \<and>
     (case wt_progress w of None \<Rightarrow> True | Some p \<Rightarrow> progress_key p = key)"

lemma idle_waits:
  "list_all (idle_wait key) ws \<Longrightarrow>
    await_continuous_query u (ws @ later) (Some key) s = await_continuous_query u later (Some key) (fold wt_lake ws s)"
  by (induction ws arbitrary: s) (auto simp: idle_wait_def Let_def split: option.splits)

text \<open>
  C27. A deferred request is not retried while the stream is idle. When the control loop deferred the pending scope
  because its orders were incomplete, it does not look at the queue again until the progress of the query
  names another batch: through any number of waits, whatever other writers do to Silver meanwhile, the lake
  changes by their writes only.
\<close>

theorem deferred_scope_waits_for_next_batch:
  assumes "wt_terminated w = Inr False" and "wt_progress w = Some p"
    and "fst (reconcile_pending_gold_if_ready u ''cdc-idle-reconcile'' (wt_lake w s)) = Inr ''deferred_source_incomplete''"
    and "list_all (idle_wait (progress_key p)) ws"
  shows "await_continuous_query u (w # ws @ later) None s =
    await_continuous_query u later (Some (progress_key p)) (fold wt_lake (w # ws) s)"
proof -
  have "reconcile_pending_gold_if_ready u ''cdc-idle-reconcile'' (wt_lake w s) = (Inr ''deferred_source_incomplete'', wt_lake w s)"
    using assms(3) deferred_unchanged by (cases "reconcile_pending_gold_if_ready u ''cdc-idle-reconcile'' (wt_lake w s)") fastforce
  then show ?thesis using assms(1,2) by (simp add: Let_def idle_waits [OF assms(4)])
qed

definition demo_waiting_queue :: delta_table where
  "demo_waiting_queue = demo_queue_table\<lparr>dt_commits :=
     map (\<lambda>c. c\<lparr>cm_rows := [queue_row ''r1'' 1 True (''all-orders'', Null)]\<rparr>) (dt_commits demo_queue_table)\<rparr>"

definition demo_source_rows :: "row list \<Rightarrow> delta_table" where
  "demo_source_rows rows = \<lparr>dt_commits = [\<lparr>cm_cols = [''order_id'', ''_is_deleted''], cm_rows = rows, cm_changes = [],
     cm_metadata = None\<rparr>], dt_props = [], dt_txns = []\<rparr>"

text \<open>A pending request for all orders; one order has no items yet.\<close>

definition demo_incomplete_lake :: lake where
  "demo_incomplete_lake = empty_lake\<lparr>lk_tables := map_of [(''lake/silver/gold_reconcile_queue'', demo_waiting_queue),
     (''lake/silver/orders'', demo_source_rows [row_of [(''order_id'', IntV 5), (''_is_deleted'', BoolV False)]]),
     (''lake/silver/order_items'', demo_source_rows [])]\<rparr>"

definition demo_progress :: query_progress where
  "demo_progress = \<lparr>qp_run_id = ''run'', qp_batch_id = Some 3, qp_input_rows = 0, qp_trigger_ms = None, qp_sources = None\<rparr>"

definition demo_wait :: "(lake \<Rightarrow> lake) \<Rightarrow> wait" where
  "demo_wait f = \<lparr>wt_lake = f, wt_terminated = Inr False, wt_progress = Some demo_progress\<rparr>"

text \<open>The order is deleted while the stream is idle, which makes the scope ready.\<close>

definition demo_completed :: "lake \<Rightarrow> lake" where
  "demo_completed s = s\<lparr>lk_tables := (lk_tables s)(''lake/silver/orders'' \<mapsto>
     demo_source_rows [row_of [(''order_id'', IntV 5), (''_is_deleted'', BoolV True)]])\<rparr>"

lemma demo_deferred:
  "fst (reconcile_pending_gold_if_ready demo_unified ''cdc-idle-reconcile'' demo_incomplete_lake) = Inr ''deferred_source_incomplete''"
  "fst (source_fact_ready_for_gold demo_unified None (demo_completed demo_incomplete_lake)) = Inr True"
  by code_simp+

theorem deferred_scope_waits_for_next_batch_witness:
  "await_continuous_query demo_unified (demo_wait id # replicate 4 (demo_wait demo_completed)) None demo_incomplete_lake =
     (Inr (), fold wt_lake (replicate 4 (demo_wait demo_completed)) demo_incomplete_lake) \<and>
   fst (source_fact_ready_for_gold demo_unified None (demo_completed demo_incomplete_lake)) = Inr True"
proof -
  have fields: "wt_lake (demo_wait f) = f" "wt_terminated (demo_wait f) = Inr False" "wt_progress (demo_wait f) = Some demo_progress" for f
    by (simp_all add: demo_wait_def)
  have idle: "list_all (idle_wait (progress_key demo_progress)) (replicate 4 (demo_wait demo_completed))"
    by (simp add: list_all_iff idle_wait_def fields)
  have deferred: "fst (reconcile_pending_gold_if_ready demo_unified ''cdc-idle-reconcile'' (wt_lake (demo_wait id) demo_incomplete_lake)) =
      Inr ''deferred_source_incomplete''"
    using demo_deferred(1) by (simp add: fields)
  show ?thesis
    using deferred_scope_waits_for_next_batch [OF fields(2,3) deferred idle, of "[]"] demo_deferred(2) by (simp add: fields)
qed

text \<open>
  C23. The continuous cloud job never reports the failure of its Silver query. It ends with an exception in every
  case, and when the loop is left because a query is no longer active, the exception is about the raw
  query, whether that one failed or not; what the Silver query raised makes no difference.
\<close>

theorem silver_failure_not_reported:
  "run_continuous j ticks raw_error silver_error = run_continuous j ticks raw_error None \<and>
   (\<exists>e s'. run_continuous j ticks raw_error silver_error s = (Inl e, s'))"
proof
  have raw: "\<exists>e. raise_terminated_query raw_error ''raw_bronze'' = Inl e"
    by (simp add: raise_terminated_query_def split: option.split)
  then show "run_continuous j ticks raw_error silver_error = run_continuous j ticks raw_error None"
    by (auto simp: run_continuous_def)
  show "\<exists>e s'. run_continuous j ticks raw_error silver_error s = (Inl e, s')"
    using raw by (auto simp: run_continuous_def io_bind_def io_lift_def split: prod.split sum.split)
qed

end
