(* ===== verification/Spec2Isabelle.thy ===== *)
theory Spec2Isabelle
  imports Prelude Sql Json Config Dimensions Scd2 Scd2_AsOf Scd2History FactSales Contracts Quality QualityScd2 Delta Merge MergeSpec SilverTransform Manifests BuildSilver GoldRelease UpsertSpec ReconcileQueue BuildGold GoldScope GoldRun Transactions CdcDecode TypedBronze UnifiedSilver StreamRedelivery OrderScope Locks Validation BronzeIngest BronzeProgress BronzeCatchUp BatchRun BatchSkip ReleaseCheck StreamJobs
begin

text \<open>
  A verification development for the e-commerce lakehouse pipeline under \<open>src/src/ecommerce_pipeline\<close>: a PySpark
  program that moves the changes of a PostgreSQL shop into Delta Lake tables in three layers (Bronze, Silver, Gold), in
  batches and as a CDC stream. Paths below are relative to that directory.

  \<^bold>\<open>The program.\<close> The batch job (\<open>jobs/run_batch.py\<close>) reads the outbox of PostgreSQL from the cursor of each table into
  append-only Bronze tables (\<open>ingestion/batch\<close>), builds Silver from the new Bronze versions (\<open>pipelines/build_silver.py\<close>,
  \<open>transformations/silver\<close>), builds Gold from the change feeds of Silver (\<open>pipelines/build_gold.py\<close>,
  \<open>transformations/gold\<close>), checks the candidate (\<open>pipelines/quality.py\<close>) and publishes it as a set of pinned versions
  (\<open>control/gold_releases.py\<close>). The stream (\<open>ingestion/streaming\<close>) decodes Debezium messages into typed Bronze tables, merges them
  into the same Silver tables, and hands the affected orders to Gold through a durable queue
  (\<open>control/gold_reconcile_queue.py\<close>). The two paths meet in the Delta tables only: through the MERGE of the adapter
  (\<open>adapters/lakehouse.py\<close>), the progress metadata of the commits, and the locks (\<open>control/cloud_lock.py\<close>,
  \<open>control/batch_runs.py\<close>). Contracts (\<open>contracts/\<close>) name the tables, configuration (\<open>config/\<close>) their places.

  \<^bold>\<open>The model.\<close> A cell is a \<open>val\<close> (\<open>Prelude\<close>), a row a function from column names to cells, a DataFrame a list of rows
  with its columns; conditions are three-valued (\<open>Sql\<close>). A lake (\<open>Delta\<close>) maps references to Delta tables, and a Delta table is
  the list of its commits with their rows, change feed and metadata, its properties and the recorded application
  transactions. A MERGE commits when it inserts a row or rewrites the file of one, which delta-spark 3.2.0 does for every matched
  row once a statement has an insert clause beside its update and delete clauses (\<open>merge_rewrites\<close>), or when it carries a
  transaction identifier; only rows that a clause changes enter the change feed. An operation is a function \<open>lake \<Rightarrow> 'a res \<times> lake\<close> (\<open>'a io\<close>): it returns a value or an exception, and the lake it
  leaves. Exceptions carry their Python class and the constant head of the message. Decimals are integers of cents with the
  precision and rounding of the code written out, timestamps microseconds. What Spark computes inside a cell (hashes, casts,
  JSON and text functions) is a field of a record \<open>sparkfn\<close> or \<open>cdc_fn\<close> that every definition takes, so that theorems hold
  for all such functions, or name the law they need (an injective hash, a JSON codec that reads back what it wrote).

  \<^bold>\<open>Theories, in the order of the data.\<close>
    \<^item> \<open>Prelude\<close>, \<open>Sql\<close>, \<open>Json\<close>: values, results, query operators, JSON values; the collections \<open>res_simps\<close> and \<open>io_simps\<close>.
    \<^item> \<open>Config\<close>: \<open>config/models.py\<close> and \<open>config/loader.py\<close>; the references of all tables do not collide under path storage.
      \<open>Contracts\<close>: \<open>contracts/\<close>, with the checks the modules run on import.
    \<^item> \<open>Delta\<close>: reads, history, states and commit metadata of \<open>adapters/lakehouse.py\<close>; \<open>Merge\<close>: its keyed writes as MERGE
      statements. \<open>MergeSpec\<close>: the sequenced upsert refines a store that keeps the newest row of a key (locale \<open>sequenced_store\<close>),
      changes no row when repeated, and commutes. \<open>UpsertSpec\<close>: the upsert of Gold. \<open>Transactions\<close>: idempotent appends (locale \<open>redelivered\<close>).
    \<^item> \<open>BronzeIngest\<close>: \<open>adapters/postgres.py\<close>, \<open>ingestion/batch/bronze_operations.py\<close>, \<open>ingestion/batch/extract_to_bronze.py\<close>.
      \<open>BronzeProgress\<close>: one run appends the next events once, with the cursor in the same commit. \<open>BronzeCatchUp\<close>: runs
      drain the outbox, and three ways in which events are lost, blocked or doubled.
    \<^item> \<open>SilverTransform\<close>: \<open>transformations/silver\<close>; increments equal rebuilds. \<open>Manifests\<close>: \<open>control/manifests.py\<close>.
      \<open>BuildSilver\<close>: \<open>pipelines/build_silver.py\<close>.
    \<^item> \<open>Dimensions\<close>, \<open>Scd2\<close>, \<open>Scd2History\<close>, \<open>FactSales\<close>: \<open>transformations/gold\<close>. \<open>Scd2_AsOf\<close>: the replayed versions are a chain
      that answers every point in time. \<open>Quality\<close>: \<open>pipelines/quality.py\<close>; \<open>QualityScd2\<close>: which histories pass it.
    \<^item> \<open>GoldRelease\<close>: \<open>control/gold_releases.py\<close>; \<open>BuildGold\<close>: \<open>pipelines/build_gold.py\<close>. \<open>GoldScope\<close>: the scoped replay equals a
      rebuild; \<open>GoldRun\<close>: what a run writes, and that a second run changes nothing.
    \<^item> \<open>ReconcileQueue\<close>: the durable queue, an instance of the locale \<open>work_queue\<close>. \<open>Locks\<close>: both writer locks, instances of the
      locale \<open>advisory_lock\<close>, with their polling loops and, for the cloud lock, two writers as a step relation over time.
    \<^item> \<open>CdcDecode\<close>, \<open>TypedBronze\<close>, \<open>UnifiedSilver\<close>: \<open>ingestion/streaming\<close>. \<open>StreamRedelivery\<close>: a redelivered micro-batch;
      \<open>OrderScope\<close>: the orders a batch affects and their readiness. \<open>StreamJobs\<close>: the jobs around the stream
      (\<open>jobs/run_streaming.py\<close>, \<open>jobs/run_silver_streaming.py\<close>, \<open>jobs/run_cloud_cdc.py\<close>, \<open>jobs/reconcile_gold.py\<close>): the raw
      table, one cycle over the available input with its alerts, and the control loops next to running queries.
    \<^item> \<open>Validation\<close>: \<open>validation/\<close>. \<open>BatchRun\<close>, \<open>BatchSkip\<close>: \<open>jobs/run_batch.py\<close> with \<open>control/batch_flow.py\<close>;
      \<open>ReleaseCheck\<close>: the Gold build and the release validation together.

  A locale states the contract between a client and the operations it uses, is proved about once, and is
  interpreted on the model's own definitions in the theory that provides them. The theorems marked with a
  claim number are the properties; the sections around them hold the lemmas they rest on. Where the code falls
  short of what it means to do, the property says so (for instance \<open>late_event_is_lost\<close>,
  \<open>empty_table_blocks_next_batch\<close>, \<open>no_change_batch_skips_lagging_silver\<close>, \<open>expired_lease_admits_second_writer\<close>,
  \<open>deferred_scope_waits_for_next_batch\<close>, \<open>batch_scope_can_miss_orders\<close>, \<open>small_discount_rejected\<close>, \<open>equal_event_times_fail_gate\<close>).

  \<^bold>\<open>Loops and bounds.\<close> Recursion is structural or has a measure. The retries of the JDBC reader run down the number of
  attempts; the lock polls take the attempts as fuel and are proved to end within a bound computed from the configured wait,
  for whatever other writers do; a control loop runs down the list of its waits, what other writers do in each being arbitrary; the history a table state is read from is the bounded one of the code
  (100 commits, then the whole). Micro-batches and contenders are arbitrary functions, so that theorems quantify over
  deliveries, interleavings and failures.

  \<^bold>\<open>Not modelled.\<close> The Spark and Delta engines beyond the documented effect of each call; worker threads, which run in
  table order here (they write disjoint tables); caching and checkpoints of DataFrames; wall-clock columns that no logic
  reads; timings and printed status lines; YAML and dotenv parsing and pydantic's coercions; SQL texts, which are
  modelled by what they select; Spark sessions, command-line parsing, secrets and shutdown (\<open>runtime/spark.py\<close>,
  \<open>runtime/shutdown.py\<close>); the Kafka source and the scheduling of micro-batches, which the control loops get as arguments; the
  DDL that prepares PostgreSQL for CDC (\<open>jobs/bootstrap_cloud_cdc.py\<close>), the jobs that only call a validation, and the random
  test data of \<open>generator/\<close>.
\<close>

end
